(* ===== verification/ShellLexer.thy ===== *)
theory ShellLexer
  imports Prelude
begin

text \<open>
  The shell lexer is the crate \<open>shlex\<close>, which is not part of the repository: a parameter of
  the model. \<open>sh_split\<close> is \<open>shlex::split\<close> and \<open>sh_quote\<close> is \<open>shlex::try_quote\<close>
  (\<open>None\<close> is the error). What the crate documents is \<open>shlex_lossless\<close>: splitting a
  space-joined list of quoted words gives the words back, and a word of safe characters is
  its own quotation. \<open>demo_shlex\<close> is a small lexer with single quotes that has this
  property; it only serves to instantiate the parameter at concrete inputs.
\<close>

section \<open>The shell lexer\<close>

record shlex =
  sh_split :: "string \<Rightarrow> string list option"
  sh_quote :: "string \<Rightarrow> string option"

definition plain_char :: "char \<Rightarrow> bool" where
  "plain_char c = (let n = (of_char c :: nat) in
     (48 \<le> n \<and> n \<le> 57) \<or> (65 \<le> n \<and> n \<le> 90) \<or> (97 \<le> n \<and> n \<le> 122) \<or>
     c \<in> set ''+-./:=@_'')"

definition plain_word :: "string \<Rightarrow> bool" where
  "plain_word w = (w \<noteq> [] \<and> list_all plain_char w)"

definition shlex_lossless :: "shlex \<Rightarrow> bool" where
  "shlex_lossless sh \<longleftrightarrow>
     (\<forall>ws qs. map (sh_quote sh) ws = map Some qs \<longrightarrow> sh_split sh (join_with '' '' qs) = Some ws) \<and>
     (\<forall>w. plain_word w \<longrightarrow> sh_quote sh w = Some w)"

lemma plain_word_no_ws: "plain_word w \<Longrightarrow> \<not> has_ws w"
  by (auto simp: plain_word_def has_ws_def list_ex_iff list_all_iff plain_char_def is_ws_def Let_def)

lemma split_plain: "shlex_lossless sh \<Longrightarrow> plain_word w \<Longrightarrow> sh_split sh w = Some [w]"
proof -
  assume sh: "shlex_lossless sh" and w: "plain_word w"
  then have "map (sh_quote sh) [w] = map Some [w]" by (simp add: shlex_lossless_def)
  with sh have "sh_split sh (join_with '' '' [w]) = Some [w]"
    unfolding shlex_lossless_def by blast
  then show ?thesis by (simp add: join_with_def)
qed

lemma split_pair:
  assumes "shlex_lossless sh" "plain_word f" "sh_quote sh v = Some q"
  shows "sh_split sh (f @ '' '' @ q) = Some [f, v]"
proof -
  have "map (sh_quote sh) [f, v] = map Some [f, q]"
    using assms by (simp add: shlex_lossless_def)
  with assms(1) have "sh_split sh (join_with '' '' [f, q]) = Some [f, v]"
    unfolding shlex_lossless_def by blast
  then show ?thesis by (simp add: join_with_def)
qed

section \<open>A lexer with single quotes\<close>

fun lex_out :: "string option \<Rightarrow> string \<Rightarrow> string list option"
  and lex_quoted :: "string \<Rightarrow> string \<Rightarrow> string list option" where
  "lex_out cur [] = Some (case cur of None \<Rightarrow> [] | Some w \<Rightarrow> [w])"
| "lex_out cur (c # cs) =
     (if c = CHR '' '' then (case cur of None \<Rightarrow> lex_out None cs
                            | Some w \<Rightarrow> map_option (Cons w) (lex_out None cs))
      else if c = CHR 0x27 then lex_quoted (case cur of None \<Rightarrow> [] | Some w \<Rightarrow> w) cs
      else lex_out (Some ((case cur of None \<Rightarrow> [] | Some w \<Rightarrow> w) @ [c])) cs)"
| "lex_quoted w [] = None"
| "lex_quoted w (c # cs) = (if c = CHR 0x27 then lex_out (Some w) cs else lex_quoted (w @ [c]) cs)"

definition demo_quote :: "string \<Rightarrow> string option" where
  "demo_quote w = (if plain_word w then Some w
     else if CHR 0x27 \<in> set w then None else Some (CHR 0x27 # w @ [CHR 0x27]))"

definition demo_shlex :: shlex where
  "demo_shlex = \<lparr>sh_split = lex_out None, sh_quote = demo_quote\<rparr>"

lemma plain_char_not_special: "plain_char c \<Longrightarrow> c \<noteq> CHR '' '' \<and> c \<noteq> CHR 0x27"
  by (auto simp: plain_char_def Let_def)

lemma lex_out_plain:
  "list_all plain_char w \<Longrightarrow> lex_out (Some v) (w @ rest) = lex_out (Some (v @ w)) rest"
  by (induction w arbitrary: v) (auto dest: plain_char_not_special)

lemma lex_quoted_run:
  "CHR 0x27 \<notin> set w \<Longrightarrow> lex_quoted v (w @ CHR 0x27 # rest) = lex_out (Some (v @ w)) rest"
  by (induction w arbitrary: v) auto

lemma lex_out_quote:
  assumes "demo_quote w = Some q"
  shows "lex_out None (q @ rest) = lex_out (Some w) rest"
proof (cases "plain_word w")
  case True
  then obtain c cs where w: "w = c # cs" "plain_char c" "list_all plain_char cs"
    by (cases w) (auto simp: plain_word_def)
  from True assms have "q = c # cs" by (simp add: demo_quote_def w(1))
  then show ?thesis
    using lex_out_plain [of cs "[c]" rest] plain_char_not_special [of c] w by simp
next
  case False
  with assms show ?thesis
    using lex_quoted_run [of w "[]" rest] by (auto simp: demo_quote_def split: if_splits)
qed

lemma lex_out_rest:
  "map demo_quote ws = map Some qs \<Longrightarrow>
   lex_out (Some w) (concat (map (\<lambda>x. '' '' @ x) qs)) = Some (w # ws)"
proof (induction ws arbitrary: w qs)
  case Nil
  then show ?case by simp
next
  case (Cons v ws)
  then obtain q qs' where "qs = q # qs'" "demo_quote v = Some q" "map demo_quote ws = map Some qs'"
    by (cases qs) auto
  with Cons.IH [of qs' v] show ?case by (simp add: lex_out_quote)
qed

lemma demo_shlex_lossless: "shlex_lossless demo_shlex"
proof -
  have "lex_out None (join_with '' '' qs) = Some ws" if "map demo_quote ws = map Some qs" for ws qs
  proof (cases ws)
    case Nil
    with that show ?thesis by (simp add: join_with_def)
  next
    case (Cons w ws')
    with that obtain q qs' where "qs = q # qs'" "demo_quote w = Some q"
      "map demo_quote ws' = map Some qs'"
      by (cases qs) auto
    with Cons show ?thesis by (simp add: join_with_def lex_out_quote lex_out_rest)
  qed
  then show ?thesis by (simp add: shlex_lossless_def demo_shlex_def demo_quote_def)
qed

end
