(* ===== verification/ArgsHelpers.thy ===== *)
theory ArgsHelpers
  imports ShellLexer
begin

text \<open>
  Grouped launch arguments: \<open>tama-core/src/config/args_helpers.rs\<close> and
  \<open>llama_cpp_args.rs\<close>. A grouped entry is one logical flag in shell form. The shell lexer
  is a parameter (\<open>ShellLexer\<close>).
\<close>

section \<open>Splitting and quoting\<close>

definition split_arg_entry :: "shlex \<Rightarrow> string \<Rightarrow> string list" where
  "split_arg_entry sh entry =
     (case sh_split sh entry of Some tokens \<Rightarrow> tokens | None \<Rightarrow> split_ws entry)"

definition starts_numeric :: "char \<Rightarrow> bool" where
  "starts_numeric c = (is_digit c \<or> c = CHR ''.'')"

definition flag_name :: "string \<Rightarrow> string option" where
  "flag_name entry = (case split_ws entry of
       [] \<Rightarrow> None
     | first # _ \<Rightarrow>
         if \<not> starts_with first ''-'' then None
         else if first = ''-'' \<or> first = ''--'' then None
         else (case dropWhile (\<lambda>c. c = CHR ''-'') first of
                 [] \<Rightarrow> None
               | c # _ \<Rightarrow> if starts_numeric c then None
                          else Some (takeWhile (\<lambda>c. c \<noteq> CHR ''='') first)))"

definition flatten_args :: "shlex \<Rightarrow> string list \<Rightarrow> string list" where
  "flatten_args sh grouped = concat (map (split_arg_entry sh) grouped)"

fun escape_dquotes :: "string \<Rightarrow> string" where
  "escape_dquotes [] = []"
| "escape_dquotes (c # cs) =
     (if c = CHR 0x22 then CHR 0x5C # CHR 0x22 # escape_dquotes cs else c # escape_dquotes cs)"

definition quote_value :: "shlex \<Rightarrow> string \<Rightarrow> string" where
  "quote_value sh value =
     (case sh_quote sh value of
        Some q \<Rightarrow> q
      | None \<Rightarrow> CHR 0x22 # escape_dquotes (filter (\<lambda>c. c \<noteq> CHR 0x00) value) @ [CHR 0x22])"

section \<open>Merging layers\<close>

definition override_flags :: "string list \<Rightarrow> string set" where
  "override_flags overrides = set (List.map_filter flag_name overrides)"

definition merge_args :: "string list \<Rightarrow> string list \<Rightarrow> string list" where
  "merge_args base overrides =
     filter (\<lambda>e. case flag_name e of None \<Rightarrow> True | Some f \<Rightarrow> f \<notin> override_flags overrides) base
     @ overrides"

section \<open>Migration of flat lists\<close>

definition is_flag_token :: "string \<Rightarrow> bool" where
  "is_flag_token tok =
     (if \<not> starts_with tok ''-'' \<or> tok = ''-'' \<or> tok = ''--'' then False
      else (case dropWhile (\<lambda>c. c = CHR ''-'') tok of
              c # _ \<Rightarrow> \<not> is_digit c \<and> c \<noteq> CHR ''.''
            | [] \<Rightarrow> False))"

definition join_flag_value :: "shlex \<Rightarrow> string \<Rightarrow> string \<Rightarrow> string" where
  "join_flag_value sh cur n =
     (if has_ws n then cur @ '' '' @ quote_value sh n else cur @ '' '' @ n)"

fun group_flat :: "shlex \<Rightarrow> string list \<Rightarrow> string list" where
  "group_flat sh [] = []"
| "group_flat sh [cur] = [cur]"
| "group_flat sh (cur # n # rest) =
     (if has_ws cur then cur # group_flat sh (n # rest)
      else if \<not> is_flag_token cur then cur # group_flat sh (n # rest)
      else if CHR ''='' \<notin> set cur \<and> \<not> is_flag_token n
        then join_flag_value sh cur n # group_flat sh rest
      else cur # group_flat sh (n # rest))"

definition group_legacy_flat_args :: "shlex \<Rightarrow> string list \<Rightarrow> string list \<times> bool" where
  "group_legacy_flat_args sh flat = (let out = group_flat sh flat in (out, out \<noteq> flat))"

section \<open>Managed llama.cpp flags\<close>

definition ensure_metrics :: "string list \<Rightarrow> string list \<times> bool" where
  "ensure_metrics grouped =
     (if list_ex (\<lambda>e. flag_name e = Some ''--metrics'') grouped then (grouped, False)
      else (grouped @ [''--metrics''], True))"

section \<open>The interface of layered arguments\<close>

text \<open>
  A merge that lets every later layer replace the keys it mentions. What a client may use:
  entries of an overridden key come from the later layer only, the others are untouched,
  and layers compose associatively, so the order in which a chain is folded is irrelevant.
\<close>

locale layered_args =
  fixes key :: "'e \<Rightarrow> 'k option"
    and merge :: "'e list \<Rightarrow> 'e list \<Rightarrow> 'e list"
  assumes merge_layers:
    "merge b ov = filter (\<lambda>e. key e = None \<or> key e \<notin> key ` set ov) b @ ov"
begin

lemma merge_unit [simp]: "merge b [] = b" "merge [] ov = ov"
  by (simp_all add: merge_layers)

lemma set_merge: "set (merge b ov) = {e \<in> set b. key e = None \<or> key e \<notin> key ` set ov} \<union> set ov"
  by (simp add: merge_layers)

lemma merge_key_entries:
  "filter (\<lambda>e. key e = Some k) (merge b ov) =
     (if Some k \<in> key ` set ov then filter (\<lambda>e. key e = Some k) ov
      else filter (\<lambda>e. key e = Some k) b)"
proof (cases "Some k \<in> key ` set ov")
  case True
  then have "filter (\<lambda>e. key e = Some k) (filter (\<lambda>e. key e = None \<or> key e \<notin> key ` set ov) b) = []"
    by (auto simp: filter_empty_conv)
  with True show ?thesis by (simp add: merge_layers)
next
  case False
  then have "filter (\<lambda>e. key e = Some k) ov = []"
    unfolding filter_empty_conv by (metis image_eqI)
  moreover from False have
    "filter (\<lambda>e. key e = Some k) (filter (\<lambda>e. key e = None \<or> key e \<notin> key ` set ov) b)
     = filter (\<lambda>e. key e = Some k) b"
    unfolding filter_filter by (intro filter_cong refl) (use False in metis)
  ultimately show ?thesis using False by (simp add: merge_layers)
qed

lemma merge_keyless: "filter (\<lambda>e. key e = None) (merge b ov) =
    filter (\<lambda>e. key e = None) b @ filter (\<lambda>e. key e = None) ov"
  by (simp add: merge_layers) (intro filter_cong refl, auto)

lemma merge_key_iff: "Some k \<in> key ` set (merge b ov) \<longleftrightarrow> Some k \<in> key ` set b \<or> Some k \<in> key ` set ov"
proof (cases "Some k \<in> key ` set ov")
  case False
  then show ?thesis by (auto simp: set_merge)
qed (auto simp: set_merge)

lemma merge_assoc: "merge (merge a b) c = merge a (merge b c)"
proof -
  have "filter (\<lambda>e. key e = None \<or> key e \<notin> key ` set c)
          (filter (\<lambda>e. key e = None \<or> key e \<notin> key ` set b) a)
      = filter (\<lambda>e. key e = None \<or> key e \<notin> key ` set (merge b c)) a"
    unfolding filter_filter
  proof (intro filter_cong refl)
    fix e
    show "((key e = None \<or> key e \<notin> key ` set b) \<and> (key e = None \<or> key e \<notin> key ` set c))
        \<longleftrightarrow> (key e = None \<or> key e \<notin> key ` set (merge b c))"
      by (cases "key e") (simp_all add: merge_key_iff)
  qed
  then show ?thesis by (simp add: merge_layers)
qed

lemma merge_absorb:
  assumes "\<forall>e \<in> set ov. key e \<noteq> None"
  shows "merge (merge b ov) ov = merge b ov"
proof -
  have "filter (\<lambda>e. key e = None \<or> key e \<notin> key ` set ov) ov = []"
    using assms by (auto simp: filter_empty_conv)
  then show ?thesis by (simp add: merge_layers)
qed

end

lemma override_flags_iff: "f \<in> override_flags ov \<longleftrightarrow> Some f \<in> flag_name ` set ov"
  by (induction ov) (auto simp: override_flags_def split: option.splits)

interpretation args: layered_args flag_name merge_args
proof unfold_locales
  fix b ov
  show "merge_args b ov = filter (\<lambda>e. flag_name e = None \<or> flag_name e \<notin> flag_name ` set ov) b @ ov"
    unfolding merge_args_def
    by (intro arg_cong2 [where f = append] filter_cong refl)
       (auto simp: override_flags_iff split: option.splits)
qed

section \<open>Flag names of concrete entries\<close>

text \<open>
  The names the argument builder injects are flag words: a dash, no whitespace, no
  \<open>=\<close>, and a letter after the dashes. The flag of such a word, alone or followed by a
  value, is the word itself.
\<close>

definition flag_word :: "string \<Rightarrow> bool" where
  "flag_word w = (starts_with w ''-'' \<and> \<not> has_ws w \<and> CHR ''='' \<notin> set w \<and>
     (case dropWhile (\<lambda>c. c = CHR ''-'') w of [] \<Rightarrow> False | c # _ \<Rightarrow> \<not> starts_numeric c))"

lemma flag_word_nonempty: "flag_word w \<Longrightarrow> w \<noteq> []"
  by (auto simp: flag_word_def)

lemma takeWhile_no_eq: "CHR ''='' \<notin> set w \<Longrightarrow> takeWhile (\<lambda>c. c \<noteq> CHR ''='') w = w"
  by (auto simp: takeWhile_eq_all_conv)

lemma flag_word_name_of_token:
  assumes "flag_word w" "split_ws e = w # rest"
  shows "flag_name e = Some w"
proof -
  have "w \<noteq> ''-''" "w \<noteq> ''--''"
    using assms(1) by (auto simp: flag_word_def)
  moreover obtain c cs where "dropWhile (\<lambda>c. c = CHR ''-'') w = c # cs" "\<not> starts_numeric c"
    using assms(1) unfolding flag_word_def by (cases "dropWhile (\<lambda>c. c = CHR ''-'') w") simp_all
  moreover have "starts_with w ''-''" "CHR ''='' \<notin> set w"
    using assms(1) by (simp_all add: flag_word_def)
  ultimately show ?thesis
    using assms(2) by (simp add: flag_name_def takeWhile_no_eq)
qed

lemma flag_name_word [simp]: "flag_word w \<Longrightarrow> flag_name w = Some w"
  by (rule flag_word_name_of_token [where rest = "[]"])
     (auto simp: flag_word_nonempty flag_word_def split_ws_word)

lemma flag_name_word_value [simp]: "flag_word w \<Longrightarrow> flag_name (w @ CHR '' '' # v) = Some w"
  by (rule flag_word_name_of_token [where rest = "split_ws v"])
     (auto simp: flag_word_nonempty flag_word_def split_ws_word_space)

section \<open>Properties\<close>

text \<open>
  C14. Merging two layers of grouped arguments: for every flag the merged list holds exactly
  the later layer's entries of that flag if it mentions the flag, and the earlier layer's
  otherwise, in order; positional entries of both survive; and merging is associative, so a
  chain of layers means the same however it is folded.
\<close>

theorem merge_args_layers:
  "filter (\<lambda>e. flag_name e = Some f) (merge_args base ov) =
     (if f \<in> override_flags ov then filter (\<lambda>e. flag_name e = Some f) ov
      else filter (\<lambda>e. flag_name e = Some f) base)
   \<and> filter (\<lambda>e. flag_name e = None) (merge_args base ov) =
       filter (\<lambda>e. flag_name e = None) base @ filter (\<lambda>e. flag_name e = None) ov
   \<and> merge_args (merge_args base ov) later = merge_args base (merge_args ov later)"
  by (simp add: args.merge_key_entries args.merge_keyless args.merge_assoc override_flags_iff)

subsection \<open>The migration is idempotent\<close>

fun grouped_stable :: "string list \<Rightarrow> bool" where
  "grouped_stable (cur # n # rest) =
     ((has_ws cur \<or> \<not> is_flag_token cur \<or> CHR ''='' \<in> set cur \<or> is_flag_token n)
      \<and> grouped_stable (n # rest))"
| "grouped_stable _ = True"

lemma group_flat_stable: "grouped_stable xs \<Longrightarrow> group_flat sh xs = xs"
  by (induction sh xs rule: group_flat.induct) auto

lemma is_flag_token_append: "is_flag_token n \<Longrightarrow> is_flag_token (n @ v)"
proof -
  assume n: "is_flag_token n"
  obtain c cs where c: "dropWhile (\<lambda>c. c = CHR ''-'') n = c # cs" "\<not> is_digit c" "c \<noteq> CHR ''.''"
    using n by (auto simp: is_flag_token_def split: list.splits if_splits)
  then have "dropWhile (\<lambda>c. c = CHR ''-'') (n @ v) = c # cs @ v"
    by (metis append_Cons dropWhile_append dropWhile_eq_Nil_conv list.distinct(1))
  moreover have "starts_with (n @ v) ''-''"
    using n by (auto simp: is_flag_token_def starts_with_iff split: if_splits)
  moreover from calculation(1) have "n @ v \<noteq> ''-''" "n @ v \<noteq> ''--''"
    by auto
  ultimately show ?thesis using c by (simp add: is_flag_token_def)
qed

lemma group_flat_Cons_head:
  "\<exists>v rest'. group_flat sh (n # rest) = (n @ v) # rest'"
  by (cases rest) (auto simp: join_flag_value_def intro: exI [where x = "[]"])

lemma grouped_stable_Cons:
  "grouped_stable (x # xs) \<longleftrightarrow>
     (case xs of [] \<Rightarrow> True
      | n # _ \<Rightarrow> has_ws x \<or> \<not> is_flag_token x \<or> CHR ''='' \<in> set x \<or> is_flag_token n)
     \<and> grouped_stable xs"
  by (cases xs) auto

lemma grouped_stable_group_flat: "grouped_stable (group_flat sh xs)"
proof (induction sh xs rule: group_flat.induct)
  case (3 sh cur n rest)
  obtain v rest' where hd: "group_flat sh (n # rest) = (n @ v) # rest'"
    using group_flat_Cons_head by blast
  show ?case
  proof (cases "\<not> has_ws cur \<and> is_flag_token cur \<and> CHR ''='' \<notin> set cur \<and> \<not> is_flag_token n")
    case True
    then have "has_ws (join_flag_value sh cur n)" by (simp add: join_flag_value_def)
    with True 3 show ?thesis by (auto simp: grouped_stable_Cons split: list.splits)
  next
    case False
    with 3 have "grouped_stable (group_flat sh (n # rest))" by auto
    with False hd show ?thesis
      by (auto simp: grouped_stable_Cons intro: is_flag_token_append)
  qed
qed auto

text \<open>
  Migrating a flat argument list twice is migrating it once: the second run changes
  nothing and reports no change, for any shell lexer.
\<close>

theorem group_legacy_idempotent:
  "group_legacy_flat_args sh (fst (group_legacy_flat_args sh flat)) =
     (fst (group_legacy_flat_args sh flat), False)"
  by (simp add: group_legacy_flat_args_def group_flat_stable grouped_stable_group_flat Let_def)

subsection \<open>The migration keeps the command line\<close>

definition legacy_tokens :: "(string \<times> string option) list \<Rightarrow> string list" where
  "legacy_tokens fs = concat (map (\<lambda>(f, v). f # (case v of None \<Rightarrow> [] | Some x \<Rightarrow> [x])) fs)"

definition legacy_flag_ok :: "shlex \<Rightarrow> string \<times> string option \<Rightarrow> bool" where
  "legacy_flag_ok sh fv = (case fv of (f, v) \<Rightarrow>
     plain_word f \<and> is_flag_token f \<and> CHR ''='' \<notin> set f \<and>
     (case v of None \<Rightarrow> True
      | Some x \<Rightarrow> \<not> is_flag_token x \<and> (if has_ws x then sh_quote sh x \<noteq> None else plain_word x)))"

lemma split_joined_value:
  assumes "shlex_lossless sh" "legacy_flag_ok sh (f, Some x)"
  shows "split_arg_entry sh (join_flag_value sh f x) = [f, x]"
proof (cases "has_ws x")
  case True
  with assms obtain q where q: "sh_quote sh x = Some q" "plain_word f"
    by (auto simp: legacy_flag_ok_def)
  with assms(1) True show ?thesis
    by (simp add: split_arg_entry_def join_flag_value_def quote_value_def split_pair
        del: append_Cons)
next
  case False
  with assms have "sh_quote sh x = Some x" "plain_word f"
    by (auto simp: legacy_flag_ok_def shlex_lossless_def)
  with assms(1) False show ?thesis
    by (simp add: split_arg_entry_def join_flag_value_def split_pair del: append_Cons)
qed

lemma flatten_group_flat:
  assumes "shlex_lossless sh" "\<forall>fv \<in> set fs. legacy_flag_ok sh fv"
  shows "flatten_args sh (group_flat sh (legacy_tokens fs)) = legacy_tokens fs"
  using assms(2)
proof (induction fs)
  case Nil
  then show ?case by (simp add: legacy_tokens_def flatten_args_def)
next
  case (Cons fv fs)
  obtain f v where fv: "fv = (f, v)" by (cases fv)
  from Cons.prems fv have f: "plain_word f" "is_flag_token f" "CHR ''='' \<notin> set f" "\<not> has_ws f"
    by (auto simp: legacy_flag_ok_def plain_word_no_ws)
  have split_f: "split_arg_entry sh f = [f]"
    using assms(1) f(1) by (simp add: split_arg_entry_def split_plain)
  have IH: "flatten_args sh (group_flat sh (legacy_tokens fs)) = legacy_tokens fs"
    using Cons by simp
  show ?case
  proof (cases v)
    case (Some x)
    then have "split_arg_entry sh (join_flag_value sh f x) = [f, x]"
      using Cons.prems fv assms(1) by (intro split_joined_value) auto
    moreover have "\<not> is_flag_token x" using Cons.prems fv Some by (simp add: legacy_flag_ok_def)
    ultimately show ?thesis
      using IH f fv Some by (simp add: legacy_tokens_def flatten_args_def)
  next
    case None
    show ?thesis
    proof (cases fs)
      case Nil
      with None fv split_f show ?thesis by (simp add: legacy_tokens_def flatten_args_def)
    next
      case (Cons gv gs)
      then obtain g w rest where g: "legacy_tokens fs = g # rest" "is_flag_token g"
        using Cons.prems by (cases gv) (auto simp: legacy_tokens_def legacy_flag_ok_def)
      have "legacy_tokens (fv # fs) = f # g # rest"
        using fv None g(1) by (simp add: legacy_tokens_def)
      with IH f g split_f show ?thesis
        by (simp add: flatten_args_def)
    qed
  qed
qed

text \<open>
  Grouping a flat list of flags and values and flattening it again gives the same
  command line: every flag with its value, values with spaces included, for any lexer that
  is lossless on quoted words.
\<close>

theorem legacy_roundtrip:
  assumes "shlex_lossless sh" and "\<forall>fv \<in> set fs. legacy_flag_ok sh fv"
  shows "flatten_args sh (fst (group_legacy_flat_args sh (legacy_tokens fs))) = legacy_tokens fs"
  using flatten_group_flat [OF assms] by (simp add: group_legacy_flat_args_def Let_def)

theorem legacy_roundtrip_witness:
  "flatten_args demo_shlex (fst (group_legacy_flat_args demo_shlex
      (legacy_tokens [(''-fa'', Some ''1''), (''--mlock'', None), (''-p'', Some ''a b'')])))
   = [''-fa'', ''1'', ''--mlock'', ''-p'', ''a b'']"
proof -
  have "\<forall>fv \<in> set [(''-fa'', Some ''1''), (''--mlock'', None), (''-p'', Some ''a b'')].
      legacy_flag_ok demo_shlex fv"
    by code_simp
  from legacy_roundtrip [OF demo_shlex_lossless this] show ?thesis
    by (simp add: legacy_tokens_def)
qed

end
