(* ===== verification/VllmArgs.thy ===== *)
theory VllmArgs
  imports ArgsHelpers
begin

text \<open>
  vLLM launch settings: \<open>VllmConfig\<close> and \<open>VllmSpecConfig\<close> of
  \<open>tama-core/src/config/types/model.rs\<close> with their emission as arguments, and
  \<open>config/vllm_args.rs\<close>, which parses such arguments back. An \<open>f64\<close> is a value of the type
  parameter \<open>'f\<close>; its parser and printers are the fields of \<open>f64_ops\<close>. \<open>json\<close> is
  \<open>serde_json::to_string\<close> on the speculative settings (\<open>None\<close> is the error).
\<close>

section \<open>Data\<close>

record 'f f64_ops =
  f64_parse :: "string \<Rightarrow> 'f option"
  f64_show :: "'f \<Rightarrow> string"
  f64_fixed2 :: "'f \<Rightarrow> string"

record vllm_spec_config =
  vs_method :: "string option"
  vs_model :: "string option"
  vs_num_speculative_tokens :: "u32 option"
  vs_rejection_sample_method :: "string option"
  vs_draft_tensor_parallel_size :: "u32 option"
  vs_draft_sample_method :: "string option"
  vs_disable_padded_drafter_batch :: "bool option"
  vs_attention_backend :: "string option"

record 'f vllm_config =
  v_quantization :: "string option"
  v_kv_cache_dtype :: "string option"
  v_tensor_parallel_size :: "u32 option"
  v_gpu_memory_utilization :: "'f option"
  v_max_model_len :: "u32 option"
  v_max_num_batched_tokens :: "u32 option"
  v_enable_prefix_caching :: bool
  v_trust_remote_code :: bool
  v_attention_backend :: "string option"
  v_spec_decoding :: vllm_spec_config

definition vllm_spec_default :: vllm_spec_config where
  "vllm_spec_default = \<lparr>vs_method = None, vs_model = None, vs_num_speculative_tokens = None,
     vs_rejection_sample_method = None, vs_draft_tensor_parallel_size = None,
     vs_draft_sample_method = None, vs_disable_padded_drafter_batch = None,
     vs_attention_backend = None\<rparr>"

definition vllm_default :: "'f vllm_config" where
  "vllm_default = \<lparr>v_quantization = None, v_kv_cache_dtype = None,
     v_tensor_parallel_size = None, v_gpu_memory_utilization = None, v_max_model_len = None,
     v_max_num_batched_tokens = None, v_enable_prefix_caching = False,
     v_trust_remote_code = False, v_attention_backend = None,
     v_spec_decoding = vllm_spec_default\<rparr>"

definition vllm_spec_is_empty :: "vllm_spec_config \<Rightarrow> bool" where
  "vllm_spec_is_empty s =
     (vs_method s = None \<and> vs_model s = None \<and> vs_num_speculative_tokens s = None \<and>
      vs_rejection_sample_method s = None \<and> vs_draft_tensor_parallel_size s = None \<and>
      vs_draft_sample_method s = None \<and> vs_disable_padded_drafter_batch s = None \<and>
      vs_attention_backend s = None)"

definition vllm_is_empty :: "'f vllm_config \<Rightarrow> bool" where
  "vllm_is_empty v =
     (v_quantization v = None \<and> v_kv_cache_dtype v = None \<and> v_tensor_parallel_size v = None \<and>
      v_gpu_memory_utilization v = None \<and> v_max_model_len v = None \<and>
      v_max_num_batched_tokens v = None \<and> \<not> v_enable_prefix_caching v \<and>
      \<not> v_trust_remote_code v \<and> v_attention_backend v = None \<and>
      vllm_spec_is_empty (v_spec_decoding v))"

definition opt_pair :: "string \<Rightarrow> string option \<Rightarrow> string list" where
  "opt_pair flag v = (case v of None \<Rightarrow> [] | Some x \<Rightarrow> [flag, x])"

definition vllm_to_args ::
  "shlex \<Rightarrow> 'f f64_ops \<Rightarrow> (vllm_spec_config \<Rightarrow> string option) \<Rightarrow> 'f vllm_config \<Rightarrow> string list" where
  "vllm_to_args sh F json v =
     opt_pair ''--quantization'' (v_quantization v)
     @ opt_pair ''--kv-cache-dtype'' (v_kv_cache_dtype v)
     @ opt_pair ''--tensor-parallel-size'' (map_option show_u32 (v_tensor_parallel_size v))
     @ opt_pair ''--gpu-memory-utilization'' (map_option (f64_show F) (v_gpu_memory_utilization v))
     @ opt_pair ''--max-model-len'' (map_option show_u32 (v_max_model_len v))
     @ opt_pair ''--max-num-batched-tokens'' (map_option show_u32 (v_max_num_batched_tokens v))
     @ opt_pair ''--attention-backend'' (v_attention_backend v)
     @ (if v_enable_prefix_caching v then [''--enable-prefix-caching''] else [])
     @ (if v_trust_remote_code v then [''--trust-remote-code''] else [])
     @ (if \<not> vllm_spec_is_empty (v_spec_decoding v)
        then (case json (v_spec_decoding v) of
                None \<Rightarrow> []
              | Some j \<Rightarrow> [''--speculative-config '' @ quote_value sh j])
        else [])"

section \<open>Parsing managed flags back\<close>

definition string_flags :: "string list" where
  "string_flags = [''quantization'', ''kv-cache-dtype'']"

definition u32_flags :: "string list" where
  "u32_flags = [''tensor-parallel-size'', ''max-model-len'', ''max-num-batched-tokens'']"

definition f64_flags :: "string list" where
  "f64_flags = [''gpu-memory-utilization'']"

definition bool_flags :: "string list" where
  "bool_flags = [''enable-prefix-caching'', ''trust-remote-code'']"

definition is_managed :: "string \<Rightarrow> bool" where
  "is_managed flag = (flag \<in> set string_flags \<or> flag \<in> set u32_flags \<or>
     flag \<in> set f64_flags \<or> flag \<in> set bool_flags)"

definition is_boolean_flag :: "string \<Rightarrow> bool" where
  "is_boolean_flag flag = (flag \<in> set bool_flags)"

definition apply_boolean_flag :: "'f vllm_config \<Rightarrow> string \<Rightarrow> bool \<Rightarrow> 'f vllm_config" where
  "apply_boolean_flag cfg flag value =
     (if flag = ''enable-prefix-caching'' then cfg\<lparr>v_enable_prefix_caching := value\<rparr>
      else if flag = ''trust-remote-code'' then cfg\<lparr>v_trust_remote_code := value\<rparr>
      else cfg)"

definition parse_inline_flag :: "string \<Rightarrow> (string \<times> string) option" where
  "parse_inline_flag entry =
     (case strip_prefix ''--'' entry of
        None \<Rightarrow> None
      | Some after \<Rightarrow>
          (case dropWhile (\<lambda>c. c \<noteq> CHR ''='') after of
             [] \<Rightarrow> None
           | _ # value \<Rightarrow> Some (takeWhile (\<lambda>c. c \<noteq> CHR ''='') after, value)))"

definition parse_grouped_flag :: "string \<Rightarrow> (string \<times> string option) option" where
  "parse_grouped_flag entry =
     (case strip_prefix ''--'' entry of
        None \<Rightarrow> None
      | Some after \<Rightarrow>
          if after = [] then None
          else if CHR ''='' \<in> set after then None
          else Some (takeWhile (\<lambda>c. \<not> is_ws c) after,
             (case dropWhile (\<lambda>c. \<not> is_ws c) after of
                [] \<Rightarrow> None
              | _ # v \<Rightarrow> (if trim_ws v = [] then None else Some (trim_ws v)))))"

text \<open>\<open>try_apply_flag\<close> returns the updated configuration, \<open>None\<close> where the code returns false.\<close>

definition try_apply_flag ::
  "'f f64_ops \<Rightarrow> 'f vllm_config \<Rightarrow> string \<Rightarrow> string option \<Rightarrow> 'f vllm_config option" where
  "try_apply_flag F cfg flag value = (case value of
     None \<Rightarrow> None
   | Some v \<Rightarrow>
      if flag \<in> set string_flags then
        (if flag = ''quantization'' then Some (cfg\<lparr>v_quantization := Some v\<rparr>)
         else if flag = ''kv-cache-dtype'' then Some (cfg\<lparr>v_kv_cache_dtype := Some v\<rparr>)
         else None)
      else if flag \<in> set u32_flags then
        (case parse_u32 v of
           None \<Rightarrow> None
         | Some n \<Rightarrow>
             if flag = ''tensor-parallel-size'' then Some (cfg\<lparr>v_tensor_parallel_size := Some n\<rparr>)
             else if flag = ''max-model-len'' then Some (cfg\<lparr>v_max_model_len := Some n\<rparr>)
             else if flag = ''max-num-batched-tokens''
               then Some (cfg\<lparr>v_max_num_batched_tokens := Some n\<rparr>)
             else None)
      else if flag \<in> set f64_flags then
        (case f64_parse F v of
           None \<Rightarrow> None
         | Some f \<Rightarrow>
             if flag = ''gpu-memory-utilization''
               then Some (cfg\<lparr>v_gpu_memory_utilization := Some f\<rparr>)
             else None)
      else if flag \<in> set bool_flags then
        (if v = ''true'' \<or> v = ''1'' then Some (apply_boolean_flag cfg flag True)
         else if v = ''false'' \<or> v = ''0'' then Some (apply_boolean_flag cfg flag False)
         else None)
      else None)"

fun extract_loop ::
  "'f f64_ops \<Rightarrow> 'f vllm_config \<Rightarrow> string list \<Rightarrow> string list \<Rightarrow> 'f vllm_config \<times> string list" where
  "extract_loop F cfg remaining [] = (cfg, remaining)"
| "extract_loop F cfg remaining (entry # rest) =
     (let trimmed = trim_ws entry in
      if starts_with trimmed ''#'' then extract_loop F cfg (remaining @ [entry]) rest
      else case parse_inline_flag trimmed of
        Some (flag, value) \<Rightarrow>
          if is_managed flag then
            (case try_apply_flag F cfg flag (Some value) of
               Some cfg' \<Rightarrow> extract_loop F cfg' remaining rest
             | None \<Rightarrow> extract_loop F cfg (remaining @ [entry]) rest)
          else extract_loop F cfg (remaining @ [entry]) rest
      | None \<Rightarrow>
        (case parse_grouped_flag trimmed of
           Some (flag, value_in_entry) \<Rightarrow>
             if is_managed flag then
               (case value_in_entry of
                  Some v \<Rightarrow>
                    (case try_apply_flag F cfg flag (Some v) of
                       Some cfg' \<Rightarrow> extract_loop F cfg' remaining rest
                     | None \<Rightarrow> extract_loop F cfg (remaining @ [entry]) rest)
                | None \<Rightarrow>
                    if is_boolean_flag flag
                    then extract_loop F (apply_boolean_flag cfg flag True) remaining rest
                    else (case rest of
                        [] \<Rightarrow> extract_loop F cfg (remaining @ [entry]) rest
                      | next_entry # rest' \<Rightarrow>
                          if trim_ws next_entry \<noteq> [] \<and> \<not> starts_with (trim_ws next_entry) ''--'' then
                            (case try_apply_flag F cfg flag (Some (trim_ws next_entry)) of
                               Some cfg' \<Rightarrow> extract_loop F cfg' remaining rest'
                             | None \<Rightarrow> extract_loop F cfg (remaining @ [entry, next_entry]) rest')
                          else extract_loop F cfg (remaining @ [entry]) rest))
             else extract_loop F cfg (remaining @ [entry]) rest
         | None \<Rightarrow> extract_loop F cfg (remaining @ [entry]) rest))"

definition extract_vllm_args ::
  "'f f64_ops \<Rightarrow> string list \<Rightarrow> 'f vllm_config \<times> string list" where
  "extract_vllm_args F args = extract_loop F vllm_default [] args"

section \<open>One entry at a time\<close>

declare extract_loop.simps(2) [simp del]

lemmas extract_step = extract_loop.simps(2)

definition cli_value :: "string \<Rightarrow> bool" where
  "cli_value x = (x \<noteq> [] \<and> trim_ws x = x \<and> \<not> starts_with x ''--'')"

definition flag_stem :: "string \<Rightarrow> bool" where
  "flag_stem n = (n \<noteq> [] \<and> \<not> has_ws n \<and> CHR ''='' \<notin> set n)"

lemma takeWhile_not_ws: "\<not> has_ws n \<Longrightarrow> takeWhile (\<lambda>c. \<not> is_ws c) n = n"
  and dropWhile_not_ws: "\<not> has_ws n \<Longrightarrow> dropWhile (\<lambda>c. \<not> is_ws c) n = []"
  by (auto simp: has_ws_def list_ex_iff takeWhile_eq_all_conv)

lemma parse_inline_stem:
  assumes "flag_stem n"
  shows "parse_inline_flag (''--'' @ n) = None"
proof -
  have "dropWhile (\<lambda>c. c \<noteq> CHR ''='') n = []"
    using assms by (auto simp: flag_stem_def)
  then show ?thesis by (simp add: parse_inline_flag_def del: dropWhile_eq_Nil_conv)
qed

lemma parse_grouped_stem: "flag_stem n \<Longrightarrow> parse_grouped_flag (''--'' @ n) = Some (n, None)"
  by (simp add: parse_grouped_flag_def flag_stem_def takeWhile_not_ws dropWhile_not_ws)

lemma trim_stem: "flag_stem n \<Longrightarrow> trim_ws (''--'' @ n) = ''--'' @ n"
  by (rule trim_ws_no_ws) (simp add: flag_stem_def is_ws_def)

lemmas stem_simps = parse_inline_stem parse_grouped_stem trim_stem

lemma extract_pair:
  assumes "flag_stem n" "is_managed n" "\<not> is_boolean_flag n" "cli_value x"
    and "try_apply_flag F cfg n (Some x) = Some cfg'"
  shows "extract_loop F cfg rem ((''--'' @ n) # x # rest) = extract_loop F cfg' rem rest"
  using assms stem_simps [OF assms(1)] by (simp add: extract_step Let_def cli_value_def)

lemma extract_bool:
  assumes "flag_stem n" "is_managed n" "is_boolean_flag n"
  shows "extract_loop F cfg rem ((''--'' @ n) # rest)
     = extract_loop F (apply_boolean_flag cfg n True) rem rest"
  using assms stem_simps [OF assms(1)] by (simp add: extract_step Let_def)

lemma extract_unmanaged:
  assumes "flag_stem n" "\<not> is_managed n"
  shows "extract_loop F cfg rem ((''--'' @ n) # rest) = extract_loop F cfg (rem @ [''--'' @ n]) rest"
  using assms stem_simps [OF assms(1)] by (simp add: extract_step Let_def)

lemma extract_plain:
  assumes "cli_value x"
  shows "extract_loop F cfg rem (x # rest) = extract_loop F cfg (rem @ [x]) rest"
proof -
  have "strip_prefix ''--'' x = None" "trim_ws x = x"
    using assms by (auto simp: cli_value_def starts_with_def)
  then show ?thesis by (simp add: extract_step Let_def parse_inline_flag_def parse_grouped_flag_def)
qed

lemma trim_ws_word_prefix:
  assumes "w \<noteq> []" "\<not> has_ws w"
  shows "\<exists>t'. trim_ws (w @ t) = w @ t'"
proof -
  obtain c cs where w: "w = c # cs" "\<not> is_ws c" using assms by (cases w) auto
  then have front: "dropWhile is_ws (w @ t) = w @ t" by simp
  have nows: "dropWhile is_ws (rev w) = rev w"
    using assms by (simp add: dropWhile_eq_self_iff hd_rev has_ws_def list_ex_iff)
  show ?thesis
  proof (cases "\<forall>x \<in> set t. is_ws x")
    case True
    then have "dropWhile is_ws (rev t @ rev w) = rev w"
      using nows by (metis dropWhile_append2 set_rev)
    then have "trim_ws (w @ t) = w @ []" by (simp add: trim_ws_def front)
    then show ?thesis by blast
  next
    case False
    then obtain x where "x \<in> set (rev t)" "\<not> is_ws x" by auto
    then have "dropWhile is_ws (rev t @ rev w) = dropWhile is_ws (rev t) @ rev w"
      by (rule dropWhile_append1)
    then have "trim_ws (w @ t) = w @ rev (dropWhile is_ws (rev t))"
      by (simp add: trim_ws_def front)
    then show ?thesis by blast
  qed
qed

lemma managed_first: "is_managed (CHR ''s'' # m) = False"
  by (simp add: is_managed_def string_flags_def u32_flags_def f64_flags_def bool_flags_def)

lemma extract_speculative:
  "extract_loop F cfg rem ((''--speculative-config '' @ q) # rest)
     = extract_loop F cfg (rem @ [''--speculative-config '' @ q]) rest"
proof -
  obtain t where t: "trim_ws (''--speculative-config'' @ ('' '' @ q)) = ''--speculative-config'' @ t"
    using trim_ws_word_prefix [of "''--speculative-config''" "'' '' @ q"] by (auto simp: is_ws_def)
  show ?thesis
    using t by (auto simp: extract_step Let_def parse_inline_flag_def parse_grouped_flag_def
        managed_first is_ws_def split: option.splits list.splits)
qed

section \<open>Properties\<close>

definition vllm_cli_safe :: "'f f64_ops \<Rightarrow> 'f vllm_config \<Rightarrow> bool" where
  "vllm_cli_safe F v \<longleftrightarrow>
     pred_option cli_value (v_quantization v) \<and> pred_option cli_value (v_kv_cache_dtype v) \<and>
     pred_option cli_value (v_attention_backend v) \<and>
     pred_option (\<lambda>f. cli_value (f64_show F f) \<and> f64_parse F (f64_show F f) = Some f)
       (v_gpu_memory_utilization v)"

definition unmanaged_args ::
  "shlex \<Rightarrow> (vllm_spec_config \<Rightarrow> string option) \<Rightarrow> 'f vllm_config \<Rightarrow> string list" where
  "unmanaged_args sh json v =
     opt_pair ''--attention-backend'' (v_attention_backend v)
     @ (if vllm_spec_is_empty (v_spec_decoding v) then []
        else (case json (v_spec_decoding v) of None \<Rightarrow> []
              | Some j \<Rightarrow> [''--speculative-config '' @ quote_value sh j]))"

lemma digit_word_props: "list_all is_digit x \<Longrightarrow> x \<noteq> [] \<Longrightarrow> \<not> has_ws x \<and> \<not> starts_with x ''--''"
  by (cases x) (auto simp: has_ws_def list_ex_iff list_all_iff dest: is_digit_facts)

lemma cli_value_show_u32 [simp]: "cli_value (show_u32 n)"
  using digit_word_props [OF show_nat_digits show_nat_nonempty, of "unat n"]
  by (simp add: cli_value_def show_u32_def trim_ws_no_ws)

lemmas managed_flags = is_managed_def is_boolean_flag_def string_flags_def u32_flags_def
  f64_flags_def bool_flags_def

lemma extract_opt_pair:
  assumes "flag_stem n" "is_managed n" "\<not> is_boolean_flag n" "pred_option cli_value v"
    and "\<And>x. v = Some x \<Longrightarrow> try_apply_flag F cfg n (Some x) = Some cfg'"
    and "v = None \<Longrightarrow> cfg' = cfg"
  shows "extract_loop F cfg rem (opt_pair (''--'' @ n) v @ rest) = extract_loop F cfg' rem rest"
proof (cases v)
  case None
  with assms(6) show ?thesis by (simp add: opt_pair_def)
next
  case (Some x)
  then show ?thesis
    using extract_pair [OF assms(1-3), of x F cfg cfg' rem rest] assms(4) assms(5) [OF Some]
    by (simp add: opt_pair_def)
qed

lemmas flag_simps = flag_stem_def is_ws_def managed_flags try_apply_flag_def

lemma extract_quantization:
  "pred_option cli_value x \<Longrightarrow> v_quantization cfg = None \<Longrightarrow>
   extract_loop F cfg rem (opt_pair ''--quantization'' x @ r)
     = extract_loop F (cfg\<lparr>v_quantization := x\<rparr>) rem r"
  using extract_opt_pair [of "''quantization''" "x" F cfg "cfg\<lparr>v_quantization := x\<rparr>" rem r]
  by (cases x; cases cfg) (simp_all add: flag_simps)

lemma extract_kv_cache_dtype:
  "pred_option cli_value x \<Longrightarrow> v_kv_cache_dtype cfg = None \<Longrightarrow>
   extract_loop F cfg rem (opt_pair ''--kv-cache-dtype'' x @ r)
     = extract_loop F (cfg\<lparr>v_kv_cache_dtype := x\<rparr>) rem r"
  using extract_opt_pair [of "''kv-cache-dtype''" "x" F cfg "cfg\<lparr>v_kv_cache_dtype := x\<rparr>" rem r]
  by (cases x; cases cfg) (simp_all add: flag_simps)

lemma extract_tensor_parallel:
  "v_tensor_parallel_size cfg = None \<Longrightarrow>
   extract_loop F cfg rem (opt_pair ''--tensor-parallel-size'' (map_option show_u32 x) @ r)
     = extract_loop F (cfg\<lparr>v_tensor_parallel_size := x\<rparr>) rem r"
  using extract_opt_pair [of "''tensor-parallel-size''" "(map_option show_u32 x)" F cfg "cfg\<lparr>v_tensor_parallel_size := x\<rparr>" rem r]
  by (cases x; cases cfg) (simp_all add: flag_simps)

lemma extract_gpu_memory:
  "pred_option (\<lambda>f. cli_value (f64_show F f) \<and> f64_parse F (f64_show F f) = Some f) x \<Longrightarrow> v_gpu_memory_utilization cfg = None \<Longrightarrow>
   extract_loop F cfg rem (opt_pair ''--gpu-memory-utilization'' (map_option (f64_show F) x) @ r)
     = extract_loop F (cfg\<lparr>v_gpu_memory_utilization := x\<rparr>) rem r"
  using extract_opt_pair [of "''gpu-memory-utilization''" "(map_option (f64_show F) x)" F cfg "cfg\<lparr>v_gpu_memory_utilization := x\<rparr>" rem r]
  by (cases x; cases cfg) (simp_all add: flag_simps)

lemma extract_max_model_len:
  "v_max_model_len cfg = None \<Longrightarrow>
   extract_loop F cfg rem (opt_pair ''--max-model-len'' (map_option show_u32 x) @ r)
     = extract_loop F (cfg\<lparr>v_max_model_len := x\<rparr>) rem r"
  using extract_opt_pair [of "''max-model-len''" "(map_option show_u32 x)" F cfg "cfg\<lparr>v_max_model_len := x\<rparr>" rem r]
  by (cases x; cases cfg) (simp_all add: flag_simps)

lemma extract_max_batched:
  "v_max_num_batched_tokens cfg = None \<Longrightarrow>
   extract_loop F cfg rem (opt_pair ''--max-num-batched-tokens'' (map_option show_u32 x) @ r)
     = extract_loop F (cfg\<lparr>v_max_num_batched_tokens := x\<rparr>) rem r"
  using extract_opt_pair [of "''max-num-batched-tokens''" "(map_option show_u32 x)" F cfg "cfg\<lparr>v_max_num_batched_tokens := x\<rparr>" rem r]
  by (cases x; cases cfg) (simp_all add: flag_simps)

lemma extract_attention:
  "pred_option cli_value x \<Longrightarrow>
   extract_loop F cfg rem (opt_pair ''--attention-backend'' x @ r)
     = extract_loop F cfg (rem @ opt_pair ''--attention-backend'' x) r"
  using extract_unmanaged [of "''attention-backend''" F cfg rem]
  by (cases x) (simp_all add: flag_simps opt_pair_def extract_plain)

lemma extract_prefix_caching:
  "\<not> v_enable_prefix_caching cfg \<Longrightarrow>
   extract_loop F cfg rem ((if b then [''--enable-prefix-caching''] else []) @ r)
     = extract_loop F (cfg\<lparr>v_enable_prefix_caching := b\<rparr>) rem r"
  using extract_bool [of "''enable-prefix-caching''" F cfg rem r]
  by (cases cfg) (simp add: flag_simps apply_boolean_flag_def)

lemma extract_trust_remote:
  "\<not> v_trust_remote_code cfg \<Longrightarrow>
   extract_loop F cfg rem ((if b then [''--trust-remote-code''] else []) @ r)
     = extract_loop F (cfg\<lparr>v_trust_remote_code := b\<rparr>) rem r"
  using extract_bool [of "''trust-remote-code''" F cfg rem r]
  by (cases cfg) (simp add: flag_simps apply_boolean_flag_def)

lemma extract_spec_entry:
  "extract_loop F cfg rem (case j of None \<Rightarrow> [] | Some x \<Rightarrow> [''--speculative-config '' @ quote_value sh x])
     = (cfg, rem @ (case j of None \<Rightarrow> [] | Some x \<Rightarrow> [''--speculative-config '' @ quote_value sh x]))"
  using extract_speculative [of F cfg rem _ "[]"] by (cases j) simp_all

lemmas extract_pieces = extract_quantization extract_kv_cache_dtype extract_tensor_parallel
  extract_gpu_memory extract_max_model_len extract_max_batched extract_attention
  extract_prefix_caching extract_trust_remote extract_spec_entry

text \<open>
  Parsing back the arguments emitted for a vLLM configuration recovers every managed
  setting exactly and leaves precisely the unmanaged entries (attention backend and
  speculative configuration), in order, provided the string settings are trimmed values
  that do not look like a flag and floats print to something that parses back.
\<close>

theorem extract_vllm_roundtrip:
  assumes "vllm_cli_safe F v"
  shows "extract_vllm_args F (vllm_to_args sh F json v) =
    (v\<lparr>v_attention_backend := None, v_spec_decoding := vllm_spec_default\<rparr>,
     unmanaged_args sh json v)"
  using assms
  by (cases v) (simp add: vllm_to_args_def extract_vllm_args_def vllm_cli_safe_def
      unmanaged_args_def vllm_default_def extract_pieces)

definition demo_f64 :: "nat f64_ops" where
  "demo_f64 = \<lparr>f64_parse = parse_uint (2 ^ 63), f64_show = show_nat, f64_fixed2 = show_nat\<rparr>"

theorem extract_vllm_roundtrip_witness:
  "extract_vllm_args demo_f64 (vllm_to_args demo_shlex demo_f64 (\<lambda>_. None)
      (vllm_default\<lparr>v_quantization := Some ''fp8'', v_tensor_parallel_size := Some 2,
        v_attention_backend := Some ''FLASH'', v_trust_remote_code := True\<rparr>))
   = (vllm_default\<lparr>v_quantization := Some ''fp8'', v_tensor_parallel_size := Some 2,
        v_trust_remote_code := True\<rparr>, [''--attention-backend'', ''FLASH''])"
proof -
  let ?v = "vllm_default\<lparr>v_quantization := Some ''fp8'', v_tensor_parallel_size := Some 2,
        v_attention_backend := Some ''FLASH'', v_trust_remote_code := True\<rparr> :: nat vllm_config"
  have "vllm_cli_safe demo_f64 ?v"
    by (simp add: vllm_cli_safe_def cli_value_def vllm_default_def trim_ws_def is_ws_def)
  from extract_vllm_roundtrip [OF this, of demo_shlex "\<lambda>_. None"] show ?thesis
    by (simp add: unmanaged_args_def opt_pair_def vllm_default_def vllm_spec_default_def
        vllm_spec_is_empty_def)
qed

end
