(* ===== verification/Vocabulary.thy ===== *)
theory Vocabulary
  imports VllmArgs
begin

text \<open>
  The small value types shared by the components: sampling parameters and profiles
  (\<open>tama-core/src/profiles.rs\<close>), quant kinds and quant inference from file names
  (\<open>types/quant.rs\<close>), the enums stored as text (\<open>types/enums.rs\<close>, \<open>gpu/detect.rs\<close>) and log
  levels and sources (\<open>logstore/types.rs\<close>).
\<close>

section \<open>Sampling parameters\<close>

record 'f sampling_params =
  sp_temperature :: "'f option"
  sp_top_k :: "u32 option"
  sp_top_p :: "'f option"
  sp_min_p :: "'f option"
  sp_presence_penalty :: "'f option"
  sp_frequency_penalty :: "'f option"
  sp_repeat_penalty :: "'f option"

text \<open>\<open>Option::or\<close>.\<close>

definition opt_or :: "'a option \<Rightarrow> 'a option \<Rightarrow> 'a option" where
  "opt_or a b = (case a of None \<Rightarrow> b | Some _ \<Rightarrow> a)"

lemma opt_or_simps [simp]:
  "opt_or None b = b" "opt_or (Some x) b = Some x" "opt_or a None = a"
  by (simp_all add: opt_or_def split: option.splits)

lemma opt_or_assoc: "opt_or (opt_or a b) c = opt_or a (opt_or b c)"
  by (cases a) simp_all

definition sampling_merge :: "'f sampling_params \<Rightarrow> 'f sampling_params \<Rightarrow> 'f sampling_params" where
  "sampling_merge self overrides =
     \<lparr>sp_temperature = opt_or (sp_temperature overrides) (sp_temperature self),
      sp_top_k = opt_or (sp_top_k overrides) (sp_top_k self),
      sp_top_p = opt_or (sp_top_p overrides) (sp_top_p self),
      sp_min_p = opt_or (sp_min_p overrides) (sp_min_p self),
      sp_presence_penalty = opt_or (sp_presence_penalty overrides) (sp_presence_penalty self),
      sp_frequency_penalty = opt_or (sp_frequency_penalty overrides) (sp_frequency_penalty self),
      sp_repeat_penalty = opt_or (sp_repeat_penalty overrides) (sp_repeat_penalty self)\<rparr>"

definition flag_entry :: "string \<Rightarrow> string option \<Rightarrow> string list" where
  "flag_entry flag v = (case v of None \<Rightarrow> [] | Some x \<Rightarrow> [flag @ CHR '' '' # x])"

definition sampling_to_args :: "'f f64_ops \<Rightarrow> 'f sampling_params \<Rightarrow> string list" where
  "sampling_to_args F s =
     flag_entry ''--temp'' (map_option (f64_fixed2 F) (sp_temperature s))
     @ flag_entry ''--top-k'' (map_option show_u32 (sp_top_k s))
     @ flag_entry ''--top-p'' (map_option (f64_fixed2 F) (sp_top_p s))
     @ flag_entry ''--min-p'' (map_option (f64_fixed2 F) (sp_min_p s))
     @ flag_entry ''--presence-penalty'' (map_option (f64_fixed2 F) (sp_presence_penalty s))
     @ flag_entry ''--frequency-penalty'' (map_option (f64_fixed2 F) (sp_frequency_penalty s))
     @ flag_entry ''--repeat-penalty'' (map_option (f64_fixed2 F) (sp_repeat_penalty s))"

definition sampling_is_empty :: "'f sampling_params \<Rightarrow> bool" where
  "sampling_is_empty s =
     (sp_temperature s = None \<and> sp_top_k s = None \<and> sp_top_p s = None \<and> sp_min_p s = None \<and>
      sp_presence_penalty s = None \<and> sp_frequency_penalty s = None \<and> sp_repeat_penalty s = None)"

text \<open>The decimal literals of the source are read by the f64 parser parameter.\<close>

definition f64_lit :: "'f f64_ops \<Rightarrow> string \<Rightarrow> 'f option" where
  "f64_lit F s = f64_parse F s"

definition preset_label :: "'f f64_ops \<Rightarrow> 'f sampling_params \<Rightarrow> string" where
  "preset_label F s =
     (let is = (\<lambda>v l. v \<noteq> None \<and> v = f64_lit F l) in
      if is (sp_temperature s) ''0.3'' \<and> is (sp_top_p s) ''0.9'' \<and> sp_top_k s = Some 20
        then ''analysis''
      else if is (sp_temperature s) ''0.3'' \<and> is (sp_top_p s) ''0.9'' then ''coding''
      else if is (sp_temperature s) ''0.7'' \<and> is (sp_top_p s) ''0.95'' then ''chat''
      else if is (sp_temperature s) ''0.9'' \<and> is (sp_top_p s) ''0.95'' then ''creative''
      else ''custom'')"

datatype profile = Coding | Chat | Analysis | Creative

definition profile_show :: "profile \<Rightarrow> string" where
  "profile_show p = (case p of Coding \<Rightarrow> ''coding'' | Chat \<Rightarrow> ''chat''
     | Analysis \<Rightarrow> ''analysis'' | Creative \<Rightarrow> ''creative'')"

definition profile_parse :: "string \<Rightarrow> string + profile" where
  "profile_parse s =
     (let t = trim_ws (to_lower s) in
      if t = ''coding'' then Inr Coding
      else if t = ''chat'' then Inr Chat
      else if t = ''analysis'' then Inr Analysis
      else if t = ''creative'' then Inr Creative
      else Inl (''Unknown profile '' @ [CHR 0x27] @ t @ [CHR 0x27] @
                ''. Valid profiles: coding, chat, analysis, creative''))"

definition profile_all :: "(string \<times> string \<times> profile) list" where
  "profile_all =
     [(''coding'', ''Low temp (0.3), deterministic for code gen / agentic tasks'', Coding),
      (''chat'', ''Balanced (temp 0.7) for conversational use'', Chat),
      (''analysis'', ''Deterministic (temp 0.3), focused sampling'', Analysis),
      (''creative'', ''High temp (0.9), diverse and exploratory output'', Creative)]"

section \<open>Enums stored as text\<close>

datatype restart_policy = Always | OnFailure

definition policy_show :: "restart_policy \<Rightarrow> string" where
  "policy_show p = (case p of Always \<Rightarrow> ''always'' | OnFailure \<Rightarrow> ''on-failure'')"

definition policy_parse :: "string \<Rightarrow> restart_policy option" where
  "policy_parse s = (let l = to_lower s in
     if l = ''always'' then Some Always
     else if l = ''on-failure'' then Some OnFailure else None)"

datatype log_level = Debug | Info | Warn | Error

definition log_level_show :: "log_level \<Rightarrow> string" where
  "log_level_show l = (case l of Debug \<Rightarrow> ''debug'' | Info \<Rightarrow> ''info''
     | Warn \<Rightarrow> ''warn'' | Error \<Rightarrow> ''error'')"

definition log_level_parse :: "string \<Rightarrow> log_level option" where
  "log_level_parse s = (let l = to_lower s in
     if l = ''debug'' then Some Debug
     else if l = ''info'' then Some Info
     else if l = ''warn'' then Some Warn
     else if l = ''error'' then Some Error else None)"

datatype compaction_device = Cpu | CudaAuto | CudaDevice u32 | Mps

definition device_show :: "compaction_device \<Rightarrow> string" where
  "device_show d = (case d of Cpu \<Rightarrow> ''cpu'' | CudaAuto \<Rightarrow> ''cuda''
     | CudaDevice i \<Rightarrow> ''cuda:'' @ show_u32 i | Mps \<Rightarrow> ''mps'')"

definition device_parse :: "string \<Rightarrow> compaction_device option" where
  "device_parse s =
     (if s = ''cpu'' then Some Cpu
      else if s = ''cuda'' then Some CudaAuto
      else if s = ''mps'' then Some Mps
      else (case strip_prefix ''cuda:'' s of
              Some r \<Rightarrow> map_option CudaDevice (parse_u32 r)
            | None \<Rightarrow> None))"

datatype gpu_vendor = Amd | Nvidia

definition vendor_show :: "gpu_vendor \<Rightarrow> string" where
  "vendor_show v = (case v of Nvidia \<Rightarrow> ''nvidia'' | Amd \<Rightarrow> ''amd'')"

definition vendor_parse :: "string \<Rightarrow> gpu_vendor option" where
  "vendor_parse s = (let l = to_lower s in
     if l = ''nvidia'' then Some Nvidia else if l = ''amd'' then Some Amd else None)"

datatype gpu_variant =
  Cuda (cuda_version: string) | Vulkan | Metal | RocM (rocm_version: string) | CpuOnly | Custom

definition variant_folder :: "gpu_variant \<Rightarrow> string" where
  "variant_folder v = (case v of CpuOnly \<Rightarrow> ''cpu'' | Vulkan \<Rightarrow> ''vulkan'' | Metal \<Rightarrow> ''metal''
     | Cuda _ \<Rightarrow> ''cuda'' | RocM _ \<Rightarrow> ''rocm'' | Custom \<Rightarrow> ''custom'')"

definition gpu_variant_parse :: "string \<Rightarrow> gpu_variant option" where
  "gpu_variant_parse s = (let l = to_lower s in
     if l = ''cpu'' then Some CpuOnly
     else if l = ''cuda'' then Some (Cuda [])
     else if l = ''vulkan'' then Some Vulkan
     else if l = ''metal'' then Some Metal
     else if l = ''rocm'' then Some (RocM [])
     else if l = ''custom'' then Some Custom else None)"

section \<open>Log levels and sources\<close>

datatype logstore_level = LogstoreLevel (level_as_u8: "8 word")

definition level_from_u8 :: "8 word \<Rightarrow> logstore_level option" where
  "level_from_u8 v = (if v \<le> 4 then Some (LogstoreLevel v) else None)"

definition level_as_str :: "logstore_level \<Rightarrow> string" where
  "level_as_str l = (let n = level_as_u8 l in
     if n = 0 then ''trace'' else if n = 1 then ''debug'' else if n = 2 then ''info''
     else if n = 3 then ''warn'' else if n = 4 then ''error'' else ''unknown'')"

instantiation logstore_level :: linorder
begin

definition less_eq_logstore_level :: "logstore_level \<Rightarrow> logstore_level \<Rightarrow> bool" where
  "less_eq_logstore_level a b = (level_as_u8 a \<le> level_as_u8 b)"

definition less_logstore_level :: "logstore_level \<Rightarrow> logstore_level \<Rightarrow> bool" where
  "less_logstore_level a b = (level_as_u8 a < level_as_u8 b)"

instance
  by standard (auto simp: less_eq_logstore_level_def less_logstore_level_def
      intro: logstore_level.expand)

end

definition source_backend :: "string \<Rightarrow> string" where
  "source_backend name = ''backend:'' @ name"

definition source_tamad :: "string \<Rightarrow> string" where
  "source_tamad host = ''tamad:'' @ host"

definition source_tamad_model :: "string \<Rightarrow> string \<Rightarrow> string" where
  "source_tamad_model host model = ''tamad:'' @ host @ '':model:'' @ model"

definition source_tamad_model_tail :: "string \<Rightarrow> string \<Rightarrow> string" where
  "source_tamad_model_tail host model = ''tamad:'' @ host @ '':model:'' @ model @ '':tail''"

definition source_parse :: "string \<Rightarrow> string option" where
  "source_parse term = (let t = trim_ws term in if t = [] then None else Some t)"

section \<open>Properties of the vocabulary\<close>

definition entries_of :: "string list \<Rightarrow> (string \<Rightarrow> string option) \<Rightarrow> string list" where
  "entries_of fs g = concat (map (\<lambda>f. flag_entry f (g f)) fs)"

lemma flag_of_entry: "flag_word f \<Longrightarrow> e \<in> set (flag_entry f v) \<Longrightarrow> flag_name e = Some f"
  by (cases v) (auto simp: flag_entry_def)

lemma filter_entries_of:
  assumes "distinct fs" "\<forall>f \<in> set fs. flag_word f"
  shows "filter (\<lambda>e. flag_name e = Some f) (entries_of fs g) =
           (if f \<in> set fs then flag_entry f (g f) else [])"
  using assms
proof (induction fs)
  case Nil
  show ?case by (simp add: entries_of_def)
next
  case (Cons h fs)
  have "filter (\<lambda>e. flag_name e = Some f) (flag_entry h (g h)) =
          (if f = h then flag_entry h (g h) else [])"
    using Cons.prems(2) by (auto simp: flag_entry_def split: option.splits)
  with Cons show ?case by (auto simp: entries_of_def)
qed

lemma key_entries_of:
  assumes "\<forall>f \<in> set fs. flag_word f"
  shows "Some f \<in> flag_name ` set (entries_of fs g) \<longleftrightarrow> f \<in> set fs \<and> g f \<noteq> None"
proof
  assume "Some f \<in> flag_name ` set (entries_of fs g)"
  then obtain e h where "e \<in> set (flag_entry h (g h))" "h \<in> set fs" "flag_name e = Some f"
    by (auto simp: entries_of_def)
  moreover from this assms have "flag_name e = Some h" by (blast intro: flag_of_entry)
  ultimately show "f \<in> set fs \<and> g f \<noteq> None"
    by (cases "g f") (auto simp: flag_entry_def split: option.splits)
next
  assume f: "f \<in> set fs \<and> g f \<noteq> None"
  then obtain x where "g f = Some x" by auto
  with f have "f @ CHR '' '' # x \<in> set (entries_of fs g)"
    unfolding entries_of_def by (force simp: flag_entry_def)
  moreover have "flag_name (f @ CHR '' '' # x) = Some f" using f assms by simp
  ultimately show "Some f \<in> flag_name ` set (entries_of fs g)" by (metis image_eqI)
qed

definition sampling_flags :: "string list" where
  "sampling_flags = [''--temp'', ''--top-k'', ''--top-p'', ''--min-p'', ''--presence-penalty'',
     ''--frequency-penalty'', ''--repeat-penalty'']"

definition sampling_value :: "'f f64_ops \<Rightarrow> 'f sampling_params \<Rightarrow> string \<Rightarrow> string option" where
  "sampling_value F s f =
     (if f = ''--temp'' then map_option (f64_fixed2 F) (sp_temperature s)
      else if f = ''--top-k'' then map_option show_u32 (sp_top_k s)
      else if f = ''--top-p'' then map_option (f64_fixed2 F) (sp_top_p s)
      else if f = ''--min-p'' then map_option (f64_fixed2 F) (sp_min_p s)
      else if f = ''--presence-penalty'' then map_option (f64_fixed2 F) (sp_presence_penalty s)
      else if f = ''--frequency-penalty'' then map_option (f64_fixed2 F) (sp_frequency_penalty s)
      else map_option (f64_fixed2 F) (sp_repeat_penalty s))"

lemma sampling_entries: "sampling_to_args F s = entries_of sampling_flags (sampling_value F s)"
  by (simp add: sampling_to_args_def entries_of_def sampling_flags_def sampling_value_def)

lemma sampling_flags_ok: "distinct sampling_flags" "\<forall>f \<in> set sampling_flags. flag_word f"
  by (simp_all add: sampling_flags_def flag_word_def has_ws_def is_ws_def starts_numeric_def
      is_digit_def)

lemma map_option_opt_or: "map_option h (opt_or a b) = opt_or (map_option h a) (map_option h b)"
  by (cases a) simp_all

lemma sampling_value_merge:
  "sampling_value F (sampling_merge a b) f = opt_or (sampling_value F b f) (sampling_value F a f)"
  by (simp add: sampling_value_def sampling_merge_def map_option_opt_or)

text \<open>
  Merging sampling parameters and then emitting them is emitting both and merging the
  argument layers: flag by flag the launch line is the same. The merge is associative.
\<close>

theorem sampling_merge_layers:
  "filter (\<lambda>e. flag_name e = Some f) (sampling_to_args F (sampling_merge a b)) =
     filter (\<lambda>e. flag_name e = Some f) (merge_args (sampling_to_args F a) (sampling_to_args F b))
   \<and> sampling_merge (sampling_merge a b) c = sampling_merge a (sampling_merge b c)"
  by (simp add: sampling_entries args.merge_key_entries filter_entries_of [OF sampling_flags_ok]
      key_entries_of [OF sampling_flags_ok(2)] sampling_value_merge flag_entry_def
      split: option.splits)
     (simp add: sampling_merge_def opt_or_assoc)

lemmas enum_text_defs = profile_show_def profile_parse_def policy_show_def policy_parse_def
  log_level_show_def log_level_parse_def vendor_show_def vendor_parse_def variant_folder_def
  gpu_variant_parse_def Let_def

lemma device_roundtrip: "device_parse (device_show d) = Some d"
  by (cases d) (simp_all add: device_parse_def device_show_def)

text \<open>
  The enums stored as text are read back exactly, and reading is insensitive to case and,
  for profiles, to surrounding blanks: the accepted spellings of a value are those whose lower
  case is its stored text. GPU variants lose their version payload and nothing else.
\<close>

theorem stored_enums_roundtrip:
  "(policy_parse s = Some p \<longleftrightarrow> to_lower s = policy_show p)
   \<and> (log_level_parse s = Some l \<longleftrightarrow> to_lower s = log_level_show l)
   \<and> (vendor_parse s = Some v \<longleftrightarrow> to_lower s = vendor_show v)
   \<and> (profile_parse s = Inr q \<longleftrightarrow> trim_ws (to_lower s) = profile_show q)
   \<and> (gpu_variant_parse s = Some g \<longleftrightarrow>
        to_lower s = variant_folder g \<and> g \<in> {CpuOnly, Cuda [], Vulkan, Metal, RocM [], Custom})
   \<and> device_parse (device_show d) = Some d"
proof (intro conjI)
  show "policy_parse s = Some p \<longleftrightarrow> to_lower s = policy_show p"
    by (cases p) (auto simp: enum_text_defs)
  show "log_level_parse s = Some l \<longleftrightarrow> to_lower s = log_level_show l"
    by (cases l) (auto simp: enum_text_defs)
  show "vendor_parse s = Some v \<longleftrightarrow> to_lower s = vendor_show v"
    by (cases v) (auto simp: enum_text_defs)
  show "profile_parse s = Inr q \<longleftrightarrow> trim_ws (to_lower s) = profile_show q"
    by (cases q) (auto simp: enum_text_defs)
  show "gpu_variant_parse s = Some g \<longleftrightarrow>
        to_lower s = variant_folder g \<and> g \<in> {CpuOnly, Cuda [], Vulkan, Metal, RocM [], Custom}"
    by (cases g) (auto simp: enum_text_defs)
qed (rule device_roundtrip)

end
