(* ===== verification/Quants.thy ===== *)
theory Quants
  imports Vocabulary
begin

text \<open>
  Quantisation names: \<open>QuantKind::from_filename\<close> and \<open>infer_quant_from_filename\<close> of
  \<open>tama-core/src/types/quant.rs\<close>, with the pattern table in the order of the source.
\<close>

section \<open>Kinds and entries\<close>

datatype quant_kind = QModel | QMmproj | QMtp

record quant_entry =
  qe_file :: string
  qe_kind :: quant_kind
  qe_size_bytes :: "64 word option"
  qe_context_length :: "u32 option"

definition kind_from_filename :: "string \<Rightarrow> quant_kind" where
  "kind_from_filename filename = (let lower = to_lower filename in
     if starts_with lower ''mmproj'' \<and> ends_with lower ''.gguf'' then QMmproj
     else if starts_with lower ''mtp'' \<and> ends_with lower ''.gguf'' then QMtp
     else QModel)"

section \<open>Inference from the file name\<close>

definition quant_patterns :: "string list" where
  "quant_patterns =
    [''APEX-I-BALANCED'', ''APEX-I-QUALITY'', ''APEX-I-COMPACT'', ''APEX-I-MINI'',
     ''APEX-IQ2_XXS'', ''APEX-IQ3_XXS'', ''APEX-IQ1_S'', ''APEX-IQ1_M'', ''APEX-IQ2_XS'',
     ''APEX-IQ2_S'', ''APEX-IQ2_M'', ''APEX-IQ3_XS'', ''APEX-IQ3_S'', ''APEX-IQ3_M'',
     ''APEX-IQ4_XS'', ''APEX-IQ4_NL'', ''APEX-Q2_K_S'', ''APEX-Q3_K_S'', ''APEX-Q3_K_M'',
     ''APEX-Q3_K_L'', ''APEX-Q4_K_S'', ''APEX-Q4_K_M'', ''APEX-Q4_K_L'', ''APEX-Q5_K_S'',
     ''APEX-Q5_K_M'', ''APEX-Q5_K_L'', ''APEX-Q6_K'', ''APEX-Q8_0'', ''UD-I-BALANCED'',
     ''UD-I-QUALITY'', ''UD-I-COMPACT'', ''UD-I-MINI'', ''UD-IQ2_XXS'', ''UD-IQ3_XXS'',
     ''UD-IQ1_S'', ''UD-IQ1_M'', ''UD-IQ2_XS'', ''UD-IQ2_S'', ''UD-IQ2_M'', ''UD-IQ3_XS'',
     ''UD-IQ3_S'', ''UD-IQ3_M'', ''UD-IQ4_XS'', ''UD-IQ4_NL'', ''UD-Q2_K_S'', ''UD-Q3_K_S'',
     ''UD-Q3_K_M'', ''UD-Q3_K_L'', ''UD-Q4_K_S'', ''UD-Q4_K_M'', ''UD-Q4_K_L'', ''UD-Q5_K_S'',
     ''UD-Q5_K_M'', ''UD-Q5_K_L'', ''UD-Q2_K_XL'', ''UD-Q3_K_XL'', ''UD-Q4_K_XL'',
     ''UD-Q5_K_XL'', ''UD-Q6_K_XL'', ''UD-Q8_K_XL'', ''UD-Q2_K'', ''UD-Q3_K'', ''UD-Q4_K'',
     ''UD-Q5_K'', ''UD-Q6_K'', ''UD-Q4_0'', ''UD-Q4_1'', ''UD-Q5_0'', ''UD-Q5_1'', ''UD-Q6_0'',
     ''UD-Q8_0'', ''UD-Q8_1'', ''IQ2_XXS'', ''IQ3_XXS'', ''IQ1_S'', ''IQ1_M'', ''IQ2_XS'',
     ''IQ2_S'', ''IQ2_M'', ''IQ3_XS'', ''IQ3_S'', ''IQ3_M'', ''IQ4_XS'', ''IQ4_NL'',
     ''Q2_K_S'', ''Q3_K_S'', ''Q3_K_M'', ''Q3_K_L'', ''Q4_K_S'', ''Q4_K_M'', ''Q4_K_L'',
     ''Q5_K_S'', ''Q5_K_M'', ''Q5_K_L'', ''Q2_K_XL'', ''Q3_K_XL'', ''Q4_K_XL'', ''Q5_K_XL'',
     ''Q6_K_XL'', ''Q8_K_XL'', ''Q2_K'', ''Q3_K'', ''Q4_K'', ''Q5_K'', ''Q6_K'', ''Q4_0'',
     ''Q4_1'', ''Q5_0'', ''Q5_1'', ''Q6_0'', ''Q8_0'', ''Q8_1'', ''F16'', ''F32'', ''BF16'']"

definition pattern_matches :: "string \<Rightarrow> string \<Rightarrow> bool" where
  "pattern_matches stem_upper p =
     (stem_upper = p \<or> contains_str stem_upper (CHR ''-'' # p)
      \<or> contains_str stem_upper (CHR ''.'' # p) \<or> contains_str stem_upper (CHR ''_'' # p))"

definition last_component :: "string \<Rightarrow> string" where
  "last_component s = rev (takeWhile (\<lambda>c. c \<noteq> CHR ''-'' \<and> c \<noteq> CHR ''_'') (rev s))"

definition infer_quant_from_filename :: "string \<Rightarrow> string option" where
  "infer_quant_from_filename filename =
     (case strip_suffix ''.gguf'' filename of
        None \<Rightarrow> None
      | Some stem \<Rightarrow>
          (case List.find (pattern_matches (to_upper stem)) quant_patterns of
             Some p \<Rightarrow> Some p
           | None \<Rightarrow> Some (last_component stem)))"

end
