(* ===== verification/QuantTable.thy ===== *)
theory QuantTable
  imports Quants
begin

text \<open>
  The order of the quantisation table: evaluation shows that every entry is found before any
  other entry that occurs inside it, and a scan argument lifts that to whole file names.
\<close>

section \<open>The table is ordered\<close>

definition is_sep :: "char \<Rightarrow> bool" where
  "is_sep c = (c = CHR ''-'' \<or> c = CHR ''.'' \<or> c = CHR ''_'')"

definition inner_match :: "string \<Rightarrow> string \<Rightarrow> bool" where
  "inner_match p q = (starts_with p q \<or> contains_str p (CHR ''-'' # q)
      \<or> contains_str p (CHR ''.'' # q) \<or> contains_str p (CHR ''_'' # q))"

lemma table_order:
  "list_all (\<lambda>p. List.find (inner_match p) quant_patterns = Some p) quant_patterns"
  by code_simp

lemma contains_after_plain:
  assumes "list_all (\<lambda>x. \<not> is_sep x) b" "is_sep d"
  shows "contains_str (b @ s) (d # q) \<longleftrightarrow> contains_str s (d # q)"
  using assms(1)
proof (induction b)
  case (Cons x b)
  from Cons.prems assms(2) have "x \<noteq> d" by auto
  with Cons show ?case by simp
qed simp

lemma contains_at_sep:
  "contains_str (c # s) (d # q) \<longleftrightarrow> (c = d \<and> starts_with s q) \<or> contains_str s (d # q)"
  by auto

lemma pattern_matches_suffix:
  assumes "list_all (\<lambda>x. \<not> is_sep x) b" "is_sep c" "b @ c # p \<noteq> q"
  shows "pattern_matches (b @ c # p) q \<longleftrightarrow> inner_match p q"
  using assms(2,3)
  by (auto simp: pattern_matches_def inner_match_def contains_at_sep is_sep_def
      contains_after_plain [OF assms(1), unfolded is_sep_def])

lemma is_sep_upper_all: "list_all (\<lambda>c. is_sep (upper_char c) = is_sep c) Enum.enum"
  by code_simp

lemma is_sep_upper [simp]: "is_sep (upper_char c) \<longleftrightarrow> is_sep c"
  using is_sep_upper_all by (simp add: list_all_iff enum_UNIV)

lemma find_cong_set:
  "(\<And>x. x \<in> set xs \<Longrightarrow> P x = Q x) \<Longrightarrow> List.find P xs = List.find Q xs"
  by (induction xs) auto

text \<open>
  A file named \<open><base><sep><quant>.gguf\<close>, with the quantisation in any case and any of the
  three separators, is recognised as exactly that entry of the table: the longest-first order
  of the table never lets a shorter name shadow a longer one. The base must have no separator
  of its own, and base and quantisation together must not spell another entry.
\<close>

theorem infer_quant_exact:
  assumes "to_upper q \<in> set quant_patterns" "is_sep c" "list_all (\<lambda>x. \<not> is_sep x) b"
    and "to_upper (b @ c # q) \<notin> set quant_patterns"
  shows "infer_quant_from_filename (b @ c # q @ ''.gguf'') = Some (to_upper q)"
proof -
  have c: "upper_char c = c" using assms(2) by (auto simp: is_sep_def upper_char_def)
  have b: "list_all (\<lambda>x. \<not> is_sep x) (to_upper b)"
    using assms(3) by (simp add: to_upper_def list_all_iff)
  have up: "to_upper (b @ c # q) = to_upper b @ c # to_upper q"
    using c by (simp add: to_upper_def)
  have "List.find (pattern_matches (to_upper (b @ c # q))) quant_patterns
      = List.find (inner_match (to_upper q)) quant_patterns"
    using assms(4) unfolding up
    by (intro find_cong_set pattern_matches_suffix [OF b assms(2)]) auto
  also have "\<dots> = Some (to_upper q)"
    using table_order assms(1) by (simp add: list_all_iff)
  finally show ?thesis
    using strip_suffix_append [of "''.gguf''" "b @ c # q"]
    by (simp add: infer_quant_from_filename_def del: strip_suffix_append)
qed

theorem infer_quant_exact_witness:
  "infer_quant_from_filename (''Qwen3'' @ CHR ''-'' # ''q4_k_m'' @ ''.gguf'') = Some ''Q4_K_M''"
proof -
  have u: "to_upper ''q4_k_m'' = ''Q4_K_M''" by code_simp
  have v: "to_upper (''Qwen3'' @ CHR ''-'' # ''q4_k_m'') = ''QWEN3-Q4_K_M''" by code_simp
  show ?thesis
    using infer_quant_exact [of "''q4_k_m''" "CHR ''-''" "''Qwen3''"]
    unfolding u v by (simp add: quant_patterns_def is_sep_def)
qed

end
