(* ===== verification/Containers.thy ===== *)
theory Containers
  imports Prelude
begin

text \<open>
  Containers of the standard library and the interfaces components rely on. A \<open>HashMap\<close>
  is an association list with distinct keys: lookups, insertions and removals act on keys
  only, and the list order stands for the unspecified iteration order. The locale
  \<open>keyed_table\<close> is what a client of a table may use; \<open>guarded_rows\<close> extends it with an
  in-place rewrite that is only allowed on rows still owned by the caller;
  \<open>evicting_fifo\<close> is the contract of a queue that drops its oldest elements until the
  rest fits.
\<close>

section \<open>Hash maps\<close>

type_synonym ('k, 'v) hmap = "('k \<times> 'v) list"

definition hm_get :: "('k, 'v) hmap \<Rightarrow> 'k \<Rightarrow> 'v option" where
  "hm_get m k = map_of m k"

definition hm_insert :: "'k \<Rightarrow> 'v \<Rightarrow> ('k, 'v) hmap \<Rightarrow> ('k, 'v) hmap" where
  "hm_insert k v m = AList.update k v m"

definition hm_remove :: "'k \<Rightarrow> ('k, 'v) hmap \<Rightarrow> ('k, 'v) hmap" where
  "hm_remove k m = AList.delete k m"

definition hm_wf :: "('k, 'v) hmap \<Rightarrow> bool" where
  "hm_wf m = distinct (map fst m)"

lemma hm_get_Nil [simp, table_simps]: "hm_get [] k = None"
  by (simp add: hm_get_def)

lemma hm_get_insert [simp, table_simps]:
  "hm_get (hm_insert k v m) k' = (if k' = k then Some v else hm_get m k')"
  by (simp add: hm_get_def hm_insert_def update_conv')

lemma hm_get_remove [simp, table_simps]:
  "hm_get (hm_remove k m) k' = (if k' = k then None else hm_get m k')"
  by (simp add: hm_get_def hm_remove_def delete_conv')

lemma hm_wf_Nil [simp]: "hm_wf []"
  by (simp add: hm_wf_def)

lemma hm_wf_insert [simp]: "hm_wf m \<Longrightarrow> hm_wf (hm_insert k v m)"
  by (simp add: hm_wf_def hm_insert_def distinct_update)

lemma hm_wf_remove [simp]: "hm_wf m \<Longrightarrow> hm_wf (hm_remove k m)"
  by (simp add: hm_wf_def hm_remove_def distinct_delete)

lemma hm_get_in_set: "hm_wf m \<Longrightarrow> hm_get m k = Some v \<longleftrightarrow> (k, v) \<in> set m"
  by (simp add: hm_get_def hm_wf_def)

lemma hm_get_filter: "hm_wf m \<Longrightarrow> hm_get (filter (\<lambda>(k, v). P k v) m) k =
    (case hm_get m k of Some v \<Rightarrow> if P k v then Some v else None | None \<Rightarrow> None)"
proof (induction m)
  case (Cons x m)
  obtain k' v where x: "x = (k', v)" by (cases x)
  from Cons.prems x have "k = k' \<Longrightarrow> map_of m k = None" by (simp add: hm_wf_def map_of_eq_None_iff)
  with Cons x show ?case by (auto simp: hm_get_def hm_wf_def split: option.splits)
qed simp

lemma hm_wf_filter: "hm_wf m \<Longrightarrow> hm_wf (filter P m)"
  unfolding hm_wf_def by (rule distinct_map_filter)

lemma hm_get_SomeD: "hm_get m k = Some v \<Longrightarrow> (k, v) \<in> set m"
  by (simp add: hm_get_def map_of_SomeD)

section \<open>Keyed tables\<close>

locale keyed_table =
  fixes get :: "'s \<Rightarrow> 'k \<Rightarrow> 'v option"
    and put :: "'k \<Rightarrow> 'v \<Rightarrow> 's \<Rightarrow> 's"
    and del :: "'k \<Rightarrow> 's \<Rightarrow> 's"
  assumes get_put: "get (put k v s) k' = (if k' = k then Some v else get s k')"
    and get_del: "get (del k s) k' = (if k' = k then None else get s k')"
begin

lemma get_put_same [simp]: "get (put k v s) k = Some v"
  by (simp add: get_put)

lemma get_put_other: "k' \<noteq> k \<Longrightarrow> get (put k v s) k' = get s k'"
  by (simp add: get_put)

lemma get_del_same [simp]: "get (del k s) k = None"
  by (simp add: get_del)

lemma get_del_put: "get (del k (put k v s)) = get (del k s)"
  by (rule ext) (simp add: get_put get_del)

lemma get_put_put: "get (put k v (put k w s)) = get (put k v s)"
  by (rule ext) (simp add: get_put)

text \<open>Any property every row of a table has survives a write of a row that has it.\<close>

lemma all_rows_put:
  "(\<And>k v. get s k = Some v \<Longrightarrow> P k v) \<Longrightarrow> P k0 v0 \<Longrightarrow> get (put k0 v0 s) k = Some v \<Longrightarrow> P k v"
  by (auto simp: get_put split: if_splits)

lemma all_rows_del:
  "(\<And>k v. get s k = Some v \<Longrightarrow> P k v) \<Longrightarrow> get (del k0 s) k = Some v \<Longrightarrow> P k v"
  by (auto simp: get_del split: if_splits)

end

text \<open>
  A guarded rewrite: \<open>mark k i s\<close> replaces the row under \<open>k\<close> by its \<open>rewrite\<close>, but only
  while the row belongs to \<open>i\<close> and is still open; a rewritten row is closed.
\<close>

locale guarded_rows = keyed_table get put del
  for get :: "'s \<Rightarrow> 'k \<Rightarrow> 'v option" and put :: "'k \<Rightarrow> 'v \<Rightarrow> 's \<Rightarrow> 's" and del :: "'k \<Rightarrow> 's \<Rightarrow> 's" +
  fixes owner :: "'v \<Rightarrow> 'i"
    and is_open :: "'v \<Rightarrow> bool"
    and rewrite :: "'v \<Rightarrow> 'v"
    and mark :: "'k \<Rightarrow> 'i \<Rightarrow> 's \<Rightarrow> 's"
  assumes get_mark: "get (mark k i s) k' =
      (if k' = k then map_option (\<lambda>v. if owner v = i \<and> is_open v then rewrite v else v) (get s k)
       else get s k')"
    and rewrite_closed: "\<not> is_open (rewrite v)"
    and rewrite_owner: "owner (rewrite v) = owner v"
begin

lemma mark_other: "k' \<noteq> k \<Longrightarrow> get (mark k i s) k' = get s k'"
  by (simp add: get_mark)

lemma mark_stale: "get s k = Some v \<Longrightarrow> owner v \<noteq> i \<Longrightarrow> get (mark k i s) = get s"
  by (rule ext) (simp add: get_mark)

lemma mark_closed: "get s k = Some v \<Longrightarrow> \<not> is_open v \<Longrightarrow> get (mark k i s) = get s"
  by (rule ext) (simp add: get_mark)

lemma mark_absent: "get s k = None \<Longrightarrow> get (mark k i s) = get s"
  by (rule ext) (simp add: get_mark)

lemma mark_once: "get (mark k j (mark k i s)) k' =
    (if k' = k \<and> (\<exists>v. get s k = Some v \<and> owner v = i \<and> is_open v)
     then get (mark k i s) k' else get (mark k j s) k')"
  by (cases "get s k") (auto simp: get_mark rewrite_closed rewrite_owner)

lemma mark_dom: "get (mark k i s) k' = None \<longleftrightarrow> get s k' = None"
  by (simp add: get_mark)

end

interpretation hm: keyed_table hm_get hm_insert hm_remove
  by unfold_locales simp_all

section \<open>Evicting queues\<close>

text \<open>
  \<open>evict\<close> pops the front of a queue while it is not empty and does not fit. \<open>fits\<close> is
  the admission test for one more element; it must be closed under dropping the front.
\<close>

fun evict :: "('a list \<Rightarrow> bool) \<Rightarrow> 'a list \<Rightarrow> 'a list" where
  "evict fits [] = []"
| "evict fits (x # xs) = (if fits (x # xs) then x # xs else evict fits xs)"

fun evicted :: "('a list \<Rightarrow> bool) \<Rightarrow> 'a list \<Rightarrow> 'a list" where
  "evicted fits [] = []"
| "evicted fits (x # xs) = (if fits (x # xs) then [] else x # evicted fits xs)"

lemma evicted_append_evict: "evicted fits q @ evict fits q = q"
  by (induction q) auto

lemma suffix_evict: "suffix (evict fits q) q"
  using evicted_append_evict [of fits q] by (metis suffixI)

locale evicting_fifo =
  fixes fits :: "'a list \<Rightarrow> bool"
  assumes fits_tl: "fits (x # xs) \<Longrightarrow> fits xs"
begin

lemma evict_fits: "evict fits q = [] \<or> fits (evict fits q)"
  by (induction q) auto

lemma fits_suffix: "suffix p q \<Longrightarrow> fits q \<Longrightarrow> fits p"
proof (induction q)
  case Nil
  then show ?case by simp
next
  case (Cons x xs)
  then show ?case by (auto simp: suffix_Cons dest: fits_tl)
qed

lemma evict_longest: "suffix p q \<Longrightarrow> fits p \<Longrightarrow> suffix p (evict fits q)"
  by (induction q) (auto simp: suffix_Cons)

lemma evict_id: "fits q \<Longrightarrow> evict fits q = q"
  by (cases q) auto

end

text \<open>A second queue with a stricter admission test stays a suffix of the first.\<close>

locale nested_fifos = outer: evicting_fifo fits_outer + inner: evicting_fifo fits_inner
  for fits_outer :: "'a list \<Rightarrow> bool" and fits_inner :: "'a list \<Rightarrow> bool" +
  assumes inner_outer: "fits_inner q \<Longrightarrow> fits_outer q"
begin

lemma evict_suffix:
  assumes "suffix p q"
  shows "suffix (evict fits_inner p) (evict fits_outer q)"
proof (cases "evict fits_inner p = []")
  case False
  then have "fits_outer (evict fits_inner p)"
    using inner.evict_fits [of p] inner_outer by blast
  moreover have "suffix (evict fits_inner p) q"
    using suffix_evict [of fits_inner p] assms by (rule suffix_order.trans)
  ultimately show ?thesis by (rule outer.evict_longest [rotated])
qed simp

end

end
