(* ===== verification/ProcessTable.thy ===== *)
theory ProcessTable
  imports Containers
begin

text \<open>
  The tamad's table of backend processes: \<open>tamad/src/process_table.rs\<close> with the status words
  of \<open>lifecycle.rs\<close> and the launch request of \<open>tama-core/proto/tamad.proto\<close>. The table is a
  hash map from model names to rows; the read-write lock makes every operation one step.
  The three \<open>mark_*\<close> operations share one guard and are instances of \<open>guarded_rows\<close>.
\<close>

section \<open>Data\<close>

record load_request =
  lr_provider_name :: string
  lr_model_path :: string
  lr_gpu_variant :: string
  lr_params :: "(string, string) hmap"
  lr_model_name :: string
  lr_command :: string
  lr_args :: "string list"
  lr_env :: "(string, string) hmap"
  lr_health_url :: string
  lr_health_timeout_ms :: int
  lr_gpu_device :: string
  lr_docker_config_json :: string

record process_entry =
  pe_model_name :: string
  pe_provider_name :: string
  pe_pid :: u32
  pe_endpoint_url :: string
  pe_status :: string
  pe_started_at :: int
  pe_spec :: load_request
  pe_restart_count :: u32
  pe_window_starts :: "int list"
  pe_user_flagged :: bool

type_synonym process_table = "(string, process_entry) hmap"

definition st_starting :: string where "st_starting = ''starting''"
definition st_ready :: string where "st_ready = ''ready''"
definition st_restarting :: string where "st_restarting = ''restarting''"
definition st_failed :: string where "st_failed = ''failed''"
definition st_budget_exhausted :: string where "st_budget_exhausted = ''budget_exhausted''"
definition st_unloading :: string where "st_unloading = ''unloading''"

lemmas status_words = st_starting_def st_ready_def st_restarting_def st_failed_def
  st_budget_exhausted_def st_unloading_def

definition is_accepted :: "string \<Rightarrow> bool" where
  "is_accepted s = (s \<in> {st_starting, st_ready, st_restarting, st_failed, st_budget_exhausted,
     st_unloading})"

definition can_move_downstream :: "string \<Rightarrow> bool" where
  "can_move_downstream s =
     (s \<notin> {st_failed, st_restarting, st_budget_exhausted, st_unloading})"

definition RESTART_WINDOW_SECS :: int where
  "RESTART_WINDOW_SECS = 300"

section \<open>Operations\<close>

definition pt_insert :: "process_entry \<Rightarrow> process_table \<Rightarrow> process_table" where
  "pt_insert entry t = hm_insert (pe_model_name entry) entry t"

definition pt_remove :: "string \<Rightarrow> process_table \<Rightarrow> process_entry option \<times> process_table" where
  "pt_remove model_name t = (hm_get t model_name, hm_remove model_name t)"

definition pt_get :: "process_table \<Rightarrow> string \<Rightarrow> process_entry option" where
  "pt_get t model_name = hm_get t model_name"

definition pt_list :: "process_table \<Rightarrow> process_entry list" where
  "pt_list t = map snd t"

definition pt_open :: "u32 \<Rightarrow> process_entry \<Rightarrow> bool" where
  "pt_open pid entry = (pe_pid entry = pid \<and> is_accepted (pe_status entry)
     \<and> can_move_downstream (pe_status entry))"

definition mark_failed :: "string \<Rightarrow> u32 \<Rightarrow> process_table \<Rightarrow> process_table" where
  "mark_failed model_name pid t = (case hm_get t model_name of
       None \<Rightarrow> t
     | Some entry \<Rightarrow>
         if pt_open pid entry then hm_insert model_name (entry\<lparr>pe_status := st_failed\<rparr>) t else t)"

definition mark_restarting :: "string \<Rightarrow> u32 \<Rightarrow> process_table \<Rightarrow> bool \<times> process_table" where
  "mark_restarting model_name pid t = (case hm_get t model_name of
       None \<Rightarrow> (False, t)
     | Some entry \<Rightarrow>
         if pt_open pid entry
         then (True, hm_insert model_name (entry\<lparr>pe_status := st_restarting\<rparr>) t) else (False, t))"

definition mark_budget_exhausted :: "string \<Rightarrow> u32 \<Rightarrow> process_table \<Rightarrow> bool \<times> process_table" where
  "mark_budget_exhausted model_name pid t = (case hm_get t model_name of
       None \<Rightarrow> (False, t)
     | Some entry \<Rightarrow>
         if pt_open pid entry
         then (True, hm_insert model_name
                 (entry\<lparr>pe_status := st_budget_exhausted, pe_user_flagged := True\<rparr>) t)
         else (False, t))"

definition record_restart_window :: "string \<Rightarrow> int \<Rightarrow> process_table \<Rightarrow> u32 option \<times> process_table" where
  "record_restart_window model_name now_ms t = (case hm_get t model_name of
       None \<Rightarrow> (None, t)
     | Some entry \<Rightarrow>
         let cutoff = now_ms - RESTART_WINDOW_SECS * 1000;
             starts = filter (\<lambda>ts. cutoff \<le> ts) (pe_window_starts entry @ [now_ms]);
             count = of_nat (length starts)
         in (Some count, hm_insert model_name
               (entry\<lparr>pe_window_starts := starts, pe_restart_count := count\<rparr>) t))"

section \<open>The guarded rewrites\<close>

definition row_open :: "process_entry \<Rightarrow> bool" where
  "row_open entry = (is_accepted (pe_status entry) \<and> can_move_downstream (pe_status entry))"

lemma row_open_iff: "row_open entry \<longleftrightarrow> pe_status entry = st_starting \<or> pe_status entry = st_ready"
  by (auto simp: row_open_def is_accepted_def can_move_downstream_def status_words)

lemma pt_open_iff: "pt_open pid entry \<longleftrightarrow> pe_pid entry = pid \<and> row_open entry"
  by (auto simp: pt_open_def row_open_def)

interpretation failed_rows: guarded_rows hm_get hm_insert hm_remove pe_pid row_open
  "\<lambda>e. e\<lparr>pe_status := st_failed\<rparr>" mark_failed
  by unfold_locales
     (auto simp: mark_failed_def pt_open_iff row_open_iff status_words split: option.splits)

interpretation restarting_rows: guarded_rows hm_get hm_insert hm_remove pe_pid row_open
  "\<lambda>e. e\<lparr>pe_status := st_restarting\<rparr>" "\<lambda>k i t. snd (mark_restarting k i t)"
  by unfold_locales
     (auto simp: mark_restarting_def pt_open_iff row_open_iff status_words split: option.splits)

interpretation exhausted_rows: guarded_rows hm_get hm_insert hm_remove pe_pid row_open
  "\<lambda>e. e\<lparr>pe_status := st_budget_exhausted, pe_user_flagged := True\<rparr>"
  "\<lambda>k i t. snd (mark_budget_exhausted k i t)"
  by unfold_locales
     (auto simp: mark_budget_exhausted_def pt_open_iff row_open_iff status_words split: option.splits)

section \<open>Invariant\<close>

definition row_ok :: "string \<Rightarrow> process_entry \<Rightarrow> bool" where
  "row_ok k e = (pe_model_name e = k \<and> is_accepted (pe_status e)
     \<and> (pe_status e = st_budget_exhausted \<longrightarrow> pe_user_flagged e)
     \<and> pe_restart_count e = of_nat (length (pe_window_starts e)))"

definition table_ok :: "process_table \<Rightarrow> bool" where
  "table_ok t = (hm_wf t \<and> (\<forall>k e. hm_get t k = Some e \<longrightarrow> row_ok k e))"

lemma table_ok_insert:
  "table_ok t \<Longrightarrow> row_ok k e \<Longrightarrow> table_ok (hm_insert k e t)"
  by (simp add: table_ok_def)

lemma table_ok_row: "table_ok t \<Longrightarrow> hm_get t k = Some e \<Longrightarrow> row_ok k e"
  by (simp add: table_ok_def)

lemma table_ok_empty [simp]: "table_ok []"
  by (simp add: table_ok_def)

lemma accepted_words [simp]: "is_accepted st_starting" "is_accepted st_ready" "is_accepted st_restarting"
  "is_accepted st_failed" "is_accepted st_budget_exhausted" "is_accepted st_unloading"
  by (simp_all add: is_accepted_def)

lemma words_distinct [simp]:
  "st_failed \<noteq> st_budget_exhausted" "st_restarting \<noteq> st_budget_exhausted"
  "st_starting \<noteq> st_budget_exhausted" "st_ready \<noteq> st_budget_exhausted"
  "st_failed \<noteq> st_starting" "st_failed \<noteq> st_ready" "st_restarting \<noteq> st_starting"
  "st_restarting \<noteq> st_ready" "st_starting \<noteq> st_ready" "st_failed \<noteq> st_restarting"
  by (simp_all add: status_words)

lemma row_ok_status:
  "row_ok k e \<Longrightarrow> is_accepted w \<Longrightarrow> w \<noteq> st_budget_exhausted \<Longrightarrow> row_ok k (e\<lparr>pe_status := w\<rparr>)"
  by (simp add: row_ok_def)

lemma row_ok_exhausted:
  "row_ok k e \<Longrightarrow> row_ok k (e\<lparr>pe_status := st_budget_exhausted, pe_user_flagged := True\<rparr>)"
  by (simp add: row_ok_def)

lemma table_ok_mark_failed: "table_ok t \<Longrightarrow> table_ok (mark_failed m pid t)"
  by (auto simp: mark_failed_def row_ok_status split: option.splits
      intro!: table_ok_insert dest: table_ok_row)

lemma table_ok_mark_restarting: "table_ok t \<Longrightarrow> table_ok (snd (mark_restarting m pid t))"
  by (auto simp: mark_restarting_def row_ok_status split: option.splits
      intro!: table_ok_insert dest: table_ok_row)

lemma table_ok_mark_exhausted: "table_ok t \<Longrightarrow> table_ok (snd (mark_budget_exhausted m pid t))"
  by (auto simp: mark_budget_exhausted_def row_ok_exhausted split: option.splits
      intro!: table_ok_insert dest: table_ok_row)

lemma table_ok_record: "table_ok t \<Longrightarrow> table_ok (snd (record_restart_window m now t))"
  by (auto simp: record_restart_window_def Let_def row_ok_def split: option.splits
      intro!: table_ok_insert dest: table_ok_row)

lemma table_ok_remove: "table_ok t \<Longrightarrow> table_ok (snd (pt_remove m t))"
  by (simp add: table_ok_def pt_remove_def)

lemma table_ok_pt_insert: "table_ok t \<Longrightarrow> row_ok (pe_model_name e) e \<Longrightarrow> table_ok (pt_insert e t)"
  by (simp add: pt_insert_def table_ok_insert)

text \<open>
  A terminal decision about a row is final: once the row under a name is not open (failed,
  restarting, exhausted or unloading), or belongs to another process, none of the three marks
  for that process changes any row, and both guarded marks report that they did nothing. After
  a successful mark the row is closed, so of two racing decisions only the first takes effect.
\<close>

theorem mark_decision_final:
  assumes "hm_get t m = Some e" "\<not> pt_open pid e"
  shows "hm_get (mark_failed m pid t) = hm_get t
    \<and> mark_restarting m pid t = (False, t) \<and> mark_budget_exhausted m pid t = (False, t)
    \<and> (fst (mark_restarting m pid u) \<longrightarrow> mark_budget_exhausted m pid (snd (mark_restarting m pid u)) = (False, snd (mark_restarting m pid u)))"
proof -
  have "hm_get (mark_failed m pid t) = hm_get t"
    using assms failed_rows.mark_stale [of t m e pid] failed_rows.mark_closed [of t m e pid]
    by (auto simp: pt_open_iff)
  moreover have "mark_restarting m pid t = (False, t) \<and> mark_budget_exhausted m pid t = (False, t)"
    using assms by (simp add: mark_restarting_def mark_budget_exhausted_def)
  moreover have "mark_budget_exhausted m pid (snd (mark_restarting m pid u))
      = (False, snd (mark_restarting m pid u))" if "fst (mark_restarting m pid u)"
  proof -
    from that obtain x where "hm_get u m = Some x" "pt_open pid x"
      by (auto simp: mark_restarting_def split: option.splits if_splits)
    then have x: "hm_get (snd (mark_restarting m pid u)) m = Some (x\<lparr>pe_status := st_restarting\<rparr>)"
      by (simp add: mark_restarting_def)
    have "\<not> pt_open pid (x\<lparr>pe_status := st_restarting\<rparr>)"
      by (simp add: pt_open_iff row_open_iff)
    with x show ?thesis by (simp add: mark_budget_exhausted_def)
  qed
  ultimately show ?thesis by blast
qed

section \<open>The restart window\<close>

fun record_all :: "string \<Rightarrow> int list \<Rightarrow> process_table \<Rightarrow> process_table" where
  "record_all m [] t = t"
| "record_all m (now # later) t = record_all m later (snd (record_restart_window m now t))"

lemma record_all_snoc:
  "record_all m (ts @ [now]) t = snd (record_restart_window m now (record_all m ts t))"
  by (induction ts arbitrary: t) simp_all

abbreviation window_of :: "int \<Rightarrow> int list \<Rightarrow> int list" where
  "window_of now ts \<equiv> filter (\<lambda>x. now - RESTART_WINDOW_SECS * 1000 \<le> x) ts"

lemma record_row:
  "hm_get t m = Some e \<Longrightarrow> hm_get (snd (record_restart_window m now t)) m =
     Some (e\<lparr>pe_window_starts := window_of now (pe_window_starts e @ [now]),
             pe_restart_count := of_nat (length (window_of now (pe_window_starts e @ [now])))\<rparr>)
   \<and> fst (record_restart_window m now t)
       = Some (of_nat (length (window_of now (pe_window_starts e @ [now]))))"
  by (simp add: record_restart_window_def Let_def)

lemma window_of_twice: "a \<le> b \<Longrightarrow> window_of b (window_of a ts) = window_of b ts"
  unfolding filter_filter by (rule filter_cong) auto

lemma record_all_row:
  assumes "hm_get t m = Some e" "pe_window_starts e = []" "sorted (ts @ [now])"
  shows "\<exists>e'. hm_get (record_all m ts t) m = Some e' \<and> pe_pid e' = pe_pid e
    \<and> window_of now (pe_window_starts e') = window_of now ts"
  using assms(3)
proof (induction ts arbitrary: now rule: rev_induct)
  case Nil
  with assms show ?case by auto
next
  case (snoc d ts)
  then have "sorted (ts @ [d])" "d \<le> now" by (auto simp: sorted_append)
  with snoc.IH obtain e' where e': "hm_get (record_all m ts t) m = Some e'" "pe_pid e' = pe_pid e"
    "window_of d (pe_window_starts e') = window_of d ts" by blast
  have "window_of now (window_of d (pe_window_starts e' @ [d])) = window_of now (ts @ [d])"
  proof -
    have "window_of now (window_of d (pe_window_starts e' @ [d])) = window_of now (pe_window_starts e' @ [d])"
      using \<open>d \<le> now\<close> by (rule window_of_twice)
    moreover have "window_of now (pe_window_starts e') = window_of now (window_of d (pe_window_starts e'))"
      using \<open>d \<le> now\<close> by (rule window_of_twice [symmetric])
    moreover have "window_of now (window_of d ts) = window_of now ts"
      using \<open>d \<le> now\<close> by (rule window_of_twice)
    ultimately show ?thesis unfolding e'(3) filter_append by simp
  qed
  with e' record_row [OF e'(1), of d] show ?case
    unfolding record_all_snoc by simp
qed

text \<open>
  The restart budget counts a sliding window: after any history of deaths in time order,
  recording one more death reports exactly the number of deaths of the last 300 seconds,
  although each step only trims the stored stamps.
\<close>

theorem restart_window_counts:
  assumes "hm_get t m = Some e" "pe_window_starts e = []" "sorted (ts @ [now])"
  shows "fst (record_restart_window m now (record_all m ts t)) =
    Some (of_nat (length (window_of now (ts @ [now]))))"
proof -
  from record_all_row [OF assms] obtain e' where
    "hm_get (record_all m ts t) m = Some e'"
    "window_of now (pe_window_starts e') = window_of now ts" by blast
  with record_row [of "record_all m ts t" m e' now] show ?thesis by simp
qed

definition demo_request :: load_request where
  "demo_request = \<lparr>lr_provider_name = ''llama_cpp'', lr_model_path = ''m.gguf'',
     lr_gpu_variant = ''cpu'', lr_params = [], lr_model_name = ''m'', lr_command = ''/bin/llama'',
     lr_args = [''-m'', ''m.gguf''], lr_env = [], lr_health_url = ''http://127.0.0.1:9/health'',
     lr_health_timeout_ms = 1000, lr_gpu_device = [], lr_docker_config_json = []\<rparr>"

definition demo_entry :: "string \<Rightarrow> process_entry" where
  "demo_entry status = \<lparr>pe_model_name = ''m'', pe_provider_name = ''llama_cpp'', pe_pid = 7,
     pe_endpoint_url = [], pe_status = status, pe_started_at = 0, pe_spec = demo_request,
     pe_restart_count = 0, pe_window_starts = [], pe_user_flagged = False\<rparr>"

theorem restart_window_counts_witness:
  "fst (record_restart_window ''m'' 400000
     (record_all ''m'' [1000, 150000, 399000] (pt_insert (demo_entry st_ready) []))) = Some 3"
proof -
  have "hm_get (pt_insert (demo_entry st_ready) []) ''m'' = Some (demo_entry st_ready)"
    by (simp add: pt_insert_def demo_entry_def)
  moreover have "pe_window_starts (demo_entry st_ready) = []" by (simp add: demo_entry_def)
  moreover have "sorted ([1000, 150000, 399000] @ [400000 :: int])" by simp
  ultimately show ?thesis
    using restart_window_counts [of "pt_insert (demo_entry st_ready) []" "''m''" "demo_entry st_ready"
      "[1000, 150000, 399000]" 400000] by (simp add: RESTART_WINDOW_SECS_def)
qed

theorem mark_decision_final_witness:
  "hm_get (mark_failed ''m'' 7 (pt_insert (demo_entry st_restarting) []))
     = hm_get (pt_insert (demo_entry st_restarting) [])
   \<and> mark_budget_exhausted ''m'' 7 (snd (mark_restarting ''m'' 7 (pt_insert (demo_entry st_ready) [])))
     = (False, snd (mark_restarting ''m'' 7 (pt_insert (demo_entry st_ready) [])))"
proof -
  have "hm_get (pt_insert (demo_entry st_restarting) []) ''m'' = Some (demo_entry st_restarting)"
    "\<not> pt_open 7 (demo_entry st_restarting)"
    "fst (mark_restarting ''m'' 7 (pt_insert (demo_entry st_ready) []))"
    by (simp_all add: pt_insert_def demo_entry_def pt_open_iff row_open_iff mark_restarting_def)
  with mark_decision_final [where u = "pt_insert (demo_entry st_ready) []"] show ?thesis by blast
qed

end
