(* ===== verification/Store.thy ===== *)
theory Store
  imports ProcessTable "HOL-Library.List_Lexorder" "HOL-Library.Char_ord"
begin

text \<open>
  The per-model store on the host's disk: \<open>tamad/src/state/store.rs\<close>. A directory is a hash
  map from file names to contents. \<open>serde_json\<close> is the parameter record \<open>manifest_json\<close>.
  Every system call of a write or a removal may fail: the outcome of an operation is an
  argument (\<open>write_fault\<close>, \<open>delete_fault\<close>), so that a theorem about all outcomes covers all
  failures and, read as the last state before a crash, all crash points.
\<close>

section \<open>Data\<close>

record stored_process =
  so_provider_name :: string
  so_model_path :: string
  so_gpu_variant :: string
  so_params :: "(string, string) hmap"
  so_model_name :: string
  so_command :: string
  so_args :: "string list"
  so_env :: "(string, string) hmap"
  so_health_url :: string
  so_health_timeout_ms :: int
  so_gpu_device :: string
  so_docker_config_json :: string
  so_desired :: bool
  so_user_flagged :: bool
  so_max_restarts :: u32
  so_persisted_restart_count :: u32
  so_updated_at_ms :: int

definition DEFAULT_MAX_RESTARTS :: u32 where
  "DEFAULT_MAX_RESTARTS = 10"

record manifest_json =
  m_write :: "stored_process \<Rightarrow> string option"
  m_read :: "string \<Rightarrow> stored_process option"

type_synonym disk = "(string, string) hmap"

record store =
  s_disk :: disk
  s_entries :: "(string, stored_process) hmap"
  s_pid :: u32

definition load_request_of :: "stored_process \<Rightarrow> load_request" where
  "load_request_of sp = \<lparr>lr_provider_name = so_provider_name sp, lr_model_path = so_model_path sp,
     lr_gpu_variant = so_gpu_variant sp, lr_params = so_params sp,
     lr_model_name = so_model_name sp, lr_command = so_command sp, lr_args = so_args sp,
     lr_env = so_env sp, lr_health_url = so_health_url sp,
     lr_health_timeout_ms = so_health_timeout_ms sp, lr_gpu_device = so_gpu_device sp,
     lr_docker_config_json = so_docker_config_json sp\<rparr>"

section \<open>Keys and file names\<close>

definition is_valid_key :: "string \<Rightarrow> bool" where
  "is_valid_key key = (key \<noteq> [] \<and> \<not> starts_with key ''/'' \<and> \<not> contains_str key ''/''
     \<and> \<not> contains_str key ''..'')"

definition file_for_key :: "string \<Rightarrow> string" where
  "file_for_key key = key @ ''.json''"

definition tmp_for_key :: "u32 \<Rightarrow> string \<Rightarrow> string" where
  "tmp_for_key pid key = file_for_key key @ ''.'' @ show_u32 pid @ ''.tmp''"

section \<open>Opening the store\<close>

definition sweep_tmp :: "disk \<Rightarrow> disk" where
  "sweep_tmp d = filter (\<lambda>(name, _). \<not> ends_with name ''.tmp'') d"

definition manifest_of :: "manifest_json \<Rightarrow> string \<times> string \<Rightarrow> (string \<times> stored_process) option" where
  "manifest_of J f = (case f of (name, bytes) \<Rightarrow>
     if ends_with name ''.tmp'' then None
     else (case strip_suffix ''.json'' name of
       None \<Rightarrow> None
     | Some key \<Rightarrow>
         if \<not> is_valid_key key then None
         else map_option (Pair key) (m_read J bytes)))"

definition store_new :: "manifest_json \<Rightarrow> u32 \<Rightarrow> disk \<Rightarrow> store" where
  "store_new J pid d = \<lparr>s_disk = sweep_tmp d,
     s_entries = foldl (\<lambda>m (k, sp). hm_insert k sp m) [] (List.map_filter (manifest_of J) d),
     s_pid = pid\<rparr>"

section \<open>Writing\<close>

text \<open>How far a write gets: each failing call stops it there; a short write leaves a prefix.\<close>

datatype write_fault = WriteOk | FailOpen | FailMode | FailWrite nat | FailSync | FailRename

definition write_stored ::
  "manifest_json \<Rightarrow> write_fault \<Rightarrow> string \<Rightarrow> stored_process \<Rightarrow> store \<Rightarrow> bool \<times> store" where
  "write_stored J fault key stored s =
     (case m_write J stored of
        None \<Rightarrow> (False, s)
      | Some bytes \<Rightarrow>
          let tmp = tmp_for_key (s_pid s) key;
              left = (\<lambda>b. (False, s\<lparr>s_disk := hm_insert tmp b (s_disk s)\<rparr>))
          in case fault of
               FailOpen \<Rightarrow> (False, s)
             | FailMode \<Rightarrow> left []
             | FailWrite n \<Rightarrow> left (take n bytes)
             | FailSync \<Rightarrow> left bytes
             | FailRename \<Rightarrow> left bytes
             | WriteOk \<Rightarrow> (True, s\<lparr>
                 s_disk := hm_insert (file_for_key key) bytes (hm_remove tmp (s_disk s)),
                 s_entries := hm_insert key stored (s_entries s)\<rparr>))"

text \<open>The outcome of a fallible operation: the error kind, or done.\<close>

datatype store_error = InvalidKey | NoManifest | WriteFailed | RemoveFailed

text \<open>What an insertion stores: a re-insertion keeps the flag, the budget and the tally.\<close>

definition stored_as :: "load_request \<Rightarrow> bool \<Rightarrow> int \<Rightarrow> stored_process option \<Rightarrow> stored_process" where
  "stored_as req desired now prev = \<lparr>so_provider_name = lr_provider_name req,
     so_model_path = lr_model_path req, so_gpu_variant = lr_gpu_variant req,
     so_params = lr_params req, so_model_name = lr_model_name req, so_command = lr_command req,
     so_args = lr_args req, so_env = lr_env req, so_health_url = lr_health_url req,
     so_health_timeout_ms = lr_health_timeout_ms req, so_gpu_device = lr_gpu_device req,
     so_docker_config_json = lr_docker_config_json req, so_desired = desired,
     so_user_flagged = (case prev of Some p \<Rightarrow> so_user_flagged p | None \<Rightarrow> False),
     so_max_restarts = (case prev of Some p \<Rightarrow> so_max_restarts p | None \<Rightarrow> DEFAULT_MAX_RESTARTS),
     so_persisted_restart_count = (case prev of Some p \<Rightarrow> so_persisted_restart_count p | None \<Rightarrow> 0),
     so_updated_at_ms = now\<rparr>"

definition store_insert ::
  "manifest_json \<Rightarrow> write_fault \<Rightarrow> int \<Rightarrow> string \<Rightarrow> load_request \<Rightarrow> bool \<Rightarrow> store
     \<Rightarrow> store_error option \<times> store" where
  "store_insert J fault now key req desired s =
     (if \<not> is_valid_key key then (Some InvalidKey, s)
      else
        let stored = stored_as req desired now (hm_get (s_entries s) key);
            (ok, s') = write_stored J fault key stored s
        in (if ok then None else Some WriteFailed, s'))"

definition rewrite_stored ::
  "manifest_json \<Rightarrow> write_fault \<Rightarrow> int \<Rightarrow> string \<Rightarrow> (stored_process \<Rightarrow> stored_process) \<Rightarrow> store
     \<Rightarrow> store_error option \<times> store" where
  "rewrite_stored J fault now key f s =
     (if \<not> is_valid_key key then (Some InvalidKey, s)
      else (case hm_get (s_entries s) key of
          None \<Rightarrow> (Some NoManifest, s)
        | Some sp \<Rightarrow>
            let (ok, s') = write_stored J fault key ((f sp)\<lparr>so_updated_at_ms := now\<rparr>) s
            in (if ok then None else Some WriteFailed, s')))"

definition set_user_flagged where
  "set_user_flagged J fault now key flagged =
     rewrite_stored J fault now key (\<lambda>sp. sp\<lparr>so_user_flagged := flagged\<rparr>)"

definition set_tripped where
  "set_tripped J fault now key tally = rewrite_stored J fault now key
     (\<lambda>sp. sp\<lparr>so_user_flagged := True, so_persisted_restart_count := tally\<rparr>)"

definition zero_persisted_restart_count where
  "zero_persisted_restart_count J fault now key =
     rewrite_stored J fault now key (\<lambda>sp. sp\<lparr>so_persisted_restart_count := 0\<rparr>)"

datatype delete_fault = DeleteOk | DeleteFails

definition store_get :: "store \<Rightarrow> string \<Rightarrow> stored_process option" where
  "store_get s key = (if \<not> is_valid_key key then None else hm_get (s_entries s) key)"

definition store_list :: "store \<Rightarrow> stored_process list" where
  "store_list s = List.map_filter (hm_get (s_entries s)) (sort (map fst (s_entries s)))"

definition store_delete :: "delete_fault \<Rightarrow> string \<Rightarrow> store \<Rightarrow> store_error option \<times> store" where
  "store_delete fault key s =
     (if \<not> is_valid_key key then (None, s)
      else if fault = DeleteFails then (Some RemoveFailed, s)
      else (None, s\<lparr>s_disk := hm_remove (file_for_key key) (s_disk s),
                    s_entries := hm_remove key (s_entries s)\<rparr>))"

section \<open>What a restart reads\<close>

lemma file_not_tmp [simp]: "\<not> ends_with (file_for_key k) ''.tmp''"
  by (auto simp: ends_with_iff file_for_key_def append_eq_append_conv2 Cons_eq_append_conv)

lemma tmp_is_tmp [simp]: "ends_with (tmp_for_key pid k) ''.tmp''"
  unfolding tmp_for_key_def ends_with_iff by (metis append.assoc)

lemma tmp_not_file [simp]: "tmp_for_key pid k \<noteq> file_for_key k'"
  by (metis file_not_tmp tmp_is_tmp)

lemma file_inj [simp]: "file_for_key k = file_for_key k' \<longleftrightarrow> k = k'"
  by (simp add: file_for_key_def)

lemma manifest_file:
  "is_valid_key k \<Longrightarrow> manifest_of J (file_for_key k, b) = map_option (Pair k) (m_read J b)"
proof -
  have "strip_suffix ''.json'' (file_for_key k) = Some k"
    unfolding file_for_key_def by (rule strip_suffix_append)
  then show "is_valid_key k \<Longrightarrow> manifest_of J (file_for_key k, b) = map_option (Pair k) (m_read J b)"
    by (simp add: manifest_of_def)
qed

lemma manifest_key:
  "manifest_of J (n, b) = Some (k, sp) \<Longrightarrow> n = file_for_key k \<and> is_valid_key k \<and> m_read J b = Some sp"
  by (auto simp: manifest_of_def file_for_key_def text_simps split: option.splits if_splits)

lemma map_of_manifests:
  "distinct (map fst d) \<Longrightarrow> map_of (List.map_filter (manifest_of J) d) k =
     (if is_valid_key k then Option.bind (map_of d (file_for_key k)) (m_read J) else None)"
proof (induction d)
  case (Cons f d)
  obtain n b where f: "f = (n, b)" by (cases f)
  show ?case
  proof (cases "manifest_of J f")
    case None
    show ?thesis
    proof (cases "n = file_for_key k")
      case True
      then have "is_valid_key k \<Longrightarrow> m_read J b = None"
        using None manifest_file [of k J b] f by simp
      moreover have none: "map_of d (file_for_key k) = None"
        using Cons.prems f True by (simp add: map_of_eq_None_iff)
      ultimately show ?thesis using Cons None f True by (simp add: map_filter_simps none)
    next
      case False
      with Cons None f show ?thesis by (simp add: map_filter_simps)
    qed
  next
    case (Some m)
    obtain k' sp where m: "m = (k', sp)" by (cases m)
    with Some f manifest_key [of J n b k' sp] Cons show ?thesis
      by (auto simp: map_filter_simps)
  qed
qed (simp add: map_filter_simps)

lemma distinct_manifests:
  "distinct (map fst d) \<Longrightarrow> distinct (map fst (List.map_filter (manifest_of J) d))"
proof (induction d)
  case (Cons f d)
  obtain n b where f: "f = (n, b)" by (cases f)
  show ?case
  proof (cases "manifest_of J f")
    case (Some m)
    obtain k sp where m: "m = (k, sp)" by (cases m)
    have n: "n = file_for_key k" using Some f m manifest_key by blast
    have none: "map_of d (file_for_key k) = None"
      using Cons.prems f n by (simp add: map_of_eq_None_iff)
    have "map_of (List.map_filter (manifest_of J) d) k = None"
      using Cons.prems f by (simp add: map_of_manifests none)
    with Some m Cons f show ?thesis by (simp add: map_filter_simps map_of_eq_None_iff)
  qed (use Cons f in \<open>simp add: map_filter_simps\<close>)
qed (simp add: map_filter_simps)

lemma hm_get_foldl_insert:
  "distinct (map fst xs) \<Longrightarrow> hm_get (foldl (\<lambda>m (k, v). hm_insert k v m) m0 xs) k =
     (case map_of xs k of Some v \<Rightarrow> Some v | None \<Rightarrow> hm_get m0 k)"
proof (induction xs arbitrary: m0)
  case (Cons x xs)
  obtain k' v where x: "x = (k', v)" by (cases x)
  with Cons.prems have "k = k' \<Longrightarrow> map_of xs k = None" by (simp add: map_of_eq_None_iff)
  with Cons x show ?case by (auto split: option.splits)
qed simp

definition manifest_view :: "manifest_json \<Rightarrow> disk \<Rightarrow> string \<Rightarrow> stored_process option" where
  "manifest_view J d k =
     (if is_valid_key k then Option.bind (hm_get d (file_for_key k)) (m_read J) else None)"

lemma store_new_entries:
  "hm_wf d \<Longrightarrow> hm_get (s_entries (store_new J pid d)) k = manifest_view J d k"
  using hm_get_foldl_insert [OF distinct_manifests [of d J], of "[]" k]
  by (simp add: store_new_def hm_wf_def map_of_manifests manifest_view_def hm_get_def
      split: option.split)

lemma sweep_view: "hm_wf d \<Longrightarrow> manifest_view J (sweep_tmp d) k = manifest_view J d k"
proof -
  assume wf: "hm_wf d"
  have "map_of (filter (\<lambda>(name, _). \<not> ends_with name ''.tmp'') d) (file_for_key k)
      = map_of d (file_for_key k)"
    by (induction d) auto
  then show ?thesis by (simp add: manifest_view_def sweep_tmp_def hm_get_def)
qed

section \<open>Memory and disk agree\<close>

definition serde_lossless :: "manifest_json \<Rightarrow> bool" where
  "serde_lossless J = (\<forall>sp b. m_write J sp = Some b \<longrightarrow> m_read J b = Some sp)"

definition store_coherent :: "manifest_json \<Rightarrow> store \<Rightarrow> bool" where
  "store_coherent J s = (hm_wf (s_disk s) \<and> (\<forall>k. hm_get (s_entries s) k = manifest_view J (s_disk s) k))"

lemma hm_wf_sweep: "hm_wf d \<Longrightarrow> hm_wf (sweep_tmp d)"
proof -
  assume "hm_wf d"
  then have "distinct (map fst (filter P d))" for P
    unfolding hm_wf_def by (rule distinct_map_filter)
  then show ?thesis by (simp add: hm_wf_def sweep_tmp_def)
qed

lemma coherent_new: "hm_wf d \<Longrightarrow> store_coherent J (store_new J pid d)"
  by (simp add: store_coherent_def store_new_entries)
     (simp add: store_new_def hm_wf_sweep sweep_view)

lemma view_tmp [simp]: "manifest_view J (hm_insert (tmp_for_key pid key) b d) = manifest_view J d"
  "manifest_view J (hm_remove (tmp_for_key pid key) d) = manifest_view J d"
  by (rule ext, simp add: manifest_view_def tmp_not_file [symmetric])+

lemma view_file:
  "is_valid_key key \<Longrightarrow> manifest_view J (hm_insert (file_for_key key) b d) k =
     (if k = key then m_read J b else manifest_view J d k)"
  by (auto simp: manifest_view_def)

lemma view_removed:
  "manifest_view J (hm_remove (file_for_key key) d) k = (if k = key then None else manifest_view J d k)"
  by (auto simp: manifest_view_def)

lemma write_stored_coherent:
  assumes "serde_lossless J" "store_coherent J s" "is_valid_key key"
  shows "store_coherent J (snd (write_stored J fault key sp s))"
  using assms
  by (auto simp: write_stored_def store_coherent_def serde_lossless_def Let_def view_file
      split: option.splits write_fault.splits)

lemma write_stored_entries:
  "write_stored J fault key sp s = (ok, s') \<Longrightarrow> s_entries s' = (if ok then hm_insert key sp (s_entries s) else s_entries s)"
  by (auto simp: write_stored_def Let_def split: option.splits write_fault.splits)

lemma store_insert_coherent:
  assumes "serde_lossless J" "store_coherent J s"
  shows "store_coherent J (snd (store_insert J fault now key req desired s))"
  using assms write_stored_coherent [OF assms]
  by (simp add: store_insert_def Let_def split: prod.split option.split) (metis snd_conv)

lemma rewrite_stored_coherent:
  assumes "serde_lossless J" "store_coherent J s"
  shows "store_coherent J (snd (rewrite_stored J fault now key f s))"
  using assms write_stored_coherent [OF assms]
  by (simp add: rewrite_stored_def Let_def split: prod.split option.split) (metis snd_conv)

lemma store_delete_coherent:
  "store_coherent J s \<Longrightarrow> store_coherent J (snd (store_delete fault key s))"
  by (auto simp: store_delete_def store_coherent_def view_removed)

datatype store_op =
    OpInsert string load_request bool | OpFlag string bool | OpTrip string u32 | OpZero string
  | OpDelete string

text \<open>One operation with its outcome: the faults of a write and of a removal, and the clock.\<close>

fun run_op :: "manifest_json \<Rightarrow> store_op \<times> write_fault \<times> delete_fault \<times> int \<Rightarrow> store \<Rightarrow> store" where
  "run_op J (OpInsert key req desired, fl, df, now) s = snd (store_insert J fl now key req desired s)"
| "run_op J (OpFlag key b, fl, df, now) s = snd (set_user_flagged J fl now key b s)"
| "run_op J (OpTrip key n, fl, df, now) s = snd (set_tripped J fl now key n s)"
| "run_op J (OpZero key, fl, df, now) s = snd (zero_persisted_restart_count J fl now key s)"
| "run_op J (OpDelete key, fl, df, now) s = snd (store_delete df key s)"

lemma run_op_coherent:
  "serde_lossless J \<Longrightarrow> store_coherent J s \<Longrightarrow> store_coherent J (run_op J op s)"
  by (cases "(J, op, s)" rule: run_op.cases)
     (simp_all add: store_insert_coherent rewrite_stored_coherent store_delete_coherent
        set_user_flagged_def set_tripped_def zero_persisted_restart_count_def)

lemma run_ops_coherent:
  "serde_lossless J \<Longrightarrow> store_coherent J s \<Longrightarrow> store_coherent J (fold (run_op J) ops s)"
  by (induction ops arbitrary: s) (simp_all add: run_op_coherent)

text \<open>
  C18. A restart loses nothing and invents nothing: after any sequence of operations, each
  stopped at any of its system calls or completed, opening the directory again gives exactly
  the table the daemon had in memory, corrupt and left-over temporary files included.
\<close>

theorem store_restart_faithful:
  assumes "serde_lossless J" "hm_wf d"
  shows "hm_get (s_entries (store_new J pid' (s_disk (fold (run_op J) ops (store_new J pid d))))) k
      = hm_get (s_entries (fold (run_op J) ops (store_new J pid d))) k"
proof -
  have "store_coherent J (fold (run_op J) ops (store_new J pid d))"
    using assms by (intro run_ops_coherent coherent_new)
  then show ?thesis by (simp add: store_coherent_def store_new_entries)
qed

text \<open>
  The store is a map of manifests with all-or-nothing operations: a failed operation
  leaves the map as it was; a completed insertion sets the launch fields of its key and keeps
  an operator's flag, the restart budget and the tally; a trip sets the flag and the tally in
  one write; a removal drops its key; and what an insertion stored rehydrates to the request.
\<close>

theorem store_refines_map:
  assumes "is_valid_key key"
  shows "(case store_insert J fault now key req desired s of (e, s') \<Rightarrow>
      hm_get (s_entries s') = (if e = None
        then (hm_get (s_entries s))(key \<mapsto> stored_as req desired now (hm_get (s_entries s) key))
        else hm_get (s_entries s)))
    \<and> (case set_tripped J fault now key tally s of (e, s') \<Rightarrow>
      hm_get (s_entries s') = (if e = None
        then (hm_get (s_entries s))(key := map_option (\<lambda>sp. sp\<lparr>so_user_flagged := True,
               so_persisted_restart_count := tally, so_updated_at_ms := now\<rparr>) (hm_get (s_entries s) key))
        else hm_get (s_entries s)))
    \<and> (case store_delete dfault key s of (e, s') \<Rightarrow>
      hm_get (s_entries s') = (if e = None then (hm_get (s_entries s))(key := None)
        else hm_get (s_entries s)))
    \<and> load_request_of (stored_as req desired now prev) = req"
proof (intro conjI)
  show "case store_insert J fault now key req desired s of (e, s') \<Rightarrow>
      hm_get (s_entries s') = (if e = None
        then (hm_get (s_entries s))(key \<mapsto> stored_as req desired now (hm_get (s_entries s) key))
        else hm_get (s_entries s))"
    using assms
    by (auto simp: store_insert_def Let_def fun_eq_iff split: option.splits prod.splits
        dest!: write_stored_entries)
  show "case set_tripped J fault now key tally s of (e, s') \<Rightarrow>
      hm_get (s_entries s') = (if e = None
        then (hm_get (s_entries s))(key := map_option (\<lambda>sp. sp\<lparr>so_user_flagged := True,
               so_persisted_restart_count := tally, so_updated_at_ms := now\<rparr>) (hm_get (s_entries s) key))
        else hm_get (s_entries s))"
    using assms
    by (auto simp: set_tripped_def rewrite_stored_def Let_def fun_eq_iff split: option.splits prod.splits
        dest!: write_stored_entries)
  show "case store_delete dfault key s of (e, s') \<Rightarrow>
      hm_get (s_entries s') = (if e = None then (hm_get (s_entries s))(key := None)
        else hm_get (s_entries s))"
    using assms by (auto simp: store_delete_def fun_eq_iff)
  show "load_request_of (stored_as req desired now prev) = req"
    by (cases req) (simp add: load_request_of_def stored_as_def)
qed

section \<open>A concrete store\<close>

definition demo_stored :: stored_process where
  "demo_stored = stored_as demo_request True 5 None"

definition demo_manifests :: manifest_json where
  "demo_manifests = \<lparr>m_write = (\<lambda>sp. if sp = demo_stored then Some ''{m}'' else None),
     m_read = (\<lambda>b. if b = ''{m}'' then Some demo_stored else None)\<rparr>"

lemma demo_serde: "serde_lossless demo_manifests"
  by (simp add: serde_lossless_def demo_manifests_def)

lemma demo_key: "is_valid_key ''m''"
  by (simp add: is_valid_key_def)

theorem store_restart_faithful_witness:
  "hm_get (s_entries (store_new demo_manifests 2 (s_disk (fold (run_op demo_manifests)
      [(OpInsert ''m'' demo_request True, WriteOk, DeleteOk, 5), (OpDelete ''m'', WriteOk, DeleteFails, 6)]
      (store_new demo_manifests 1 [(''bad.json'', ''?''), (''m.json.1.tmp'', ''{'')]))))) ''m''
    = Some demo_stored"
proof -
  let ?d = "[(''bad.json'', ''?''), (''m.json.1.tmp'', ''{'')]"
  let ?ops = "[(OpInsert ''m'' demo_request True, WriteOk, DeleteOk, 5),
      (OpDelete ''m'', WriteOk, DeleteFails, 6)]"
  have wf: "hm_wf ?d" by (simp add: hm_wf_def)
  have "manifest_view demo_manifests ?d ''m'' = None"
    by (simp add: manifest_view_def demo_key file_for_key_def hm_get_def)
  then have start: "hm_get (s_entries (store_new demo_manifests 1 ?d)) ''m'' = None"
    using store_new_entries [OF wf] by simp
  have new: "stored_as demo_request True 5 None = demo_stored" by (simp add: demo_stored_def)
  have "hm_get (s_entries (fold (run_op demo_manifests) ?ops (store_new demo_manifests 1 ?d))) ''m''
      = Some demo_stored"
    by (simp add: store_insert_def store_delete_def demo_key start new write_stored_def
        demo_manifests_def Let_def) (simp add: start [unfolded demo_manifests_def] new)
  then show ?thesis
    unfolding store_restart_faithful [OF demo_serde wf] .
qed

theorem store_refines_map_witness:
  "is_valid_key ''m''
   \<and> hm_get (s_entries (snd (store_delete DeleteOk ''m''
        \<lparr>s_disk = [], s_entries = [(''m'', demo_stored)], s_pid = 1\<rparr>))) ''m'' = None
   \<and> load_request_of (stored_as demo_request True 5 None) = demo_request"
proof -
  let ?s = "\<lparr>s_disk = [], s_entries = [(''m'', demo_stored)], s_pid = 1\<rparr>"
  have e: "fst (store_delete DeleteOk ''m'' ?s) = None" by (simp add: store_delete_def)
  note r = store_refines_map [OF demo_key, where s = ?s and dfault = DeleteOk
      and req = demo_request and desired = True and now = 5 and prev = None, unfolded case_prod_beta]
  from r e have "hm_get (s_entries (snd (store_delete DeleteOk ''m'' ?s)))
      = (hm_get (s_entries ?s))(''m'' := None)" by presburger
  moreover from r have "load_request_of (stored_as demo_request True 5 None) = demo_request" by blast
  ultimately show ?thesis using demo_key by simp
qed

end
