(* ===== verification/ModelConfig.thy ===== *)
theory ModelConfig
  imports Quants
begin

text \<open>
  Model settings: \<open>ModelConfig\<close> of \<open>tama-core/src/config/types/model.rs\<close>, the database row
  \<open>ModelConfigRecord\<close> of \<open>db/queries/types.rs\<close>, the conversions between them and the legacy
  batch-flag migration. \<open>serde_json\<close> is the parameter record \<open>json_ops\<close>: one writer (\<open>None\<close> is
  its error) and one reader per column type.
\<close>

section \<open>Data\<close>

record health_check =
  hc_url :: "string option"
  hc_interval_ms :: "64 word option"
  hc_timeout_ms :: "64 word option"

record spec_decoding_config =
  sd_spec_types :: "string list"
  sd_n_max :: "u32 option"
  sd_n_min :: "u32 option"
  sd_draft_ngl :: "u32 option"

record model_modalities =
  mm_input :: "string list"
  mm_output :: "string list"

record 'f model_config =
  mc_backend :: string
  mc_gpu_variant :: "gpu_variant option"
  mc_gpu_device :: "string option"
  mc_args :: "string list"
  mc_sampling :: "'f sampling_params option"
  mc_model :: "string option"
  mc_quant :: "string option"
  mc_mmproj :: "string option"
  mc_mtp_model :: "string option"
  mc_port :: "u16 option"
  mc_health_check :: "health_check option"
  mc_enabled :: bool
  mc_context_length :: "u32 option"
  mc_num_parallel :: "u32 option"
  mc_kv_unified :: bool
  mc_profile :: "string option"
  mc_api_name :: "string option"
  mc_gpu_layers :: "u32 option"
  mc_cache_type_k :: "string option"
  mc_cache_type_v :: "string option"
  mc_hf_format :: "string option"
  mc_hf_base_model :: "string option"
  mc_hf_pipeline_tag :: "string option"
  mc_hf_total_params :: "string option"
  mc_hf_active_params :: "string option"
  mc_hf_architecture_type :: "string option"
  mc_hf_context_length :: "u32 option"
  mc_hf_num_layers :: "u32 option"
  mc_hf_last_modified :: "string option"
  mc_quants :: "string \<rightharpoonup> quant_entry"
  mc_modalities :: "model_modalities option"
  mc_reasoning_levels :: "string list option"
  mc_display_name :: "string option"
  mc_db_id :: "64 word option"
  mc_spec_decoding :: spec_decoding_config
  mc_n_batch :: "u32 option"
  mc_n_ubatch :: "u32 option"
  mc_vllm :: "'f vllm_config"
  mc_provider_name :: "string option"

record model_config_record =
  mr_id :: "64 word"
  mr_repo_id :: string
  mr_display_name :: "string option"
  mr_backend :: string
  mr_gpu_variant :: "string option"
  mr_gpu_device :: "string option"
  mr_enabled :: bool
  mr_selected_quant :: "string option"
  mr_selected_mmproj :: "string option"
  mr_selected_mtp_model :: "string option"
  mr_context_length :: "u32 option"
  mr_num_parallel :: "u32 option"
  mr_kv_unified :: bool
  mr_gpu_layers :: "u32 option"
  mr_cache_type_k :: "string option"
  mr_cache_type_v :: "string option"
  mr_port :: "u16 option"
  mr_args :: "string option"
  mr_sampling :: "string option"
  mr_modalities :: "string option"
  mr_profile :: "string option"
  mr_api_name :: "string option"
  mr_health_check :: "string option"
  mr_hf_format :: "string option"
  mr_hf_base_model :: "string option"
  mr_hf_pipeline_tag :: "string option"
  mr_hf_total_params :: "string option"
  mr_hf_active_params :: "string option"
  mr_hf_architecture_type :: "string option"
  mr_hf_context_length :: "u32 option"
  mr_hf_num_layers :: "u32 option"
  mr_hf_last_modified :: "string option"
  mr_spec_decoding :: "string option"
  mr_created_at :: string
  mr_updated_at :: string
  mr_n_batch :: "int option"
  mr_n_ubatch :: "int option"
  mr_vllm_config :: "string option"
  mr_provider_name :: "string option"
  mr_reasoning_levels :: "string option"

definition spec_default :: spec_decoding_config where
  "spec_default = \<lparr>sd_spec_types = [], sd_n_max = None, sd_n_min = None, sd_draft_ngl = None\<rparr>"

definition supports_reasoning_effort :: "'f model_config \<Rightarrow> bool" where
  "supports_reasoning_effort m =
     (case mc_reasoning_levels m of None \<Rightarrow> False | Some levels \<Rightarrow> levels \<noteq> [])"

section \<open>Legacy batch flags\<close>

definition normalize_flag_name :: "string \<Rightarrow> string option" where
  "normalize_flag_name name =
     (if name \<in> {''b'', ''batch'', ''batch-size''} then Some ''batch''
      else if name \<in> {''ub'', ''ubatch'', ''ubatch-size''} then Some ''ubatch''
      else None)"

definition strip_dashes :: "string \<Rightarrow> string option" where
  "strip_dashes flag = opt_or (strip_prefix ''--'' flag) (strip_prefix ''-'' flag)"

text \<open>\<open>rest\<close> is what follows position \<open>i\<close>; the result is kind, size and consumed elements.\<close>

definition try_parse_flag :: "string \<Rightarrow> string list \<Rightarrow> (string \<times> u32 \<times> nat) option" where
  "try_parse_flag arg rest =
     (if CHR ''='' \<in> set arg then
        (case strip_dashes (takeWhile (\<lambda>c. c \<noteq> CHR ''='') arg) of
           None \<Rightarrow> None
         | Some stripped \<Rightarrow>
             (case normalize_flag_name stripped of
                None \<Rightarrow> None
              | Some kind \<Rightarrow>
                  map_option (\<lambda>size. (kind, size, 1))
                    (parse_u32 (tl (dropWhile (\<lambda>c. c \<noteq> CHR ''='') arg)))))
      else
        (case strip_dashes arg of
           None \<Rightarrow> None
         | Some stripped \<Rightarrow>
             (case normalize_flag_name stripped of
                None \<Rightarrow> None
              | Some kind \<Rightarrow>
                  (case rest of
                     [] \<Rightarrow> None
                   | value # _ \<Rightarrow> map_option (\<lambda>size. (kind, size, 2)) (parse_u32 value)))))"

fun normalize_loop :: "u32 option \<Rightarrow> u32 option \<Rightarrow> string list \<Rightarrow> u32 option \<times> u32 option \<times> string list"
where
  "normalize_loop nb nub [] = (nb, nub, [])"
| "normalize_loop nb nub (arg # rest) =
     (case try_parse_flag arg rest of
        Some (kind, v, consumed) \<Rightarrow>
          normalize_loop
            (if kind = ''batch'' \<and> nb = None then Some v else nb)
            (if kind = ''ubatch'' \<and> nub = None then Some v else nub)
            (drop (consumed - 1) rest)
      | None \<Rightarrow> (case normalize_loop nb nub rest of (b, ub, args) \<Rightarrow> (b, ub, arg # args)))"

definition normalize_legacy_args ::
  "string list \<Rightarrow> u32 option \<Rightarrow> u32 option \<Rightarrow> u32 option \<times> u32 option \<times> string list" where
  "normalize_legacy_args args col_n_batch col_n_ubatch = normalize_loop col_n_batch col_n_ubatch args"

section \<open>Database conversion\<close>

record 'f json_ops =
  j_strings :: "string list \<Rightarrow> string option"
  j_strings_of :: "string \<Rightarrow> string list option"
  j_sampling :: "'f sampling_params \<Rightarrow> string option"
  j_sampling_of :: "string \<Rightarrow> 'f sampling_params option"
  j_modalities :: "model_modalities \<Rightarrow> string option"
  j_modalities_of :: "string \<Rightarrow> model_modalities option"
  j_health :: "health_check \<Rightarrow> string option"
  j_health_of :: "string \<Rightarrow> health_check option"
  j_spec :: "spec_decoding_config \<Rightarrow> string option"
  j_spec_of :: "string \<Rightarrow> spec_decoding_config option"
  j_vllm :: "'f vllm_config \<Rightarrow> string option"
  j_vllm_of :: "string \<Rightarrow> 'f vllm_config option"

abbreviation and_then :: "'a option \<Rightarrow> ('a \<Rightarrow> 'b option) \<Rightarrow> 'b option" where
  "and_then \<equiv> Option.bind"

definition nonempty :: "string option \<Rightarrow> string option" where
  "nonempty v = (case v of None \<Rightarrow> None | Some s \<Rightarrow> if s = [] then None else Some s)"

definition unwrap_or :: "'a option \<Rightarrow> 'a \<Rightarrow> 'a" where
  "unwrap_or v d = (case v of None \<Rightarrow> d | Some x \<Rightarrow> x)"

text \<open>The casts \<open>as i32\<close> and \<open>as u32\<close>: the stored column is the signed reading of the word.\<close>

definition as_i32 :: "u32 \<Rightarrow> int" where
  "as_i32 v = sint v"

definition as_u32 :: "int \<Rightarrow> u32" where
  "as_u32 i = word_of_int i"

lemma as_u32_as_i32 [simp]: "as_u32 (as_i32 v) = v"
  by (simp add: as_u32_def as_i32_def)

definition to_db_record :: "'f json_ops \<Rightarrow> string \<Rightarrow> 'f model_config \<Rightarrow> string \<Rightarrow> model_config_record"
where
  "to_db_record J now m repo_id = \<lparr>
     mr_id = 0, mr_repo_id = repo_id, mr_display_name = mc_display_name m,
     mr_backend = mc_backend m, mr_gpu_variant = map_option variant_folder (mc_gpu_variant m),
     mr_gpu_device = mc_gpu_device m, mr_enabled = mc_enabled m,
     mr_selected_quant = mc_quant m, mr_selected_mmproj = mc_mmproj m,
     mr_selected_mtp_model = mc_mtp_model m, mr_context_length = mc_context_length m,
     mr_num_parallel = mc_num_parallel m, mr_kv_unified = mc_kv_unified m,
     mr_gpu_layers = mc_gpu_layers m, mr_cache_type_k = mc_cache_type_k m,
     mr_cache_type_v = mc_cache_type_v m, mr_port = mc_port m,
     mr_args = j_strings J (mc_args m),
     mr_sampling = and_then (mc_sampling m) (j_sampling J),
     mr_modalities = and_then (mc_modalities m) (j_modalities J),
     mr_profile = mc_profile m, mr_api_name = mc_api_name m,
     mr_health_check = and_then (mc_health_check m) (j_health J),
     mr_hf_format = mc_hf_format m, mr_hf_base_model = mc_hf_base_model m,
     mr_hf_pipeline_tag = mc_hf_pipeline_tag m, mr_hf_total_params = mc_hf_total_params m,
     mr_hf_active_params = mc_hf_active_params m,
     mr_hf_architecture_type = mc_hf_architecture_type m,
     mr_hf_context_length = mc_hf_context_length m, mr_hf_num_layers = mc_hf_num_layers m,
     mr_hf_last_modified = mc_hf_last_modified m,
     mr_spec_decoding = j_spec J (mc_spec_decoding m),
     mr_created_at = now, mr_updated_at = now,
     mr_n_batch = map_option as_i32 (mc_n_batch m),
     mr_n_ubatch = map_option as_i32 (mc_n_ubatch m),
     mr_vllm_config = j_vllm J (mc_vllm m), mr_provider_name = mc_provider_name m,
     mr_reasoning_levels = and_then (mc_reasoning_levels m) (j_strings J)\<rparr>"

definition from_db_record :: "'f json_ops \<Rightarrow> model_config_record \<Rightarrow> 'f model_config" where
  "from_db_record J r =
     (case normalize_legacy_args (unwrap_or (and_then (mr_args r) (j_strings_of J)) [])
             (map_option as_u32 (mr_n_batch r)) (map_option as_u32 (mr_n_ubatch r)) of
      (nb, nub, args) \<Rightarrow> \<lparr>
        mc_backend = mr_backend r,
        mc_gpu_variant = map_option (\<lambda>s. unwrap_or (gpu_variant_parse s) Custom) (mr_gpu_variant r),
        mc_gpu_device = mr_gpu_device r, mc_args = args,
        mc_sampling = and_then (mr_sampling r) (j_sampling_of J),
        mc_model = Some (mr_repo_id r), mc_quant = mr_selected_quant r,
        mc_mmproj = mr_selected_mmproj r,
        mc_mtp_model = nonempty (mr_selected_mtp_model r), mc_port = mr_port r,
        mc_health_check = and_then (mr_health_check r) (j_health_of J),
        mc_enabled = mr_enabled r, mc_context_length = mr_context_length r,
        mc_num_parallel = mr_num_parallel r, mc_kv_unified = mr_kv_unified r,
        mc_profile = mr_profile r,
        mc_api_name = opt_or (nonempty (mr_api_name r)) (Some (mr_repo_id r)),
        mc_gpu_layers = mr_gpu_layers r, mc_cache_type_k = mr_cache_type_k r,
        mc_cache_type_v = mr_cache_type_v r, mc_hf_format = nonempty (mr_hf_format r),
        mc_hf_base_model = nonempty (mr_hf_base_model r),
        mc_hf_pipeline_tag = nonempty (mr_hf_pipeline_tag r),
        mc_hf_total_params = nonempty (mr_hf_total_params r),
        mc_hf_active_params = nonempty (mr_hf_active_params r),
        mc_hf_architecture_type = nonempty (mr_hf_architecture_type r),
        mc_hf_context_length = mr_hf_context_length r, mc_hf_num_layers = mr_hf_num_layers r,
        mc_hf_last_modified = nonempty (mr_hf_last_modified r),
        mc_quants = Map.empty,
        mc_modalities = and_then (mr_modalities r) (j_modalities_of J),
        mc_reasoning_levels = and_then (mr_reasoning_levels r) (j_strings_of J),
        mc_display_name = mr_display_name r, mc_db_id = Some (mr_id r),
        mc_spec_decoding =
          unwrap_or (and_then (mr_spec_decoding r) (j_spec_of J)) spec_default,
        mc_n_batch = nb, mc_n_ubatch = nub,
        mc_vllm = unwrap_or (and_then (mr_vllm_config r) (j_vllm_of J)) vllm_default,
        mc_provider_name = mr_provider_name r\<rparr>)"

section \<open>Properties\<close>

text \<open>
  What the row conversions rely on: \<open>serde_json\<close> reads back what it wrote, for the values of
  one configuration (it refuses non-finite floats, so not for all values).
\<close>

definition json_lossless_on :: "'f json_ops \<Rightarrow> 'f model_config \<Rightarrow> bool" where
  "json_lossless_on J m =
     (and_then (j_strings J (mc_args m)) (j_strings_of J) = Some (mc_args m)
      \<and> pred_option (\<lambda>x. and_then (j_sampling J x) (j_sampling_of J) = Some x) (mc_sampling m)
      \<and> pred_option (\<lambda>x. and_then (j_modalities J x) (j_modalities_of J) = Some x) (mc_modalities m)
      \<and> pred_option (\<lambda>x. and_then (j_health J x) (j_health_of J) = Some x) (mc_health_check m)
      \<and> pred_option (\<lambda>x. and_then (j_strings J x) (j_strings_of J) = Some x) (mc_reasoning_levels m)
      \<and> and_then (j_spec J (mc_spec_decoding m)) (j_spec_of J) = Some (mc_spec_decoding m)
      \<and> and_then (j_vllm J (mc_vllm m)) (j_vllm_of J) = Some (mc_vllm m))"

fun legacy_free :: "string list \<Rightarrow> bool" where
  "legacy_free [] = True"
| "legacy_free (a # rest) = (try_parse_flag a rest = None \<and> legacy_free rest)"

lemma normalize_legacy_free:
  "legacy_free args \<Longrightarrow> normalize_loop nb nub args = (nb, nub, args)"
  by (induction args) simp_all

definition drop_version :: "gpu_variant \<Rightarrow> gpu_variant" where
  "drop_version v = (case v of Cuda _ \<Rightarrow> Cuda [] | RocM _ \<Rightarrow> RocM [] | _ \<Rightarrow> v)"

lemma variant_text_roundtrip:
  "gpu_variant_parse (variant_folder v) = Some (drop_version v)"
proof -
  have "to_lower (variant_folder v) = variant_folder v"
    by (cases v) (simp_all add: variant_folder_def to_lower_def lower_char_def)
  then show ?thesis
    by (cases v) (simp_all add: gpu_variant_parse_def variant_folder_def drop_version_def)
qed

text \<open>What storing and loading changes: the identity fields and what the row cannot hold.\<close>

definition stored_form :: "string \<Rightarrow> 'f model_config \<Rightarrow> 'f model_config" where
  "stored_form repo_id m = m\<lparr>
     mc_gpu_variant := map_option drop_version (mc_gpu_variant m),
     mc_model := Some repo_id,
     mc_mtp_model := nonempty (mc_mtp_model m),
     mc_api_name := opt_or (nonempty (mc_api_name m)) (Some repo_id),
     mc_hf_format := nonempty (mc_hf_format m),
     mc_hf_base_model := nonempty (mc_hf_base_model m),
     mc_hf_pipeline_tag := nonempty (mc_hf_pipeline_tag m),
     mc_hf_total_params := nonempty (mc_hf_total_params m),
     mc_hf_active_params := nonempty (mc_hf_active_params m),
     mc_hf_architecture_type := nonempty (mc_hf_architecture_type m),
     mc_hf_last_modified := nonempty (mc_hf_last_modified m),
     mc_quants := Map.empty, mc_db_id := Some 0\<rparr>"

lemma bind_lossless:
  "pred_option (\<lambda>x. and_then (w x) rd = Some x) v \<Longrightarrow> and_then v (\<lambda>y. and_then (w y) rd) = v"
  by (cases v) auto

lemmas row_json = json_lossless_on_def bind_lossless

text \<open>
  C30. Storing a model configuration and loading the row gives it back, except for what the row
  does not hold (the quant table, the runtime id, a GPU variant's version), the identity
  fields that default to the repository id, empty strings read as absent, and the legacy
  batch flags, which move from the arguments to the columns unless the column was set. Batch
  sizes survive the signed column at their full width.
\<close>

theorem db_record_roundtrip:
  assumes "json_lossless_on J m"
  shows "from_db_record J (to_db_record J now m repo_id) =
     (case normalize_legacy_args (mc_args m) (mc_n_batch m) (mc_n_ubatch m) of
        (nb, nub, args) \<Rightarrow>
          (stored_form repo_id m)\<lparr>mc_args := args, mc_n_batch := nb, mc_n_ubatch := nub\<rparr>)"
proof -
  have "map_option (\<lambda>s. unwrap_or (gpu_variant_parse s) Custom)
      (map_option variant_folder (mc_gpu_variant m)) = map_option drop_version (mc_gpu_variant m)"
    by (cases "mc_gpu_variant m") (simp_all add: variant_text_roundtrip unwrap_or_def)
  moreover have "map_option as_u32 (map_option as_i32 v) = v" for v
    by (cases v) simp_all
  ultimately show ?thesis
    using assms unfolding json_lossless_on_def
    by (cases m) (simp add: from_db_record_def to_db_record_def stored_form_def bind_lossless
        unwrap_or_def split: prod.splits)
qed

definition model_default :: "'f model_config" where
  "model_default = \<lparr>mc_backend = [], mc_gpu_variant = None, mc_gpu_device = None, mc_args = [],
     mc_sampling = None, mc_model = None, mc_quant = None, mc_mmproj = None,
     mc_mtp_model = None, mc_port = None, mc_health_check = None, mc_enabled = False,
     mc_context_length = None, mc_num_parallel = None, mc_kv_unified = False,
     mc_profile = None, mc_api_name = None, mc_gpu_layers = None, mc_cache_type_k = None,
     mc_cache_type_v = None, mc_hf_format = None, mc_hf_base_model = None,
     mc_hf_pipeline_tag = None, mc_hf_total_params = None, mc_hf_active_params = None,
     mc_hf_architecture_type = None, mc_hf_context_length = None, mc_hf_num_layers = None,
     mc_hf_last_modified = None, mc_quants = Map.empty, mc_modalities = None,
     mc_reasoning_levels = None, mc_display_name = None, mc_db_id = None,
     mc_spec_decoding = spec_default, mc_n_batch = None, mc_n_ubatch = None,
     mc_vllm = vllm_default, mc_provider_name = None\<rparr>"

definition demo_model :: "nat model_config" where
  "demo_model = model_default\<lparr>mc_backend := ''llama_cpp'', mc_gpu_variant := Some (Cuda ''12.4''),
     mc_args := [''-b'', ''4096'', ''--mlock''], mc_hf_format := Some [],
     mc_n_ubatch := Some u32_max\<rparr>"

fun demo_lines :: "string \<Rightarrow> string \<Rightarrow> string list" where
  "demo_lines cur [] = []"
| "demo_lines cur (c # cs) =
     (if c = CHR 0x0A then cur # demo_lines [] cs else demo_lines (cur @ [c]) cs)"

definition demo_json :: "nat json_ops" where
  "demo_json = \<lparr>j_strings = (\<lambda>xs. Some (concat (map (\<lambda>s. s @ [CHR 0x0A]) xs))),
     j_strings_of = (\<lambda>s. Some (demo_lines [] s)),
     j_sampling = (\<lambda>_. None), j_sampling_of = (\<lambda>_. None),
     j_modalities = (\<lambda>_. None), j_modalities_of = (\<lambda>_. None),
     j_health = (\<lambda>_. None), j_health_of = (\<lambda>_. None),
     j_spec = (\<lambda>d. if d = spec_default then Some ''{}'' else None),
     j_spec_of = (\<lambda>s. if s = ''{}'' then Some spec_default else None),
     j_vllm = (\<lambda>v. if v = vllm_default then Some ''{}'' else None),
     j_vllm_of = (\<lambda>s. if s = ''{}'' then Some vllm_default else None)\<rparr>"

lemma demo_legacy: "normalize_legacy_args (mc_args demo_model) None (Some u32_max) =
    (Some 4096, Some u32_max, [''--mlock''])"
  by (simp add: demo_model_def model_default_def normalize_legacy_args_def try_parse_flag_def
      strip_dashes_def normalize_flag_name_def parse_u32_def parse_uint_def is_digit_def
      digits_val_def digit_val_def)

theorem db_record_roundtrip_witness:
  "from_db_record demo_json (to_db_record demo_json ''t0'' demo_model ''org/model'') =
     (stored_form ''org/model'' demo_model)
       \<lparr>mc_args := [''--mlock''], mc_n_batch := Some 4096, mc_n_ubatch := Some u32_max\<rparr>"
proof -
  have "json_lossless_on demo_json demo_model"
    by (simp add: json_lossless_on_def demo_json_def demo_model_def model_default_def)
  moreover have "mc_n_batch demo_model = None" "mc_n_ubatch demo_model = Some u32_max"
    by (simp_all add: demo_model_def model_default_def)
  ultimately show ?thesis
    using db_record_roundtrip [of demo_json demo_model "''t0''" "''org/model''"] demo_legacy
    by simp
qed

fun legacy_events :: "string list \<Rightarrow> (string \<times> u32) list" where
  "legacy_events [] = []"
| "legacy_events (arg # rest) =
     (case try_parse_flag arg rest of
        Some (kind, v, consumed) \<Rightarrow> (kind, v) # legacy_events (drop (consumed - 1) rest)
      | None \<Rightarrow> legacy_events rest)"

lemma normalize_flag_name_range:
  "normalize_flag_name n = Some k \<Longrightarrow> k = ''batch'' \<or> k = ''ubatch''"
  by (auto simp: normalize_flag_name_def split: if_splits)

fun legacy_kept :: "string list \<Rightarrow> string list" where
  "legacy_kept [] = []"
| "legacy_kept (arg # rest) =
     (case try_parse_flag arg rest of
        Some (_, _, consumed) \<Rightarrow> legacy_kept (drop (consumed - 1) rest)
      | None \<Rightarrow> arg # legacy_kept rest)"

lemma normalize_loop_events:
  "normalize_loop nb nub args =
     (opt_or nb (map_of (legacy_events args) ''batch''),
      opt_or nub (map_of (legacy_events args) ''ubatch''), legacy_kept args)"
proof (induction args arbitrary: nb nub rule: legacy_events.induct)
  case (2 arg rest)
  show ?case
  proof (cases "try_parse_flag arg rest")
    case None
    with 2 show ?thesis by simp
  next
    case (Some e)
    then obtain kind v consumed where "try_parse_flag arg rest = Some (kind, v, consumed)"
      by (cases e) auto
    note e = this
    have IH: "normalize_loop x y (drop (consumed - 1) rest) =
        (opt_or x (map_of (legacy_events (drop (consumed - 1) rest)) ''batch''),
         opt_or y (map_of (legacy_events (drop (consumed - 1) rest)) ''ubatch''),
         legacy_kept (drop (consumed - 1) rest))" for x y
      by (rule "2.IH"(2) [OF e refl refl])
    show ?thesis
      by (cases nb; cases nub) (simp_all add: e IH [unfolded One_nat_def])
  qed
qed simp

lemma legacy_kept_subseq: "subseq (legacy_kept args) args"
proof (induction args rule: legacy_kept.induct)
  case (2 arg rest)
  have "subseq (drop n rest) (arg # rest)" for n
    by (rule subseq_order.order_trans [of _ rest]) (auto intro: suffix_imp_subseq suffix_drop)
  note drop_sub = this
  show ?case
  proof (cases "try_parse_flag arg rest")
    case None
    with 2 show ?thesis by simp
  next
    case (Some e)
    then obtain kind v consumed where e: "try_parse_flag arg rest = Some (kind, v, consumed)"
      by (cases e) auto
    have "subseq (legacy_kept (drop (consumed - 1) rest)) (drop (consumed - 1) rest)"
      using 2 e by simp
    then have "subseq (legacy_kept (drop (consumed - 1) rest)) (arg # rest)"
      using drop_sub by (rule subseq_order.order_trans)
    then show ?thesis by (simp add: e)
  qed
qed simp

text \<open>
  The legacy batch flags: a column that is set is never overwritten, an unset one takes
  the first value the scan meets, the arguments that stay are a subsequence of the original
  and do not depend on the columns, and a list without such flags is returned unchanged.
\<close>

theorem normalize_legacy_spec:
  "normalize_legacy_args args nb nub =
     (opt_or nb (map_of (legacy_events args) ''batch''),
      opt_or nub (map_of (legacy_events args) ''ubatch''), legacy_kept args)
   \<and> subseq (legacy_kept args) args
   \<and> (legacy_free args \<longrightarrow> normalize_legacy_args args nb nub = (nb, nub, args))"
  using legacy_kept_subseq
  by (simp add: normalize_legacy_args_def normalize_loop_events [symmetric] normalize_legacy_free)

theorem normalize_legacy_spec_witness:
  "legacy_free [''-c'', ''8192'', ''-b 4096'']
   \<and> normalize_legacy_args [''-c'', ''8192'', ''-b 4096''] None (Some 7)
       = (None, Some 7, [''-c'', ''8192'', ''-b 4096''])"
proof -
  have "legacy_free [''-c'', ''8192'', ''-b 4096'']"
    by (simp add: try_parse_flag_def strip_dashes_def normalize_flag_name_def)
  then show ?thesis
    using normalize_legacy_spec [of "[''-c'', ''8192'', ''-b 4096'']" None "Some 7"] by simp
qed

end
