(* ===== verification/Paths.thy ===== *)
theory Paths
  imports Prelude
begin

text \<open>
  Model identities and paths: \<open>tama-core/src/models/mod.rs\<close> (the validators of repository ids
  and relative paths, \<open>repo_path\<close>) and \<open>models/config_key.rs\<close>. A Unix path is its string;
  \<open>PathBuf::push\<close> is written out.
\<close>

section \<open>Definitions\<close>

fun split_char :: "char \<Rightarrow> string \<Rightarrow> string list" where
  "split_char d [] = [[]]"
| "split_char d (c # cs) =
     (if c = d then [] # split_char d cs
      else (case split_char d cs of w # ws \<Rightarrow> (c # w) # ws | [] \<Rightarrow> [[c]]))"

definition is_alnum :: "char \<Rightarrow> bool" where
  "is_alnum c = (let n = of_char c in
     ((48::nat) \<le> n \<and> n \<le> 57) \<or> (65 \<le> n \<and> n \<le> 90) \<or> (97 \<le> n \<and> n \<le> 122))"

definition valid_component :: "string \<Rightarrow> bool" where
  "valid_component component =
     (component \<noteq> [] \<and> \<not> contains_str component ''..'' \<and>
      list_all (\<lambda>c. is_alnum c \<or> c \<in> {CHR ''.'', CHR ''_'', CHR ''-''}) component)"

definition is_valid_repo_id :: "string \<Rightarrow> bool" where
  "is_valid_repo_id repo_id =
     (repo_id \<noteq> [] \<and> list_all valid_component (split_char CHR ''/'' repo_id))"

definition is_safe_relative_path :: "string \<Rightarrow> bool" where
  "is_safe_relative_path s =
     (if s = [] \<or> CHR 0x5C \<in> set s \<or> CHR 0x00 \<in> set s then False
      else list_all (\<lambda>c. c \<noteq> ''..'' \<and> c \<noteq> ''.'' \<and> c \<noteq> []) (split_char CHR ''/'' s))"

definition path_join :: "string \<Rightarrow> string \<Rightarrow> string" where
  "path_join p c =
     (if starts_with c ''/'' then c
      else if p = [] \<or> last p = CHR ''/'' then p @ c
      else p @ CHR ''/'' # c)"

definition repo_path :: "string \<Rightarrow> string \<Rightarrow> string" where
  "repo_path base repo_id = foldl path_join base (split_char CHR ''/'' repo_id)"

fun replace_slash :: "string \<Rightarrow> string" where
  "replace_slash [] = []"
| "replace_slash (c # cs) =
     (if c = CHR ''/'' then CHR ''-'' # CHR ''-'' # replace_slash cs else c # replace_slash cs)"

definition config_key_from_repo_id :: "string \<Rightarrow> string" where
  "config_key_from_repo_id repo_id = replace_slash (to_lower repo_id)"

fun split_dashes :: "string \<Rightarrow> (string \<times> string) option" where
  "split_dashes s = (case strip_prefix ''--'' s of
      Some r \<Rightarrow> Some ([], r)
    | None \<Rightarrow> (case s of
        [] \<Rightarrow> None
      | c # cs \<Rightarrow> map_option (\<lambda>(a, b). (c # a, b)) (split_dashes cs)))"

declare split_dashes.simps [simp del]

definition config_key_to_repo_id :: "string \<Rightarrow> string" where
  "config_key_to_repo_id key = (case split_dashes key of
      Some (org, rest) \<Rightarrow> org @ CHR ''/'' # rest
    | None \<Rightarrow> key)"

section \<open>Splitting and joining\<close>

lemma split_char_nonempty [simp]: "split_char d s \<noteq> []"
  by (induction s) (auto split: list.splits)

lemma split_char_no_sep: "w \<in> set (split_char d s) \<Longrightarrow> d \<notin> set w"
proof (induction s arbitrary: w)
  case (Cons c cs)
  then show ?case
    by (cases "split_char d cs") (auto split: if_splits)
qed simp

lemma split_char_word: "d \<notin> set w \<Longrightarrow> split_char d w = [w]"
  by (induction w) auto

lemma split_char_append:
  "d \<notin> set w \<Longrightarrow> split_char d (w @ d # s) = w # split_char d s"
  by (induction w) auto

lemma split_char_join: "join_with [d] (split_char d s) = s"
proof (induction s)
  case (Cons c cs)
  then show ?case
    by (cases "split_char d cs"; cases "tl (split_char d cs)") (auto simp: join_with_def)
qed (simp add: join_with_def)

lemma split_char_inner: "d \<notin> set a \<Longrightarrow> split_char d (b @ d # a) = split_char d b @ [a]"
proof (induction b)
  case (Cons c cs)
  then show ?case by (cases "split_char d cs") auto
qed (simp add: split_char_word)

lemma split_char_both: "split_char d (b @ d # s) = split_char d b @ split_char d s"
proof (induction b)
  case (Cons c cs)
  then show ?case by (cases "split_char d cs") auto
qed simp

definition plain_dir :: "string \<Rightarrow> bool" where
  "plain_dir p = (p \<noteq> [] \<and> last p \<noteq> CHR ''/'')"

lemma join_component:
  "plain_dir p \<Longrightarrow> w \<noteq> [] \<Longrightarrow> hd w \<noteq> CHR ''/'' \<Longrightarrow> path_join p w = p @ CHR ''/'' # w"
  by (cases w) (simp_all add: path_join_def plain_dir_def)

lemma join_components:
  assumes "plain_dir p" "\<forall>w \<in> set ws. w \<noteq> [] \<and> CHR ''/'' \<notin> set w"
  shows "foldl path_join p ws = p @ concat (map (\<lambda>w. CHR ''/'' # w) ws)"
  using assms
proof (induction ws arbitrary: p)
  case (Cons w ws)
  then have w: "w \<noteq> []" "CHR ''/'' \<notin> set w" by simp_all
  then have "hd w \<noteq> CHR ''/''" by (metis hd_in_set)
  with Cons.prems(1) w have "path_join p w = p @ CHR ''/'' # w" by (simp add: join_component)
  moreover have "plain_dir (p @ CHR ''/'' # w)"
    using w by (auto simp: plain_dir_def dest: last_in_set)
  ultimately show ?case using Cons by simp
qed simp

lemma append_one: "(@) [d] = (#) d"
  by (rule ext) simp

lemma join_with_slash:
  "ws \<noteq> [] \<Longrightarrow> concat (map (\<lambda>w. d # w) ws) = d # join_with [d] ws"
  by (cases ws) (simp_all add: join_with_def append_one)

lemma repo_path_appends:
  assumes "plain_dir base" "list_all (\<lambda>c. c \<noteq> []) (split_char CHR ''/'' repo_id)"
  shows "repo_path base repo_id = base @ CHR ''/'' # repo_id"
proof -
  have "\<forall>w \<in> set (split_char CHR ''/'' repo_id). w \<noteq> [] \<and> CHR ''/'' \<notin> set w"
    using assms(2) split_char_no_sep by (simp add: list_all_iff)
  then show ?thesis
    by (simp add: repo_path_def join_components [OF assms(1)] join_with_slash split_char_join)
qed

text \<open>Lexical resolution of a list of components, with \<open>..\<close> leaving the directory.\<close>

fun walk :: "string list \<Rightarrow> string list \<Rightarrow> string list" where
  "walk at [] = at"
| "walk at (c # cs) =
     (if c = [] \<or> c = ''.'' then walk at cs
      else if c = ''..'' then walk (butlast at) cs
      else walk (at @ [c]) cs)"

lemma walk_append: "walk at (xs @ ys) = walk (walk at xs) ys"
  by (induction xs arbitrary: at) auto

lemma walk_down:
  "\<forall>c \<in> set cs. c \<noteq> [] \<and> c \<noteq> ''..'' \<Longrightarrow> walk at cs = at @ filter (\<lambda>c. c \<noteq> ''.'') cs"
  by (induction cs arbitrary: at) auto

lemma valid_repo_components:
  "is_valid_repo_id r \<Longrightarrow> c \<in> set (split_char CHR ''/'' r) \<Longrightarrow> c \<noteq> [] \<and> c \<noteq> ''..''"
proof -
  assume "is_valid_repo_id r" "c \<in> set (split_char CHR ''/'' r)"
  then have "valid_component c" by (simp add: is_valid_repo_id_def list_all_iff)
  moreover have "\<not> valid_component ''..''" "\<not> valid_component []"
    by (simp_all add: valid_component_def)
  ultimately show "c \<noteq> [] \<and> c \<noteq> ''..''" by blast
qed

lemma safe_components:
  "is_safe_relative_path f \<Longrightarrow> c \<in> set (split_char CHR ''/'' f) \<Longrightarrow> c \<noteq> [] \<and> c \<noteq> ''..'' \<and> c \<noteq> ''.''"
  by (auto simp: is_safe_relative_path_def list_all_iff split: if_splits)

lemma head_component:
  assumes "list_all (\<lambda>c. c \<noteq> []) (split_char d f)"
  shows "f \<noteq> [] \<and> hd f \<noteq> d"
  using assms by (cases f) (auto split: if_splits)

text \<open>
  C29. A download goes below the models directory: for a repository id and a file name that
  passed the validators, joining them to the models directory only appends, and resolving the
  result component by component never leaves the directory; the file name adds every one of
  its components, the repository id all but the \<open>.\<close> ones.
\<close>

theorem validated_paths_stay_below:
  assumes "plain_dir base" "is_valid_repo_id repo_id" "is_safe_relative_path file"
  shows "path_join (repo_path base repo_id) file = base @ CHR ''/'' # repo_id @ CHR ''/'' # file
    \<and> walk [] (split_char CHR ''/'' (path_join (repo_path base repo_id) file)) =
      walk [] (split_char CHR ''/'' base)
        @ filter (\<lambda>c. c \<noteq> ''.'') (split_char CHR ''/'' repo_id) @ split_char CHR ''/'' file"
proof -
  have r: "list_all (\<lambda>c. c \<noteq> []) (split_char CHR ''/'' repo_id)"
    using assms(2) valid_repo_components by (simp add: list_all_iff)
  have f: "list_all (\<lambda>c. c \<noteq> []) (split_char CHR ''/'' file)"
    using assms(3) safe_components by (simp add: list_all_iff)
  have "plain_dir (base @ CHR ''/'' # repo_id)"
  proof -
    have "repo_id \<noteq> []" using assms(2) by (simp add: is_valid_repo_id_def)
    moreover have "last repo_id \<noteq> CHR ''/''"
      using r split_char_inner [of "CHR ''/''" "[]" "butlast repo_id"] calculation
      by (auto simp: list_all_iff) (metis append_butlast_last_id in_set_conv_decomp)
    ultimately show ?thesis by (simp add: plain_dir_def)
  qed
  then have eq: "path_join (repo_path base repo_id) file = base @ CHR ''/'' # repo_id @ CHR ''/'' # file"
    using head_component [OF f] by (simp add: repo_path_appends [OF assms(1) r] join_component)
  have "walk at (split_char CHR ''/'' file) = at @ split_char CHR ''/'' file" for at
    using safe_components [OF assms(3)] by (subst walk_down) (simp_all add: filter_id_conv)
  moreover have "walk at (split_char CHR ''/'' repo_id) =
      at @ filter (\<lambda>c. c \<noteq> ''.'') (split_char CHR ''/'' repo_id)" for at
    using valid_repo_components [OF assms(2)] by (intro walk_down) blast
  ultimately show ?thesis
    unfolding eq split_char_both walk_append by simp
qed

theorem validated_paths_stay_below_witness:
  "path_join (repo_path ''/srv/models'' ''unsloth/gemma.v2'') ''UD/model-00001.gguf''
     = ''/srv/models/unsloth/gemma.v2/UD/model-00001.gguf''
   \<and> walk [] (split_char CHR ''/'' (path_join (repo_path ''/srv/models'' ''unsloth/gemma.v2'')
        ''UD/model-00001.gguf''))
     = [''srv'', ''models'', ''unsloth'', ''gemma.v2'', ''UD'', ''model-00001.gguf'']"
proof -
  have "plain_dir ''/srv/models''" "is_valid_repo_id ''unsloth/gemma.v2''"
    "is_safe_relative_path ''UD/model-00001.gguf''"
    by code_simp+
  then show ?thesis
    using validated_paths_stay_below [of "''/srv/models''" "''unsloth/gemma.v2''"
      "''UD/model-00001.gguf''"] by simp
qed

section \<open>Configuration keys\<close>

lemma lower_char_marks_all:
  "list_all (\<lambda>c. (lower_char c = CHR ''-'') = (c = CHR ''-'')
     \<and> (lower_char c = CHR ''/'') = (c = CHR ''/'')) Enum.enum"
  by code_simp

lemma lower_char_marks [simp]:
  "lower_char c = CHR ''-'' \<longleftrightarrow> c = CHR ''-''" "lower_char c = CHR ''/'' \<longleftrightarrow> c = CHR ''/''"
  using lower_char_marks_all by (auto simp: list_all_iff enum_UNIV)

lemma lower_char_marks' [simp]:
  "CHR ''-'' = lower_char c \<longleftrightarrow> c = CHR ''-''" "CHR ''/'' = lower_char c \<longleftrightarrow> c = CHR ''/''"
  using lower_char_marks by metis+

lemma lower_char_slash [simp]: "lower_char CHR ''/'' = CHR ''/''"
  using lower_char_marks(2) [of "CHR ''/''"] by blast

lemma replace_slash_plain: "CHR ''/'' \<notin> set s \<Longrightarrow> replace_slash s = s"
  by (induction s) auto

lemma replace_slash_append: "replace_slash (a @ b) = replace_slash a @ replace_slash b"
  by (induction a) auto

lemma split_dashes_at:
  assumes "\<not> contains_str (org @ ''-'') ''--''"
  shows "split_dashes (org @ ''--'' @ rest) = Some (org, rest)"
  using assms
proof (induction org)
  case Nil
  show ?case by (subst split_dashes.simps) simp
next
  case (Cons c cs)
  have hd: "strip_prefix ''--'' (c # cs @ ''--'' @ rest) = None"
  proof (cases cs)
    case Nil
    with Cons.prems show ?thesis by (auto split: if_splits)
  next
    case (Cons d ds)
    with Cons.prems show ?thesis by auto
  qed
  from Cons.prems have "\<not> contains_str (cs @ ''-'') ''--''" by simp
  with Cons.IH have "split_dashes (cs @ ''--'' @ rest) = Some (cs, rest)" by blast
  with hd show ?case by (subst split_dashes.simps) simp
qed

lemma contains_dashes_lower:
  "contains_str (to_lower s) ''--'' \<longleftrightarrow> contains_str s ''--''"
proof (induction s)
  case (Cons c cs)
  then show ?case by (cases cs) (auto simp: to_lower_def)
qed simp

text \<open>
  The configuration key of \<open>org/name\<close> leads back to the lower-cased repository id,
  provided the organisation contains no double dash and does not end in one dash (the key
  would be cut at the wrong place); the key itself contains no slash.
\<close>

theorem config_key_roundtrip:
  assumes "CHR ''/'' \<notin> set org" "CHR ''/'' \<notin> set name" "\<not> contains_str (org @ ''-'') ''--''"
  shows "config_key_to_repo_id (config_key_from_repo_id (org @ CHR ''/'' # name))
      = to_lower (org @ CHR ''/'' # name)
    \<and> CHR ''/'' \<notin> set (config_key_from_repo_id (org @ CHR ''/'' # name))"
proof -
  have plain: "CHR ''/'' \<notin> set (to_lower org)" "CHR ''/'' \<notin> set (to_lower name)"
    using assms(1,2) lower_char_marks(2) by (auto simp: to_lower_def)
  have cons: "to_lower (CHR ''/'' # name) = CHR ''/'' # to_lower name"
    using lower_char_marks(2) [of "CHR ''/''"] by (simp add: to_lower_def)
  have key: "config_key_from_repo_id (org @ CHR ''/'' # name)
      = to_lower org @ ''--'' @ to_lower name"
    using plain by (simp add: config_key_from_repo_id_def cons replace_slash_append
        replace_slash_plain)
  have "to_lower org @ ''-'' = to_lower (org @ ''-'')"
    by (simp add: to_lower_def)
  then have "\<not> contains_str (to_lower org @ ''-'') ''--''"
    using assms(3) contains_dashes_lower by metis
  from split_dashes_at [OF this] plain show ?thesis
    unfolding key config_key_to_repo_id_def by (simp add: cons)
qed

theorem config_key_roundtrip_witness:
  "config_key_to_repo_id (config_key_from_repo_id (''Unsloth'' @ CHR ''/'' # ''Gemma-4''))
     = ''unsloth/gemma-4''"
proof -
  have "\<not> contains_str (''Unsloth'' @ ''-'') ''--''" by code_simp
  moreover have "to_lower (''Unsloth'' @ CHR ''/'' # ''Gemma-4'') = ''unsloth/gemma-4''" by code_simp
  ultimately show ?thesis
    using config_key_roundtrip [of "''Unsloth''" "''Gemma-4''"] by simp
qed

end
