(* ===== verification/Resolve.thy ===== *)
theory Resolve
  imports ModelConfig Paths Containers "HOL-Library.Multiset"
begin

text \<open>
  Resolution of a model to a backend and to its launch line:
  \<open>tama-core/src/config/resolve/mod.rs\<close> and \<open>override_arg\<close> of \<open>process.rs\<close>. A \<open>HashMap\<close> is an
  association list with distinct keys, its order standing for the unspecified iteration
  order. The \<open>url\<close> crate is the parameter record \<open>url_ops\<close>; the platform's configuration
  directory is the argument \<open>config_dir\<close> (\<open>None\<close> where it cannot be determined).
\<close>

section \<open>Data\<close>

record backend_config =
  bc_path :: "string option"
  bc_version :: "string option"
  bc_gpu_variant :: "gpu_variant option"

record config =
  cf_models_dir :: "string option"
  cf_backends :: "(string, backend_config) hmap"
  cf_proxy_host :: string
  cf_proxy_port :: u16

record 'u url_ops =
  u_parse :: "string \<Rightarrow> 'u option"
  u_set_port :: "'u \<Rightarrow> u16 \<Rightarrow> 'u option"
  u_set_path :: "'u \<Rightarrow> string \<Rightarrow> 'u"
  u_clear_query :: "'u \<Rightarrow> 'u"
  u_clear_fragment :: "'u \<Rightarrow> 'u"
  u_show :: "'u \<Rightarrow> string"

datatype resolve_error = AmbiguousApiName string | ModelNotFound string | NoConfigDir

definition empty_backend_config :: backend_config where
  "empty_backend_config = \<lparr>bc_path = None, bc_version = None, bc_gpu_variant = None\<rparr>"

section \<open>Models by name\<close>

definition opt_eq_ignore_case :: "string option \<Rightarrow> string \<Rightarrow> bool" where
  "opt_eq_ignore_case v name = (case v of None \<Rightarrow> False | Some n \<Rightarrow> eq_ignore_case n name)"

definition backend_of :: "config \<Rightarrow> 'f model_config \<Rightarrow> backend_config" where
  "backend_of cfg m = unwrap_or (hm_get (cf_backends cfg) (mc_backend m)) empty_backend_config"

definition resolve_backend ::
  "config \<Rightarrow> (string, 'f model_config) hmap \<Rightarrow> string \<Rightarrow> resolve_error + 'f model_config \<times> backend_config"
where
  "resolve_backend cfg models name =
     (let matches = filter (\<lambda>m. opt_eq_ignore_case (mc_api_name m) name) (map snd models);
          found = \<lambda>m. Inr (m, backend_of cfg m)
      in case matches of
           [m] \<Rightarrow> found m
         | _ # _ # _ \<Rightarrow> Inl (AmbiguousApiName name)
         | [] \<Rightarrow> (case hm_get models name of
             Some m \<Rightarrow> found m
           | None \<Rightarrow> (case List.find (\<lambda>m. mc_model m = Some name) (map snd models) of
               Some m \<Rightarrow> found m
             | None \<Rightarrow> Inl (ModelNotFound name))))"

definition model_answers_to :: "string \<Rightarrow> string \<Rightarrow> 'f model_config \<Rightarrow> bool" where
  "model_answers_to model_name config_name m =
     (opt_eq_ignore_case (mc_api_name m) model_name \<or> config_name = model_name
      \<or> opt_eq_ignore_case (mc_model m) model_name)"

definition resolve_backends_for_model ::
  "config \<Rightarrow> (string, 'f model_config) hmap \<Rightarrow> string
     \<Rightarrow> (string \<times> 'f model_config \<times> backend_config) list" where
  "resolve_backends_for_model cfg models model_name =
     List.map_filter (\<lambda>(config_name, m).
        if \<not> mc_enabled m then None
        else if model_answers_to model_name config_name m
          then Some (config_name, m, backend_of cfg m)
        else None) models"

section \<open>URLs\<close>

definition show_u16 :: "u16 \<Rightarrow> string" where
  "show_u16 p = show_nat (unat p)"

definition resolve_health_url :: "'u url_ops \<Rightarrow> 'f model_config \<Rightarrow> string option \<Rightarrow> string option"
where
  "resolve_health_url U server health_check_url =
     (case health_check_url of
        Some backend_url \<Rightarrow>
          (case mc_port server of
             Some port \<Rightarrow>
               and_then (u_parse U backend_url)
                 (\<lambda>u. and_then (u_set_port U u port) (\<lambda>u. Some (u_show U u)))
           | None \<Rightarrow> Some backend_url)
      | None \<Rightarrow>
          map_option (\<lambda>port. ''http://localhost:'' @ show_u16 port @ ''/health'') (mc_port server))"

definition trim_end_slash :: "string \<Rightarrow> string" where
  "trim_end_slash s = rev (dropWhile (\<lambda>c. c = CHR ''/'') (rev s))"

definition resolve_backend_url :: "'u url_ops \<Rightarrow> 'f model_config \<Rightarrow> string option \<Rightarrow> string option"
where
  "resolve_backend_url U server health_check_url =
     (case health_check_url of
        Some health_url \<Rightarrow>
          and_then (u_parse U health_url) (\<lambda>url.
            and_then (case mc_port server of Some port \<Rightarrow> u_set_port U url port | None \<Rightarrow> Some url)
              (\<lambda>url. Some (trim_end_slash
                 (u_show U (u_clear_fragment U (u_clear_query U (u_set_path U url [])))))))
      | None \<Rightarrow> map_option (\<lambda>port. ''http://localhost:'' @ show_u16 port) (mc_port server))"

definition service_name :: "string \<Rightarrow> string" where
  "service_name backend_name = ''tama-'' @ backend_name"

definition proxy_url :: "config \<Rightarrow> string" where
  "proxy_url cfg = ''http://'' @ cf_proxy_host cfg @ '':'' @ show_u16 (cf_proxy_port cfg)"

definition backend_is_llama_cpp :: "string \<Rightarrow> bool" where
  "backend_is_llama_cpp backend_name = starts_with backend_name ''llama''"

section \<open>Launch arguments\<close>

definition models_dir :: "string option \<Rightarrow> config \<Rightarrow> resolve_error + string" where
  "models_dir config_dir cfg = (case cf_models_dir cfg of
       Some d \<Rightarrow> Inr d
     | None \<Rightarrow> (case config_dir of Some d \<Rightarrow> Inr (path_join d ''models'') | None \<Rightarrow> Inl NoConfigDir))"

definition has_flag :: "string list \<Rightarrow> string list \<Rightarrow> bool" where
  "has_flag names grouped = list_ex (\<lambda>e. \<exists>f \<in> set names. flag_name e = Some f) grouped"

definition push_unless :: "string list \<Rightarrow> string \<Rightarrow> string list \<Rightarrow> string list" where
  "push_unless names entry grouped = (if has_flag names grouped then grouped else grouped @ [entry])"

definition base_args :: "shlex \<Rightarrow> string list \<Rightarrow> 'f model_config \<Rightarrow> string list" where
  "base_args sh default_args server =
     merge_args (fst (group_legacy_flat_args sh default_args)) (mc_args server)"

definition apply_sampling :: "'f f64_ops \<Rightarrow> 'f model_config \<Rightarrow> string list \<Rightarrow> string list" where
  "apply_sampling F server grouped = (case mc_sampling server of
       Some s \<Rightarrow> if \<not> sampling_is_empty s then merge_args grouped (sampling_to_args F s) else grouped
     | None \<Rightarrow> grouped)"

definition build_args :: "shlex \<Rightarrow> 'f f64_ops \<Rightarrow> 'f model_config \<Rightarrow> string list \<Rightarrow> string list" where
  "build_args sh F server default_args =
     flatten_args sh (apply_sampling F server (base_args sh default_args server))"

definition is_transformers :: "'f model_config \<Rightarrow> bool" where
  "is_transformers server = (mc_hf_format server = Some ''transformers'')"

text \<open>Transformers format: positional path, served name, typed vLLM settings.\<close>

definition already_positional :: "string \<Rightarrow> string list \<Rightarrow> bool" where
  "already_positional path grouped =
     (has_flag [''--model''] grouped \<or>
      list_ex (\<lambda>e. e = path \<or> starts_with e (CHR 0x22 # path) \<or> starts_with e (CHR 0x27 # path)) grouped)"

definition insert_before_flags :: "string \<Rightarrow> string list \<Rightarrow> string list" where
  "insert_before_flags tok grouped =
     takeWhile (\<lambda>e. \<not> starts_with e ''-'') grouped @ tok
       # dropWhile (\<lambda>e. \<not> starts_with e ''-'') grouped"

definition inject_positional ::
  "shlex \<Rightarrow> string option \<Rightarrow> config \<Rightarrow> 'f model_config \<Rightarrow> string list \<Rightarrow> resolve_error + string list" where
  "inject_positional sh config_dir cfg server grouped = (case mc_model server of
       None \<Rightarrow> Inr grouped
     | Some model_id \<Rightarrow> (case models_dir config_dir cfg of
         Inl e \<Rightarrow> Inl e
       | Inr d \<Rightarrow>
           let path = repo_path d model_id in
           Inr (if already_positional path grouped then grouped
                else insert_before_flags (quote_value sh path) grouped)))"

definition inject_served_name :: "'f model_config \<Rightarrow> string list \<Rightarrow> string list" where
  "inject_served_name server grouped = (case opt_or (mc_api_name server) (mc_model server) of
       Some name \<Rightarrow> merge_args grouped [''--served-model-name '' @ name]
     | None \<Rightarrow> grouped)"

definition inject_vllm ::
  "shlex \<Rightarrow> 'f f64_ops \<Rightarrow> (vllm_spec_config \<Rightarrow> string option) \<Rightarrow> 'f model_config \<Rightarrow> string list \<Rightarrow> string list"
where
  "inject_vllm sh F json server grouped =
     (if \<not> vllm_is_empty (mc_vllm server)
      then merge_args grouped (vllm_to_args sh F json (mc_vllm server)) else grouped)"

text \<open>The files of a GGUF model: \<open>-m\<close>, \<open>--mmproj\<close>, \<open>--spec-draft-model\<close>.\<close>

definition model_file_path ::
  "string option \<Rightarrow> config \<Rightarrow> string \<Rightarrow> quant_entry \<Rightarrow> resolve_error + string" where
  "model_file_path config_dir cfg model_id q = (case models_dir config_dir cfg of
       Inl e \<Rightarrow> Inl e
     | Inr d \<Rightarrow> Inr (path_join (repo_path d model_id) (qe_file q)))"

definition inject_file ::
  "shlex \<Rightarrow> string option \<Rightarrow> config \<Rightarrow> 'f model_config \<Rightarrow> string option \<Rightarrow> (quant_entry \<Rightarrow> bool)
     \<Rightarrow> string list \<Rightarrow> string \<Rightarrow> string list \<Rightarrow> resolve_error + string list" where
  "inject_file sh config_dir cfg server quant_name kind_ok names flag grouped =
     (case (mc_model server, quant_name) of
        (Some model_id, Some name) \<Rightarrow>
          (case mc_quants server name of
             Some q \<Rightarrow>
               if kind_ok q then
                 (case model_file_path config_dir cfg model_id q of
                    Inl e \<Rightarrow> Inl e
                  | Inr path \<Rightarrow> Inr (push_unless names (flag @ '' '' @ quote_value sh path) grouped))
               else Inr grouped
           | None \<Rightarrow> Inr grouped)
      | _ \<Rightarrow> Inr grouped)"

definition inject_model where
  "inject_model sh config_dir cfg server =
     inject_file sh config_dir cfg server (mc_quant server) (\<lambda>_. True) [''-m'', ''--model''] ''-m''"

definition inject_mmproj where
  "inject_mmproj sh config_dir cfg server =
     inject_file sh config_dir cfg server (mc_mmproj server) (\<lambda>q. qe_kind q = QMmproj)
       [''--mmproj''] ''--mmproj''"

definition has_draft_mtp :: "'f model_config \<Rightarrow> bool" where
  "has_draft_mtp server = list_ex (\<lambda>t. t = ''draft-mtp'') (sd_spec_types (mc_spec_decoding server))"

definition inject_draft_model where
  "inject_draft_model sh config_dir cfg server grouped =
     (if has_draft_mtp server then
        inject_file sh config_dir cfg server (mc_mtp_model server) (\<lambda>q. qe_kind q = QMtp)
          [''--spec-draft-model''] ''--spec-draft-model'' grouped
      else Inr grouped)"

text \<open>Context, slots, batches and layers.\<close>

definition effective_ctx :: "'f model_config \<Rightarrow> u32 option \<Rightarrow> u32 option" where
  "effective_ctx server ctx_override =
     opt_or (opt_or ctx_override (mc_context_length server))
       (and_then (mc_quant server) (\<lambda>q. and_then (mc_quants server q) qe_context_length))"

definition total_ctx :: "'f model_config \<Rightarrow> u32 \<Rightarrow> u32" where
  "total_ctx server ctx =
     (let slots = max (unwrap_or (mc_num_parallel server) 1) 1 in
      if backend_is_llama_cpp (mc_backend server) \<and> mc_kv_unified server then ctx
      else sat_mul ctx slots)"

definition inject_ctx :: "'f model_config \<Rightarrow> u32 option \<Rightarrow> string list \<Rightarrow> string list" where
  "inject_ctx server ctx_override grouped = (case effective_ctx server ctx_override of
       None \<Rightarrow> grouped
     | Some ctx \<Rightarrow>
         push_unless [''-c'', ''--ctx-size''] (''-c '' @ show_u32 (total_ctx server ctx)) grouped)"

definition inject_np :: "'f model_config \<Rightarrow> string list \<Rightarrow> string list" where
  "inject_np server grouped = (case mc_num_parallel server of
       None \<Rightarrow> grouped
     | Some slots \<Rightarrow>
         if slots \<ge> 1 then push_unless [''-np'', ''--parallel''] (''-np '' @ show_u32 slots) grouped
         else grouped)"

definition inject_batch :: "'f model_config \<Rightarrow> string list \<Rightarrow> string list" where
  "inject_batch server grouped = (case mc_n_batch server of
       None \<Rightarrow> grouped | Some b \<Rightarrow> merge_args grouped [''-b '' @ show_u32 b])"

definition inject_ubatch :: "'f model_config \<Rightarrow> string list \<Rightarrow> string list" where
  "inject_ubatch server grouped = (case mc_n_ubatch server of
       None \<Rightarrow> grouped | Some ub \<Rightarrow> merge_args grouped [''-ub '' @ show_u32 ub])"

definition inject_ngl :: "'f model_config \<Rightarrow> string list \<Rightarrow> string list" where
  "inject_ngl server grouped = (case mc_gpu_layers server of
       None \<Rightarrow> grouped
     | Some ngl \<Rightarrow> push_unless [''-ngl'', ''--n-gpu-layers''] (''-ngl '' @ show_u32 ngl) grouped)"

text \<open>llama.cpp only: cache, speculative decoding, alias, metrics.\<close>

definition inject_kv_unified :: "'f model_config \<Rightarrow> string list \<Rightarrow> string list" where
  "inject_kv_unified server grouped =
     (if mc_kv_unified server then push_unless [''--kv-unified''] ''--kv-unified'' grouped
      else grouped)"

definition inject_cache_type ::
  "shlex \<Rightarrow> string option \<Rightarrow> string list \<Rightarrow> string \<Rightarrow> string list \<Rightarrow> string list" where
  "inject_cache_type sh ct names flag grouped = (case ct of
       None \<Rightarrow> grouped
     | Some v \<Rightarrow>
         if trim_ws v \<noteq> [] then push_unless names (flag @ '' '' @ quote_value sh (trim_ws v)) grouped
         else grouped)"

definition push_number :: "string \<Rightarrow> u32 option \<Rightarrow> string list \<Rightarrow> string list" where
  "push_number flag v grouped = (case v of
       None \<Rightarrow> grouped | Some n \<Rightarrow> push_unless [flag] (flag @ '' '' @ show_u32 n) grouped)"

definition inject_spec :: "'f model_config \<Rightarrow> string list \<Rightarrow> string list" where
  "inject_spec server grouped =
     (let sd = mc_spec_decoding server in
      if sd_spec_types sd = [] then grouped
      else
        (let g1 = push_unless [''--spec-type''] (''--spec-type '' @ join_with '','' (sd_spec_types sd)) grouped;
             g2 = push_number ''--spec-draft-n-max'' (sd_n_max sd) g1;
             g3 = push_number ''--spec-draft-n-min'' (sd_n_min sd) g2
         in if has_draft_mtp server then push_number ''--spec-draft-ngl'' (sd_draft_ngl sd) g3
            else g3))"

definition alias_value :: "'f model_config \<Rightarrow> string" where
  "alias_value server = unwrap_or (opt_or (mc_api_name server) (mc_model server)) []"

definition inject_alias :: "'f model_config \<Rightarrow> string list \<Rightarrow> string list" where
  "inject_alias server grouped =
     (if alias_value server \<noteq> []
      then push_unless [''--alias'', ''-a''] (''--alias '' @ alias_value server) grouped
      else grouped)"

definition llama_stage :: "shlex \<Rightarrow> 'f model_config \<Rightarrow> string list \<Rightarrow> string list" where
  "llama_stage sh server grouped =
     (let g1 = inject_kv_unified server grouped;
          g2 = inject_cache_type sh (mc_cache_type_k server) [''-ctk'', ''--cache-type-k''] ''-ctk'' g1;
          g3 = inject_cache_type sh (mc_cache_type_v server) [''-ctv'', ''--cache-type-v''] ''-ctv'' g2
      in fst (ensure_metrics (inject_alias server (inject_spec server g3))))"

definition format_stage ::
  "shlex \<Rightarrow> 'f f64_ops \<Rightarrow> (vllm_spec_config \<Rightarrow> string option) \<Rightarrow> string option \<Rightarrow> config
     \<Rightarrow> 'f model_config \<Rightarrow> u32 option \<Rightarrow> string list \<Rightarrow> resolve_error + string list" where
  "format_stage sh F json config_dir cfg server ctx_override grouped =
     (if is_transformers server then
        (case inject_positional sh config_dir cfg server grouped of
           Inl e \<Rightarrow> Inl e
         | Inr g \<Rightarrow> Inr (inject_vllm sh F json server (inject_served_name server g)))
      else
        (case inject_model sh config_dir cfg server grouped of
           Inl e \<Rightarrow> Inl e
         | Inr g1 \<Rightarrow> (case inject_mmproj sh config_dir cfg server g1 of
             Inl e \<Rightarrow> Inl e
           | Inr g2 \<Rightarrow> (case inject_draft_model sh config_dir cfg server g2 of
               Inl e \<Rightarrow> Inl e
             | Inr g3 \<Rightarrow> Inr (inject_ngl server (inject_ubatch server (inject_batch server
                           (inject_np server (inject_ctx server ctx_override g3)))))))))"

definition full_grouped ::
  "shlex \<Rightarrow> 'f f64_ops \<Rightarrow> (vllm_spec_config \<Rightarrow> string option) \<Rightarrow> string option \<Rightarrow> config
     \<Rightarrow> 'f model_config \<Rightarrow> u32 option \<Rightarrow> string list \<Rightarrow> resolve_error + string list" where
  "full_grouped sh F json config_dir cfg server ctx_override default_args =
     (case format_stage sh F json config_dir cfg server ctx_override
             (base_args sh default_args server) of
        Inl e \<Rightarrow> Inl e
      | Inr g \<Rightarrow> Inr (apply_sampling F server
          (if backend_is_llama_cpp (mc_backend server) then llama_stage sh server g else g)))"

definition build_full_args ::
  "shlex \<Rightarrow> 'f f64_ops \<Rightarrow> (vllm_spec_config \<Rightarrow> string option) \<Rightarrow> string option \<Rightarrow> config
     \<Rightarrow> 'f model_config \<Rightarrow> u32 option \<Rightarrow> string list \<Rightarrow> resolve_error + string list" where
  "build_full_args sh F json config_dir cfg server ctx_override default_args =
     (case full_grouped sh F json config_dir cfg server ctx_override default_args of
        Inl e \<Rightarrow> Inl e
      | Inr grouped \<Rightarrow> Inr (flatten_args sh grouped))"

section \<open>Overriding one flat flag\<close>

fun override_arg :: "string list \<Rightarrow> string \<Rightarrow> string \<Rightarrow> string list" where
  "override_arg [] flag value = [flag, value]"
| "override_arg (a # rest) flag value =
     (if a = flag then a # value # tl rest else a # override_arg rest flag value)"

section \<open>Flag families\<close>

text \<open>The entries of a family of flags; every stage touches the families of its own flags only.\<close>

definition fam :: "string set \<Rightarrow> string list \<Rightarrow> string list" where
  "fam F g = filter (\<lambda>e. \<exists>f \<in> F. flag_name e = Some f) g"

lemmas flag_word_simps = flag_word_def has_ws_def is_ws_def starts_numeric_def is_digit_def

lemma literal_flags [simp]:
  "flag_name (CHR ''-'' # CHR ''c'' # CHR '' '' # v) = Some ''-c''"
  "flag_name (CHR ''-'' # CHR ''n'' # CHR ''p'' # CHR '' '' # v) = Some ''-np''"
  "flag_name (CHR ''-'' # CHR ''b'' # CHR '' '' # v) = Some ''-b''"
  "flag_name (CHR ''-'' # CHR ''u'' # CHR ''b'' # CHR '' '' # v) = Some ''-ub''"
  "flag_name (CHR ''-'' # CHR ''n'' # CHR ''g'' # CHR ''l'' # CHR '' '' # v) = Some ''-ngl''"
  "flag_name (CHR ''-'' # CHR ''-'' # CHR ''s'' # CHR ''p'' # CHR ''e'' # CHR ''c'' # CHR ''-'' # CHR ''t'' # CHR ''y'' # CHR ''p'' # CHR ''e'' # CHR '' '' # v) = Some ''--spec-type''"
  "flag_name (CHR ''-'' # CHR ''-'' # CHR ''a'' # CHR ''l'' # CHR ''i'' # CHR ''a'' # CHR ''s'' # CHR '' '' # v) = Some ''--alias''"
  "flag_name (CHR ''-'' # CHR ''-'' # CHR ''s'' # CHR ''e'' # CHR ''r'' # CHR ''v'' # CHR ''e'' # CHR ''d'' # CHR ''-'' # CHR ''m'' # CHR ''o'' # CHR ''d'' # CHR ''e'' # CHR ''l'' # CHR ''-'' # CHR ''n'' # CHR ''a'' # CHR ''m'' # CHR ''e'' # CHR '' '' # v) = Some ''--served-model-name''"
  using flag_name_word_value [of "''-c''" v]
    flag_name_word_value [of "''-np''" v]
    flag_name_word_value [of "''-b''" v]
    flag_name_word_value [of "''-ub''" v]
    flag_name_word_value [of "''-ngl''" v]
    flag_name_word_value [of "''--spec-type''" v]
    flag_name_word_value [of "''--alias''" v]
    flag_name_word_value [of "''--served-model-name''" v]
  by (simp_all add: flag_word_simps)

lemma flag_name_metrics [simp]: "flag_name ''--metrics'' = Some ''--metrics''"
  "flag_name ''--kv-unified'' = Some ''--kv-unified''"
  by (rule flag_name_word, simp add: flag_word_simps)+

lemma has_flag_fam: "has_flag names g \<longleftrightarrow> fam (set names) g \<noteq> []"
  by (auto simp: has_flag_def fam_def list_ex_iff filter_empty_conv)

lemma fam_Nil [simp]: "fam F [] = []"
  by (simp add: fam_def)

lemma fam_append: "fam F (a @ b) = fam F a @ fam F b"
  by (simp add: fam_def)

lemma fam_push_other [simp]:
  "flag_name e = Some f \<Longrightarrow> f \<notin> F \<Longrightarrow> fam F (push_unless names e g) = fam F g"
  by (simp add: push_unless_def fam_def)

lemma fam_push_own:
  "flag_name e = Some f \<Longrightarrow> f \<in> set names
    \<Longrightarrow> fam (set names) (push_unless names e g) = (if fam (set names) g = [] then [e] else fam (set names) g)"
  by (simp add: push_unless_def has_flag_fam fam_append) (simp add: fam_def)

lemma fam_merge:
  "F \<inter> override_flags ov = {} \<Longrightarrow> fam F (merge_args g ov) = fam F g"
proof -
  assume F: "F \<inter> override_flags ov = {}"
  have "fam F ov = []"
    unfolding fam_def filter_empty_conv
  proof (intro ballI notI, elim bexE)
    fix e f assume "e \<in> set ov" "f \<in> F" "flag_name e = Some f"
    then have "f \<in> override_flags ov" unfolding override_flags_iff by (metis image_eqI)
    with F \<open>f \<in> F\<close> show False by blast
  qed
  moreover have "fam F (filter (\<lambda>e. case flag_name e of None \<Rightarrow> True | Some f \<Rightarrow> f \<notin> override_flags ov) g)
      = fam F g"
    unfolding fam_def filter_filter
    by (rule filter_cong [OF refl]) (use F in \<open>auto split: option.splits\<close>)
  ultimately show ?thesis by (simp add: merge_args_def fam_append)
qed

lemma fam_merge_own:
  "flag_name e = Some f \<Longrightarrow> fam {f} (merge_args g [e]) = [e]"
  by (simp add: fam_def merge_args_def override_flags_def filter_empty_conv map_filter_simps
      split: option.splits)

lemma override_flags_single [simp]:
  "flag_name e = Some f \<Longrightarrow> override_flags [e] = {f}"
  by (auto simp: override_flags_iff)

lemma override_flags_sampling: "override_flags (sampling_to_args F s) \<subseteq> set sampling_flags"
proof
  fix f assume "f \<in> override_flags (sampling_to_args F s)"
  then show "f \<in> set sampling_flags"
    unfolding override_flags_iff sampling_entries key_entries_of [OF sampling_flags_ok(2)] by blast
qed

lemma fam_sampling [simp]:
  "Fs \<inter> set sampling_flags = {} \<Longrightarrow> fam Fs (apply_sampling F server g) = fam Fs g"
  using override_flags_sampling
  by (auto simp: apply_sampling_def split: option.splits intro!: fam_merge)

lemma fam_ctx [simp]: "''-c'' \<notin> Fs \<Longrightarrow> fam Fs (inject_ctx server c g) = fam Fs g"
  by (simp add: inject_ctx_def split: option.splits)

lemma fam_np [simp]: "''-np'' \<notin> Fs \<Longrightarrow> fam Fs (inject_np server g) = fam Fs g"
  by (simp add: inject_np_def split: option.splits)

lemma fam_ngl [simp]: "''-ngl'' \<notin> Fs \<Longrightarrow> fam Fs (inject_ngl server g) = fam Fs g"
  by (simp add: inject_ngl_def split: option.splits)

lemma fam_batch [simp]: "''-b'' \<notin> Fs \<Longrightarrow> fam Fs (inject_batch server g) = fam Fs g"
  by (simp add: inject_batch_def fam_merge split: option.splits)

lemma fam_ubatch [simp]: "''-ub'' \<notin> Fs \<Longrightarrow> fam Fs (inject_ubatch server g) = fam Fs g"
  by (simp add: inject_ubatch_def fam_merge split: option.splits)

lemma fam_kv [simp]: "''--kv-unified'' \<notin> Fs \<Longrightarrow> fam Fs (inject_kv_unified server g) = fam Fs g"
  by (simp add: inject_kv_unified_def)

lemma fam_cache [simp]:
  "flag_word flag \<Longrightarrow> flag \<notin> Fs \<Longrightarrow> fam Fs (inject_cache_type sh ct names flag g) = fam Fs g"
  by (simp add: inject_cache_type_def split: option.splits)

lemma fam_number [simp]:
  "flag_word flag \<Longrightarrow> flag \<notin> Fs \<Longrightarrow> fam Fs (push_number flag v g) = fam Fs g"
  by (simp add: push_number_def split: option.splits)

definition spec_flags :: "string set" where
  "spec_flags = {''--spec-type'', ''--spec-draft-n-max'', ''--spec-draft-n-min'', ''--spec-draft-ngl''}"

lemma spec_flag_words [simp]: "flag_word ''--spec-draft-n-max''" "flag_word ''--spec-draft-n-min''"
  "flag_word ''--spec-draft-ngl''" "flag_word ''-ctk''" "flag_word ''-ctv''" "flag_word ''-m''"
  "flag_word ''--mmproj''" "flag_word ''--spec-draft-model''"
  by (simp_all add: flag_word_simps)

lemma fam_spec [simp]: "Fs \<inter> spec_flags = {} \<Longrightarrow> fam Fs (inject_spec server g) = fam Fs g"
  by (auto simp: inject_spec_def Let_def spec_flags_def)

lemma fam_alias [simp]: "''--alias'' \<notin> Fs \<Longrightarrow> fam Fs (inject_alias server g) = fam Fs g"
  by (simp add: inject_alias_def)

lemma fam_metrics [simp]: "''--metrics'' \<notin> Fs \<Longrightarrow> fam Fs (fst (ensure_metrics g)) = fam Fs g"
  by (simp add: ensure_metrics_def fam_def)

lemma fam_file:
  assumes "inject_file sh config_dir cfg server q ok names flag g = Inr g'" "flag_word flag" "flag \<notin> Fs"
  shows "fam Fs g' = fam Fs g"
  using assms
  by (auto simp: inject_file_def split: option.splits sum.splits if_splits prod.splits)

definition llama_flags :: "string set" where
  "llama_flags = {''--kv-unified'', ''-ctk'', ''-ctv'', ''--alias'', ''--metrics''} \<union> spec_flags"

lemma fam_llama [simp]: "Fs \<inter> llama_flags = {} \<Longrightarrow> fam Fs (llama_stage sh server g) = fam Fs g"
  by (auto simp: llama_stage_def Let_def llama_flags_def)

lemma format_stage_gguf:
  assumes "\<not> is_transformers server"
    and "format_stage sh F json config_dir cfg server ctx_override g = Inr g'"
  obtains g3 where "g' = inject_ngl server (inject_ubatch server (inject_batch server
       (inject_np server (inject_ctx server ctx_override g3))))"
    and "\<And>Fs. Fs \<inter> {''-m'', ''--mmproj'', ''--spec-draft-model''} = {} \<Longrightarrow> fam Fs g3 = fam Fs g"
proof -
  from assms obtain g1 g2 g3 where
    g: "inject_model sh config_dir cfg server g = Inr g1"
       "inject_mmproj sh config_dir cfg server g1 = Inr g2"
       "inject_draft_model sh config_dir cfg server g2 = Inr g3"
    and g': "g' = inject_ngl server (inject_ubatch server (inject_batch server
       (inject_np server (inject_ctx server ctx_override g3))))"
    by (auto simp: format_stage_def split: sum.splits)
  have "fam Fs g3 = fam Fs g" if "Fs \<inter> {''-m'', ''--mmproj'', ''--spec-draft-model''} = {}" for Fs
  proof -
    from that have o: "''-m'' \<notin> Fs" "''--mmproj'' \<notin> Fs" "''--spec-draft-model'' \<notin> Fs" by auto
    have "fam Fs g1 = fam Fs g" using fam_file [OF g(1) [unfolded inject_model_def]] o by simp
    moreover have "fam Fs g2 = fam Fs g1" using fam_file [OF g(2) [unfolded inject_mmproj_def]] o by simp
    moreover have "fam Fs g3 = fam Fs g2"
      using g(3) fam_file [where flag = "''--spec-draft-model''"] o
      by (auto simp: inject_draft_model_def split: if_splits)
    ultimately show ?thesis by simp
  qed
  with g' that show thesis by blast
qed

lemma full_grouped_cases:
  assumes "full_grouped sh F json config_dir cfg server ctx_override default_args = Inr g"
  obtains g1 where
    "format_stage sh F json config_dir cfg server ctx_override (base_args sh default_args server) = Inr g1"
    "g = apply_sampling F server
       (if backend_is_llama_cpp (mc_backend server) then llama_stage sh server g1 else g1)"
  using assms by (auto simp: full_grouped_def split: sum.splits)

lemma total_ctx_unat:
  "unat (total_ctx server ctx) =
     (if backend_is_llama_cpp (mc_backend server) \<and> mc_kv_unified server then unat ctx
      else min (unat ctx * max 1 (unat (unwrap_or (mc_num_parallel server) 1))) (2 ^ 32 - 1))"
proof -
  have "unat (max w 1) = max 1 (unat w)" for w :: u32
    by (cases "w = 0") (auto simp: max_def word_le_nat_alt unat_gt_0)
  then show ?thesis by (simp add: total_ctx_def Let_def unat_sat_mul)
qed

text \<open>
  The context length of a GGUF model's launch line: entries the user or the installation
  wrote win unchanged; otherwise there is exactly one, the override, the model's or the
  quant's context, times the parallel slots (at least one) unless the slots share a unified
  cache, and the product saturates instead of wrapping.
\<close>

theorem launch_context_length:
  assumes "full_grouped sh F json config_dir cfg server ctx_override default_args = Inr g"
    and "\<not> is_transformers server"
  shows "fam {''-c'', ''--ctx-size''} g =
      (case fam {''-c'', ''--ctx-size''} (base_args sh default_args server) of
         [] \<Rightarrow> (case effective_ctx server ctx_override of
             None \<Rightarrow> [] | Some ctx \<Rightarrow> [''-c '' @ show_u32 (total_ctx server ctx)])
       | user \<Rightarrow> user)
    \<and> unat (total_ctx server ctx) =
      (if backend_is_llama_cpp (mc_backend server) \<and> mc_kv_unified server then unat ctx
       else min (unat ctx * max 1 (unat (unwrap_or (mc_num_parallel server) 1))) (2 ^ 32 - 1))"
proof -
  from assms(1) obtain g1 where g1:
    "format_stage sh F json config_dir cfg server ctx_override (base_args sh default_args server) = Inr g1"
    and g: "g = apply_sampling F server
       (if backend_is_llama_cpp (mc_backend server) then llama_stage sh server g1 else g1)"
    by (rule full_grouped_cases)
  from format_stage_gguf [OF assms(2) g1] obtain g3 where
    g3: "g1 = inject_ngl server (inject_ubatch server (inject_batch server
       (inject_np server (inject_ctx server ctx_override g3))))"
    and keep: "\<And>Fs. Fs \<inter> {''-m'', ''--mmproj'', ''--spec-draft-model''} = {}
       \<Longrightarrow> fam Fs g3 = fam Fs (base_args sh default_args server)"
    by blast
  let ?F = "{''-c'', ''--ctx-size''}"
  have "fam ?F g = fam ?F (inject_ctx server ctx_override g3)"
    by (simp add: g g3 sampling_flags_def llama_flags_def spec_flags_def)
  also have "\<dots> = (case fam ?F g3 of
         [] \<Rightarrow> (case effective_ctx server ctx_override of
             None \<Rightarrow> [] | Some ctx \<Rightarrow> [''-c '' @ show_u32 (total_ctx server ctx)])
       | user \<Rightarrow> user)"
    using fam_push_own [where names = "[''-c'', ''--ctx-size'']" and f = "''-c''"]
    by (simp add: inject_ctx_def split: option.splits list.splits)
  finally show ?thesis using keep [of ?F] by (simp add: total_ctx_unat)
qed

text \<open>
  The batch sizes of a GGUF model's launch line: a typed setting leaves exactly one
  \<open>-b\<close> (\<open>-ub\<close>) entry, its own, and an absent one leaves the user's. The long spellings
  \<open>--batch-size\<close> and \<open>--ubatch-size\<close> are other flags to the merge and stay as written, next
  to the typed setting.
\<close>

theorem launch_batch_sizes:
  assumes "full_grouped sh F json config_dir cfg server ctx_override default_args = Inr g"
    and "\<not> is_transformers server"
  shows "fam {''-b''} g = (case mc_n_batch server of
        None \<Rightarrow> fam {''-b''} (base_args sh default_args server) | Some b \<Rightarrow> [''-b '' @ show_u32 b])
    \<and> fam {''-ub''} g = (case mc_n_ubatch server of
        None \<Rightarrow> fam {''-ub''} (base_args sh default_args server) | Some b \<Rightarrow> [''-ub '' @ show_u32 b])
    \<and> fam {''--batch-size'', ''--ubatch-size''} g
        = fam {''--batch-size'', ''--ubatch-size''} (base_args sh default_args server)"
proof -
  from assms(1) obtain g1 where g1:
    "format_stage sh F json config_dir cfg server ctx_override (base_args sh default_args server) = Inr g1"
    and g: "g = apply_sampling F server
       (if backend_is_llama_cpp (mc_backend server) then llama_stage sh server g1 else g1)"
    by (rule full_grouped_cases)
  from format_stage_gguf [OF assms(2) g1] obtain g3 where
    g3: "g1 = inject_ngl server (inject_ubatch server (inject_batch server
       (inject_np server (inject_ctx server ctx_override g3))))"
    and keep: "\<And>Fs. Fs \<inter> {''-m'', ''--mmproj'', ''--spec-draft-model''} = {}
       \<Longrightarrow> fam Fs g3 = fam Fs (base_args sh default_args server)"
    by blast
  have own: "fam {''-b''} (inject_batch server h) =
      (case mc_n_batch server of None \<Rightarrow> fam {''-b''} h | Some b \<Rightarrow> [''-b '' @ show_u32 b])"
    "fam {''-ub''} (inject_ubatch server h) =
      (case mc_n_ubatch server of None \<Rightarrow> fam {''-ub''} h | Some b \<Rightarrow> [''-ub '' @ show_u32 b])" for h
    using fam_merge_own [of _ "''-b''" h] fam_merge_own [of _ "''-ub''" h]
    by (simp_all add: inject_batch_def inject_ubatch_def split: option.splits)
  show ?thesis
    by (simp add: g g3 own keep sampling_flags_def llama_flags_def spec_flags_def
        split: option.splits)
qed

lemma inject_file_own:
  assumes "inject_file sh config_dir cfg server (Some q) ok names flag g = Inr g'"
    and "mc_model server = Some model_id" "mc_quants server q = Some entry" "ok entry"
    and "models_dir config_dir cfg = Inr d" "flag_word flag" "flag \<in> set names"
  shows "fam (set names) g' = (case fam (set names) g of
      [] \<Rightarrow> [flag @ '' '' @ quote_value sh (path_join (repo_path d model_id) (qe_file entry))]
    | user \<Rightarrow> user)"
  using assms fam_push_own [where f = flag]
  by (auto simp: inject_file_def model_file_path_def split: list.splits)

text \<open>
  The model file of a GGUF launch line: when the selected quant is in the model's table,
  the line names exactly one model file, the quoted path of that file below the models
  directory, unless the user or the installation already names one, which then stays as it is.
\<close>

theorem launch_model_file:
  assumes "full_grouped sh F json config_dir cfg server ctx_override default_args = Inr g"
    and "\<not> is_transformers server"
    and "mc_model server = Some model_id" "mc_quant server = Some q"
    and "mc_quants server q = Some entry" "models_dir config_dir cfg = Inr d"
  shows "fam {''-m'', ''--model''} g =
     (case fam {''-m'', ''--model''} (base_args sh default_args server) of
        [] \<Rightarrow> [''-m '' @ quote_value sh (path_join (repo_path d model_id) (qe_file entry))]
      | user \<Rightarrow> user)"
proof -
  from assms(1) obtain g1 where g1:
    "format_stage sh F json config_dir cfg server ctx_override (base_args sh default_args server) = Inr g1"
    and g: "g = apply_sampling F server
       (if backend_is_llama_cpp (mc_backend server) then llama_stage sh server g1 else g1)"
    by (rule full_grouped_cases)
  from g1 assms(2) obtain m1 m2 m3 where
    m: "inject_model sh config_dir cfg server (base_args sh default_args server) = Inr m1"
       "inject_mmproj sh config_dir cfg server m1 = Inr m2"
       "inject_draft_model sh config_dir cfg server m2 = Inr m3"
    and m4: "g1 = inject_ngl server (inject_ubatch server (inject_batch server
       (inject_np server (inject_ctx server ctx_override m3))))"
    by (auto simp: format_stage_def split: sum.splits)
  let ?F = "{''-m'', ''--model''}"
  have "fam ?F m2 = fam ?F m1"
    using fam_file [OF m(2) [unfolded inject_mmproj_def]] by simp
  moreover have "fam ?F m3 = fam ?F m2"
    using m(3) fam_file [where flag = "''--spec-draft-model''" and Fs = ?F]
    by (auto simp: inject_draft_model_def split: if_splits)
  moreover have "fam ?F g = fam ?F m3"
    by (simp add: g m4 sampling_flags_def llama_flags_def spec_flags_def)
  moreover have "fam ?F m1 = (case fam ?F (base_args sh default_args server) of
        [] \<Rightarrow> [''-m'' @ '' '' @ quote_value sh (path_join (repo_path d model_id) (qe_file entry))]
      | user \<Rightarrow> user)"
    using inject_file_own [OF m(1) [unfolded inject_model_def assms(4)] assms(3,5) _ assms(6)]
    by simp
  ultimately show ?thesis by (simp split: list.splits)
qed

text \<open>
  Every llama.cpp launch line switches the metrics endpoint on, whatever the format of
  the model and whatever the user wrote.
\<close>

theorem launch_metrics_on:
  assumes "full_grouped sh F json config_dir cfg server ctx_override default_args = Inr g"
    and "backend_is_llama_cpp (mc_backend server)"
  shows "fam {''--metrics''} g \<noteq> []"
proof -
  have "fam {''--metrics''} (fst (ensure_metrics h)) \<noteq> []" for h
    by (auto simp: ensure_metrics_def fam_def filter_empty_conv list_ex_iff)
  with assms show ?thesis
    by (auto elim!: full_grouped_cases simp: llama_stage_def Let_def sampling_flags_def)
qed

section \<open>A concrete launch line\<close>

definition demo_server :: "nat model_config" where
  "demo_server = model_default\<lparr>mc_backend := ''llama_cpp'', mc_args := [''-fa 1''],
     mc_model := Some ''org/m'', mc_quant := Some ''Q4'',
     mc_quants := [''Q4'' \<mapsto> \<lparr>qe_file = ''m.gguf'', qe_kind = QModel, qe_size_bytes = None,
        qe_context_length = None\<rparr>],
     mc_context_length := Some 4096, mc_num_parallel := Some 2, mc_n_batch := Some 512\<rparr>"

definition demo_config :: config where
  "demo_config = \<lparr>cf_models_dir = Some ''/models'', cf_backends = [], cf_proxy_host = ''0.0.0.0'',
     cf_proxy_port = 11411\<rparr>"

abbreviation demo_full :: "resolve_error + string list" where
  "demo_full \<equiv> full_grouped demo_shlex demo_f64 (\<lambda>_. None) None demo_config demo_server None
     [''--batch-size'', ''1024'']"

lemma inject_file_total:
  "models_dir config_dir cfg = Inr d
    \<Longrightarrow> \<exists>g'. inject_file sh config_dir cfg server q ok names flag g = Inr g'"
  by (simp add: inject_file_def model_file_path_def split: option.splits)

lemma full_grouped_total:
  assumes "models_dir config_dir cfg = Inr d"
  shows "\<exists>g. full_grouped sh F json config_dir cfg server ctx_override default_args = Inr g"
proof -
  let ?b = "base_args sh default_args server"
  obtain p where p: "inject_positional sh config_dir cfg server ?b = Inr p"
    by (cases "mc_model server") (simp_all add: inject_positional_def Let_def assms)
  obtain g1 where g1: "inject_model sh config_dir cfg server ?b = Inr g1"
    unfolding inject_model_def using inject_file_total [OF assms] by blast
  obtain g2 where g2: "inject_mmproj sh config_dir cfg server g1 = Inr g2"
    unfolding inject_mmproj_def using inject_file_total [OF assms] by blast
  obtain g3 where g3: "inject_draft_model sh config_dir cfg server g2 = Inr g3"
    by (cases "has_draft_mtp server")
       (use inject_file_total [OF assms] in \<open>simp add: inject_draft_model_def, blast\<close>,
        simp add: inject_draft_model_def)
  show ?thesis
    by (simp add: full_grouped_def format_stage_def p g1 g2 g3)
qed

lemma demo_flags: "flag_name ''--batch-size 1024'' = Some ''--batch-size''"
  "flag_name ''-fa 1'' = Some ''-fa''"
  using flag_name_word_value [of "''--batch-size''" "''1024''"] flag_name_word_value [of "''-fa''" "''1''"]
  by (simp_all add: flag_word_simps)

lemma demo_base: "base_args demo_shlex [''--batch-size'', ''1024''] demo_server
    = [''--batch-size 1024'', ''-fa 1'']"
  by (simp add: base_args_def demo_server_def model_default_def group_legacy_flat_args_def
      merge_args_def override_flags_iff has_ws_def is_ws_def is_flag_token_def is_digit_def
      join_flag_value_def demo_flags)

lemma demo_facts: "\<not> is_transformers demo_server" "backend_is_llama_cpp (mc_backend demo_server)"
  "mc_model demo_server = Some ''org/m''" "mc_quant demo_server = Some ''Q4''"
  "mc_quants demo_server ''Q4'' = Some \<lparr>qe_file = ''m.gguf'', qe_kind = QModel,
     qe_size_bytes = None, qe_context_length = None\<rparr>"
  "models_dir None demo_config = Inr ''/models''"
  by (simp_all add: demo_server_def demo_config_def model_default_def is_transformers_def
      backend_is_llama_cpp_def models_dir_def)

theorem launch_context_length_witness:
  "\<exists>g. demo_full = Inr g \<and> fam {''-c'', ''--ctx-size''} g = [''-c '' @ show_u32 (total_ctx demo_server 4096)]
    \<and> unat (total_ctx demo_server 4096) = 8192"
proof -
  obtain g where g: "demo_full = Inr g"
    using full_grouped_total [OF demo_facts(6)] by blast
  have ctx: "effective_ctx demo_server None = Some 4096" "mc_num_parallel demo_server = Some 2"
    "\<not> mc_kv_unified demo_server"
    by (simp_all add: effective_ctx_def demo_server_def model_default_def)
  from launch_context_length [OF g demo_facts(1), of 4096] show ?thesis
    using g by (simp add: demo_base fam_def demo_flags ctx unwrap_or_def)
qed

theorem launch_batch_sizes_witness:
  "\<exists>g. demo_full = Inr g \<and> fam {''-b''} g = [''-b '' @ show_u32 512]
    \<and> fam {''--batch-size'', ''--ubatch-size''} g = [''--batch-size 1024'']"
proof -
  obtain g where g: "demo_full = Inr g"
    using full_grouped_total [OF demo_facts(6)] by blast
  have "mc_n_batch demo_server = Some 512"
    by (simp add: demo_server_def model_default_def)
  with launch_batch_sizes [OF g demo_facts(1)] show ?thesis
    using g by (simp add: demo_base fam_def demo_flags)
qed

theorem launch_model_file_witness:
  "\<exists>g. demo_full = Inr g \<and> fam {''-m'', ''--model''} g = [''-m /models/org/m/m.gguf'']"
proof -
  obtain g where g: "demo_full = Inr g"
    using full_grouped_total [OF demo_facts(6)] by blast
  have "quote_value demo_shlex (path_join (repo_path ''/models'' ''org/m'') ''m.gguf'')
      = ''/models/org/m/m.gguf''"
    by code_simp
  with launch_model_file [OF g demo_facts(1,3,4,5,6)] show ?thesis
    using g by (simp add: demo_base fam_def demo_flags)
qed

theorem launch_metrics_on_witness:
  "\<exists>g. demo_full = Inr g \<and> fam {''--metrics''} g \<noteq> []"
proof -
  obtain g where g: "demo_full = Inr g"
    using full_grouped_total [OF demo_facts(6)] by blast
  with launch_metrics_on [OF g demo_facts(2)] show ?thesis by blast
qed

section \<open>Which model a name means\<close>

text \<open>The model a load request is built for, as \<open>build_load_spec\<close> resolves it.\<close>

datatype load_error = NoBackendFor string | LoadResolve resolve_error

definition load_target ::
  "config \<Rightarrow> (string, 'f model_config) hmap \<Rightarrow> string
     \<Rightarrow> load_error + string \<times> 'f model_config \<times> backend_config" where
  "load_target cfg models model_name =
     (case resolve_backends_for_model cfg models model_name of
        [] \<Rightarrow> Inl (NoBackendFor model_name)
      | (backend_name, _) # _ \<Rightarrow> (case resolve_backend cfg models backend_name of
            Inl e \<Rightarrow> Inl (LoadResolve e)
          | Inr (m, b) \<Rightarrow> Inr (backend_name, m, b)))"

lemma mset_single_eq: "mset xs = mset [x] \<Longrightarrow> xs = [x]"
  by simp

lemma find_unique:
  assumes "set xs = set ys" "\<And>x y. x \<in> set xs \<Longrightarrow> y \<in> set xs \<Longrightarrow> P x \<Longrightarrow> P y \<Longrightarrow> x = y"
  shows "List.find P xs = List.find P ys"
proof (cases "List.find P xs")
  case None
  with assms(1) show ?thesis by (simp add: find_None_iff) (metis find_None_iff)
next
  case (Some x)
  then have x: "x \<in> set xs" "P x" by (auto simp: find_Some_iff)
  show ?thesis
  proof (cases "List.find P ys")
    case None
    with x assms(1) show ?thesis by (auto simp: find_None_iff)
  next
    case (Some y)
    then have "y \<in> set ys" "P y" by (auto simp: find_Some_iff)
    with x assms have "x = y" by blast
    with Some \<open>List.find P xs = Some x\<close> show ?thesis by simp
  qed
qed

text \<open>
  The iteration order of the model map does not matter: two maps with the same entries
  resolve every name alike, as long as at most one model has the name in its repository field.
\<close>

theorem resolve_backend_order:
  assumes "mset models = mset models'" "hm_wf models"
    and "\<forall>m \<in> snd ` set models. \<forall>m' \<in> snd ` set models.
           mc_model m = Some name \<and> mc_model m' = Some name \<longrightarrow> m = m'"
  shows "resolve_backend cfg models name = resolve_backend cfg models' name"
proof -
  let ?P = "\<lambda>m. opt_eq_ignore_case (mc_api_name m) name"
  let ?f = "\<lambda>ms. filter ?P (map snd ms)"
  have ms: "mset (?f models) = mset (?f models')"
    using assms(1) by (metis mset_filter mset_map)
  have set: "set models = set models'" using assms(1) by (rule mset_eq_setD)
  have wf': "hm_wf models'"
    using assms(1,2) unfolding hm_wf_def by (metis mset_eq_imp_distinct_iff mset_map)
  have get: "hm_get models name = hm_get models' name"
    using set assms(2) wf' unfolding hm_wf_def hm_get_def by (metis map_of_inject_set)
  have find_eq: "List.find (\<lambda>m. mc_model m = Some name) (map snd models)
      = List.find (\<lambda>m. mc_model m = Some name) (map snd models')"
    by (rule find_unique) (use set assms(3) in auto)
  consider "?f models = []" | m where "?f models = [m]" | a b c where "?f models = a # b # c"
    by (metis list.exhaust)
  then show ?thesis
  proof cases
    case 1
    with ms have "?f models' = []" by simp
    with 1 show ?thesis by (simp add: resolve_backend_def get find_eq Let_def split: option.split)
  next
    case (2 m)
    with ms have "?f models' = [m]" by (metis mset_single_eq)
    with 2 show ?thesis by (simp add: resolve_backend_def)
  next
    case (3 a b c)
    with ms have "length (?f models') = Suc (Suc (length c))" by (metis length_Cons size_mset)
    then obtain x y z where "?f models' = x # y # z" unfolding length_Suc_conv by blast
    with 3 show ?thesis by (simp add: resolve_backend_def)
  qed
qed

theorem resolve_backend_order_witness:
  "resolve_backend demo_config [(''a'', demo_server), (''b'', model_default)] ''org/m''
     = resolve_backend demo_config [(''b'', model_default), (''a'', demo_server)] ''org/m''"
proof (rule resolve_backend_order)
  show "mset [(''a'', demo_server), (''b'', model_default)]
      = mset [(''b'', model_default), (''a'', demo_server)]" by simp
  show "hm_wf [(''a'', demo_server), (''b'', model_default)]" by (simp add: hm_wf_def)
  show "\<forall>m \<in> snd ` set [(''a'', demo_server), (''b'', model_default)].
      \<forall>m' \<in> snd ` set [(''a'', demo_server), (''b'', model_default)].
        mc_model m = Some ''org/m'' \<and> mc_model m' = Some ''org/m'' \<longrightarrow> m = m'"
    by (simp add: demo_server_def model_default_def)
qed

lemma resolve_backends_first:
  assumes "resolve_backends_for_model cfg models model_name = (k, mb) # rest"
  shows "\<exists>m. (k, m) \<in> set models \<and> mc_enabled m \<and> model_answers_to model_name k m"
proof -
  have "(k, mb) \<in> set (resolve_backends_for_model cfg models model_name)" using assms by simp
  then show ?thesis
    by (auto simp: resolve_backends_for_model_def List.map_filter_def split: if_splits)
qed

text \<open>
  The load target: when no model's API name spells another model's key, a request
  resolves to an enabled model that answers to the name, and the settings used are those
  stored under the reported key.
\<close>

theorem load_target_consistent:
  assumes "load_target cfg models model_name = Inr (k, m, b)" "hm_wf models"
    and "\<forall>(k', m') \<in> set models. opt_eq_ignore_case (mc_api_name m') k \<longrightarrow> k' = k"
  shows "hm_get models k = Some m \<and> mc_enabled m \<and> model_answers_to model_name k m"
proof -
  from assms(1) obtain mb rest where
    r: "resolve_backends_for_model cfg models model_name = (k, mb) # rest"
    and res: "resolve_backend cfg models k = Inr (m, b)"
    by (auto simp: load_target_def split: list.splits sum.splits)
  from resolve_backends_first [OF r] obtain m0 where
    m0: "(k, m0) \<in> set models" "mc_enabled m0" "model_answers_to model_name k m0" by blast
  from m0(1) assms(2) have get: "hm_get models k = Some m0"
    by (simp add: hm_get_def hm_wf_def)
  let ?ms = "filter (\<lambda>m. opt_eq_ignore_case (mc_api_name m) k) (map snd models)"
  have only: "m' = m0" if "m' \<in> set ?ms" for m'
  proof -
    from that obtain k' where "(k', m') \<in> set models" "opt_eq_ignore_case (mc_api_name m') k" by auto
    with assms(3) have "k' = k" by blast
    with \<open>(k', m') \<in> set models\<close> m0(1) assms(2) show ?thesis
      unfolding hm_wf_def by (simp add: eq_key_imp_eq_value)
  qed
  have "m = m0"
  proof (cases ?ms)
    case Nil
    with res get show ?thesis by (simp add: resolve_backend_def)
  next
    case (Cons a rest')
    with only have "a = m0" by simp
    with res Cons show ?thesis by (cases rest') (auto simp: resolve_backend_def)
  qed
  with get m0 show ?thesis by simp
qed

definition demo_named :: "string \<Rightarrow> string \<Rightarrow> nat model_config" where
  "demo_named backend api = model_default\<lparr>mc_backend := backend, mc_enabled := True,
     mc_api_name := Some api\<rparr>"

lemma demo_lower: "to_lower ''a'' = ''a''" "to_lower ''A'' = ''a''" "to_lower ''x'' = ''x''"
  "to_lower ''y'' = ''y''"
  by code_simp+

lemmas load_target_demo = load_target_def resolve_backends_for_model_def resolve_backend_def
  map_filter_simps demo_named_def model_default_def model_answers_to_def opt_eq_ignore_case_def
  eq_ignore_case_def demo_lower backend_of_def demo_config_def unwrap_or_def hm_get_def

theorem load_target_consistent_witness:
  "load_target demo_config [(''a'', demo_named ''llama'' ''x''), (''b'', demo_named ''vllm'' ''y'')] ''x''
     = Inr (''a'', demo_named ''llama'' ''x'', empty_backend_config)
   \<and> hm_get [(''a'', demo_named ''llama'' ''x''), (''b'', demo_named ''vllm'' ''y'')] ''a''
     = Some (demo_named ''llama'' ''x'')"
proof -
  let ?ms = "[(''a'', demo_named ''llama'' ''x''), (''b'', demo_named ''vllm'' ''y'')]"
  have l: "load_target demo_config ?ms ''x''
     = Inr (''a'', demo_named ''llama'' ''x'', empty_backend_config)"
    by (simp add: load_target_demo)
  moreover have "hm_wf ?ms" by (simp add: hm_wf_def)
  moreover have "\<forall>(k', m') \<in> set ?ms. opt_eq_ignore_case (mc_api_name m') ''a'' \<longrightarrow> k' = ''a''"
    by (simp add: load_target_demo)
  ultimately show ?thesis using load_target_consistent by fastforce
qed

text \<open>
  Without that assumption the settings of another model are used: the request names
  model \<open>a\<close>, whose key is the API name of model \<open>b\<close>, and the launch line is built from the
  settings of \<open>b\<close> under the name \<open>a\<close>.
\<close>

theorem load_target_hijacked:
  "load_target demo_config [(''a'', demo_named ''llama'' ''x''), (''b'', demo_named ''vllm'' ''A'')] ''x''
     = Inr (''a'', demo_named ''vllm'' ''A'', empty_backend_config)"
  by (simp add: load_target_demo)

text \<open>
  Overriding a flat flag: everything before its first occurrence and after its value is
  kept, the flag is followed by the new value, a missing flag is appended, and the last
  override of a flag is the only one that counts.
\<close>

theorem override_arg_spec:
  "override_arg args flag value =
     takeWhile (\<lambda>a. a \<noteq> flag) args @ flag # value # drop 2 (dropWhile (\<lambda>a. a \<noteq> flag) args)
   \<and> override_arg (override_arg args flag value) flag value' = override_arg args flag value'"
proof
  show "override_arg args flag value =
      takeWhile (\<lambda>a. a \<noteq> flag) args @ flag # value # drop 2 (dropWhile (\<lambda>a. a \<noteq> flag) args)"
    by (induction args) (simp_all add: numeral_2_eq_2 drop_Suc)
  show "override_arg (override_arg args flag value) flag value' = override_arg args flag value'"
    by (induction args) simp_all
qed

end
