(* ===== verification/Lifecycle.thy ===== *)
theory Lifecycle
  imports Store Resolve
begin

text \<open>
  The tamad's process lifecycle: \<open>tamad/src/lifecycle.rs\<close> and the load, unload and restart
  handlers of \<open>tamad/src/server.rs\<close>. Every handler and every detached task is a small program
  whose steps are the sections between two lock acquisitions: a step takes the table's or
  the store's lock once. \<open>act\<close> runs one step of one task, or lets the environment act: a
  request arrives, a process dies, the supervisor takes a job, the reconciler ticks. Theorems
  over all reachable states therefore cover every interleaving of the tasks.

  What a step learns from the host is its \<open>env\<close>: the process id the system gives, whether a
  spawn, a health poll or a kill succeeds, the clock, and where a disk operation stops. The
  reconciler's work on one row is a task of its own, and replayed loads run without the
  semaphore's bound of two; both only add interleavings.
\<close>

section \<open>Pure helpers\<close>

definition endpoint_from_health_url :: "'u url_ops \<Rightarrow> string \<Rightarrow> string" where
  "endpoint_from_health_url U health_url = (case u_parse U health_url of
       Some u \<Rightarrow> trim_end_slash (u_show U (u_clear_fragment U (u_clear_query U (u_set_path U u []))))
     | None \<Rightarrow> health_url)"

definition entry_for ::
  "'u url_ops \<Rightarrow> int \<Rightarrow> load_request \<Rightarrow> u32 \<Rightarrow> string \<Rightarrow> bool \<Rightarrow> process_entry option \<Rightarrow> process_entry"
where
  "entry_for U now req pid entry_status inherit_bookkeeping previous =
     (let (count, starts, flagged) = (case (inherit_bookkeeping, previous) of
            (True, Some prev) \<Rightarrow> (pe_restart_count prev, pe_window_starts prev, pe_user_flagged prev)
          | _ \<Rightarrow> (0, [], (case previous of Some p \<Rightarrow> pe_user_flagged p | None \<Rightarrow> False)))
      in \<lparr>pe_model_name = lr_model_name req, pe_provider_name = lr_provider_name req,
          pe_pid = pid, pe_endpoint_url = endpoint_from_health_url U (lr_health_url req),
          pe_status = entry_status, pe_started_at = now, pe_spec = req,
          pe_restart_count = count, pe_window_starts = starts, pe_user_flagged = flagged\<rparr>)"

definition gated :: "load_request \<Rightarrow> bool" where
  "gated req = (lr_health_url req \<noteq> [] \<and> lr_health_timeout_ms req \<noteq> 0)"

definition owns_row :: "string \<Rightarrow> u32 \<Rightarrow> process_table \<Rightarrow> bool" where
  "owns_row model_name pid t = (case pt_get t model_name of
       Some e \<Rightarrow> pe_pid e = pid | None \<Rightarrow> False)"

definition owns_starting_row :: "string \<Rightarrow> u32 \<Rightarrow> process_table \<Rightarrow> bool" where
  "owns_starting_row model_name pid t = (case pt_get t model_name of
       Some e \<Rightarrow> pe_pid e = pid \<and> pe_status e = st_starting | None \<Rightarrow> False)"

definition wants_respawn :: "process_entry \<Rightarrow> stored_process option \<Rightarrow> bool" where
  "wants_respawn entry stored = ((case stored of
       Some sp \<Rightarrow> so_desired sp \<and> \<not> so_user_flagged sp | None \<Rightarrow> False) \<and> \<not> pe_user_flagged entry)"

definition replayable :: "stored_process \<Rightarrow> bool" where
  "replayable sp = (so_desired sp \<and> \<not> so_user_flagged sp
     \<and> \<not> so_persisted_restart_count sp \<ge> so_max_restarts sp)"

datatype sweep_verdict = SweepSkip | SweepTear | SweepProbe

definition sweep_row :: "int \<Rightarrow> int \<Rightarrow> int \<Rightarrow> process_entry \<Rightarrow> sweep_verdict" where
  "sweep_row grace min_deadline now e =
     (if pe_status e \<noteq> st_starting then SweepSkip
      else if \<not> gated (pe_spec e) then SweepSkip
      else
        let age = now - pe_started_at e;
            deadline = max (min (2 * max (lr_health_timeout_ms (pe_spec e)) 0) (2 ^ 64 - 1)) min_deadline
        in if age < grace then SweepSkip
           else if age > deadline then SweepTear else SweepProbe)"

section \<open>Tasks\<close>

datatype origin = FromRpc | FromSupervisor | FromReplay | FromRestart

datatype after_unload = Forget string | Reload load_request | KillNext "string list"

datatype task =
    SrvLoad load_request
  | Persist load_request
  | LoadStart load_request origin
  | LoadRead load_request u32 origin
  | LoadInsert load_request u32 "process_entry option" origin
  | LoadOwn load_request u32 "process_entry option" origin
  | LoadReady load_request u32 "process_entry option" origin
  | GatePoll load_request u32 bool
  | GateHealthy load_request u32
  | GateReadReady load_request u32
  | GateSick load_request u32 bool
  | GateKill load_request u32 bool
  | GateSickAgain load_request u32 bool
  | GateReadFailed load_request u32 bool
  | GateInsert load_request u32 string bool "process_entry option"
  | GateReset string
  | SweepPing load_request u32
  | Reap string u32
  | ReapStore string u32 process_entry
  | ReapFail string u32
  | ReapRecord string u32 stored_process
  | ReapTrip string u32 u32
  | ReapPersist string u32 nat
  | ReapRestart string u32 stored_process u32
  | UnloadRemove string after_unload
  | UnloadKill process_entry after_unload
  | UnloadForget string
  | RestartGet string
  | KillAll "string list"
  | ReplayOne stored_process

record tamad =
  tm_table :: process_table
  tm_store :: store
  tm_tasks :: "task list"
  tm_queue :: "(string \<times> load_request \<times> u32) list"
  tm_alive :: "u32 list"

record env =
  ev_pid :: u32
  ev_ok :: bool
  ev_now :: int
  ev_fault :: write_fault
  ev_delete :: delete_fault

section \<open>One step of a task\<close>

text \<open>\<open>run_task\<close> gives the tasks that follow and the new state; the list is empty at a return.\<close>

definition after_load :: "load_request \<Rightarrow> origin \<Rightarrow> task list" where
  "after_load req from = (if from = FromRpc then [Persist req] else [])"

definition put_row :: "process_entry \<Rightarrow> tamad \<Rightarrow> tamad" where
  "put_row e s = s\<lparr>tm_table := pt_insert e (tm_table s)\<rparr>"

definition kill_pid :: "env \<Rightarrow> u32 \<Rightarrow> tamad \<Rightarrow> tamad" where
  "kill_pid ev pid s = (if ev_ok ev then s\<lparr>tm_alive := removeAll pid (tm_alive s)\<rparr> else s)"

definition persist_desired :: "manifest_json \<Rightarrow> env \<Rightarrow> load_request \<Rightarrow> tamad \<Rightarrow> tamad" where
  "persist_desired J ev req s = s\<lparr>tm_store :=
     snd (store_insert J (ev_fault ev) (ev_now ev) (lr_model_name req) req True (tm_store s))\<rparr>"

fun run_load :: "'u url_ops \<Rightarrow> env \<Rightarrow> task \<Rightarrow> tamad \<Rightarrow> task list \<times> tamad" where
  "run_load U ev (SrvLoad req) s = (case pt_get (tm_table s) (lr_model_name req) of
       Some e \<Rightarrow>
         if pe_status e \<noteq> st_failed \<and> pe_pid e \<in> set (tm_alive s) then ([Persist req], s)
         else ([LoadStart req FromRpc], s)
     | None \<Rightarrow> ([LoadStart req FromRpc], s))"
| "run_load U ev (LoadStart req from) s =
     (if \<not> ev_ok ev then ([], s)
      else (LoadRead req (ev_pid ev) from
              # (if lr_docker_config_json req = [] then [Reap (lr_model_name req) (ev_pid ev)] else []),
            s\<lparr>tm_alive := ev_pid ev # tm_alive s\<rparr>))"
| "run_load U ev (LoadRead req pid from) s =
     ([LoadInsert req pid (pt_get (tm_table s) (lr_model_name req)) from], s)"
| "run_load U ev (LoadInsert req pid previous from) s =
     (let inherit = (case previous of Some p \<Rightarrow> pe_status p = st_restarting | None \<Rightarrow> False)
      in (if gated req then GatePoll req pid inherit # after_load req from
          else [LoadOwn req pid previous from],
          put_row (entry_for U (ev_now ev) req pid st_starting inherit previous) s))"
| "run_load U ev (LoadOwn req pid previous from) s =
     (if owns_row (lr_model_name req) pid (tm_table s) then ([LoadReady req pid previous from], s)
      else (after_load req from, s))"
| "run_load U ev (LoadReady req pid previous from) s =
     (let inherit = (case previous of Some p \<Rightarrow> pe_status p = st_restarting | None \<Rightarrow> False)
      in (after_load req from,
          put_row (entry_for U (ev_now ev) req pid st_ready inherit previous) s))"
| "run_load U ev t s = ([], s)"

fun run_gate :: "'u url_ops \<Rightarrow> manifest_json \<Rightarrow> env \<Rightarrow> task \<Rightarrow> tamad \<Rightarrow> task list \<times> tamad" where
  "run_gate U J ev (GatePoll req pid inh) s =
     ([if ev_ok ev then GateHealthy req pid else GateSick req pid inh], s)"
| "run_gate U J ev (SweepPing req pid) s = (if ev_ok ev then [GateHealthy req pid] else [], s)"
| "run_gate U J ev (GateHealthy req pid) s =
     (if owns_starting_row (lr_model_name req) pid (tm_table s) then [GateReadReady req pid] else [], s)"
| "run_gate U J ev (GateReadReady req pid) s =
     ([GateInsert req pid st_ready False (pt_get (tm_table s) (lr_model_name req))], s)"
| "run_gate U J ev (GateSick req pid inh) s =
     (if owns_starting_row (lr_model_name req) pid (tm_table s) then [GateKill req pid inh] else [], s)"
| "run_gate U J ev (GateKill req pid inh) s = ([GateSickAgain req pid inh], kill_pid ev pid s)"
| "run_gate U J ev (GateSickAgain req pid inh) s =
     (if owns_starting_row (lr_model_name req) pid (tm_table s) then [GateReadFailed req pid inh] else [], s)"
| "run_gate U J ev (GateReadFailed req pid inh) s =
     ([GateInsert req pid st_failed inh (pt_get (tm_table s) (lr_model_name req))], s)"
| "run_gate U J ev (GateInsert req pid st inh previous) s =
     (if st = st_ready then [GateReset (lr_model_name req)] else [],
      put_row (entry_for U (ev_now ev) req pid st inh previous) s)"
| "run_gate U J ev (GateReset name) s = ([], s\<lparr>tm_store :=
     snd (zero_persisted_restart_count J (ev_fault ev) (ev_now ev) name (tm_store s))\<rparr>)"
| "run_gate U J ev t s = ([], s)"

fun run_reap :: "manifest_json \<Rightarrow> env \<Rightarrow> task \<Rightarrow> tamad \<Rightarrow> task list \<times> tamad" where
  "run_reap J ev (Reap name pid) s = (case pt_get (tm_table s) name of
       Some e \<Rightarrow> if pe_pid e = pid then ([ReapStore name pid e], s) else ([], s)
     | None \<Rightarrow> ([], s))"
| "run_reap J ev (ReapStore name pid e) s =
     (let stored = store_get (tm_store s) name
      in if \<not> wants_respawn e stored then ([ReapFail name pid], s)
         else (case stored of Some sp \<Rightarrow> ([ReapRecord name pid sp], s) | None \<Rightarrow> ([], s)))"
| "run_reap J ev (ReapFail name pid) s = ([], s\<lparr>tm_table := mark_failed name pid (tm_table s)\<rparr>)"
| "run_reap J ev (ReapRecord name pid sp) s =
     (case record_restart_window name (ev_now ev) (tm_table s) of
        (None, t) \<Rightarrow> ([], s)
      | (Some n, t) \<Rightarrow>
          ([if n \<ge> so_max_restarts sp then ReapTrip name pid (so_max_restarts sp)
            else ReapRestart name pid sp n], s\<lparr>tm_table := t\<rparr>))"
| "run_reap J ev (ReapTrip name pid cap) s = (case mark_budget_exhausted name pid (tm_table s) of
       (ok, t) \<Rightarrow> (if ok then [ReapPersist name cap 1] else [], s\<lparr>tm_table := t\<rparr>))"
| "run_reap J ev (ReapPersist name cap attempt) s =
     (case set_tripped J (ev_fault ev) (ev_now ev) name cap (tm_store s) of
        (err, st) \<Rightarrow> (if err \<noteq> None \<and> attempt < 3 then [ReapPersist name cap (attempt + 1)] else [],
                      s\<lparr>tm_store := st\<rparr>))"
| "run_reap J ev (ReapRestart name pid sp n) s = (case mark_restarting name pid (tm_table s) of
       (ok, t) \<Rightarrow> ([], if ok
          then s\<lparr>tm_table := t, tm_queue := tm_queue s @ [(name, load_request_of sp, n)]\<rparr>
          else s\<lparr>tm_table := t\<rparr>))"
| "run_reap J ev t s = ([], s)"

definition unload_next :: "after_unload \<Rightarrow> task list" where
  "unload_next next = (case next of
       Forget name \<Rightarrow> [UnloadForget name]
     | Reload spec \<Rightarrow> [LoadStart spec FromRestart]
     | KillNext names \<Rightarrow> [KillAll names])"

fun run_unload :: "env \<Rightarrow> task \<Rightarrow> tamad \<Rightarrow> task list \<times> tamad" where
  "run_unload ev (UnloadRemove name next) s = (case pt_remove name (tm_table s) of
       (Some e, t) \<Rightarrow> ([UnloadKill e next], s\<lparr>tm_table := t\<rparr>)
     | (None, t) \<Rightarrow> ((case next of KillNext names \<Rightarrow> [KillAll names] | _ \<Rightarrow> []), s))"
| "run_unload ev (UnloadKill e next) s = (unload_next next, kill_pid ev (pe_pid e) s)"
| "run_unload ev (UnloadForget name) s =
     ([], s\<lparr>tm_store := snd (store_delete (ev_delete ev) name (tm_store s))\<rparr>)"
| "run_unload ev (RestartGet name) s = (case pt_get (tm_table s) name of
       Some e \<Rightarrow> ([UnloadRemove name (Reload (pe_spec e))], s)
     | None \<Rightarrow> ([], s))"
| "run_unload ev (KillAll []) s = ([], s)"
| "run_unload ev (KillAll (n # ns)) s = ([UnloadRemove n (KillNext ns)], s)"
| "run_unload ev t s = ([], s)"

section \<open>The whole daemon\<close>

definition run_task :: "'u url_ops \<Rightarrow> manifest_json \<Rightarrow> env \<Rightarrow> task \<Rightarrow> tamad \<Rightarrow> task list \<times> tamad" where
  "run_task U J ev t s = (case t of
       SrvLoad _ \<Rightarrow> run_load U ev t s
     | Persist req \<Rightarrow> ([], persist_desired J ev req s)
     | LoadStart _ _ \<Rightarrow> run_load U ev t s
     | LoadRead _ _ _ \<Rightarrow> run_load U ev t s
     | LoadInsert _ _ _ _ \<Rightarrow> run_load U ev t s
     | LoadOwn _ _ _ _ \<Rightarrow> run_load U ev t s
     | LoadReady _ _ _ _ \<Rightarrow> run_load U ev t s
     | Reap name pid \<Rightarrow>
         if pid \<in> set (tm_alive s) then ([t], s) else run_reap J ev t s
     | ReapStore _ _ _ \<Rightarrow> run_reap J ev t s
     | ReapFail _ _ \<Rightarrow> run_reap J ev t s
     | ReapRecord _ _ _ \<Rightarrow> run_reap J ev t s
     | ReapTrip _ _ _ \<Rightarrow> run_reap J ev t s
     | ReapPersist _ _ _ \<Rightarrow> run_reap J ev t s
     | ReapRestart _ _ _ _ \<Rightarrow> run_reap J ev t s
     | UnloadRemove _ _ \<Rightarrow> run_unload ev t s
     | UnloadKill _ _ \<Rightarrow> run_unload ev t s
     | UnloadForget _ \<Rightarrow> run_unload ev t s
     | RestartGet _ \<Rightarrow> run_unload ev t s
     | KillAll _ \<Rightarrow> run_unload ev t s
     | ReplayOne sp \<Rightarrow>
         (case pt_get (tm_table s) (so_model_name sp) of
            Some e \<Rightarrow> if pe_pid e \<in> set (tm_alive s) then ([], s)
                       else ([LoadStart (load_request_of sp) FromReplay], s)
          | None \<Rightarrow> ([LoadStart (load_request_of sp) FromReplay], s))
     | _ \<Rightarrow> run_gate U J ev t s)"

text \<open>The supervisor takes the next job only when its previous load has returned.\<close>

fun supervised :: "task \<Rightarrow> bool" where
  "supervised (LoadStart _ from) = (from = FromSupervisor)"
| "supervised (LoadRead _ _ from) = (from = FromSupervisor)"
| "supervised (LoadInsert _ _ _ from) = (from = FromSupervisor)"
| "supervised (LoadOwn _ _ _ from) = (from = FromSupervisor)"
| "supervised (LoadReady _ _ _ from) = (from = FromSupervisor)"
| "supervised _ = False"

definition replay_desired :: "bool \<Rightarrow> store \<Rightarrow> task list" where
  "replay_desired enabled st = (if enabled then map ReplayOne (filter replayable (store_list st)) else [])"

definition reconcile_tasks :: "int \<Rightarrow> int \<Rightarrow> int \<Rightarrow> process_table \<Rightarrow> task list" where
  "reconcile_tasks grace min_deadline now t = List.map_filter (\<lambda>e.
     (case sweep_row grace min_deadline now e of
        SweepSkip \<Rightarrow> None
      | SweepTear \<Rightarrow> Some (GateSick (pe_spec e) (pe_pid e) False)
      | SweepProbe \<Rightarrow> Some (SweepPing (pe_spec e) (pe_pid e)))) (pt_list t)"

datatype action =
    RpcLoad load_request | RpcUnload string | RpcRestart string | Shutdown
  | BootReplay bool | Reconcile int | Supervise | Dies u32 | Run nat env

definition add_tasks :: "task list \<Rightarrow> tamad \<Rightarrow> tamad" where
  "add_tasks ts s = s\<lparr>tm_tasks := tm_tasks s @ ts\<rparr>"

fun act :: "'u url_ops \<Rightarrow> manifest_json \<Rightarrow> action \<Rightarrow> tamad \<Rightarrow> tamad option" where
  "act U J (RpcLoad req) s = Some (add_tasks [SrvLoad req] s)"
| "act U J (RpcUnload name) s = Some (add_tasks [UnloadRemove name (Forget name)] s)"
| "act U J (RpcRestart name) s = Some (add_tasks [RestartGet name] s)"
| "act U J Shutdown s = Some (add_tasks [KillAll (map pe_model_name (pt_list (tm_table s)))] s)"
| "act U J (BootReplay enabled) s = Some (add_tasks (replay_desired enabled (tm_store s)) s)"
| "act U J (Reconcile now) s =
     Some (add_tasks (reconcile_tasks 10000 120000 now (tm_table s)) s)"
| "act U J Supervise s = (case tm_queue s of
       [] \<Rightarrow> None
     | (name, req, n) # rest \<Rightarrow>
         if list_ex supervised (tm_tasks s) then None
         else Some (add_tasks [LoadStart req FromSupervisor] (s\<lparr>tm_queue := rest\<rparr>)))"
| "act U J (Dies pid) s = Some (s\<lparr>tm_alive := removeAll pid (tm_alive s)\<rparr>)"
| "act U J (Run i ev) s =
     (if i < length (tm_tasks s) then
        (case run_task U J ev (tm_tasks s ! i) (s\<lparr>tm_tasks := take i (tm_tasks s) @ drop (Suc i) (tm_tasks s)\<rparr>) of
           (ts, s') \<Rightarrow> Some (add_tasks ts s'))
      else None)"

definition boot :: "manifest_json \<Rightarrow> u32 \<Rightarrow> disk \<Rightarrow> tamad" where
  "boot J pid d = \<lparr>tm_table = [], tm_store = store_new J pid d, tm_tasks = [], tm_queue = [],
     tm_alive = []\<rparr>"

inductive reachable :: "'u url_ops \<Rightarrow> manifest_json \<Rightarrow> tamad \<Rightarrow> bool" for U J where
  boot: "hm_wf d \<Longrightarrow> reachable U J (boot J pid d)"
| step: "reachable U J s \<Longrightarrow> act U J a s = Some s' \<Longrightarrow> reachable U J s'"

fun run_actions :: "'u url_ops \<Rightarrow> manifest_json \<Rightarrow> action list \<Rightarrow> tamad \<Rightarrow> tamad option" where
  "run_actions U J [] s = Some s"
| "run_actions U J (a # as) s = Option.bind (act U J a s) (run_actions U J as)"

lemma run_actions_reachable:
  "reachable U J s \<Longrightarrow> run_actions U J as s = Some s' \<Longrightarrow> reachable U J s'"
proof (induction as arbitrary: s)
  case (Cons a as)
  then obtain s1 where "act U J a s = Some s1" "run_actions U J as s1 = Some s'"
    by (auto simp: bind_eq_Some_conv)
  with Cons show ?case by (blast intro: reachable.step)
qed simp

section \<open>The invariant of the daemon\<close>

definition counted :: "process_entry \<Rightarrow> bool" where
  "counted e = (pe_restart_count e = of_nat (length (pe_window_starts e)))"

definition row_inv :: "string \<Rightarrow> process_entry \<Rightarrow> bool" where
  "row_inv k e = (row_ok k e \<and> pe_status e \<noteq> st_unloading)"

definition table_inv :: "process_table \<Rightarrow> bool" where
  "table_inv t = (hm_wf t \<and> (\<forall>k e. hm_get t k = Some e \<longrightarrow> row_inv k e))"

definition within_budget :: "stored_process \<Rightarrow> u32 \<Rightarrow> bool" where
  "within_budget sp n = (so_desired sp \<and> \<not> so_user_flagged sp \<and> n < so_max_restarts sp)"

fun task_inv :: "task \<Rightarrow> bool" where
  "task_inv (LoadInsert _ _ prev _) = pred_option counted prev"
| "task_inv (LoadOwn _ _ prev _) = pred_option counted prev"
| "task_inv (LoadReady _ _ prev _) = pred_option counted prev"
| "task_inv (GateInsert _ _ st _ prev) = (pred_option counted prev \<and> st \<in> {st_ready, st_failed})"
| "task_inv (ReapRecord _ _ sp) = (so_desired sp \<and> \<not> so_user_flagged sp)"
| "task_inv (ReapRestart _ _ sp n) = within_budget sp n"
| "task_inv _ = True"

definition queue_inv :: "(string \<times> load_request \<times> u32) list \<Rightarrow> bool" where
  "queue_inv q = (\<forall>(name, req, n) \<in> set q. \<exists>sp. within_budget sp n \<and> req = load_request_of sp)"

definition daemon_inv :: "manifest_json \<Rightarrow> tamad \<Rightarrow> bool" where
  "daemon_inv J s = (table_inv (tm_table s) \<and> store_coherent J (tm_store s)
     \<and> list_all task_inv (tm_tasks s) \<and> queue_inv (tm_queue s))"

lemma words_not_unloading [simp]: "st_starting \<noteq> st_unloading" "st_ready \<noteq> st_unloading"
  "st_failed \<noteq> st_unloading" "st_restarting \<noteq> st_unloading" "st_budget_exhausted \<noteq> st_unloading"
  by (simp_all add: status_words)

lemma table_inv_get: "table_inv t \<Longrightarrow> pt_get t k = Some e \<Longrightarrow> row_inv k e"
  by (simp add: table_inv_def pt_get_def)

lemma row_inv_counted: "row_inv k e \<Longrightarrow> counted e"
  by (simp add: row_inv_def row_ok_def counted_def)

lemma get_counted [intro]: "table_inv t \<Longrightarrow> pred_option counted (pt_get t k)"
  by (cases "pt_get t k") (auto dest: table_inv_get row_inv_counted)

lemma table_inv_insert: "table_inv t \<Longrightarrow> row_inv k e \<Longrightarrow> table_inv (hm_insert k e t)"
  by (simp add: table_inv_def)

lemma table_inv_remove: "table_inv t \<Longrightarrow> table_inv (hm_remove k t)"
  by (simp add: table_inv_def)

lemma entry_for_inv:
  "pred_option counted previous \<Longrightarrow> st \<in> {st_starting, st_ready, st_failed}
    \<Longrightarrow> row_inv (lr_model_name req) (entry_for U now req pid st inherit previous)"
  by (cases previous; cases inherit)
     (auto simp: row_inv_def row_ok_def entry_for_def counted_def Let_def)

lemma entry_for_name [simp]: "pe_model_name (entry_for U now req pid st inherit previous) = lr_model_name req"
  by (simp add: entry_for_def Let_def split: prod.splits)

lemma put_row_inv:
  "table_inv (tm_table s) \<Longrightarrow> pred_option counted previous \<Longrightarrow> st \<in> {st_starting, st_ready, st_failed}
    \<Longrightarrow> table_inv (tm_table (put_row (entry_for U now req pid st inherit previous) s))"
  unfolding put_row_def by (simp add: pt_insert_def table_inv_insert entry_for_inv)

lemma put_row_rest [simp]: "tm_store (put_row e s) = tm_store s" "tm_tasks (put_row e s) = tm_tasks s"
  "tm_queue (put_row e s) = tm_queue s"
  by (simp_all add: put_row_def)

lemma kill_pid_rest [simp]: "tm_store (kill_pid ev p s) = tm_store s" "tm_tasks (kill_pid ev p s) = tm_tasks s"
  "tm_queue (kill_pid ev p s) = tm_queue s" "tm_table (kill_pid ev p s) = tm_table s"
  by (simp_all add: kill_pid_def)

lemma row_inv_status:
  "row_inv k e \<Longrightarrow> w \<in> {st_failed, st_restarting} \<Longrightarrow> row_inv k (e\<lparr>pe_status := w\<rparr>)"
  by (auto simp: row_inv_def row_ok_status)

lemma table_inv_mark_failed: "table_inv t \<Longrightarrow> table_inv (mark_failed m pid t)"
  by (auto simp: mark_failed_def row_inv_status pt_get_def split: option.splits
      intro!: table_inv_insert dest: table_inv_get [unfolded pt_get_def])

lemma table_inv_mark_restarting: "table_inv t \<Longrightarrow> mark_restarting m pid t = (ok, t') \<Longrightarrow> table_inv t'"
  by (auto simp: mark_restarting_def row_inv_status split: option.splits if_splits
      intro!: table_inv_insert dest: table_inv_get [unfolded pt_get_def])

lemma table_inv_mark_exhausted: "table_inv t \<Longrightarrow> mark_budget_exhausted m pid t = (ok, t') \<Longrightarrow> table_inv t'"
  by (auto simp: mark_budget_exhausted_def row_inv_def row_ok_exhausted split: option.splits if_splits
      intro!: table_inv_insert dest: table_inv_get [unfolded pt_get_def])

lemma table_inv_record: "table_inv t \<Longrightarrow> record_restart_window m now t = (r, t') \<Longrightarrow> table_inv t'"
  by (auto simp: record_restart_window_def Let_def row_inv_def row_ok_def split: option.splits
      intro!: table_inv_insert dest: table_inv_get [unfolded pt_get_def])

lemmas table_inv_marks = table_inv_mark_failed table_inv_mark_restarting table_inv_mark_exhausted
  table_inv_record

text \<open>What one step of a task must establish: the invariant, and good continuations.\<close>

definition step_ok :: "manifest_json \<Rightarrow> task list \<times> tamad \<Rightarrow> bool" where
  "step_ok J r = (case r of (ts, s') \<Rightarrow> list_all task_inv ts \<and> daemon_inv J s')"

lemma daemon_inv_parts:
  "daemon_inv J s \<Longrightarrow> table_inv (tm_table s)" "daemon_inv J s \<Longrightarrow> store_coherent J (tm_store s)"
  by (simp_all add: daemon_inv_def)

lemma inv_row:
  "daemon_inv J s \<Longrightarrow> pred_option counted previous \<Longrightarrow> st \<in> {st_starting, st_ready, st_failed}
    \<Longrightarrow> daemon_inv J (put_row (entry_for U now req pid st inherit previous) s)"
  by (simp add: daemon_inv_def put_row_inv)

lemma inv_table: "daemon_inv J s \<Longrightarrow> table_inv t \<Longrightarrow> daemon_inv J (s\<lparr>tm_table := t\<rparr>)"
  by (simp add: daemon_inv_def)

lemma inv_store: "daemon_inv J s \<Longrightarrow> store_coherent J st \<Longrightarrow> daemon_inv J (s\<lparr>tm_store := st\<rparr>)"
  by (simp add: daemon_inv_def)

lemma inv_alive: "daemon_inv J s \<Longrightarrow> daemon_inv J (s\<lparr>tm_alive := a\<rparr>)"
  by (simp add: daemon_inv_def)

lemma inv_kill: "daemon_inv J s \<Longrightarrow> daemon_inv J (kill_pid ev pid s)"
  by (simp add: daemon_inv_def)

lemma inv_queue:
  "daemon_inv J s \<Longrightarrow> table_inv t \<Longrightarrow> within_budget sp n
    \<Longrightarrow> daemon_inv J (s\<lparr>tm_table := t, tm_queue := tm_queue s @ [(name, load_request_of sp, n)]\<rparr>)"
  by (auto simp: daemon_inv_def queue_inv_def)

lemmas inv_rules = inv_row inv_table inv_store inv_alive inv_kill inv_queue

lemma after_load_inv [simp]: "list_all task_inv (after_load req from)"
  by (simp add: after_load_def)

lemma run_load_ok: "daemon_inv J s \<Longrightarrow> task_inv t \<Longrightarrow> step_ok J (run_load U ev t s)"
  by (cases "(U, ev, t, s)" rule: run_load.cases)
     (auto simp: step_ok_def Let_def split: option.split intro!: inv_rules dest: daemon_inv_parts(1))

lemma run_gate_ok:
  "serde_lossless J \<Longrightarrow> daemon_inv J s \<Longrightarrow> task_inv t \<Longrightarrow> step_ok J (run_gate U J ev t s)"
  by (cases "(U, J, ev, t, s)" rule: run_gate.cases)
     (auto simp: step_ok_def zero_persisted_restart_count_def rewrite_stored_coherent
        intro!: inv_rules dest: daemon_inv_parts)

lemma run_unload_ok: "daemon_inv J s \<Longrightarrow> task_inv t \<Longrightarrow> step_ok J (run_unload ev t s)"
  by (cases "(ev, t, s)" rule: run_unload.cases)
     (auto simp: step_ok_def pt_remove_def unload_next_def table_inv_remove store_delete_coherent
        split: option.split after_unload.split intro!: inv_rules dest: daemon_inv_parts)

lemma wants_respawn_stored:
  "wants_respawn e stored \<Longrightarrow> \<exists>sp. stored = Some sp \<and> so_desired sp \<and> \<not> so_user_flagged sp"
  by (auto simp: wants_respawn_def split: option.splits)

lemma run_reap_ok:
  assumes "serde_lossless J" "daemon_inv J s" "task_inv t"
  shows "step_ok J (run_reap J ev t s)"
proof (cases t)
  case (ReapStore name pid e)
  with assms show ?thesis
    by (auto simp: step_ok_def Let_def intro!: inv_rules dest!: wants_respawn_stored split: option.split)
next
  case (ReapRecord name pid sp)
  with assms show ?thesis
    by (auto simp: step_ok_def within_budget_def split: prod.split option.split intro!: inv_rules
        dest: daemon_inv_parts table_inv_record)
next
  case (ReapTrip name pid cap)
  with assms show ?thesis
    by (auto simp: step_ok_def split: prod.split intro!: inv_rules dest: daemon_inv_parts table_inv_mark_exhausted)
next
  case (ReapPersist name pid n)
  have "store_coherent J (snd (set_tripped J (ev_fault ev) (ev_now ev) name pid (tm_store s)))"
    using assms by (simp add: set_tripped_def rewrite_stored_coherent daemon_inv_parts)
  with ReapPersist assms show ?thesis
    by (auto simp: step_ok_def split: prod.split intro!: inv_rules)
next
  case (ReapRestart name pid sp n)
  with assms show ?thesis
    by (auto simp: step_ok_def split: prod.split intro!: inv_rules
        dest: daemon_inv_parts table_inv_mark_restarting)
qed (use assms in \<open>auto simp: step_ok_def intro!: inv_rules table_inv_mark_failed dest: daemon_inv_parts split: option.split\<close>)

lemma persist_desired_inv:
  "serde_lossless J \<Longrightarrow> daemon_inv J s \<Longrightarrow> daemon_inv J (persist_desired J ev req s)"
  by (simp add: persist_desired_def inv_store store_insert_coherent daemon_inv_parts)

lemma run_task_ok:
  assumes "serde_lossless J" "daemon_inv J s" "task_inv t"
  shows "step_ok J (run_task U J ev t s)"
  using run_load_ok [OF assms(2,3), of U ev] run_gate_ok [OF assms, of U ev]
    run_reap_ok [OF assms, of ev] run_unload_ok [OF assms(2,3), of ev]
    persist_desired_inv [OF assms(1,2)] assms(2)
  by (cases t) (simp_all add: run_task_def step_ok_def split: option.split
      del: run_load.simps run_gate.simps run_reap.simps run_unload.simps)

lemma add_tasks_inv:
  "daemon_inv J s \<Longrightarrow> list_all task_inv ts \<Longrightarrow> daemon_inv J (add_tasks ts s)"
  by (simp add: daemon_inv_def add_tasks_def)

lemma replay_tasks_inv: "list_all task_inv (replay_desired enabled st)"
  by (auto simp: replay_desired_def list_all_iff)

lemma reconcile_tasks_inv: "list_all task_inv (reconcile_tasks g m now t)"
  by (auto simp: reconcile_tasks_def List.map_filter_def list_all_iff split: sweep_verdict.splits)

lemma act_inv:
  assumes "serde_lossless J" "daemon_inv J s" "act U J a s = Some s'"
  shows "daemon_inv J s'"
proof (cases a)
  case (Run i ev)
  let ?s = "s\<lparr>tm_tasks := take i (tm_tasks s) @ drop (Suc i) (tm_tasks s)\<rparr>"
  from Run assms(3) have i: "i < length (tm_tasks s)" by (auto split: if_splits)
  have "list_all task_inv (tm_tasks s)" using assms(2) by (simp add: daemon_inv_def)
  then have t: "task_inv (tm_tasks s ! i)" "daemon_inv J ?s"
    using i assms(2) by (auto simp: daemon_inv_def list_all_iff dest: in_set_takeD in_set_dropD)
  obtain ts u where r: "run_task U J ev (tm_tasks s ! i) ?s = (ts, u)" by fastforce
  with run_task_ok [OF assms(1) t(2,1), of U ev] have "list_all task_inv ts" "daemon_inv J u"
    by (simp_all add: step_ok_def)
  with Run assms(3) i r show ?thesis by (auto intro: add_tasks_inv)
next
  case Supervise
  with assms show ?thesis
    by (fastforce split: list.splits prod.splits if_splits
        simp: daemon_inv_def queue_inv_def add_tasks_def)
qed (use assms in \<open>auto intro!: add_tasks_inv inv_alive replay_tasks_inv reconcile_tasks_inv\<close>)

lemma boot_inv: "hm_wf d \<Longrightarrow> daemon_inv J (boot J pid d)"
  by (simp add: daemon_inv_def boot_def table_inv_def coherent_new queue_inv_def)

lemma reachable_inv: "reachable U J s \<Longrightarrow> serde_lossless J \<Longrightarrow> daemon_inv J s"
  by (induction rule: reachable.induct) (blast intro: boot_inv act_inv)+



end
