(* ===== verification/LifecycleFacts.thy ===== *)
theory LifecycleFacts
  imports Lifecycle
begin

text \<open>
  Further facts about the daemon of \<open>Lifecycle\<close>: the operator's mark is never cleared behind
  the operator's back, an unload needs a row, and two interleavings, run step by step from the
  boot state, in which an unloaded model comes back.
\<close>

section \<open>The operator's mark\<close>

definition flag_kept :: "store \<Rightarrow> store \<Rightarrow> bool" where
  "flag_kept st st' = (\<forall>k sp sp'. hm_get (s_entries st) k = Some sp \<longrightarrow> so_user_flagged sp
     \<longrightarrow> hm_get (s_entries st') k = Some sp' \<longrightarrow> so_user_flagged sp')"

lemma flag_kept_refl [simp]: "flag_kept st st"
  by (simp add: flag_kept_def)

lemma flag_kept_insert: "flag_kept st (snd (store_insert J fault now key req desired st))"
  by (auto simp: flag_kept_def store_insert_def stored_as_def Let_def
      split: prod.split option.splits if_splits dest!: write_stored_entries)

lemma flag_kept_rewrite:
  "(\<And>sp. so_user_flagged sp \<Longrightarrow> so_user_flagged (f sp))
    \<Longrightarrow> flag_kept st (snd (rewrite_stored J fault now key f st))"
  by (auto simp: flag_kept_def rewrite_stored_def Let_def split: prod.split option.splits if_splits
      dest!: write_stored_entries)

lemma flag_kept_trip: "flag_kept st (snd (set_tripped J fault now key n st))"
  unfolding set_tripped_def by (rule flag_kept_rewrite) simp

lemma flag_kept_zero: "flag_kept st (snd (zero_persisted_restart_count J fault now key st))"
  unfolding zero_persisted_restart_count_def by (rule flag_kept_rewrite) simp

lemma flag_kept_delete: "flag_kept st (snd (store_delete fault key st))"
  by (auto simp: flag_kept_def store_delete_def)

lemmas flag_kept_ops = flag_kept_insert flag_kept_trip flag_kept_zero flag_kept_delete

lemma put_row_store [simp]: "tm_store (put_row e s) = tm_store s"
  by (simp add: put_row_def)

lemma run_load_flag: "flag_kept (tm_store s) (tm_store (snd (run_load U ev t s)))"
  by (cases "(U, ev, t, s)" rule: run_load.cases) (simp_all add: Let_def split: option.split)

lemma run_gate_flag: "flag_kept (tm_store s) (tm_store (snd (run_gate U J ev t s)))"
  by (cases "(U, J, ev, t, s)" rule: run_gate.cases) (simp_all add: flag_kept_ops)

lemma run_reap_flag: "flag_kept (tm_store s) (tm_store (snd (run_reap J ev t s)))"
proof (cases t)
  case (ReapPersist name pid n)
  with flag_kept_trip [of "tm_store s" J "ev_fault ev" "ev_now ev" name pid] show ?thesis
    by (auto split: prod.split)
qed (simp_all add: Let_def split: option.split prod.split)

lemma run_unload_flag: "flag_kept (tm_store s) (tm_store (snd (run_unload ev t s)))"
  by (cases "(ev, t, s)" rule: run_unload.cases)
     (simp_all add: flag_kept_ops split: option.split prod.split)

lemma run_task_flag: "flag_kept (tm_store s) (tm_store (snd (run_task U J ev t s)))"
  using run_load_flag [of s U ev t] run_gate_flag [of s U J ev t] run_reap_flag [of s J ev t]
    run_unload_flag [of s ev t]
  by (cases t) (simp_all add: run_task_def persist_desired_def flag_kept_ops split: option.split
      del: run_load.simps run_gate.simps run_reap.simps run_unload.simps)

text \<open>
  No step of the daemon clears the operator's mark of a stored manifest: after any action a
  flagged manifest is still flagged or was deleted.
\<close>

theorem operator_mark_sticky:
  assumes "act U J a s = Some s'" "hm_get (s_entries (tm_store s)) k = Some sp" "so_user_flagged sp"
    and "hm_get (s_entries (tm_store s')) k = Some sp'"
  shows "so_user_flagged sp'"
proof -
  have "flag_kept (tm_store s) (tm_store s')"
  proof (cases a)
    case (Run i ev)
    let ?s = "s\<lparr>tm_tasks := take i (tm_tasks s) @ drop (Suc i) (tm_tasks s)\<rparr>"
    from Run assms(1) have "tm_store s' = tm_store (snd (run_task U J ev (tm_tasks s ! i) ?s))"
      by (auto simp: add_tasks_def split: if_splits prod.splits)
    with run_task_flag [of ?s U J ev "tm_tasks s ! i"] show ?thesis by simp
  next
    case Supervise
    with assms(1) show ?thesis
      by (auto simp: add_tasks_def split: list.splits prod.splits if_splits)
  qed (use assms(1) in \<open>auto simp: add_tasks_def\<close>)
  with assms(2-4) show ?thesis unfolding flag_kept_def by blast
qed

text \<open>
  An unload is a no-op without a row: the request returns and leaves table, store and
  processes as they were, so a manifest that exists only on disk (a flagged or at-cap one after
  a reboot) survives it, mark and tally included.
\<close>

theorem unload_needs_row:
  assumes "pt_get (tm_table s) name = None"
  shows "run_task U J ev (UnloadRemove name (Forget name)) s = ([], s)"
  using assms by (simp add: run_task_def pt_remove_def pt_get_def)

section \<open>Runs from the boot state\<close>

definition demo_url :: "unit url_ops" where
  "demo_url = \<lparr>u_parse = (\<lambda>_. None), u_set_port = (\<lambda>_ _. None), u_set_path = (\<lambda>u _. u),
     u_clear_query = id, u_clear_fragment = id, u_show = (\<lambda>_. [])\<rparr>"

definition ev_at :: "u32 \<Rightarrow> int \<Rightarrow> env" where
  "ev_at pid now = \<lparr>ev_pid = pid, ev_ok = True, ev_now = now, ev_fault = WriteOk, ev_delete = DeleteOk\<rparr>"

text \<open>
  A load up to its detached gate; the gate up to its last read; the rest of the gate, a crash
  and the reaper queueing a respawn; an unload; the supervisor taking the queued job.
\<close>

definition load_trace :: "action list" where
  "load_trace = [RpcLoad demo_request, Run 0 (ev_at 7 5), Run 0 (ev_at 7 5), Run 0 (ev_at 7 5),
     Run 1 (ev_at 7 5), Run 2 (ev_at 7 5)]"

definition gate_trace :: "action list" where
  "gate_trace = [Run 1 (ev_at 7 6), Run 1 (ev_at 7 6), Run 1 (ev_at 7 6)]"

definition crash_trace :: "action list" where
  "crash_trace = gate_trace @ [Run 1 (ev_at 7 6), Dies 7, Run 0 (ev_at 7 7), Run 1 (ev_at 7 7),
     Run 1 (ev_at 7 7), Run 1 (ev_at 7 7)]"

definition unload_trace :: "action list" where
  "unload_trace = [RpcUnload ''m'', Run 1 (ev_at 7 8), Run 1 (ev_at 7 8), Run 1 (ev_at 7 8)]"

definition resurrect_trace :: "action list" where
  "resurrect_trace = [Supervise, Run 1 (ev_at 8 9), Run 1 (ev_at 8 9), Run 2 (ev_at 8 9)]"

definition overtaken_trace :: "action list" where
  "overtaken_trace = [RpcUnload ''m'', Run 2 (ev_at 7 7), Run 2 (ev_at 7 7), Run 2 (ev_at 7 7),
     Run 0 (ev_at 7 8), Run 0 (ev_at 7 9), Run 0 (ev_at 7 9)]"

text \<open>What an observer sees of model \<open>m\<close>: its row, its manifest, the live processes, the work left.\<close>

definition observe :: "tamad \<Rightarrow> (u32 \<times> string) option \<times> bool option \<times> u32 list \<times> nat \<times> nat" where
  "observe s = (map_option (\<lambda>e. (pe_pid e, pe_status e)) (pt_get (tm_table s) ''m''),
     map_option so_desired (store_get (tm_store s) ''m''), tm_alive s, length (tm_tasks s),
     length (tm_queue s))"

abbreviation demo_run :: "action list \<Rightarrow> tamad option" where
  "demo_run as \<equiv> run_actions demo_url demo_manifests as (boot demo_manifests 1 [])"

lemma demo_run_reachable: "demo_run as = Some s \<Longrightarrow> reachable demo_url demo_manifests s"
  by (rule run_actions_reachable [OF reachable.boot]) simp_all

text \<open>
  A respawn that was queued before an unload is executed after it: the model has no row and
  no manifest and no process, no request follows, and yet the supervisor starts it again, now
  without a manifest.
\<close>

theorem unload_then_respawn:
  "map_option observe (demo_run (load_trace @ crash_trace @ unload_trace)) = Some (None, None, [], 1, 1)
   \<and> map_option observe (demo_run (load_trace @ crash_trace @ unload_trace @ resurrect_trace))
      = Some (Some (8, st_starting), None, [8], 3, 0)"
  unfolding status_words by (rule conjI; code_simp)

text \<open>
  A health gate can publish a verdict about a row that is gone: between its ownership check
  and its write an unload completes, and the table is left with a \<open>ready\<close> row for a process
  that is dead, with no task that would correct it.
\<close>

theorem gate_overtaken_by_unload:
  "map_option observe (demo_run (load_trace @ gate_trace @ overtaken_trace))
     = Some (Some (7, st_ready), None, [], 0, 0)"
  unfolding status_words by code_simp

section \<open>Witnesses\<close>

lemma demo_loaded: "\<exists>s. demo_run load_trace = Some s \<and> observe s = (Some (7, ''starting''), Some True, [7], 2, 0)"
proof -
  have "map_option observe (demo_run load_trace) = Some (Some (7, ''starting''), Some True, [7], 2, 0)"
    by code_simp
  then show ?thesis by auto
qed

theorem unload_needs_row_witness:
  "run_task demo_url demo_manifests (ev_at 7 1) (UnloadRemove ''m'' (Forget ''m'')) (boot demo_manifests 1 [])
     = ([], boot demo_manifests 1 [])"
  by (rule unload_needs_row) (simp add: boot_def pt_get_def)

definition flagged_state :: tamad where
  "flagged_state = (boot demo_manifests 1 [])\<lparr>tm_store := \<lparr>s_disk = [],
     s_entries = [(''m'', demo_stored\<lparr>so_user_flagged := True\<rparr>)], s_pid = 1\<rparr>\<rparr>"

theorem operator_mark_sticky_witness:
  "\<exists>s' sp. act demo_url demo_manifests (RpcLoad demo_request) flagged_state = Some s'
     \<and> hm_get (s_entries (tm_store s')) ''m'' = Some sp \<and> so_user_flagged sp"
proof -
  let ?sp = "demo_stored\<lparr>so_user_flagged := True\<rparr>"
  let ?s' = "add_tasks [SrvLoad demo_request] flagged_state"
  have a: "act demo_url demo_manifests (RpcLoad demo_request) flagged_state = Some ?s'" by simp
  have k: "hm_get (s_entries (tm_store flagged_state)) ''m'' = Some ?sp"
    "hm_get (s_entries (tm_store ?s')) ''m'' = Some ?sp"
    by (simp_all add: flagged_state_def add_tasks_def hm_get_def)
  have "so_user_flagged ?sp" by simp
  from operator_mark_sticky [OF a k(1) this k(2)] a k(2) show ?thesis by blast
qed



end
