(* ===== verification/PushRing.thy ===== *)
theory PushRing
  imports Containers "HOL-Library.List_Lexorder" "HOL-Library.Char_ord"
begin

text \<open>
  The tamad's log buffers and their live streams: \<open>tamad/src/push/ring.rs\<close> and
  \<open>push/runtime.rs\<close>. Two bounded queues are written through by every event: the in-flight
  window and the replay ring. Both make room by dropping their oldest lines, so they are
  instances of \<open>evicting_fifo\<close>, and together of \<open>nested_fifos\<close>. \<open>doc\<close> is the parameter for
  \<open>serde_json\<close>'s rendering of a marker's text. Counters of type \<open>i64\<close> and \<open>usize\<close> are
  unbounded: they count lines and bytes held in memory.
\<close>

section \<open>Data\<close>

record logged_line =
  ll_ts :: int
  ll_level :: int
  ll_source :: string
  ll_message :: string
  ll_seq :: int
  ll_dropped :: bool
  ll_dropped_count :: int
  ll_dropped_since_ts :: int

record push_event =
  ev_ts :: int
  ev_level :: int
  ev_source :: string
  ev_message :: string

definition into_line :: "push_event \<Rightarrow> int \<Rightarrow> logged_line" where
  "into_line evt seq = \<lparr>ll_ts = ev_ts evt, ll_level = ev_level evt, ll_source = ev_source evt,
     ll_message = ev_message evt, ll_seq = seq, ll_dropped = False, ll_dropped_count = 0,
     ll_dropped_since_ts = 0\<rparr>"

definition INFLIGHT_MAX_ENTRIES :: nat where "INFLIGHT_MAX_ENTRIES = 2048"
definition INFLIGHT_MAX_BYTES :: nat where "INFLIGHT_MAX_BYTES = 1024 * 1024"
definition REPLAY_MAX_ENTRIES :: nat where "REPLAY_MAX_ENTRIES = 25000"
definition REPLAY_MAX_BYTES :: nat where "REPLAY_MAX_BYTES = 10 * 1024 * 1024"
definition MARKER_THROTTLE_MS :: int where "MARKER_THROTTLE_MS = 5000"
definition LINE_OVERHEAD :: nat where "LINE_OVERHEAD = 64"

lemmas ring_caps = INFLIGHT_MAX_ENTRIES_def INFLIGHT_MAX_BYTES_def REPLAY_MAX_ENTRIES_def
  REPLAY_MAX_BYTES_def

definition est_bytes :: "logged_line \<Rightarrow> nat" where
  "est_bytes line = utf8_len (ll_message line) + LINE_OVERHEAD"

record pending_drop =
  pd_count :: int
  pd_first_ts :: int
  pd_bytes :: nat

definition pending_new :: pending_drop where
  "pending_new = \<lparr>pd_count = 0, pd_first_ts = 0, pd_bytes = 0\<rparr>"

definition pd_record :: "nat \<Rightarrow> int \<Rightarrow> pending_drop \<Rightarrow> pending_drop" where
  "pd_record est ts p =
     (let count = pd_count p + 1
      in p\<lparr>pd_count := count, pd_bytes := pd_bytes p + est,
           pd_first_ts := if count = 1 then ts else min (pd_first_ts p) ts\<rparr>)"

record push_ring =
  pr_in_flight :: "logged_line list"
  pr_in_flight_bytes :: nat
  pr_replay :: "logged_line list"
  pr_replay_bytes :: nat
  pr_seqs :: "(string, int) hmap"
  pr_pending :: "(string, pending_drop) hmap"
  pr_last_marker_ts :: "(string, int) hmap"

definition ring_new :: push_ring where
  "ring_new = \<lparr>pr_in_flight = [], pr_in_flight_bytes = 0, pr_replay = [], pr_replay_bytes = 0,
     pr_seqs = [], pr_pending = [], pr_last_marker_ts = []\<rparr>"

section \<open>Operations\<close>

definition seq_now :: "push_ring \<Rightarrow> string \<Rightarrow> int" where
  "seq_now r source = (case hm_get (pr_seqs r) source of Some v \<Rightarrow> v | None \<Rightarrow> 0)"

definition next_seq :: "string \<Rightarrow> push_ring \<Rightarrow> int \<times> push_ring" where
  "next_seq source r =
     (let v = seq_now r source + 1 in (v, r\<lparr>pr_seqs := hm_insert source v (pr_seqs r)\<rparr>))"

fun start_seqs :: "logged_line list \<Rightarrow> (string, int) hmap \<Rightarrow> (string, int) hmap" where
  "start_seqs [] out = out"
| "start_seqs (line # rest) out = start_seqs rest
     (case hm_get out (ll_source line) of
        Some _ \<Rightarrow> out | None \<Rightarrow> hm_insert (ll_source line) (ll_seq line) out)"

definition start_seq_by_source :: "push_ring \<Rightarrow> (string, int) hmap" where
  "start_seq_by_source r = start_seqs (pr_replay r) []"

definition accumulate_drop ::
  "logged_line \<Rightarrow> (string, pending_drop) hmap \<Rightarrow> (string, pending_drop) hmap" where
  "accumulate_drop old pending =
     (let p = (case hm_get pending (ll_source old) of Some p \<Rightarrow> p | None \<Rightarrow> pending_new)
      in hm_insert (ll_source old) (pd_record (est_bytes old) (ll_ts old) p) pending)"

text \<open>The two eviction loops of \<open>push\<close>, over the queue, its byte count and the pending drops.\<close>

fun make_room :: "nat \<Rightarrow> nat \<Rightarrow> nat \<Rightarrow> logged_line list \<Rightarrow> nat \<Rightarrow> (string, pending_drop) hmap
    \<Rightarrow> logged_line list \<times> nat \<times> (string, pending_drop) hmap" where
  "make_room max_n max_b b [] used pending = ([], used, pending)"
| "make_room max_n max_b b (old # q) used pending =
     (if length (old # q) + 1 > max_n \<or> used + b > max_b
      then make_room max_n max_b b q (used - est_bytes old) (accumulate_drop old pending)
      else (old # q, used, pending))"

definition due_sources :: "int \<Rightarrow> push_ring \<Rightarrow> string list" where
  "due_sources now r = filter (\<lambda>src.
      (case hm_get (pr_pending r) src of
         Some p \<Rightarrow> pd_count p > 0
           \<and> now - (case hm_get (pr_last_marker_ts r) src of Some t \<Rightarrow> t | None \<Rightarrow> 0)
               \<ge> MARKER_THROTTLE_MS
       | None \<Rightarrow> False)) (sort (map fst (pr_pending r)))"

fun flush_loop ::
  "(string \<Rightarrow> string) \<Rightarrow> int \<Rightarrow> string list \<Rightarrow> push_ring \<Rightarrow> logged_line list \<times> push_ring" where
  "flush_loop doc now [] r = ([], r)"
| "flush_loop doc now (src # due) r =
     (case hm_get (pr_pending r) src of
        None \<Rightarrow> flush_loop doc now due r
      | Some p \<Rightarrow>
          let r1 = r\<lparr>pr_pending := hm_remove src (pr_pending r)\<rparr>;
              (mseq, r2) = next_seq src r1;
              marker = \<lparr>ll_ts = now, ll_level = -1, ll_source = src,
                 ll_message = doc (show_nat (nat (pd_count p)) @ '' log lines dropped''),
                 ll_seq = mseq, ll_dropped = True, ll_dropped_count = pd_count p,
                 ll_dropped_since_ts = pd_first_ts p\<rparr>;
              r3 = r2\<lparr>pr_last_marker_ts := hm_insert src now (pr_last_marker_ts r2)\<rparr>;
              (out, r4) = flush_loop doc now due r3
          in (marker # out, r4))"

definition flush_markers ::
  "(string \<Rightarrow> string) \<Rightarrow> int \<Rightarrow> push_ring \<Rightarrow> logged_line list \<times> push_ring" where
  "flush_markers doc now r = flush_loop doc now (due_sources now r) r"

definition push ::
  "(string \<Rightarrow> string) \<Rightarrow> push_event \<Rightarrow> int \<Rightarrow> push_ring \<Rightarrow> logged_line list \<times> push_ring" where
  "push doc evt now r =
     (let b = utf8_len (ev_message evt) + LINE_OVERHEAD;
          (q1, n1, p1) = make_room INFLIGHT_MAX_ENTRIES INFLIGHT_MAX_BYTES b
                           (pr_in_flight r) (pr_in_flight_bytes r) (pr_pending r);
          (q2, n2, p2) = make_room REPLAY_MAX_ENTRIES REPLAY_MAX_BYTES b
                           (pr_replay r) (pr_replay_bytes r) p1;
          (markers, r1) = flush_markers doc now (r\<lparr>pr_in_flight := q1, pr_in_flight_bytes := n1,
                           pr_replay := q2, pr_replay_bytes := n2, pr_pending := p2\<rparr>);
          (seq, r2) = next_seq (ev_source evt) r1;
          line = into_line evt seq
      in (markers @ [line], r2\<lparr>pr_in_flight := pr_in_flight r2 @ [line],
            pr_in_flight_bytes := pr_in_flight_bytes r2 + b,
            pr_replay := pr_replay r2 @ [line], pr_replay_bytes := pr_replay_bytes r2 + b\<rparr>))"

fun push_all :: "(string \<Rightarrow> string) \<Rightarrow> (push_event \<times> int) list \<Rightarrow> push_ring
    \<Rightarrow> logged_line list \<times> push_ring" where
  "push_all doc [] r = ([], r)"
| "push_all doc ((evt, now) # rest) r =
     (let (out, r1) = push doc evt now r; (out', r2) = push_all doc rest r1 in (out @ out', r2))"

section \<open>Eviction\<close>

definition ring_fits :: "nat \<Rightarrow> nat \<Rightarrow> nat \<Rightarrow> logged_line list \<Rightarrow> bool" where
  "ring_fits max_n max_b b q = (length q + 1 \<le> max_n \<and> sum_list (map est_bytes q) + b \<le> max_b)"

lemma ring_fits_tl: "ring_fits n m b (x # xs) \<Longrightarrow> ring_fits n m b xs"
  by (simp add: ring_fits_def)

text \<open>The two queues under their limits: the in-flight window admits less than the replay ring.\<close>

interpretation rings: nested_fifos "ring_fits REPLAY_MAX_ENTRIES REPLAY_MAX_BYTES b"
    "ring_fits INFLIGHT_MAX_ENTRIES INFLIGHT_MAX_BYTES b" for b
  by unfold_locales (auto simp: ring_fits_def ring_caps)

definition drop_all :: "logged_line list \<Rightarrow> (string, pending_drop) hmap \<Rightarrow> (string, pending_drop) hmap" where
  "drop_all ds pending = fold accumulate_drop ds pending"

lemma make_room_evict:
  "used = sum_list (map est_bytes q) \<Longrightarrow> make_room n m b q used pending =
     (evict (ring_fits n m b) q, sum_list (map est_bytes (evict (ring_fits n m b) q)),
      drop_all (evicted (ring_fits n m b) q) pending)"
proof (induction q arbitrary: used pending)
  case (Cons x q)
  have "ring_fits n m b (x # q) \<longleftrightarrow> \<not> (length (x # q) + 1 > n \<or> used + b > m)"
    using Cons.prems by (auto simp: ring_fits_def)
  with Cons show ?case by (simp add: drop_all_def)
qed (simp add: drop_all_def)

section \<open>Counting\<close>

definition of_source :: "string \<Rightarrow> logged_line list \<Rightarrow> logged_line list" where
  "of_source src ls = filter (\<lambda>l. ll_source l = src) ls"

definition count_of :: "string \<Rightarrow> logged_line list \<Rightarrow> int" where
  "count_of src ls = int (length (of_source src ls))"

definition marked :: "string \<Rightarrow> logged_line list \<Rightarrow> int" where
  "marked src ls = sum_list (map ll_dropped_count (of_source src ls))"

definition pending_count :: "(string, pending_drop) hmap \<Rightarrow> string \<Rightarrow> int" where
  "pending_count pending src = (case hm_get pending src of Some p \<Rightarrow> pd_count p | None \<Rightarrow> 0)"

definition real_lines :: "logged_line list \<Rightarrow> logged_line list" where
  "real_lines ls = filter (\<lambda>l. \<not> ll_dropped l) ls"

lemma of_source_simps [simp]: "of_source src [] = []" "of_source src (a @ b) = of_source src a @ of_source src b"
  "of_source src (x # xs) = (if ll_source x = src then x # of_source src xs else of_source src xs)"
  by (simp_all add: of_source_def)

lemma count_of_simps [simp]: "count_of src [] = 0" "count_of src (a @ b) = count_of src a + count_of src b"
  "count_of src (x # xs) = (if ll_source x = src then 1 else 0) + count_of src xs"
  by (simp_all add: count_of_def)

lemma marked_simps [simp]: "marked src [] = 0" "marked src (a @ b) = marked src a + marked src b"
  "marked src (x # xs) = (if ll_source x = src then ll_dropped_count x else 0) + marked src xs"
  by (simp_all add: marked_def)

lemma real_lines_simps [simp]: "real_lines [] = []" "real_lines (a @ b) = real_lines a @ real_lines b"
  "real_lines (x # xs) = (if ll_dropped x then real_lines xs else x # real_lines xs)"
  by (simp_all add: real_lines_def)

lemma count_evict: "count_of src (evicted fits q) + count_of src (evict fits q) = count_of src q"
  by (metis evicted_append_evict count_of_simps(2))

lemma pd_record_count [simp]: "pd_count (pd_record e t p) = pd_count p + 1"
  by (simp add: pd_record_def Let_def)

lemma drop_all_count: "pending_count (drop_all ds pending) src = pending_count pending src + count_of src ds"
proof (induction ds arbitrary: pending)
  case (Cons d ds)
  have "pending_count (accumulate_drop d pending) src
      = pending_count pending src + (if ll_source d = src then 1 else 0)"
    by (auto simp: pending_count_def accumulate_drop_def Let_def pending_new_def split: option.split)
  with Cons show ?case by (simp add: drop_all_def)
qed (simp add: drop_all_def)

section \<open>Sequence numbers\<close>

text \<open>\<open>emits r fs r'\<close>: the frames take, per source, exactly the numbers between the two counters.\<close>

definition emits :: "push_ring \<Rightarrow> logged_line list \<Rightarrow> push_ring \<Rightarrow> bool" where
  "emits r fs r' = (\<forall>src. map ll_seq (of_source src fs) = [seq_now r src + 1 .. seq_now r' src]
     \<and> seq_now r src \<le> seq_now r' src)"

lemma upto_append: "a \<le> b \<Longrightarrow> b \<le> c \<Longrightarrow> [a + 1..b] @ [b + 1..c] = [a + 1..(c::int)]"
  by (cases "a = b") (simp, rule upto_split2 [symmetric], auto)

lemma emits_trans:
  assumes "emits r fs r1" "emits r1 gs r2"
  shows "emits r (fs @ gs) r2"
  unfolding emits_def
proof
  fix src
  from assms have le: "seq_now r src \<le> seq_now r1 src" "seq_now r1 src \<le> seq_now r2 src"
    by (simp_all add: emits_def)
  have "map ll_seq (of_source src (fs @ gs)) = [seq_now r src + 1..seq_now r2 src]"
    using assms upto_append [OF le] by (simp add: emits_def)
  with le show "map ll_seq (of_source src (fs @ gs)) = [seq_now r src + 1..seq_now r2 src]
      \<and> seq_now r src \<le> seq_now r2 src" by simp
qed

lemma emits_id: "pr_seqs r = pr_seqs r' \<Longrightarrow> emits r [] r'"
  by (simp add: emits_def seq_now_def)

lemma emits_one:
  "next_seq src r = (v, r1) \<Longrightarrow> ll_source l = src \<Longrightarrow> ll_seq l = v \<Longrightarrow> emits r [l] r1"
  by (auto simp: emits_def next_seq_def seq_now_def Let_def)

lemma emits_cong:
  "emits r fs r' \<Longrightarrow> pr_seqs s = pr_seqs r \<Longrightarrow> pr_seqs s' = pr_seqs r' \<Longrightarrow> emits s fs s'"
  by (simp add: emits_def seq_now_def)

lemma next_seq_frame: "next_seq src r = (v, r1) \<Longrightarrow> pr_pending r1 = pr_pending r
    \<and> pr_in_flight r1 = pr_in_flight r \<and> pr_in_flight_bytes r1 = pr_in_flight_bytes r
    \<and> pr_replay r1 = pr_replay r \<and> pr_replay_bytes r1 = pr_replay_bytes r"
  by (auto simp: next_seq_def Let_def)

text \<open>What a flush keeps: the queues, the numbering, and the drops not yet announced.\<close>

definition flush_ok :: "push_ring \<Rightarrow> logged_line list \<Rightarrow> push_ring \<Rightarrow> bool" where
  "flush_ok r fs r' = (emits r fs r' \<and> pr_in_flight r' = pr_in_flight r
     \<and> pr_in_flight_bytes r' = pr_in_flight_bytes r \<and> pr_replay r' = pr_replay r
     \<and> pr_replay_bytes r' = pr_replay_bytes r \<and> real_lines fs = []
     \<and> (\<forall>src. marked src fs + pending_count (pr_pending r') src = pending_count (pr_pending r) src))"

lemma flush_loop_ok: "flush_loop doc now due r = (fs, r') \<Longrightarrow> flush_ok r fs r'"
proof (induction due arbitrary: r fs r')
  case Nil
  then show ?case by (simp add: flush_ok_def emits_id)
next
  case (Cons src due)
  show ?case
  proof (cases "hm_get (pr_pending r) src")
    case None
    with Cons show ?thesis by simp
  next
    case (Some p)
    let ?r1 = "r\<lparr>pr_pending := hm_remove src (pr_pending r)\<rparr>"
    obtain mseq r2 where n: "next_seq src ?r1 = (mseq, r2)" by fastforce
    let ?r3 = "r2\<lparr>pr_last_marker_ts := hm_insert src now (pr_last_marker_ts r2)\<rparr>"
    let ?m = "\<lparr>ll_ts = now, ll_level = -1, ll_source = src,
       ll_message = doc (show_nat (nat (pd_count p)) @ '' log lines dropped''),
       ll_seq = mseq, ll_dropped = True, ll_dropped_count = pd_count p,
       ll_dropped_since_ts = pd_first_ts p\<rparr>"
    obtain out r4 where l: "flush_loop doc now due ?r3 = (out, r4)" by fastforce
    from Cons.prems Some n l have fs: "fs = ?m # out" "r' = r4" by simp_all
    from Cons.IH [OF l] have ih: "flush_ok ?r3 out r4" .
    have "emits ?r1 [?m] r2" using n by (rule emits_one) simp_all
    then have e: "emits r [?m] ?r3" by (rule emits_cong) simp_all
    moreover from ih have "emits ?r3 out r4" by (simp add: flush_ok_def)
    ultimately have "emits r ([?m] @ out) r4" by (rule emits_trans)
    moreover have "pending_count (pr_pending r2) src' = (if src' = src then 0 else pending_count (pr_pending r) src')"
      for src' using next_seq_frame [OF n] by (simp add: pending_count_def)
    moreover have "pending_count (pr_pending r) src = pd_count p" using Some by (simp add: pending_count_def)
    ultimately show ?thesis
      using ih next_seq_frame [OF n] fs
      by (auto simp: flush_ok_def)
  qed
qed

section \<open>What the ring keeps\<close>

definition bounded_queue :: "nat \<Rightarrow> nat \<Rightarrow> logged_line list \<Rightarrow> bool" where
  "bounded_queue n m q = (length q \<le> n \<and> (sum_list (map est_bytes q) \<le> m \<or> length q = 1))"

definition ring_inv :: "logged_line list \<Rightarrow> push_ring \<Rightarrow> bool" where
  "ring_inv outs r = (emits ring_new outs r
     \<and> pr_in_flight_bytes r = sum_list (map est_bytes (pr_in_flight r))
     \<and> pr_replay_bytes r = sum_list (map est_bytes (pr_replay r))
     \<and> suffix (pr_in_flight r) (pr_replay r) \<and> suffix (pr_replay r) (real_lines outs)
     \<and> bounded_queue INFLIGHT_MAX_ENTRIES INFLIGHT_MAX_BYTES (pr_in_flight r)
     \<and> bounded_queue REPLAY_MAX_ENTRIES REPLAY_MAX_BYTES (pr_replay r)
     \<and> (\<forall>src. marked src outs + pending_count (pr_pending r) src = 2 * count_of src (real_lines outs)
          - count_of src (pr_in_flight r) - count_of src (pr_replay r)))"

lemma ring_inv_new: "ring_inv [] ring_new"
  by (simp add: ring_inv_def emits_id bounded_queue_def ring_new_def pending_count_def ring_caps)

lemma bounded_push:
  "evict (ring_fits n m (est_bytes l)) q = [] \<or> ring_fits n m (est_bytes l) (evict (ring_fits n m (est_bytes l)) q)
    \<Longrightarrow> 0 < n \<Longrightarrow> bounded_queue n m (evict (ring_fits n m (est_bytes l)) q @ [l])"
  by (auto simp: bounded_queue_def ring_fits_def)

lemma suffix_snoc: "suffix p q \<Longrightarrow> suffix (p @ [x]) (q @ [x])"
  by (auto simp: suffix_def)

lemma push_inv:
  assumes "ring_inv outs r" "push doc evt now r = (fs, r')"
  shows "ring_inv (outs @ fs) r'"
proof -
  let ?b = "utf8_len (ev_message evt) + LINE_OVERHEAD"
  let ?fi = "ring_fits INFLIGHT_MAX_ENTRIES INFLIGHT_MAX_BYTES ?b"
  let ?fr = "ring_fits REPLAY_MAX_ENTRIES REPLAY_MAX_BYTES ?b"
  let ?q1 = "evict ?fi (pr_in_flight r)" and ?q2 = "evict ?fr (pr_replay r)"
  let ?p = "drop_all (evicted ?fr (pr_replay r)) (drop_all (evicted ?fi (pr_in_flight r)) (pr_pending r))"
  let ?r0 = "r\<lparr>pr_in_flight := ?q1, pr_in_flight_bytes := sum_list (map est_bytes ?q1),
      pr_replay := ?q2, pr_replay_bytes := sum_list (map est_bytes ?q2), pr_pending := ?p\<rparr>"
  from assms(1) have inv: "emits ring_new outs r"
    "pr_in_flight_bytes r = sum_list (map est_bytes (pr_in_flight r))"
    "pr_replay_bytes r = sum_list (map est_bytes (pr_replay r))"
    "suffix (pr_in_flight r) (pr_replay r)" "suffix (pr_replay r) (real_lines outs)"
    and acc: "\<And>src. marked src outs + pending_count (pr_pending r) src
       = 2 * count_of src (real_lines outs) - count_of src (pr_in_flight r) - count_of src (pr_replay r)"
    by (simp_all add: ring_inv_def)
  obtain ms r1 where f: "flush_markers doc now ?r0 = (ms, r1)" by fastforce
  then have fo: "flush_ok ?r0 ms r1" by (simp add: flush_markers_def flush_loop_ok)
  obtain v r2 where n: "next_seq (ev_source evt) r1 = (v, r2)" by fastforce
  let ?l = "into_line evt v"
  have b: "est_bytes ?l = ?b" "ll_source ?l = ev_source evt" "ll_seq ?l = v" "\<not> ll_dropped ?l"
    by (simp_all add: est_bytes_def into_line_def)
  let ?r3 = "r2\<lparr>pr_in_flight := pr_in_flight r2 @ [?l],
     pr_in_flight_bytes := pr_in_flight_bytes r2 + ?b,
     pr_replay := pr_replay r2 @ [?l], pr_replay_bytes := pr_replay_bytes r2 + ?b\<rparr>"
  from assms(2) f n have res: "fs = ms @ [?l]" "r' = ?r3"
    by (simp_all add: push_def Let_def make_room_evict inv(2,3))
  have q: "pr_in_flight r2 = ?q1" "pr_in_flight_bytes r2 = sum_list (map est_bytes ?q1)"
    "pr_replay r2 = ?q2" "pr_replay_bytes r2 = sum_list (map est_bytes ?q2)"
    "pr_pending r2 = pr_pending r1" "real_lines ms = []"
    using next_seq_frame [OF n] fo by (simp_all add: flush_ok_def)
  have "emits ?r0 ms r1" using fo by (simp add: flush_ok_def)
  then have "emits r ms r1" by (rule emits_cong) simp_all
  moreover have "emits r1 [?l] r2" using n b by (intro emits_one) simp_all
  then have "emits r1 [?l] ?r3" by (rule emits_cong) simp_all
  ultimately have "emits r (ms @ [?l]) ?r3" by (rule emits_trans)
  with inv(1) have e: "emits ring_new (outs @ ms @ [?l]) ?r3" by (rule emits_trans)
  have suf: "suffix ?q1 ?q2" using inv(4) by (rule rings.evict_suffix)
  have sufr: "suffix ?q2 (real_lines outs)"
    using suffix_evict inv(5) by (rule suffix_order.trans)
  have bi: "bounded_queue INFLIGHT_MAX_ENTRIES INFLIGHT_MAX_BYTES (?q1 @ [?l])"
    using bounded_push [of INFLIGHT_MAX_ENTRIES INFLIGHT_MAX_BYTES ?l] rings.inner.evict_fits [of ?b] b
    by (simp add: ring_caps)
  have br: "bounded_queue REPLAY_MAX_ENTRIES REPLAY_MAX_BYTES (?q2 @ [?l])"
    using bounded_push [of REPLAY_MAX_ENTRIES REPLAY_MAX_BYTES ?l] rings.outer.evict_fits [of ?b] b
    by (simp add: ring_caps)
  have flushed: "marked src ms + pending_count (pr_pending r1) src = pending_count (pr_pending r) src
      + count_of src (evicted ?fi (pr_in_flight r)) + count_of src (evicted ?fr (pr_replay r))" for src
    using fo by (simp add: flush_ok_def drop_all_count)
  have acc': "marked src (outs @ ms @ [?l]) + pending_count (pr_pending r1) src
      = 2 * count_of src (real_lines (outs @ ms @ [?l])) - count_of src (?q1 @ [?l]) - count_of src (?q2 @ [?l])"
    for src
  proof -
    have l: "marked src [?l] = 0" "real_lines [?l] = [?l]" by (simp_all add: into_line_def)
    show ?thesis
      unfolding marked_simps(2) real_lines_simps(2) count_of_simps(2) l q(6) count_of_simps(1)
      using acc [of src] count_evict [of src ?fi "pr_in_flight r"] count_evict [of src ?fr "pr_replay r"]
        flushed [of src]
      by (simp add: algebra_simps)
  qed
  have parts: "pr_in_flight ?r3 = ?q1 @ [?l]" "pr_replay ?r3 = ?q2 @ [?l]"
    "pr_in_flight_bytes ?r3 = sum_list (map est_bytes (?q1 @ [?l]))"
    "pr_replay_bytes ?r3 = sum_list (map est_bytes (?q2 @ [?l]))"
    "pr_pending ?r3 = pr_pending r1" "real_lines (outs @ ms @ [?l]) = real_lines outs @ [?l]"
    using q b by simp_all
  show ?thesis
    unfolding res ring_inv_def parts
    using e acc' [unfolded parts(6)] suffix_snoc [OF suf] suffix_snoc [OF sufr] bi br by blast
qed

lemma push_all_inv:
  "ring_inv outs r \<Longrightarrow> push_all doc evs r = (fs, r') \<Longrightarrow> ring_inv (outs @ fs) r'"
proof (induction evs arbitrary: outs r fs)
  case (Cons e evs)
  obtain evt now where e: "e = (evt, now)" by (cases e)
  obtain f1 r1 where p: "push doc evt now r = (f1, r1)" by fastforce
  obtain f2 r2 where q: "push_all doc evs r1 = (f2, r2)" by fastforce
  from Cons.prems e p q have "fs = f1 @ f2" "r' = r2" by simp_all
  with Cons.IH [OF push_inv [OF Cons.prems(1) p]] q show ?case by simp
qed simp



end
