(* ===== verification/PushStream.thy ===== *)
theory PushStream
  imports PushRing
begin

text \<open>
  The live streams over the rings: \<open>tamad/src/push/runtime.rs\<close>. One lock guards the rings and
  the registry, so connecting and absorbing one event are single steps. A channel is the queue
  between the daemon and one client; the registry keeps its sending ends. Receivers are named
  by numbers.
\<close>

section \<open>Data\<close>

datatype stream_msg = MsgEmpty | MsgInit string "(string, int) hmap" | MsgLine logged_line

record chan =
  ch_queue :: "stream_msg list"
  ch_closed :: bool

definition EVENT_CHANNEL_CAP :: nat where "EVENT_CHANNEL_CAP = 1024"
definition MAX_HANDSHAKE_REPLAY :: nat where "MAX_HANDSHAKE_REPLAY = 10000"

definition chan_new :: chan where
  "chan_new = \<lparr>ch_queue = [], ch_closed = False\<rparr>"

record core =
  co_ring :: push_ring
  co_streams :: "(nat \<times> chan) list"

section \<open>Operations\<close>

text \<open>One \<open>try_send\<close> and what \<open>retain\<close> makes of it: a closed channel goes, a full one stays.\<close>

definition send_or_prune :: "stream_msg \<Rightarrow> nat \<times> chan \<Rightarrow> (nat \<times> chan) option" where
  "send_or_prune msg s = (case s of (i, c) \<Rightarrow>
     if ch_closed c then None
     else if length (ch_queue c) \<ge> EVENT_CHANNEL_CAP then Some (i, c)
     else Some (i, c\<lparr>ch_queue := ch_queue c @ [msg]\<rparr>))"

definition publish_one :: "(nat \<times> chan) list \<Rightarrow> logged_line \<Rightarrow> (nat \<times> chan) list" where
  "publish_one streams frame = List.map_filter (send_or_prune (MsgLine frame)) streams"

definition publish :: "logged_line list \<Rightarrow> core \<Rightarrow> core" where
  "publish frames c = c\<lparr>co_streams := foldl publish_one (co_streams c) frames\<rparr>"

definition handshake_tail :: "logged_line list \<Rightarrow> logged_line list" where
  "handshake_tail replay = rev (take MAX_HANDSHAKE_REPLAY (rev replay))"

definition stream :: "string \<Rightarrow> nat \<Rightarrow> core \<Rightarrow> stream_msg list \<times> core" where
  "stream instance_id rx c =
     (MsgInit instance_id (start_seq_by_source (co_ring c))
        # map MsgLine (handshake_tail (pr_replay (co_ring c))),
      c\<lparr>co_streams := co_streams c @ [(rx, chan_new)]\<rparr>)"

definition absorb :: "(string \<Rightarrow> string) \<Rightarrow> bool \<Rightarrow> push_event \<Rightarrow> int \<Rightarrow> core \<Rightarrow> core" where
  "absorb doc capability evt now c =
     (if \<not> capability then c
      else (case push doc evt now (co_ring c) of
              (frames, r) \<Rightarrow> publish frames (c\<lparr>co_ring := r\<rparr>)))"

fun absorb_all :: "(string \<Rightarrow> string) \<Rightarrow> (push_event \<times> int) list \<Rightarrow> core \<Rightarrow> core" where
  "absorb_all doc [] c = c"
| "absorb_all doc ((evt, now) # rest) c = absorb_all doc rest (absorb doc True evt now c)"

definition queue_of :: "nat \<Rightarrow> core \<Rightarrow> stream_msg list option" where
  "queue_of rx c = map_option ch_queue (map_of (co_streams c) rx)"

fun lines_of :: "stream_msg list \<Rightarrow> logged_line list" where
  "lines_of [] = []"
| "lines_of (MsgLine l # ms) = l # lines_of ms"
| "lines_of (_ # ms) = lines_of ms"

section \<open>One channel\<close>

text \<open>What an open channel holds after more frames were published.\<close>

fun deliver :: "stream_msg list \<Rightarrow> logged_line list \<Rightarrow> stream_msg list" where
  "deliver q [] = q"
| "deliver q (f # fs) = deliver (if length q \<ge> EVENT_CHANNEL_CAP then q else q @ [MsgLine f]) fs"

definition open_at :: "nat \<Rightarrow> stream_msg list \<Rightarrow> (nat \<times> chan) list \<Rightarrow> bool" where
  "open_at rx q ss = (map_of ss rx = Some \<lparr>ch_queue = q, ch_closed = False\<rparr> \<and> distinct (map fst ss))"

lemma publish_one_dom: "x \<in> fst ` set (publish_one ss f) \<Longrightarrow> x \<in> fst ` set ss"
  by (auto simp: publish_one_def List.map_filter_def send_or_prune_def split: prod.splits if_splits)
     (force+)

lemma publish_one_distinct: "distinct (map fst ss) \<Longrightarrow> distinct (map fst (publish_one ss f))"
proof (induction ss)
  case (Cons s ss)
  then show ?case
    using publish_one_dom [of _ ss f]
    by (auto simp: publish_one_def map_filter_simps send_or_prune_def split: option.split prod.splits if_splits)
      (metis fst_conv imageI)
qed (simp add: publish_one_def map_filter_simps)

lemma publish_one_open:
  "open_at rx q ss \<Longrightarrow> open_at rx (deliver q [f]) (publish_one ss f)"
proof (induction ss)
  case (Cons s ss)
  obtain i c where s: "s = (i, c)" by (cases s)
  have d: "distinct (map fst (publish_one (s # ss) f))"
    using Cons.prems by (intro publish_one_distinct) (simp add: open_at_def)
  show ?case
  proof (cases "i = rx")
    case True
    with Cons.prems s d show ?thesis
      by (simp add: open_at_def publish_one_def map_filter_simps send_or_prune_def)
  next
    case False
    with Cons.prems s have "open_at rx q ss" by (simp add: open_at_def)
    with Cons.IH have "open_at rx (deliver q [f]) (publish_one ss f)" .
    with False s d show ?thesis
      by (auto simp: open_at_def publish_one_def map_filter_simps send_or_prune_def split: option.split)
  qed
qed (simp add: open_at_def)

lemma publish_open: "open_at rx q ss \<Longrightarrow> open_at rx (deliver q fs) (foldl publish_one ss fs)"
proof (induction fs arbitrary: q ss)
  case (Cons f fs)
  from Cons.IH [OF publish_one_open [OF Cons.prems, of f]] show ?case by simp
qed simp

lemma deliver_append: "deliver q (a @ b) = deliver (deliver q a) b"
  by (induction a arbitrary: q) simp_all

lemma deliver_sub: "\<exists>got. deliver q fs = q @ map MsgLine got \<and> subseq got fs
    \<and> (length q + length fs \<le> EVENT_CHANNEL_CAP \<longrightarrow> got = fs)"
proof (induction fs arbitrary: q)
  case (Cons f fs)
  show ?case
  proof (cases "length q \<ge> EVENT_CHANNEL_CAP")
    case True
    with Cons.IH [of q] show ?thesis by auto
  next
    case False
    from Cons.IH [of "q @ [MsgLine f]"] obtain got where
      g: "deliver (q @ [MsgLine f]) fs = (q @ [MsgLine f]) @ map MsgLine got" "subseq got fs"
      "length q + 1 + length fs \<le> EVENT_CHANNEL_CAP \<longrightarrow> got = fs" by auto
    with False show ?thesis by (intro exI [of _ "f # got"]) auto
  qed
qed simp

lemma absorb_all_open:
  assumes "open_at rx q (co_streams c)" "push_all doc evs (co_ring c) = (fs, r)"
  shows "open_at rx (deliver q fs) (co_streams (absorb_all doc evs c)) \<and> co_ring (absorb_all doc evs c) = r"
  using assms
proof (induction evs arbitrary: q c fs)
  case (Cons e evs)
  obtain evt now where e: "e = (evt, now)" by (cases e)
  obtain f1 r1 where p: "push doc evt now (co_ring c) = (f1, r1)" by fastforce
  obtain f2 r2 where a: "push_all doc evs r1 = (f2, r2)" by fastforce
  from Cons.prems e p a have fs: "fs = f1 @ f2" "r = r2" by simp_all
  have "open_at rx (deliver q f1) (co_streams (absorb doc True evt now c))" "co_ring (absorb doc True evt now c) = r1"
    using Cons.prems(1) p by (simp_all add: absorb_def publish_def publish_open)
  with Cons.IH [OF this(1), of f2] a e fs show ?case by (simp add: deliver_append)
qed simp

section \<open>A connection\<close>

lemma lines_of_map [simp]: "lines_of (map MsgLine ls) = ls"
  by (induction ls) simp_all

lemma lines_of_append [simp]: "lines_of (a @ b) = lines_of a @ lines_of b"
  by (induction a rule: lines_of.induct) simp_all

lemma handshake_tail_suffix: "suffix (handshake_tail q) q"
  unfolding handshake_tail_def suffix_to_prefix by (simp add: take_is_prefix)

lemma stream_opens:
  "distinct (map fst (co_streams c)) \<Longrightarrow> rx \<notin> set (map fst (co_streams c)) \<Longrightarrow> stream inst rx c = (hs, c1)
    \<Longrightarrow> open_at rx [] (co_streams c1) \<and> co_ring c1 = co_ring c"
  by (auto simp: stream_def open_at_def chan_new_def map_add_def split: option.split
      dest!: map_of_SomeD) (metis fst_conv imageI)

lemma start_seqs_first: "hm_get (start_seqs q out) src = (case hm_get out src of Some v \<Rightarrow> Some v
    | None \<Rightarrow> (case of_source src q of [] \<Rightarrow> None | l # _ \<Rightarrow> Some (ll_seq l)))"
  by (induction q arbitrary: out) (auto split: option.splits)

lemma subseq_of_source: "subseq a b \<Longrightarrow> subseq (map ll_seq (of_source src a)) (map ll_seq (of_source src b))"
  unfolding of_source_def by (intro subseq_map subseq_filter)

lemma sorted_wrt_sub: "subseq xs ys \<Longrightarrow> sorted_wrt P ys \<Longrightarrow> sorted_wrt P xs"
  by (induction rule: list_emb.induct) (auto dest: list_emb_set)

lemma sorted_upto_sub: "subseq xs [a..b] \<Longrightarrow> sorted_wrt (<) (xs :: int list)"
  by (erule sorted_wrt_sub) (rule sorted_wrt_upto)

text \<open>
  A client that connects at any moment sees one consistent stream: the handshake announces,
  per source, the oldest number still in the ring and replays the newest 10000 lines of the
  ring; then exactly the frames recorded after the snapshot follow, as long as its channel
  does not overflow, and otherwise a selection of them in order. No number of a source is
  delivered twice, and numbers only grow, across the boundary too.
\<close>

theorem connection_sees_one_stream:
  assumes "push_all doc before ring_new = (outs, co_ring c)" "push_all doc after (co_ring c) = (fs, r)"
    and "distinct (map fst (co_streams c))" "rx \<notin> set (map fst (co_streams c))"
    and "stream inst rx c = (hs, c1)"
  shows "\<exists>got. queue_of rx (absorb_all doc after c1) = Some (map MsgLine got)
    \<and> lines_of hs = drop (length (pr_replay (co_ring c)) - 10000) (pr_replay (co_ring c))
    \<and> subseq got fs \<and> (length fs \<le> 1024 \<longrightarrow> got = fs)
    \<and> sorted_wrt (<) (map ll_seq (of_source src (lines_of hs @ got)))
    \<and> hm_get (start_seq_by_source (co_ring c)) src =
        (case of_source src (pr_replay (co_ring c)) of [] \<Rightarrow> None | l # _ \<Rightarrow> Some (ll_seq l))"
proof -
  let ?ring = "co_ring c"
  from stream_opens [OF assms(3-5)] have o: "open_at rx [] (co_streams c1)" "co_ring c1 = ?ring"
    by simp_all
  from absorb_all_open [OF o(1)] assms(2) o(2)
  have q: "open_at rx (deliver [] fs) (co_streams (absorb_all doc after c1))" by simp
  from deliver_sub [of "[]" fs] obtain got where
    got: "deliver [] fs = map MsgLine got" "subseq got fs" "length fs \<le> EVENT_CHANNEL_CAP \<longrightarrow> got = fs"
    by auto
  have hs: "lines_of hs = handshake_tail (pr_replay ?ring)"
    using assms(5) by (auto simp: stream_def)
  from push_all_inv [OF ring_inv_new assms(1)] have inv: "ring_inv outs ?ring" by simp
  from push_all_inv [OF inv assms(2)] have inv2: "ring_inv (outs @ fs) r" .
  have "suffix (lines_of hs) (real_lines outs)"
    using handshake_tail_suffix inv unfolding hs ring_inv_def by (blast intro: suffix_order.trans)
  then have "subseq (lines_of hs) outs"
    unfolding real_lines_def by (blast intro: suffix_imp_subseq subseq_order.trans subseq_filter_left)
  with got(2) have "subseq (lines_of hs @ got) (outs @ fs)" by (intro list_emb_append_mono)
  then have "subseq (map ll_seq (of_source src (lines_of hs @ got))) (map ll_seq (of_source src (outs @ fs)))"
    by (rule subseq_of_source)
  moreover have "map ll_seq (of_source src (outs @ fs)) = [seq_now ring_new src + 1..seq_now r src]"
    using inv2 unfolding ring_inv_def emits_def by blast
  ultimately have "sorted_wrt (<) (map ll_seq (of_source src (lines_of hs @ got)))"
    using sorted_upto_sub by simp
  moreover have "handshake_tail q = drop (length q - 10000) q" for q :: "logged_line list"
    by (simp add: handshake_tail_def MAX_HANDSHAKE_REPLAY_def take_rev)
  moreover have "queue_of rx (absorb_all doc after c1) = Some (map MsgLine got)"
    using q unfolding open_at_def queue_of_def got(1) by simp
  ultimately show ?thesis
    using got hs by (auto simp: EVENT_CHANNEL_CAP_def start_seq_by_source_def start_seqs_first)
qed

theorem connection_sees_one_stream_witness:
  "\<exists>got. queue_of 3 (absorb_all (\<lambda>s. s) [(\<lparr>ev_ts = 5, ev_level = 2, ev_source = ''tamad'', ev_message = ''hi''\<rparr>, 6)]
      (snd (stream ''boot'' 3 \<lparr>co_ring = ring_new, co_streams = []\<rparr>))) = Some (map MsgLine got)
    \<and> sorted_wrt (<) (map ll_seq (of_source ''tamad'' got))"
proof -
  let ?c = "\<lparr>co_ring = ring_new, co_streams = []\<rparr>"
  let ?e = "[(\<lparr>ev_ts = 5, ev_level = 2, ev_source = ''tamad'', ev_message = ''hi''\<rparr>, 6 :: int)]"
  obtain hs c1 where s: "stream ''boot'' 3 ?c = (hs, c1)" by fastforce
  obtain fs r where p: "push_all (\<lambda>s. s) ?e ring_new = (fs, r)" by fastforce
  have "lines_of hs = []" using s by (auto simp: stream_def ring_new_def handshake_tail_def)
  with connection_sees_one_stream [where before = "[]" and after = ?e and c = ?c and doc = "\<lambda>s. s"
      and outs = "[]" and rx = 3 and src = "''tamad''", OF _ _ _ _ s] p
  show ?thesis unfolding s by auto
qed

end
