(* ===== verification/LogIngest.thy ===== *)
theory LogIngest
  imports PushStream Vocabulary
begin

text \<open>
  The proxy's side of the log streams: the replay dedupe of
  \<open>tama-core/src/logstore/dedupe.rs\<close> and the frame consumer of
  \<open>tama-core/src/tamad/stream_logs.rs\<close>. \<open>serde_json\<close> documents are a parameter: what a text
  parses to, the object view, and the three scalars the code builds.
\<close>

section \<open>Replay dedupe\<close>

datatype decision = Fresh | Duplicate | NewInstance | OldInstanceReplay

record instance_state =
  is_current :: "string \<times> int"
  is_seen_olds :: "string set"

record dedup_state =
  dd_current_lines :: "(string, (string, instance_state) hmap) hmap"
  dd_expected :: "(string, (string, string) hmap) hmap"

definition dedup_new :: dedup_state where
  "dedup_new = \<lparr>dd_current_lines = [], dd_expected = []\<rparr>"

definition get2 :: "('a, ('b, 'c) hmap) hmap \<Rightarrow> 'a \<Rightarrow> 'b \<Rightarrow> 'c option" where
  "get2 m a b = Option.bind (hm_get m a) (\<lambda>n. hm_get n b)"

definition put2 :: "'a \<Rightarrow> 'b \<Rightarrow> 'c \<Rightarrow> ('a, ('b, 'c) hmap) hmap \<Rightarrow> ('a, ('b, 'c) hmap) hmap" where
  "put2 a b v m = hm_insert a (hm_insert b v (case hm_get m a of Some n \<Rightarrow> n | None \<Rightarrow> [])) m"

definition on_init :: "string \<Rightarrow> string \<Rightarrow> string \<Rightarrow> dedup_state \<Rightarrow> dedup_state" where
  "on_init tamad source instance_id d =
     d\<lparr>dd_expected := put2 tamad source instance_id (dd_expected d)\<rparr>"

definition on_message ::
  "string \<Rightarrow> string \<Rightarrow> string \<Rightarrow> int \<Rightarrow> dedup_state \<Rightarrow> decision \<times> dedup_state" where
  "on_message tamad source instance_id seq d =
     (let upd = (\<lambda>st. d\<lparr>dd_current_lines := put2 tamad source st (dd_current_lines d)\<rparr>)
      in case get2 (dd_current_lines d) tamad source of
           None \<Rightarrow> (Fresh, upd \<lparr>is_current = (instance_id, seq), is_seen_olds = {}\<rparr>)
         | Some st \<Rightarrow>
             if instance_id = fst (is_current st) then
               (if seq > snd (is_current st)
                then (Fresh, upd (st\<lparr>is_current := (fst (is_current st), seq)\<rparr>))
                else (Duplicate, d))
             else if get2 (dd_expected d) tamad source = Some instance_id then
               (NewInstance, upd (st\<lparr>is_current := (instance_id, seq),
                  is_seen_olds := insert (fst (is_current st)) (is_seen_olds st)\<rparr>))
             else if instance_id \<in> is_seen_olds st then (Duplicate, d)
             else (OldInstanceReplay,
                   upd (st\<lparr>is_seen_olds := insert instance_id (is_seen_olds st)\<rparr>)))"

section \<open>Records\<close>

record 'j doc_ops =
  jd_parse :: "string \<Rightarrow> 'j option"
  jd_object :: "'j \<Rightarrow> (string, 'j) hmap option"
  jd_str :: "string \<Rightarrow> 'j"
  jd_int :: "int \<Rightarrow> 'j"
  jd_bool :: "bool \<Rightarrow> 'j"

record 'j log_record =
  lg_ts :: int
  lg_level :: logstore_level
  lg_source :: string
  lg_msg :: "(string, 'j) hmap"

definition map_level :: "int \<Rightarrow> logstore_level \<times> bool" where
  "map_level level =
     (if level = -1 then (LogstoreLevel 2, False)
      else (case level_from_u8 (word_of_int level) of
              Some l \<Rightarrow> if level \<ge> 0 then (l, True) else (LogstoreLevel 2, False)
            | None \<Rightarrow> (LogstoreLevel 2, False)))"

definition line_source :: "string \<Rightarrow> string \<Rightarrow> string" where
  "line_source host_name rel =
     (if rel = ''tamad'' then source_tamad host_name
      else (case strip_prefix ''model:'' rel of
              Some model \<Rightarrow> source_tamad_model host_name model
            | None \<Rightarrow> source_tamad host_name))"

definition line_to_record :: "'j doc_ops \<Rightarrow> logged_line \<Rightarrow> string \<Rightarrow> string \<Rightarrow> 'j log_record" where
  "line_to_record D line instance_id host_name =
     (let (level, level_known) = map_level (ll_level line);
          raw = [(''message'', jd_str D (ll_message line))];
          obj = (case jd_parse D (ll_message line) of
                   None \<Rightarrow> raw
                 | Some doc \<Rightarrow> (case jd_object D doc of Some o' \<Rightarrow> o' | None \<Rightarrow> raw));
          obj = hm_insert ''instance_id'' (jd_str D instance_id) obj;
          obj = hm_insert ''host'' (jd_str D host_name) obj;
          obj = hm_insert ''seq'' (jd_int D (ll_seq line)) obj;
          obj = (if level_known then obj else hm_insert ''level_known'' (jd_bool D False) obj)
      in \<lparr>lg_ts = ll_ts line, lg_level = level, lg_source = line_source host_name (ll_source line),
          lg_msg = obj\<rparr>)"

section \<open>The consumer\<close>

record 'j ingest =
  in_instance :: "string option"
  in_dedup :: dedup_state
  in_sent :: "'j log_record list"

text \<open>One frame; the flag is false when the shared channel was found closed.\<close>

definition consume_frame ::
  "'j doc_ops \<Rightarrow> string \<Rightarrow> string \<Rightarrow> bool \<Rightarrow> stream_msg \<Rightarrow> 'j ingest \<Rightarrow> bool \<times> 'j ingest" where
  "consume_frame D tamad_id host_name tx_open msg s = (case msg of
       MsgEmpty \<Rightarrow> (True, s)
     | MsgInit inst start \<Rightarrow>
         (True, s\<lparr>in_dedup := foldl (\<lambda>d source. on_init tamad_id source inst d) (in_dedup s)
                               (map fst start), in_instance := Some inst\<rparr>)
     | MsgLine line \<Rightarrow> (case in_instance s of
           None \<Rightarrow> (True, s)
         | Some inst \<Rightarrow>
             (case on_message tamad_id (ll_source line) inst (ll_seq line)
                     (on_init tamad_id (ll_source line) inst (in_dedup s)) of
                (dec, d) \<Rightarrow>
                  if dec = Duplicate then (True, s\<lparr>in_dedup := d\<rparr>)
                  else if \<not> tx_open then (False, s\<lparr>in_dedup := d\<rparr>)
                  else (True, s\<lparr>in_dedup := d,
                          in_sent := in_sent s @ [line_to_record D line inst host_name]\<rparr>))))"

text \<open>The frames of one stream, from a fresh per-stream identity.\<close>

fun consume_frames where
  "consume_frames D tamad_id host_name [] s = s"
| "consume_frames D tamad_id host_name (m # ms) s =
     (case consume_frame D tamad_id host_name True m s of (_, s') \<Rightarrow>
        consume_frames D tamad_id host_name ms s')"

definition ingest_stream ::
  "'j doc_ops \<Rightarrow> string \<Rightarrow> string \<Rightarrow> stream_msg list \<Rightarrow> 'j ingest \<Rightarrow> 'j ingest" where
  "ingest_stream D tamad_id host_name frames s =
     consume_frames D tamad_id host_name frames (s\<lparr>in_instance := None\<rparr>)"

lemma get2_put2 [simp]: "get2 (put2 a b v m) a' b' = (if a' = a \<and> b' = b then Some v else get2 m a' b')"
  by (auto simp: get2_def put2_def split: option.split)

section \<open>Watermarks\<close>

text \<open>
  What the consumer does to the lines of one instance: a watermark per source, and only lines
  above it are taken. \<open>watermark\<close> reads it off the dedupe state.
\<close>

definition watermark :: "string \<Rightarrow> string \<Rightarrow> dedup_state \<Rightarrow> string \<Rightarrow> int option" where
  "watermark tamad inst d source = (case get2 (dd_current_lines d) tamad source of
       None \<Rightarrow> None
     | Some st \<Rightarrow> if fst (is_current st) = inst then Some (snd (is_current st)) else None)"

definition above :: "int option \<Rightarrow> int \<Rightarrow> bool" where
  "above w n = (case w of None \<Rightarrow> True | Some v \<Rightarrow> v < n)"

fun accepted :: "(string \<Rightarrow> int option) \<Rightarrow> logged_line list \<Rightarrow> logged_line list" where
  "accepted w [] = []"
| "accepted w (l # ls) =
     (if above (w (ll_source l)) (ll_seq l)
      then l # accepted (w(ll_source l := Some (ll_seq l))) ls else accepted w ls)"

fun raised :: "(string \<Rightarrow> int option) \<Rightarrow> logged_line list \<Rightarrow> string \<Rightarrow> int option" where
  "raised w [] = w"
| "raised w (l # ls) =
     (if above (w (ll_source l)) (ll_seq l)
      then raised (w(ll_source l := Some (ll_seq l))) ls else raised w ls)"

lemma accepted_append: "accepted w (a @ b) = accepted w a @ accepted (raised w a) b"
  by (induction a arbitrary: w) simp_all

lemma raised_append: "raised w (a @ b) = raised (raised w a) b"
  by (induction a arbitrary: w) simp_all

lemma accepted_subseq: "subseq (accepted w ls) ls"
  by (induction ls arbitrary: w) auto

lemma above_trans: "above w m \<Longrightarrow> m \<le> n \<Longrightarrow> above w n"
  by (auto simp: above_def split: option.splits)

lemma accepted_above: "l \<in> set (accepted w ls) \<Longrightarrow> above (w (ll_source l)) (ll_seq l)"
proof (induction ls arbitrary: w)
  case (Cons x ls)
  show ?case
  proof (cases "above (w (ll_source x)) (ll_seq x)")
    case True
    with Cons.prems consider "l = x" | "l \<in> set (accepted (w(ll_source x := Some (ll_seq x))) ls)" by auto
    then show ?thesis
    proof cases
      case 2
      from Cons.IH [OF this] have "above ((w(ll_source x := Some (ll_seq x))) (ll_source l)) (ll_seq l)" .
      with True show ?thesis
        by (cases "ll_source l = ll_source x") (auto intro: above_trans simp: above_def split: option.splits)
    qed (use True in simp)
  qed (use Cons in simp)
qed simp

lemma accepted_sorted: "sorted_wrt (<) (map ll_seq (of_source src (accepted w ls)))"
proof (induction ls arbitrary: w)
  case (Cons x ls)
  have "ll_seq x < n" if "n \<in> set (map ll_seq (of_source (ll_source x)
      (accepted (w(ll_source x := Some (ll_seq x))) ls)))" for n
  proof -
    from that obtain l where "l \<in> set (accepted (w(ll_source x := Some (ll_seq x))) ls)"
      "ll_source l = ll_source x" "n = ll_seq l" by (auto simp: of_source_def)
    with accepted_above [OF this(1)] show ?thesis by (simp add: above_def)
  qed
  with Cons show ?case by auto
qed simp

lemma accepted_ascending:
  "sorted_wrt (<) (map ll_seq (of_source src ls)) \<Longrightarrow>
    of_source src (accepted w ls) = filter (\<lambda>l. above (w src) (ll_seq l)) (of_source src ls)"
proof (induction ls arbitrary: w)
  case (Cons x ls)
  show ?case
  proof (cases "ll_source x = src")
    case False
    with Cons show ?thesis by auto
  next
    case True
    with Cons.prems have up: "\<forall>l \<in> set (of_source src ls). ll_seq x < ll_seq l"
      and rest: "sorted_wrt (<) (map ll_seq (of_source src ls))" by auto
    from up have "above (w src) (ll_seq x) \<Longrightarrow> filter (\<lambda>l. above (w src) (ll_seq l)) (of_source src ls)
        = filter (\<lambda>l. above (Some (ll_seq x)) (ll_seq l)) (of_source src ls)"
      by (intro filter_cong) (auto simp: above_def split: option.splits)
    with True Cons.IH [OF rest] show ?thesis by auto
  qed
qed simp

lemma above_raised:
  "above (raised w ls src) n \<longleftrightarrow> above (w src) n \<and> (\<forall>l \<in> set (of_source src (accepted w ls)). ll_seq l < n)"
proof (induction ls arbitrary: w)
  case (Cons x ls)
  have "above (w (ll_source x)) (ll_seq x) \<Longrightarrow> ll_seq x < n \<Longrightarrow> above (w (ll_source x)) n"
    by (auto simp: above_def split: option.splits)
  with Cons show ?case by (auto simp: above_def [of "Some _"] simp del: fun_upd_apply) (auto simp: above_def)
qed simp

section \<open>The consumer keeps watermarks\<close>

lemma on_init_current [simp]: "dd_current_lines (on_init t s i d) = dd_current_lines d"
  by (simp add: on_init_def)

lemma on_inits_current [simp]:
  "dd_current_lines (foldl (\<lambda>d source. on_init t source i d) d ss) = dd_current_lines d"
  by (induction ss arbitrary: d) simp_all

lemma watermark_current:
  "dd_current_lines d = dd_current_lines d' \<Longrightarrow> watermark t i d = watermark t i d'"
  by (simp add: watermark_def fun_eq_iff)

text \<open>One line of the stream's own instance: taken exactly when it is above the watermark.\<close>

lemma consume_judgement:
  "on_message t src inst n (on_init t src inst d) = (dec, d') \<Longrightarrow>
    (dec \<noteq> Duplicate) = above (watermark t inst d src) n
    \<and> dec \<noteq> OldInstanceReplay
    \<and> watermark t inst d' = (if above (watermark t inst d src) n
        then (watermark t inst d)(src := Some n) else watermark t inst d)"
proof -
  assume m: "on_message t src inst n (on_init t src inst d) = (dec, d')"
  have e: "get2 (dd_expected (on_init t src inst d)) t src = Some inst" by (simp add: on_init_def)
  show ?thesis
  proof (cases "get2 (dd_current_lines d) t src")
    case None
    with m show ?thesis by (auto simp: on_message_def Let_def watermark_def above_def)
  next
    case (Some st)
    show ?thesis
    proof (cases "inst = fst (is_current st)")
      case True
      with m Some show ?thesis
        by (auto simp: on_message_def Let_def watermark_def above_def split: if_splits)
    next
      case False
      with m Some e show ?thesis
        by (auto simp: on_message_def Let_def watermark_def above_def)
    qed
  qed
qed

lemma consume_lines:
  "in_instance s = Some inst \<Longrightarrow>
    in_sent (consume_frames D t h (map MsgLine ls) s)
      = in_sent s @ map (\<lambda>l. line_to_record D l inst h) (accepted (watermark t inst (in_dedup s)) ls)
    \<and> watermark t inst (in_dedup (consume_frames D t h (map MsgLine ls) s))
      = raised (watermark t inst (in_dedup s)) ls"
proof (induction ls arbitrary: s)
  case (Cons l ls)
  obtain dec d where j: "on_message t (ll_source l) inst (ll_seq l)
      (on_init t (ll_source l) inst (in_dedup s)) = (dec, d)" by fastforce
  note J = consume_judgement [OF j]
  obtain ok s' where c: "consume_frame D t h True (MsgLine l) s = (ok, s')" by fastforce
  with j Cons.prems have s': "in_instance s' = Some inst" "in_dedup s' = d"
    "in_sent s' = in_sent s @ (if dec = Duplicate then [] else [line_to_record D l inst h])"
    by (auto simp: consume_frame_def split: if_splits)
  with Cons.IH [OF s'(1)] J c show ?case by (cases "dec = Duplicate") (auto simp del: fun_upd_apply)
qed simp

definition connect_and_read ::
  "'j doc_ops \<Rightarrow> string \<Rightarrow> string \<Rightarrow> string \<Rightarrow> (string, int) hmap \<times> logged_line list \<Rightarrow> 'j ingest \<Rightarrow> 'j ingest"
where
  "connect_and_read D t h inst c s =
     ingest_stream D t h (MsgInit inst (fst c) # map MsgLine (snd c)) s"

lemma connect_and_read:
  "in_sent (connect_and_read D t h inst c s)
      = in_sent s @ map (\<lambda>l. line_to_record D l inst h) (accepted (watermark t inst (in_dedup s)) (snd c))
    \<and> watermark t inst (in_dedup (connect_and_read D t h inst c s))
      = raised (watermark t inst (in_dedup s)) (snd c)"
proof -
  let ?s = "s\<lparr>in_dedup := foldl (\<lambda>d source. on_init t source inst d) (in_dedup s) (map fst (fst c)),
      in_instance := Some inst\<rparr>"
  have w: "watermark t inst (in_dedup ?s) = watermark t inst (in_dedup s)"
    by (rule watermark_current) simp
  have c: "connect_and_read D t h inst c s = consume_frames D t h (map MsgLine (snd c)) ?s"
    by (simp add: connect_and_read_def ingest_stream_def consume_frame_def)
  have i: "in_instance ?s = Some inst" and sent: "in_sent ?s = in_sent s" by simp_all
  show ?thesis
    using consume_lines [OF i, of D t h "snd c"] unfolding c w sent .
qed

text \<open>
  Across any number of connections to one boot of a tamad, whatever each of them replays,
  the proxy's log receives of every source a strictly increasing sequence of numbers: exactly
  the lines above the watermark of the lines before them, each once, in order of arrival.
\<close>

theorem log_receives_once:
  "\<exists>acc. in_sent (fold (connect_and_read D t h inst) conns s)
       = in_sent s @ map (\<lambda>l. line_to_record D l inst h) acc
    \<and> acc = accepted (watermark t inst (in_dedup s)) (concat (map snd conns))
    \<and> sorted_wrt (<) (map ll_seq (of_source src acc)) \<and> subseq acc (concat (map snd conns))"
proof -
  have "in_sent (fold (connect_and_read D t h inst) conns s) = in_sent s
      @ map (\<lambda>l. line_to_record D l inst h) (accepted (watermark t inst (in_dedup s)) (concat (map snd conns)))"
  proof (induction conns arbitrary: s)
    case (Cons c conns)
    with connect_and_read [of D t h inst c s] show ?case by (simp add: accepted_append)
  qed simp
  then show ?thesis by (intro exI conjI) (assumption, rule refl, rule accepted_sorted, rule accepted_subseq)
qed

lemma ascending_sub:
  "subseq a b \<Longrightarrow> sorted_wrt (<) (map ll_seq (of_source src b)) \<Longrightarrow> sorted_wrt (<) (map ll_seq (of_source src a))"
  by (rule sorted_wrt_sub [OF subseq_of_source])

lemma in_of_source: "l \<in> set (of_source src ls) \<longleftrightarrow> l \<in> set ls \<and> ll_source l = src"
  by (auto simp: of_source_def)

text \<open>
  A broken connection whose undelivered lines are replayed by the next one loses nothing.
\<close>

lemma replay_fills_gap:
  assumes asc: "\<And>src. sorted_wrt (<) (map ll_seq (of_source src (a @ b)))"
    and asc2: "\<And>src. sorted_wrt (<) (map ll_seq (of_source src h))"
    and fresh: "\<And>src. w src = None" and gap: "set (real_lines b) \<subseteq> set h"
  shows "set (real_lines (a @ b)) \<subseteq> set (accepted w (a @ h))"
proof
  fix l assume l: "l \<in> set (real_lines (a @ b))"
  let ?src = "ll_source l"
  have asca: "sorted_wrt (<) (map ll_seq (of_source ?src a))" using asc [of ?src] by (simp add: sorted_wrt_append)
  show "l \<in> set (accepted w (a @ h))"
  proof (cases "l \<in> set a")
    case True
    then have "l \<in> set (of_source ?src (accepted w a))"
      unfolding accepted_ascending [OF asca] by (simp add: in_of_source fresh above_def)
    then show ?thesis by (simp add: accepted_append in_of_source)
  next
    case False
    with l have lb: "l \<in> set (real_lines b)" by (auto simp: real_lines_def)
    with gap have lh: "l \<in> set h" by auto
    have "ll_seq x < ll_seq l" if "x \<in> set (of_source ?src (accepted w a))" for x
    proof -
      have "x \<in> set (of_source ?src a)"
        using that list_emb_set [OF accepted_subseq [of w a]] by (auto simp: in_of_source)
      moreover have "l \<in> set (of_source ?src b)" using lb by (auto simp: in_of_source real_lines_def)
      ultimately show ?thesis using asc [of ?src] by (auto simp: sorted_wrt_append)
    qed
    then have "above (raised w a ?src) (ll_seq l)" by (simp add: above_raised fresh) (simp add: above_def)
    with lh have "l \<in> set (of_source ?src (accepted (raised w a) h))"
      unfolding accepted_ascending [OF asc2] by (simp add: in_of_source)
    then show ?thesis by (simp add: accepted_append in_of_source)
  qed
qed


section \<open>Records and demoted instances\<close>

text \<open>
  What a stored line says: its level is the wire level for the five known ones and \<open>info\<close>
  with a \<open>level_known: false\<close> for \<open>-1\<close> and every negative one, but a level from 256 on is
  read modulo 256; the three labels are present whatever the message was; and the stored
  source starts with the host's prefix.
\<close>

theorem stored_line_shape:
  "lg_level (line_to_record D l inst host) = (if 0 \<le> ll_level l \<and> ll_level l mod 256 \<le> 4
      then LogstoreLevel (word_of_int (ll_level l mod 256)) else LogstoreLevel 2)
   \<and> hm_get (lg_msg (line_to_record D l inst host)) ''instance_id'' = Some (jd_str D inst)
   \<and> hm_get (lg_msg (line_to_record D l inst host)) ''host'' = Some (jd_str D host)
   \<and> hm_get (lg_msg (line_to_record D l inst host)) ''seq'' = Some (jd_int D (ll_seq l))
   \<and> starts_with (lg_source (line_to_record D l inst host)) (source_tamad host)"
proof (intro conjI)
  have m: "(word_of_int n :: 8 word) \<le> 4 \<longleftrightarrow> n mod 256 \<le> 4" for n
    by (simp add: word_le_def uint_word_of_int)
  have "(word_of_int (n mod 256) :: 8 word) = word_of_int n" for n
    by (simp add: word_uint_eq_iff uint_word_of_int)
  then show "lg_level (line_to_record D l inst host) = (if 0 \<le> ll_level l \<and> ll_level l mod 256 \<le> 4
      then LogstoreLevel (word_of_int (ll_level l mod 256)) else LogstoreLevel 2)"
    by (auto simp: line_to_record_def map_level_def level_from_u8_def m Let_def split: option.split)
  show "starts_with (lg_source (line_to_record D l inst host)) (source_tamad host)"
    by (simp add: line_to_record_def line_source_def source_tamad_def source_tamad_model_def
        starts_with_iff Let_def split: option.split prod.split)
qed (simp_all add: line_to_record_def Let_def split: prod.split)

text \<open>
  A demoted instance is not remembered: because the consumer announces the stream's own
  instance before it judges each line, a line of an instance other than the current one is
  always taken as a new instance, also when that instance was demoted before, and the number
  it carries becomes the watermark. The rules for late lines of old instances never apply.
\<close>

theorem demotion_is_forgotten:
  assumes "get2 (dd_current_lines d) t src = Some st" "fst (is_current st) \<noteq> inst"
  shows "\<exists>d'. on_message t src inst n (on_init t src inst d) = (NewInstance, d')
    \<and> get2 (dd_current_lines d') t src = Some \<lparr>is_current = (inst, n),
        is_seen_olds = insert (fst (is_current st)) (is_seen_olds st)\<rparr>"
  using assms by (simp add: on_message_def on_init_def Let_def)

section \<open>Concrete runs\<close>

definition demo_docs :: "string doc_ops" where
  "demo_docs = \<lparr>jd_parse = (\<lambda>_. None), jd_object = (\<lambda>_. None), jd_str = (\<lambda>s. s),
     jd_int = (\<lambda>_. ''n''), jd_bool = (\<lambda>_. ''b'')\<rparr>"

definition demo_line :: "int \<Rightarrow> logged_line" where
  "demo_line n = into_line \<lparr>ev_ts = 5, ev_level = 2, ev_source = ''tamad'', ev_message = ''hi''\<rparr> n"

text \<open>Line 1 of boot A, then line 1 of boot B, then the replay of boot A: stored twice.\<close>

theorem demotion_is_forgotten_witness:
  "\<exists>d1 d2 d3. on_message ''h'' ''tamad'' ''A'' 1 (on_init ''h'' ''tamad'' ''A'' dedup_new) = (Fresh, d1)
    \<and> on_message ''h'' ''tamad'' ''B'' 1 (on_init ''h'' ''tamad'' ''B'' d1) = (NewInstance, d2)
    \<and> on_message ''h'' ''tamad'' ''A'' 1 (on_init ''h'' ''tamad'' ''A'' d2) = (NewInstance, d3)"
proof -
  obtain d1 where d1: "on_message ''h'' ''tamad'' ''A'' 1 (on_init ''h'' ''tamad'' ''A'' dedup_new) = (Fresh, d1)"
    "get2 (dd_current_lines d1) ''h'' ''tamad'' = Some \<lparr>is_current = (''A'', 1), is_seen_olds = {}\<rparr>"
    by (simp add: on_message_def on_init_def dedup_new_def get2_def [of "[]"])
  from demotion_is_forgotten [OF d1(2), of "''B''" 1] obtain d2 where
    d2: "on_message ''h'' ''tamad'' ''B'' 1 (on_init ''h'' ''tamad'' ''B'' d1) = (NewInstance, d2)"
    "get2 (dd_current_lines d2) ''h'' ''tamad'' = Some \<lparr>is_current = (''B'', 1), is_seen_olds = {''A''}\<rparr>"
    by auto
  from demotion_is_forgotten [OF d2(2), of "''A''" 1] d1(1) d2(1) show ?thesis by auto
qed

definition demo_log :: "(push_event \<times> int) list" where
  "demo_log = [(\<lparr>ev_ts = 5, ev_level = 2, ev_source = ''tamad'', ev_message = ''hi''\<rparr>, 6)]"


end
