(* ===== verification/Jobs.thy ===== *)
theory Jobs
  imports Containers
begin

text \<open>
  The tamad's registry of long-running jobs: \<open>tamad/src/jobs.rs\<close>, and the event stream a client
  reads from it (\<open>stream_job\<close> in \<open>server.rs\<close>). The registry has three mutexes. A step takes the
  \<open>jobs\<close> lock, or one of the others alone, once; \<open>jact\<close> runs one step, so theorems over
  \<open>jreachable\<close> cover every interleaving of concurrent starts, reports, ends and cancellations.
  Instants are milliseconds. A cancellation token is a number; firing puts it on a list.
\<close>

section \<open>Data\<close>

definition STATUS_RUNNING :: string where "STATUS_RUNNING = ''running''"
definition STATUS_SUCCEEDED :: string where "STATUS_SUCCEEDED = ''succeeded''"
definition STATUS_FAILED :: string where "STATUS_FAILED = ''failed''"
definition STATUS_CANCELLED :: string where "STATUS_CANCELLED = ''cancelled''"

lemmas job_words = STATUS_RUNNING_def STATUS_SUCCEEDED_def STATUS_FAILED_def STATUS_CANCELLED_def

definition HISTORY_CAPACITY :: nat where "HISTORY_CAPACITY = 512"

record job =
  jb_id :: string
  jb_kind :: string
  jb_progress :: int
  jb_message :: string
  jb_status :: string
  jb_result_json :: "string option"
  jb_error :: "string option"
  jb_bytes_downloaded :: int
  jb_total_bytes :: int
  jb_ended_at :: "int option"

record job_event =
  je_job_id :: string
  je_kind :: string
  je_progress :: int
  je_message :: string
  je_status :: string
  je_result_json :: string
  je_error :: string
  je_bytes_downloaded :: int
  je_total_bytes :: int

definition terminal_status :: "string \<Rightarrow> bool" where
  "terminal_status s = (s \<in> {STATUS_SUCCEEDED, STATUS_FAILED, STATUS_CANCELLED})"

definition is_terminal :: "job \<Rightarrow> bool" where
  "is_terminal j = terminal_status (jb_status j)"

text \<open>The server's own test on events: it does not know the cancelled status.\<close>

definition is_terminal_event :: "job_event \<Rightarrow> bool" where
  "is_terminal_event ev = (je_status ev \<in> {STATUS_SUCCEEDED, STATUS_FAILED})"

definition unwrap_or_empty :: "string option \<Rightarrow> string" where
  "unwrap_or_empty s = (case s of Some t \<Rightarrow> t | None \<Rightarrow> [])"

definition to_event :: "job \<Rightarrow> job_event" where
  "to_event j = \<lparr>je_job_id = jb_id j, je_kind = jb_kind j, je_progress = jb_progress j,
     je_message = jb_message j, je_status = jb_status j,
     je_result_json = unwrap_or_empty (jb_result_json j), je_error = unwrap_or_empty (jb_error j),
     je_bytes_downloaded = jb_bytes_downloaded j, je_total_bytes = jb_total_bytes j\<rparr>"

record registry =
  rg_jobs :: "(string, job) hmap"
  rg_history :: "(string, job_event list) hmap"
  rg_tokens :: "(string, nat) hmap"
  rg_next_token :: nat
  rg_fired :: "nat list"
  rg_sent :: "job_event list"
  rg_prune_age :: int

definition registry_new :: registry where
  "registry_new = \<lparr>rg_jobs = [], rg_history = [], rg_tokens = [], rg_next_token = 0, rg_fired = [],
     rg_sent = [], rg_prune_age = 3600000\<rparr>"

section \<open>Critical sections\<close>

definition push_history :: "string \<Rightarrow> job_event \<Rightarrow> registry \<Rightarrow> registry" where
  "push_history jid ev r =
     (let entry = (case hm_get (rg_history r) jid of Some h \<Rightarrow> h | None \<Rightarrow> []);
          entry = (if length entry \<ge> HISTORY_CAPACITY then tl entry else entry)
      in r\<lparr>rg_history := hm_insert jid (entry @ [ev]) (rg_history r)\<rparr>)"

text \<open>Every emit: the new state of the job, its history and the broadcast, under one lock.\<close>

definition emit :: "string \<Rightarrow> job \<Rightarrow> registry \<Rightarrow> registry" where
  "emit jid j r =
     (let r1 = push_history jid (to_event j) (r\<lparr>rg_jobs := hm_insert jid j (rg_jobs r)\<rparr>)
      in r1\<lparr>rg_sent := rg_sent r1 @ [to_event j]\<rparr>)"

definition report_with_bytes :: "string \<Rightarrow> int \<Rightarrow> string \<Rightarrow> int \<Rightarrow> int \<Rightarrow> registry \<Rightarrow> registry" where
  "report_with_bytes jid progress message bytes total_n r = (case hm_get (rg_jobs r) jid of
       None \<Rightarrow> r
     | Some j \<Rightarrow>
         if is_terminal j then r
         else emit jid (j\<lparr>jb_progress := max 0 (min 100 progress), jb_message := message,
                jb_bytes_downloaded := max 0 bytes,
                jb_total_bytes := if total_n > 0 then total_n else jb_total_bytes j\<rparr>) r)"

definition finish_drop_token :: "string \<Rightarrow> registry \<Rightarrow> registry" where
  "finish_drop_token jid r = r\<lparr>rg_tokens := hm_remove jid (rg_tokens r)\<rparr>"

definition finish_apply ::
  "string \<Rightarrow> bool \<Rightarrow> string option \<Rightarrow> string option \<Rightarrow> int \<Rightarrow> registry \<Rightarrow> registry" where
  "finish_apply jid success result_json error now r = (case hm_get (rg_jobs r) jid of
       None \<Rightarrow> r
     | Some j \<Rightarrow>
         if is_terminal j then r
         else emit jid (j\<lparr>jb_status := if success then STATUS_SUCCEEDED else STATUS_FAILED,
                jb_progress := if success then 100 else jb_progress j,
                jb_result_json := result_json, jb_error := error, jb_ended_at := Some now\<rparr>) r)"

definition cancel_mark :: "string \<Rightarrow> int \<Rightarrow> registry \<Rightarrow> bool \<times> registry" where
  "cancel_mark jid now r = (case hm_get (rg_jobs r) jid of
       None \<Rightarrow> (False, r)
     | Some j \<Rightarrow>
         if is_terminal j then (False, r)
         else (True, emit jid (j\<lparr>jb_status := STATUS_CANCELLED, jb_ended_at := Some now\<rparr>) r))"

definition cancel_fire :: "string \<Rightarrow> registry \<Rightarrow> registry" where
  "cancel_fire jid r = (case hm_get (rg_tokens r) jid of
       None \<Rightarrow> r
     | Some tok \<Rightarrow> r\<lparr>rg_tokens := hm_remove jid (rg_tokens r), rg_fired := tok # rg_fired r\<rparr>)"

definition new_job :: "string \<Rightarrow> string \<Rightarrow> job" where
  "new_job jid kind = \<lparr>jb_id = jid, jb_kind = kind, jb_progress = 0, jb_message = ''started'',
     jb_status = STATUS_RUNNING, jb_result_json = None, jb_error = None, jb_bytes_downloaded = 0,
     jb_total_bytes = 0, jb_ended_at = None\<rparr>"

definition keep_job :: "int \<Rightarrow> int \<Rightarrow> job \<Rightarrow> bool" where
  "keep_job age now j = (\<not> is_terminal j
     \<or> (case jb_ended_at j of Some t \<Rightarrow> now - t < age | None \<Rightarrow> False))"

definition start_insert :: "string \<Rightarrow> string \<Rightarrow> int \<Rightarrow> registry \<Rightarrow> string list \<times> registry" where
  "start_insert jid kind now r =
     (let r1 = emit jid (new_job jid kind)
                 (r\<lparr>rg_jobs := filter (\<lambda>(_, j). keep_job (rg_prune_age r) now j) (rg_jobs r)\<rparr>)
      in (map fst (rg_jobs r1), r1))"

definition retain_tokens :: "string list \<Rightarrow> registry \<Rightarrow> registry" where
  "retain_tokens live r = r\<lparr>rg_tokens := filter (\<lambda>(tid, _). tid \<in> set live) (rg_tokens r)\<rparr>"

definition retain_history :: "string list \<Rightarrow> registry \<Rightarrow> registry" where
  "retain_history live r = r\<lparr>rg_history := filter (\<lambda>(tid, _). tid \<in> set live) (rg_history r)\<rparr>"

definition start_token :: "string \<Rightarrow> registry \<Rightarrow> registry" where
  "start_token jid r = r\<lparr>rg_tokens := hm_insert jid (rg_next_token r) (rg_tokens r),
     rg_next_token := rg_next_token r + 1\<rparr>"

definition job_token :: "string \<Rightarrow> registry \<Rightarrow> nat option" where
  "job_token jid r = hm_get (rg_tokens r) jid"

text \<open>The receiver sees what is sent after its position; the history comes with it.\<close>

definition subscribe :: "string \<Rightarrow> registry \<Rightarrow> (nat \<times> job_event list) option" where
  "subscribe jid r = (case hm_get (rg_jobs r) jid of
       None \<Rightarrow> None
     | Some _ \<Rightarrow> Some (length (rg_sent r),
         case hm_get (rg_history r) jid of Some h \<Rightarrow> h | None \<Rightarrow> []))"

section \<open>The event stream of a client\<close>

text \<open>What the stream has yielded so far, and whether it has ended.\<close>

fun until_terminal :: "job_event list \<Rightarrow> job_event list \<times> bool" where
  "until_terminal [] = ([], False)"
| "until_terminal (ev # evs) =
     (if is_terminal_event ev then ([ev], True)
      else (case until_terminal evs of (out, ended) \<Rightarrow> (ev # out, ended)))"

definition stream_job :: "string \<Rightarrow> job_event list \<Rightarrow> job_event list \<Rightarrow> job_event list \<times> bool" where
  "stream_job jid history live =
     (if history \<noteq> [] \<and> is_terminal_event (last history) then (history, True)
      else (case until_terminal (filter (\<lambda>ev. je_job_id ev = jid) live) of
              (out, ended) \<Rightarrow> (history @ out, ended)))"

section \<open>Interleaved steps\<close>

datatype jtask =
    JRetainTokens string "string list"
  | JRetainHistory string "string list"
  | JInsertToken string
  | JFinishApply string bool "string option" "string option"
  | JCancelFire string

record jobs_sys =
  js_registry :: registry
  js_tasks :: "jtask list"

datatype jaction =
    JStart string string int
  | JReport string int string int int
  | JFinish string bool "string option" "string option"
  | JCancel string int
  | JRun nat int

definition run_jtask :: "int \<Rightarrow> jtask \<Rightarrow> registry \<Rightarrow> jtask list \<times> registry" where
  "run_jtask now t r = (case t of
       JRetainTokens jid live \<Rightarrow> ([JRetainHistory jid live], retain_tokens live r)
     | JRetainHistory jid live \<Rightarrow> ([JInsertToken jid], retain_history live r)
     | JInsertToken jid \<Rightarrow> ([], start_token jid r)
     | JFinishApply jid ok res err \<Rightarrow> ([], finish_apply jid ok res err now r)
     | JCancelFire jid \<Rightarrow> ([], cancel_fire jid r))"

definition fresh_id :: "string \<Rightarrow> registry \<Rightarrow> bool" where
  "fresh_id jid r = (jid \<notin> je_job_id ` set (rg_sent r))"

fun jact :: "jaction \<Rightarrow> jobs_sys \<Rightarrow> jobs_sys option" where
  "jact (JStart jid kind now) s =
     (if \<not> fresh_id jid (js_registry s) then None
      else (case start_insert jid kind now (js_registry s) of (live, r) \<Rightarrow>
        Some \<lparr>js_registry = r, js_tasks = js_tasks s @ [JRetainTokens jid live]\<rparr>))"
| "jact (JReport jid p msg b n) s =
     Some (s\<lparr>js_registry := report_with_bytes jid p msg b n (js_registry s)\<rparr>)"
| "jact (JFinish jid ok res err) s =
     Some \<lparr>js_registry = finish_drop_token jid (js_registry s),
           js_tasks = js_tasks s @ [JFinishApply jid ok res err]\<rparr>"
| "jact (JCancel jid now) s = (case cancel_mark jid now (js_registry s) of
       (ok, r) \<Rightarrow> Some \<lparr>js_registry = r, js_tasks = js_tasks s @ (if ok then [JCancelFire jid] else [])\<rparr>)"
| "jact (JRun i now) s =
     (if i < length (js_tasks s) then
        (case run_jtask now (js_tasks s ! i) (js_registry s) of (ts, r) \<Rightarrow>
           Some \<lparr>js_registry = r, js_tasks = take i (js_tasks s) @ drop (Suc i) (js_tasks s) @ ts\<rparr>)
      else None)"

inductive jreachable :: "jobs_sys \<Rightarrow> bool" where
  new: "jreachable \<lparr>js_registry = registry_new, js_tasks = []\<rparr>"
| step: "jreachable s \<Longrightarrow> jact a s = Some s' \<Longrightarrow> jreachable s'"

fun run_jacts :: "jaction list \<Rightarrow> jobs_sys \<Rightarrow> jobs_sys option" where
  "run_jacts [] s = Some s"
| "run_jacts (a # as) s = Option.bind (jact a s) (run_jacts as)"

section \<open>Invariant\<close>

definition events_of :: "string \<Rightarrow> registry \<Rightarrow> job_event list" where
  "events_of jid r = filter (\<lambda>ev. je_job_id ev = jid) (rg_sent r)"

text \<open>All events but the last are running; the last one is the state the registry shows.\<close>

definition stream_ok :: "registry \<Rightarrow> string \<Rightarrow> bool" where
  "stream_ok r jid = ((\<forall>ev \<in> set (butlast (events_of jid r)). \<not> terminal_status (je_status ev))
     \<and> (\<forall>j. hm_get (rg_jobs r) jid = Some j \<longrightarrow>
          jb_id j = jid \<and> events_of jid r \<noteq> [] \<and> last (events_of jid r) = to_event j)
     \<and> (hm_get (rg_jobs r) jid = None \<longrightarrow>
          events_of jid r = [] \<or> terminal_status (je_status (last (events_of jid r)))))"

definition history_ok :: "registry \<Rightarrow> string \<Rightarrow> bool" where
  "history_ok r jid = (\<forall>h. hm_get (rg_history r) jid = Some h \<longrightarrow>
     suffix h (events_of jid r) \<and> length h \<le> HISTORY_CAPACITY)"

definition jinv :: "registry \<Rightarrow> bool" where
  "jinv r = (hm_wf (rg_jobs r) \<and> hm_wf (rg_history r) \<and> (\<forall>jid. stream_ok r jid \<and> history_ok r jid))"

lemma to_event_fields [simp]: "je_job_id (to_event j) = jb_id j" "je_status (to_event j) = jb_status j"
  by (simp_all add: to_event_def)

lemma emit_fields [simp]: "rg_jobs (emit k j r) = hm_insert k j (rg_jobs r)"
  "rg_sent (emit k j r) = rg_sent r @ [to_event j]" "rg_tokens (emit k j r) = rg_tokens r"
  by (simp_all add: emit_def push_history_def Let_def)

lemma events_of_emit: "jb_id j = k \<Longrightarrow> events_of jid (emit k j r) =
    (if jid = k then events_of jid r @ [to_event j] else events_of jid r)"
  by (auto simp: events_of_def)

lemma history_emit: "hm_get (rg_history (emit k j r)) jid = (if jid = k
    then Some (let h = (case hm_get (rg_history r) k of Some h \<Rightarrow> h | None \<Rightarrow> [])
               in (if length h \<ge> HISTORY_CAPACITY then tl h else h) @ [to_event j])
    else hm_get (rg_history r) jid)"
  by (simp add: emit_def push_history_def Let_def)

lemma history_wf_emit: "hm_wf (rg_history r) \<Longrightarrow> hm_wf (rg_history (emit k j r))"
  by (simp add: emit_def push_history_def Let_def)

lemma suffix_tl: "suffix h es \<Longrightarrow> suffix (tl h) es"
  by (cases h) (auto dest: suffix_ConsD)

lemma history_ok_emit:
  assumes "history_ok r jid" "jb_id j = k"
  shows "history_ok (emit k j r) jid"
proof (cases "jid = k")
  case True
  have "suffix (h @ [x]) (es @ [x])" if "suffix h es" for h es and x :: job_event
    using that by (auto simp: suffix_def)
  with True assms show ?thesis
    by (auto simp: history_ok_def history_emit events_of_emit Let_def HISTORY_CAPACITY_def
        split: option.splits intro: suffix_tl)
qed (use assms in \<open>simp add: history_ok_def history_emit events_of_emit\<close>)

lemma stream_ok_emit:
  assumes "stream_ok r jid" "jb_id j = k"
    and "jid = k \<Longrightarrow> events_of k r = [] \<or> \<not> terminal_status (je_status (last (events_of k r)))"
  shows "stream_ok (emit k j r) jid"
proof (cases "jid = k")
  case True
  with assms have "\<forall>ev \<in> set (events_of k r). \<not> terminal_status (je_status ev)"
    by (cases "events_of k r" rule: rev_cases) (auto simp: stream_ok_def)
  with True assms(2) show ?thesis by (simp add: stream_ok_def events_of_emit)
qed (use assms in \<open>simp add: stream_ok_def events_of_emit\<close>)

lemma jinv_emit:
  assumes "jinv r" "jb_id j = k"
    and "events_of k r = [] \<or> \<not> terminal_status (je_status (last (events_of k r)))"
  shows "jinv (emit k j r)"
  using assms stream_ok_emit [of r _ j k] history_ok_emit [of r _ j k]
  by (auto simp: jinv_def history_wf_emit)

lemma jinv_running:
  "jinv r \<Longrightarrow> hm_get (rg_jobs r) k = Some j \<Longrightarrow> \<not> is_terminal j
    \<Longrightarrow> jb_id j = k \<and> \<not> terminal_status (je_status (last (events_of k r)))"
  by (simp add: jinv_def stream_ok_def is_terminal_def)

lemma jinv_report: "jinv r \<Longrightarrow> jinv (report_with_bytes k p m b n r)"
  by (auto simp: report_with_bytes_def split: option.split dest: jinv_running intro!: jinv_emit)

lemma jinv_finish: "jinv r \<Longrightarrow> jinv (finish_apply k ok res err now r)"
  by (auto simp: finish_apply_def split: option.split dest: jinv_running intro!: jinv_emit)

lemma jinv_cancel: "jinv r \<Longrightarrow> jinv (snd (cancel_mark k now r))"
  by (auto simp: cancel_mark_def split: option.split dest: jinv_running intro!: jinv_emit)

text \<open>The other sections touch neither jobs nor events.\<close>

lemma jinv_frame:
  "jinv r \<Longrightarrow> rg_jobs r' = rg_jobs r \<Longrightarrow> rg_history r' = rg_history r \<Longrightarrow> rg_sent r' = rg_sent r \<Longrightarrow> jinv r'"
  by (simp add: jinv_def stream_ok_def history_ok_def events_of_def)

lemma jinv_retain_history: "jinv r \<Longrightarrow> jinv (retain_history live r)"
  by (auto simp: jinv_def retain_history_def stream_ok_def history_ok_def events_of_def hm_get_filter
      hm_wf_filter split: option.splits)

lemma jinv_prune:
  "jinv r \<Longrightarrow> jinv (r\<lparr>rg_jobs := filter (\<lambda>(_, j). keep_job age now j) (rg_jobs r)\<rparr>)"
  by (auto simp: jinv_def stream_ok_def history_ok_def events_of_def hm_get_filter hm_wf_filter
      keep_job_def is_terminal_def split: option.splits)

lemma jinv_start:
  assumes "jinv r" "fresh_id k r"
  shows "jinv (snd (start_insert k kind now r))"
proof -
  have e: "events_of k (r\<lparr>rg_jobs := filter (\<lambda>(_, j). keep_job (rg_prune_age r) now j) (rg_jobs r)\<rparr>) = []"
    using assms(2) by (auto simp: events_of_def fresh_id_def filter_empty_conv)
  show ?thesis
    unfolding start_insert_def Let_def snd_conv
    by (rule jinv_emit) (simp_all add: jinv_prune assms(1) new_job_def e)
qed

lemma jinv_run_jtask: "jinv r \<Longrightarrow> jinv (snd (run_jtask now t r))"
  by (cases t) (auto simp: run_jtask_def jinv_retain_history jinv_finish retain_tokens_def
      start_token_def cancel_fire_def split: option.split intro: jinv_frame)

lemma jact_inv: "jact a s = Some s' \<Longrightarrow> jinv (js_registry s) \<Longrightarrow> jinv (js_registry s')"
proof (induction a s rule: jact.induct)
  case (1 k kind now s)
  then show ?case using jinv_start [of "js_registry s" k kind now]
    by (auto split: if_splits prod.splits)
next
  case (3 k ok res err s)
  then show ?case by (auto simp: finish_drop_token_def intro: jinv_frame)
next
  case (4 k now s)
  then show ?case using jinv_cancel [of "js_registry s" k now] by (auto split: prod.splits)
next
  case (5 i now s)
  then show ?case using jinv_run_jtask [of "js_registry s" now "js_tasks s ! i"]
    by (auto split: prod.splits if_splits)
qed (auto simp: jinv_report)

lemma jinv_new: "jinv registry_new"
  by (simp add: jinv_def stream_ok_def history_ok_def registry_new_def events_of_def)

lemma jreachable_inv: "jreachable s \<Longrightarrow> jinv (js_registry s)"
  by (induction rule: jreachable.induct) (auto simp: jinv_new jact_inv)

section \<open>What a step adds to the events\<close>

definition grows :: "registry \<Rightarrow> registry \<Rightarrow> bool" where
  "grows r r' = (\<exists>new. rg_sent r' = rg_sent r @ new
     \<and> (\<forall>ev \<in> set new. events_of (je_job_id ev) r = []
          \<or> \<not> terminal_status (je_status (last (events_of (je_job_id ev) r)))))"

lemma grows_same: "rg_sent r' = rg_sent r \<Longrightarrow> grows r r'"
  by (simp add: grows_def)

lemma grows_emit:
  "jb_id j = k \<Longrightarrow> events_of k r = [] \<or> \<not> terminal_status (je_status (last (events_of k r)))
    \<Longrightarrow> rg_sent r0 = rg_sent r \<Longrightarrow> grows r (emit k j r0)"
  by (auto simp: grows_def)

lemma grows_report: "jinv r \<Longrightarrow> grows r (report_with_bytes k p m b n r)"
  by (auto simp: report_with_bytes_def grows_same split: option.split dest: jinv_running intro!: grows_emit)

lemma grows_finish: "jinv r \<Longrightarrow> grows r (finish_apply k ok res err now r)"
  by (auto simp: finish_apply_def grows_same split: option.split dest: jinv_running intro!: grows_emit)

lemma grows_cancel: "jinv r \<Longrightarrow> grows r (snd (cancel_mark k now r))"
  by (auto simp: cancel_mark_def grows_same split: option.split dest: jinv_running intro!: grows_emit)

lemma grows_start: "fresh_id k r \<Longrightarrow> grows r (snd (start_insert k kind now r))"
proof -
  assume "fresh_id k r"
  then have "events_of k r = []" by (auto simp: events_of_def fresh_id_def filter_empty_conv)
  then show ?thesis
    unfolding start_insert_def Let_def snd_conv by (intro grows_emit) (simp_all add: new_job_def)
qed

lemma grows_run_jtask: "jinv r \<Longrightarrow> grows r (snd (run_jtask now t r))"
  by (cases t) (auto simp: run_jtask_def retain_tokens_def retain_history_def start_token_def
      cancel_fire_def grows_finish split: option.split intro: grows_same)

lemma jact_grows:
  assumes "jact a s = Some s'" "jinv (js_registry s)"
  shows "grows (js_registry s) (js_registry s')"
proof (cases a)
  case (JStart k kind now)
  with assms show ?thesis using grows_start [of k "js_registry s" kind now]
    by (auto split: if_splits prod.splits)
next
  case (JFinish k ok res err)
  with assms show ?thesis by (auto simp: finish_drop_token_def intro: grows_same)
next
  case (JCancel k now)
  with assms show ?thesis using grows_cancel [of "js_registry s" k now] by (auto split: prod.splits)
next
  case (JRun i now)
  with assms show ?thesis using grows_run_jtask [of "js_registry s" now "js_tasks s ! i"]
    by (auto split: prod.splits if_splits)
qed (use assms in \<open>auto simp: grows_report\<close>)

lemma grows_final:
  "grows r r' \<Longrightarrow> events_of k r \<noteq> [] \<Longrightarrow> terminal_status (je_status (last (events_of k r)))
    \<Longrightarrow> events_of k r' = events_of k r"
proof -
  assume "grows r r'" "events_of k r \<noteq> []" "terminal_status (je_status (last (events_of k r)))"
  then obtain new where new: "rg_sent r' = rg_sent r @ new" "\<forall>ev \<in> set new. je_job_id ev \<noteq> k"
    unfolding grows_def by blast
  then show ?thesis by (auto simp: events_of_def filter_empty_conv)
qed

lemma run_jacts_sent:
  "run_jacts as s = Some s' \<Longrightarrow> jreachable s \<Longrightarrow>
    jreachable s' \<and> (\<exists>new. rg_sent (js_registry s') = rg_sent (js_registry s) @ new)"
proof (induction as arbitrary: s)
  case (Cons a as)
  then obtain s1 where a: "jact a s = Some s1" "run_jacts as s1 = Some s'"
    by (auto simp: bind_eq_Some_conv)
  from a(1) Cons.prems(2) have "grows (js_registry s) (js_registry s1)"
    by (intro jact_grows jreachable_inv)
  with Cons.IH [OF a(2) jreachable.step [OF Cons.prems(2) a(1)]] show ?case by (auto simp: grows_def)
qed simp

text \<open>
  C27. A job ends at most once, under every interleaving: of all events ever sent for it only
  the last can carry a terminal status, while the registry knows the job that event is the
  job's present state, and once it is terminal no step sends another event for it, whatever
  the runner still reports.
\<close>

theorem job_ends_once:
  assumes "jreachable s"
  shows "(\<forall>ev \<in> set (butlast (events_of k (js_registry s))). \<not> terminal_status (je_status ev))
    \<and> (\<forall>j. hm_get (rg_jobs (js_registry s)) k = Some j \<longrightarrow>
         events_of k (js_registry s) \<noteq> [] \<and> last (events_of k (js_registry s)) = to_event j)
    \<and> (events_of k (js_registry s) \<noteq> [] \<and> terminal_status (je_status (last (events_of k (js_registry s))))
         \<and> jact a s = Some s' \<longrightarrow> events_of k (js_registry s') = events_of k (js_registry s))"
proof -
  from jreachable_inv [OF assms] have "stream_ok (js_registry s) k" by (simp add: jinv_def)
  then show ?thesis
    using jact_grows [OF _ jreachable_inv [OF assms]] grows_final by (auto simp: stream_ok_def)
qed

section \<open>Streams\<close>

lemma until_terminal_last:
  "\<forall>ev \<in> set (butlast evs). \<not> is_terminal_event ev \<Longrightarrow>
    until_terminal evs = (evs, evs \<noteq> [] \<and> is_terminal_event (last evs))"
  by (induction evs) (auto split: if_splits)

lemma stream_job_all:
  assumes "suffix (h @ filter (\<lambda>ev. je_job_id ev = k) live) es"
    and "\<forall>ev \<in> set (butlast es). \<not> terminal_status (je_status ev)"
  shows "stream_job k h live = (h @ filter (\<lambda>ev. je_job_id ev = k) live,
    h @ filter (\<lambda>ev. je_job_id ev = k) live \<noteq> []
      \<and> is_terminal_event (last (h @ filter (\<lambda>ev. je_job_id ev = k) live)))"
proof -
  let ?l = "filter (\<lambda>ev. je_job_id ev = k) live"
  obtain p where es: "es = p @ h @ ?l" using assms(1) by (auto simp: suffix_def)
  have sub: "is_terminal_event ev \<Longrightarrow> terminal_status (je_status ev)" for ev
    by (auto simp: is_terminal_event_def terminal_status_def)
  have "\<forall>ev \<in> set (butlast ?l). \<not> is_terminal_event ev"
    using assms(2) sub unfolding es by (auto simp: butlast_append split: if_splits)
  moreover have "\<not> is_terminal_event (last h)" if "?l \<noteq> []" "h \<noteq> []"
    using assms(2) sub that last_in_set [OF that(2)] unfolding es by (fastforce simp: butlast_append)
  ultimately show ?thesis
    by (auto simp: stream_job_def until_terminal_last last_append split: if_splits)
qed

text \<open>
  A client that subscribes at any moment reads, however the registry moves on, a final part
  of the job's events, in order, none twice and none left out after its first; and its stream
  ends exactly when the last of them is \<open>succeeded\<close> or \<open>failed\<close>. The stream of a cancelled job
  therefore never ends.
\<close>

theorem client_stream_exact:
  assumes "jreachable s" "subscribe k (js_registry s) = Some (pos, h)" "run_jacts as s = Some s'"
  shows "\<exists>got. stream_job k h (drop pos (rg_sent (js_registry s'))) = (got, got \<noteq> []
      \<and> je_status (last got) \<in> {STATUS_SUCCEEDED, STATUS_FAILED})
    \<and> suffix got (events_of k (js_registry s'))
    \<and> got = h @ drop (length (events_of k (js_registry s))) (events_of k (js_registry s'))"
proof -
  let ?r = "js_registry s" and ?r' = "js_registry s'"
  from run_jacts_sent [OF assms(3,1)] obtain new where
    r': "jreachable s'" "rg_sent ?r' = rg_sent ?r @ new" by blast
  from jreachable_inv [OF assms(1)] assms(2) have h: "suffix h (events_of k ?r)" "pos = length (rg_sent ?r)"
    by (auto simp: subscribe_def jinv_def history_ok_def split: option.splits)
  have ev: "events_of k ?r' = events_of k ?r @ filter (\<lambda>ev. je_job_id ev = k) new"
    by (simp add: events_of_def r'(2))
  then have suf: "suffix (h @ filter (\<lambda>ev. je_job_id ev = k) new) (events_of k ?r')"
    using h(1) by (auto simp: suffix_def)
  from jreachable_inv [OF r'(1)] have "\<forall>ev \<in> set (butlast (events_of k ?r')). \<not> terminal_status (je_status ev)"
    by (simp add: jinv_def stream_ok_def)
  from stream_job_all [OF suf this] suf ev show ?thesis
    unfolding h(2) r'(2) by (simp add: is_terminal_event_def)
qed

section \<open>Serial starts\<close>

text \<open>While a start is between its critical sections no other start begins.\<close>

fun retaining :: "jtask \<Rightarrow> string list option" where
  "retaining (JRetainTokens _ live) = Some live"
| "retaining (JRetainHistory _ live) = Some live"
| "retaining _ = None"

definition serial_act :: "jaction \<Rightarrow> jobs_sys \<Rightarrow> bool" where
  "serial_act a s = (case a of
     JStart _ _ _ \<Rightarrow> list_all (\<lambda>t. retaining t = None) (js_tasks s) | _ \<Rightarrow> True)"

inductive sreachable :: "jobs_sys \<Rightarrow> bool" where
  new: "sreachable \<lparr>js_registry = registry_new, js_tasks = []\<rparr>"
| step: "sreachable s \<Longrightarrow> serial_act a s \<Longrightarrow> jact a s = Some s' \<Longrightarrow> sreachable s'"

definition full_history :: "registry \<Rightarrow> string \<Rightarrow> bool" where
  "full_history r k = (hm_get (rg_jobs r) k \<noteq> None \<longrightarrow> (\<exists>h. hm_get (rg_history r) k = Some h
     \<and> length h = min HISTORY_CAPACITY (length (events_of k r))))"

definition live_covers :: "jobs_sys \<Rightarrow> bool" where
  "live_covers s = (\<forall>t \<in> set (js_tasks s). \<forall>live. retaining t = Some live \<longrightarrow>
     (\<forall>k. hm_get (rg_jobs (js_registry s)) k \<noteq> None \<longrightarrow> k \<in> set live))"

lemma sreachable_jreachable: "sreachable s \<Longrightarrow> jreachable s"
  by (induction rule: sreachable.induct) (auto intro: jreachable.intros)

lemma full_history_emit:
  assumes "full_history r k'" "jb_id j = k" "k' = k \<Longrightarrow> hm_get (rg_jobs r) k \<noteq> None \<or> events_of k r = []"
    and "history_ok r k'" 
  shows "full_history (emit k j r) k'"
proof (cases "k' = k")
  case True
  consider "hm_get (rg_jobs r) k \<noteq> None" | "hm_get (rg_jobs r) k = None" "events_of k r = []"
    using assms(3) True by blast
  then show ?thesis
  proof cases
    case 1
    with assms(1) True obtain h where "hm_get (rg_history r) k = Some h"
      "length h = min HISTORY_CAPACITY (length (events_of k r))" by (auto simp: full_history_def)
    with True assms(2) show ?thesis
      by (auto simp: full_history_def history_emit events_of_emit Let_def HISTORY_CAPACITY_def)
  next
    case 2
    with assms(4) True have "hm_get (rg_history r) k = None \<or> hm_get (rg_history r) k = Some []"
      by (cases "hm_get (rg_history r) k") (auto simp: history_ok_def)
    with 2 True assms(2) show ?thesis
      by (auto simp: full_history_def history_emit events_of_emit Let_def HISTORY_CAPACITY_def)
  qed
qed (use assms in \<open>simp add: full_history_def history_emit events_of_emit\<close>)

lemma full_history_frame:
  "full_history r k \<Longrightarrow> rg_jobs r' = rg_jobs r \<Longrightarrow> rg_history r' = rg_history r \<Longrightarrow> rg_sent r' = rg_sent r
    \<Longrightarrow> full_history r' k"
  by (simp add: full_history_def events_of_def)

lemma full_history_known:
  assumes "full_history r k'" "jinv r" "hm_get (rg_jobs r) k = Some j0" "jb_id j = k"
  shows "full_history (emit k j r) k'"
  using assms by (intro full_history_emit) (auto simp: jinv_def)

lemma full_history_ops:
  assumes "full_history r k'" "jinv r"
  shows "full_history (report_with_bytes k p m b n r) k'"
    and "full_history (finish_apply k ok res err now r) k'"
    and "full_history (snd (cancel_mark k now r)) k'"
  using assms
  by (auto simp: report_with_bytes_def finish_apply_def cancel_mark_def split: option.split
      dest: jinv_running intro!: full_history_known)

lemma full_history_start:
  assumes "\<forall>k'. full_history r k'" "jinv r" "fresh_id k r"
  shows "full_history (snd (start_insert k kind now r)) k'"
proof -
  let ?r = "r\<lparr>rg_jobs := filter (\<lambda>(_, j). keep_job (rg_prune_age r) now j) (rg_jobs r)\<rparr>"
  have e: "events_of k ?r = []"
    using assms(3) by (auto simp: events_of_def fresh_id_def filter_empty_conv)
  have "full_history ?r k'" for k'
    using assms(1,2) by (auto simp: full_history_def jinv_def hm_get_filter events_of_def split: option.splits)
  moreover have "history_ok ?r k'" using jinv_prune [OF assms(2)] by (simp add: jinv_def)
  ultimately show ?thesis
    unfolding start_insert_def Let_def snd_conv by (intro full_history_emit) (simp_all add: new_job_def e)
qed

lemma full_history_retain:
  "full_history r k \<Longrightarrow> jinv r \<Longrightarrow> hm_get (rg_jobs r) k \<noteq> None \<longrightarrow> k \<in> set live \<Longrightarrow>
    full_history (retain_history live r) k"
  by (auto simp: full_history_def retain_history_def hm_get_filter jinv_def events_of_def)

text \<open>Only a start adds a job.\<close>

lemma jobs_dom:
  "hm_get (rg_jobs (report_with_bytes k p m b n r)) k' = None \<longleftrightarrow> hm_get (rg_jobs r) k' = None"
  "hm_get (rg_jobs (finish_apply k ok res err now r)) k' = None \<longleftrightarrow> hm_get (rg_jobs r) k' = None"
  "hm_get (rg_jobs (snd (cancel_mark k now r))) k' = None \<longleftrightarrow> hm_get (rg_jobs r) k' = None"
  by (auto simp: report_with_bytes_def finish_apply_def cancel_mark_def split: option.splits)

lemma run_jtask_dom: "hm_get (rg_jobs (snd (run_jtask now t r))) k = None \<longleftrightarrow> hm_get (rg_jobs r) k = None"
  by (cases t) (simp_all add: run_jtask_def retain_tokens_def retain_history_def start_token_def
      cancel_fire_def jobs_dom split: option.split)

lemma run_jtask_full:
  assumes "full_history r k" "jinv r"
    and "\<And>live. retaining t = Some live \<Longrightarrow> hm_get (rg_jobs r) k \<noteq> None \<longrightarrow> k \<in> set live"
  shows "full_history (snd (run_jtask now t r)) k"
  using assms
  by (cases t) (auto simp: run_jtask_def full_history_ops full_history_retain retain_tokens_def
      start_token_def cancel_fire_def split: option.split intro: full_history_frame)

lemma run_jtask_retaining:
  "t' \<in> set (fst (run_jtask now t r)) \<Longrightarrow> retaining t' = Some live \<Longrightarrow> retaining t = Some live"
  by (cases t) (auto simp: run_jtask_def)

lemma live_covers_same:
  "live_covers s \<Longrightarrow> (\<And>k. hm_get (rg_jobs (js_registry s')) k = None \<longleftrightarrow> hm_get (rg_jobs (js_registry s)) k = None)
    \<Longrightarrow> (\<And>t. t \<in> set (js_tasks s') \<Longrightarrow> t \<in> set (js_tasks s) \<or> retaining t = None) \<Longrightarrow> live_covers s'"
  unfolding live_covers_def by (metis option.distinct(1))

lemma serial_full:
  "sreachable s \<Longrightarrow> (\<forall>k. full_history (js_registry s) k) \<and> live_covers s"
proof (induction rule: sreachable.induct)
  case new
  then show ?case by (simp add: full_history_def live_covers_def registry_new_def)
next
  case (step s a s')
  then have inv: "jinv (js_registry s)" by (simp add: sreachable_jreachable jreachable_inv)
  show ?case
  proof (cases a)
    case (JStart k kind now)
    let ?r = "snd (start_insert k kind now (js_registry s))"
    from step.hyps JStart have f: "fresh_id k (js_registry s)"
      and s': "js_registry s' = ?r" "js_tasks s' = js_tasks s @ [JRetainTokens k (map fst (rg_jobs ?r))]"
      and none: "\<forall>t \<in> set (js_tasks s). retaining t = None"
      by (auto simp: serial_act_def start_insert_def Let_def list_all_iff split: if_splits)
    have "hm_get (rg_jobs ?r) k' \<noteq> None \<Longrightarrow> k' \<in> set (map fst (rg_jobs ?r))" for k'
      by (simp add: hm_get_def map_of_eq_None_iff)
    then show ?thesis
      using step.IH full_history_start [OF _ inv f] s' none by (auto simp: live_covers_def)
  next
    case (JFinish k ok res err)
    with step show ?thesis
      by (auto simp: finish_drop_token_def live_covers_def full_history_def events_of_def)
  next
    case (JCancel k now)
    obtain ok r where c: "cancel_mark k now (js_registry s) = (ok, r)" by fastforce
    with step.hyps(3) JCancel have e: "s' = \<lparr>js_registry = r,
        js_tasks = js_tasks s @ (if ok then [JCancelFire k] else [])\<rparr>" by simp
    from e c have s': "js_registry s' = snd (cancel_mark k now (js_registry s))" by simp
    have t: "t \<in> set (js_tasks s) \<or> retaining t = None" if "t \<in> set (js_tasks s')" for t
      using that e by (cases ok) auto
    have "live_covers s'"
    proof (rule live_covers_same [of s])
      show "live_covers s" using step.IH by blast
      show "hm_get (rg_jobs (js_registry s')) k' = None \<longleftrightarrow> hm_get (rg_jobs (js_registry s)) k' = None" for k'
        unfolding s' by (rule jobs_dom(3))
    qed (rule t)
    with step.IH s' full_history_ops(3) [OF _ inv] show ?thesis by simp
  next
    case (JRun i now)
    let ?t = "js_tasks s ! i"
    from step.hyps JRun have i: "i < length (js_tasks s)"
      and s': "js_registry s' = snd (run_jtask now ?t (js_registry s))"
        "js_tasks s' = take i (js_tasks s) @ drop (Suc i) (js_tasks s) @ fst (run_jtask now ?t (js_registry s))"
      by (auto split: if_splits prod.splits)
    have t: "?t \<in> set (js_tasks s)" using i by simp
    have cov: "retaining t = Some live \<Longrightarrow> t \<in> set (js_tasks s) \<Longrightarrow>
        hm_get (rg_jobs (js_registry s)) k \<noteq> None \<longrightarrow> k \<in> set live" for t live k
      using step.IH unfolding live_covers_def by blast
    have "\<forall>k. full_history (js_registry s') k"
      unfolding s'(1) using step.IH inv cov [OF _ t] by (blast intro: run_jtask_full)
    moreover have "live_covers s'"
      unfolding live_covers_def s' run_jtask_dom
    proof (intro ballI allI impI)
      fix t' live k
      assume "t' \<in> set (take i (js_tasks s) @ drop (Suc i) (js_tasks s) @ fst (run_jtask now ?t (js_registry s)))"
        "retaining t' = Some live" "hm_get (rg_jobs (js_registry s)) k \<noteq> None"
      then show "k \<in> set live"
        using cov [OF _ t, of live k] cov [of t' live k] run_jtask_retaining [of t' now ?t "js_registry s" live]
        by (auto dest: in_set_takeD in_set_dropD)
    qed
    ultimately show ?thesis ..
  next
    case (JReport k p m b n)
    from step.hyps JReport have s': "js_registry s' = report_with_bytes k p m b n (js_registry s)"
      "js_tasks s' = js_tasks s" by auto
    have "live_covers s'"
      by (rule live_covers_same [of s]) (use step.IH in \<open>simp_all add: s' jobs_dom(1)\<close>)
    with step.IH s' full_history_ops(1) [OF _ inv] show ?thesis by simp
  qed
qed

text \<open>
  When starts do not overlap, the history a client gets with its subscription is complete up
  to its capacity: it is exactly the newest 512 of all events sent for the job so far.
\<close>

theorem serial_history_complete:
  assumes "sreachable s" "subscribe k (js_registry s) = Some (pos, h)"
  shows "h = drop (length (events_of k (js_registry s)) - 512) (events_of k (js_registry s))"
proof -
  let ?es = "events_of k (js_registry s)"
  from assms(2) have "hm_get (rg_jobs (js_registry s)) k \<noteq> None" by (auto simp: subscribe_def split: option.splits)
  with serial_full [OF assms(1)] assms(2) have l: "hm_get (rg_history (js_registry s)) k = Some h"
    "length h = min 512 (length ?es)" by (auto simp: full_history_def subscribe_def HISTORY_CAPACITY_def)
  with jreachable_inv [OF sreachable_jreachable [OF assms(1)]] have "suffix h ?es"
    by (simp add: jinv_def history_ok_def)
  then obtain p where "?es = p @ h" by (auto simp: suffix_def)
  with l(2) show ?thesis by auto
qed

section \<open>Runs\<close>

abbreviation jobs_start :: jobs_sys where
  "jobs_start \<equiv> \<lparr>js_registry = registry_new, js_tasks = []\<rparr>"

lemma run_jreachable: "run_jacts as s = Some s' \<Longrightarrow> jreachable s \<Longrightarrow> jreachable s'"
  using run_jacts_sent by blast

text \<open>
  C1. Two starts that overlap lose a job's bookkeeping: the first start's clean-up runs with the
  list of jobs it saw before the second one was inserted, and removes the second job's history
  and its cancellation token. A later cancellation of that job reports success and yet no token
  is fired, so its runner goes on; and a client that subscribes to it misses its first event.
\<close>

definition overlap_trace :: "jaction list" where
  "overlap_trace = [JStart ''a'' ''pull'' 1, JStart ''b'' ''pull'' 1, JRun 1 1, JRun 1 1, JRun 1 1,
     JRun 0 1, JRun 0 1]"

theorem overlapping_starts_lose_token:
  "map_option (\<lambda>s. subscribe ''b'' (js_registry s)) (run_jacts overlap_trace jobs_start)
     = Some (Some (2, []))
   \<and> map_option (\<lambda>s. job_token ''b'' (js_registry s)) (run_jacts overlap_trace jobs_start) = Some None
   \<and> map_option (\<lambda>s. (map_option jb_status (hm_get (rg_jobs (js_registry s)) ''b''), rg_fired (js_registry s)))
       (run_jacts (overlap_trace @ [JCancel ''b'' 2, JRun 1 2]) jobs_start)
     = Some (Some STATUS_CANCELLED, [])"
  unfolding job_words by (intro conjI; code_simp)

definition pull_trace :: "jaction list" where
  "pull_trace = [JStart ''a'' ''pull'' 1, JRun 0 1, JRun 0 1, JRun 0 1, JReport ''a'' 50 ''half'' 5 10]"

lemma pull_started: "\<exists>s. run_jacts pull_trace jobs_start = Some s \<and> jreachable s
    \<and> map_option fst (subscribe ''a'' (js_registry s)) = Some 2"
proof -
  have "map_option (\<lambda>s. map_option fst (subscribe ''a'' (js_registry s))) (run_jacts pull_trace jobs_start)
      = Some (Some 2)" by code_simp
  then obtain s where "run_jacts pull_trace jobs_start = Some s"
    "map_option fst (subscribe ''a'' (js_registry s)) = Some 2" by auto
  with run_jreachable [OF _ jreachable.new] show ?thesis by blast
qed

theorem job_ends_once_witness:
  "\<exists>s s'. jreachable s \<and> jact (JCancel ''a'' 9) s = Some s'
    \<and> (\<forall>ev \<in> set (butlast (events_of ''a'' (js_registry s))). \<not> terminal_status (je_status ev))"
proof -
  from pull_started obtain s where s: "jreachable s" by blast
  obtain s' where "jact (JCancel ''a'' 9) s = Some s'"
    by (cases "cancel_mark ''a'' 9 (js_registry s)") simp
  with job_ends_once [OF s, of "''a''"] s show ?thesis by blast
qed

theorem client_stream_exact_witness:
  "\<exists>s s' pos h got. jreachable s \<and> subscribe ''a'' (js_registry s) = Some (pos, h)
    \<and> run_jacts [JCancel ''a'' 9] s = Some s'
    \<and> fst (stream_job ''a'' h (drop pos (rg_sent (js_registry s')))) = got
    \<and> suffix got (events_of ''a'' (js_registry s'))"
proof -
  from pull_started obtain s pos h where s: "jreachable s" "subscribe ''a'' (js_registry s) = Some (pos, h)"
    by fastforce
  obtain s' where r: "run_jacts [JCancel ''a'' 9] s = Some s'"
    by (cases "cancel_mark ''a'' 9 (js_registry s)") simp
  from client_stream_exact [OF s r] obtain got where
    "stream_job ''a'' h (drop pos (rg_sent (js_registry s'))) = (got, got \<noteq> []
      \<and> je_status (last got) \<in> {STATUS_SUCCEEDED, STATUS_FAILED})"
    "suffix got (events_of ''a'' (js_registry s'))" by blast
  with s r show ?thesis by fastforce
qed

lemma serial_started: "\<exists>s. sreachable s \<and> hm_get (rg_jobs (js_registry s)) ''a'' \<noteq> None"
proof -
  obtain s where s: "jact (JStart ''a'' ''pull'' 1) jobs_start = Some s"
    by (simp add: fresh_id_def registry_new_def start_insert_def Let_def)
  have "sreachable s" by (rule sreachable.step [OF sreachable.new _ s]) (simp add: serial_act_def)
  moreover have "hm_get (rg_jobs (js_registry s)) ''a'' \<noteq> None"
    using s by (auto simp: fresh_id_def registry_new_def start_insert_def Let_def split: if_splits)
  ultimately show ?thesis by blast
qed

theorem serial_history_complete_witness:
  "\<exists>s pos h. sreachable s \<and> subscribe ''a'' (js_registry s) = Some (pos, h)
    \<and> h = drop (length (events_of ''a'' (js_registry s)) - 512) (events_of ''a'' (js_registry s))"
proof -
  from serial_started obtain s where s: "sreachable s" "hm_get (rg_jobs (js_registry s)) ''a'' \<noteq> None"
    by blast
  then obtain pos h where sub: "subscribe ''a'' (js_registry s) = Some (pos, h)"
    by (auto simp: subscribe_def)
  from serial_history_complete [OF s(1) sub] s(1) sub show ?thesis by blast
qed

end
