(* ===== verification/ApiKeys.thy ===== *)
theory ApiKeys
  imports Prelude "HOL-Library.Product_Lexorder" "HOL-Library.List_Lexorder" "HOL-Library.Char_ord"
begin

text \<open>
  API keys: \<open>tama-core/src/proxy/api_keys.rs\<close> and the four handlers of
  \<open>proxy/tama_handlers/api_keys.rs\<close>. The table \<open>api_keys\<close> is a list of rows in insertion order,
  the flag of \<open>app_proxy\<close> a boolean; a transaction that fails leaves both as they were. The
  digest, the JSON form of the scopes column and the RFC 3339 parser are the parameter record
  \<open>key_ops\<close>; \<open>db n\<close> says whether the n-th query of a request succeeds; clocks are seconds, and
  the database's clock is the proxy's.
\<close>

section \<open>Data\<close>

datatype scope = Inference | ManagementRead | ManagementWrite

datatype auth_subject = User string | Key int "scope list"

record key_ops =
  ko_hash :: "string \<Rightarrow> string"
  ko_write :: "scope list \<Rightarrow> string"
  ko_read :: "string \<Rightarrow> scope list option"
  ko_time :: "string \<Rightarrow> int option"

record key_row =
  kr_id :: int
  kr_name :: string
  kr_key_prefix :: string
  kr_key_hash :: string
  kr_scopes :: string
  kr_created_by :: string
  kr_created_at :: int
  kr_last_used_at :: "int option"
  kr_revoked_at :: "int option"
  kr_expires_at :: "int option"

record api_key_record =
  ak_id :: int
  ak_name :: string
  ak_key_prefix :: string
  ak_scopes :: "scope list"
  ak_created_by :: string
  ak_created_at :: int
  ak_last_used_at :: "int option"
  ak_revoked_at :: "int option"
  ak_expires_at :: "int option"

record key_db =
  kd_rows :: "key_row list"
  kd_next_id :: int
  kd_enabled :: bool

datatype key_error = DbError | EmptyScopes | BadExpiry | KeyNotFound

section \<open>Keys\<close>

definition generate_key :: "string \<Rightarrow> string" where
  "generate_key random_part = ''tama_'' @ random_part"

definition extract_prefix :: "string \<Rightarrow> string" where
  "extract_prefix key = ''tama_'' @ take 8
     (case strip_prefix ''tama_'' key of Some r \<Rightarrow> r | None \<Rightarrow> key)"

definition parse_scopes :: "key_ops \<Rightarrow> string \<Rightarrow> scope list" where
  "parse_scopes K s = (case ko_read K s of Some xs \<Rightarrow> xs | None \<Rightarrow> [])"

definition record_of_row :: "key_ops \<Rightarrow> key_row \<Rightarrow> api_key_record" where
  "record_of_row K r = \<lparr>ak_id = kr_id r, ak_name = kr_name r, ak_key_prefix = kr_key_prefix r,
     ak_scopes = parse_scopes K (kr_scopes r), ak_created_by = kr_created_by r,
     ak_created_at = kr_created_at r, ak_last_used_at = kr_last_used_at r,
     ak_revoked_at = kr_revoked_at r, ak_expires_at = kr_expires_at r\<rparr>"

section \<open>The store\<close>

definition map_row :: "int \<Rightarrow> (key_row \<Rightarrow> key_row) \<Rightarrow> key_row list \<Rightarrow> key_row list" where
  "map_row k f rows = map (\<lambda>r. if kr_id r = k then f r else r) rows"

definition find_row :: "int \<Rightarrow> key_row list \<Rightarrow> key_row option" where
  "find_row k rows = List.find (\<lambda>r. kr_id r = k) rows"

definition validate_key ::
  "key_ops \<Rightarrow> (nat \<Rightarrow> bool) \<Rightarrow> int \<Rightarrow> string \<Rightarrow> key_db
     \<Rightarrow> (key_error + (int \<times> scope list) option) \<times> key_db" where
  "validate_key K db now raw_key d =
     (if \<not> db 0 then (Inl DbError, d)
      else (case List.find (\<lambda>r. kr_key_hash r = ko_hash K raw_key) (kd_rows d) of
          None \<Rightarrow> (Inr None, d)
        | Some r \<Rightarrow>
            if kr_revoked_at r \<noteq> None then (Inr None, d)
            else if (case kr_expires_at r of Some e \<Rightarrow> now \<ge> e | None \<Rightarrow> False) then (Inr None, d)
            else if \<not> db 1 then (Inl DbError, d)
            else (Inr (Some (kr_id r, parse_scopes K (kr_scopes r))),
                  d\<lparr>kd_rows := map_row (kr_id r) (\<lambda>x. x\<lparr>kr_last_used_at := Some now\<rparr>) (kd_rows d)\<rparr>)))"

definition validate_scopes :: "scope list \<Rightarrow> key_error + unit" where
  "validate_scopes scopes = (if scopes = [] then Inl EmptyScopes else Inr ())"

definition create_key ::
  "key_ops \<Rightarrow> (nat \<Rightarrow> bool) \<Rightarrow> int \<Rightarrow> string \<Rightarrow> string \<Rightarrow> scope list \<Rightarrow> string \<Rightarrow> string option \<Rightarrow> key_db
     \<Rightarrow> (key_error + int) \<times> key_db" where
  "create_key K db now name raw_key scopes created_by expires_at d =
     (case validate_scopes scopes of
        Inl e \<Rightarrow> (Inl e, d)
      | Inr _ \<Rightarrow>
          (case (case expires_at of None \<Rightarrow> Some None | Some s \<Rightarrow> map_option Some (ko_time K s)) of
             None \<Rightarrow> (Inl BadExpiry, d)
           | Some expiry \<Rightarrow>
               let h = ko_hash K raw_key; k = kd_next_id d in
               if \<not> db 2 \<or> h \<in> kr_key_hash ` set (kd_rows d) then (Inl DbError, d)
               else (Inr k, \<lparr>kd_rows = kd_rows d @ [\<lparr>kr_id = k, kr_name = name,
                        kr_key_prefix = extract_prefix raw_key, kr_key_hash = h,
                        kr_scopes = ko_write K scopes, kr_created_by = created_by,
                        kr_created_at = now, kr_last_used_at = None, kr_revoked_at = None,
                        kr_expires_at = expiry\<rparr>],
                      kd_next_id = k + 1, kd_enabled = True\<rparr>)))"

definition list_keys :: "key_ops \<Rightarrow> (nat \<Rightarrow> bool) \<Rightarrow> key_db \<Rightarrow> key_error + api_key_record list" where
  "list_keys K db d =
     (if \<not> db 3 then Inl DbError
      else Inr (map (record_of_row K) (rev (sort_key (\<lambda>r. (kr_created_at r, kr_id r)) (kd_rows d)))))"

definition row_active :: "int \<Rightarrow> key_row \<Rightarrow> bool" where
  "row_active now r = (kr_revoked_at r = None
     \<and> (case kr_expires_at r of None \<Rightarrow> True | Some e \<Rightarrow> e > now))"

definition revoke_key :: "(nat \<Rightarrow> bool) \<Rightarrow> int \<Rightarrow> int \<Rightarrow> key_db \<Rightarrow> (key_error + bool) \<times> key_db" where
  "revoke_key db now k d =
     (if \<not> db 4 then (Inl DbError, d)
      else
        let rows = map_row k (\<lambda>r. r\<lparr>kr_revoked_at := Some now\<rparr>) (kd_rows d);
            enabled = (length (filter (row_active now) rows) > 0)
        in (Inr enabled, d\<lparr>kd_rows := rows, kd_enabled := enabled\<rparr>))"

definition get_key :: "key_ops \<Rightarrow> (nat \<Rightarrow> bool) \<Rightarrow> int \<Rightarrow> key_db \<Rightarrow> key_error + api_key_record option" where
  "get_key K db k d =
     (if \<not> db 5 then Inl DbError else Inr (map_option (record_of_row K) (find_row k (kd_rows d))))"

definition update_key_scopes ::
  "key_ops \<Rightarrow> (nat \<Rightarrow> bool) \<Rightarrow> int \<Rightarrow> scope list \<Rightarrow> key_db \<Rightarrow> (key_error + api_key_record) \<times> key_db" where
  "update_key_scopes K db k scopes d =
     (case validate_scopes scopes of
        Inl e \<Rightarrow> (Inl e, d)
      | Inr _ \<Rightarrow>
          if \<not> db 6 then (Inl DbError, d)
          else
            let rows = map_row k (\<lambda>r. r\<lparr>kr_scopes := ko_write K scopes\<rparr>) (kd_rows d)
            in (case find_row k rows of
                  None \<Rightarrow> (Inl KeyNotFound, d)
                | Some r \<Rightarrow> (Inr (record_of_row K r), d\<lparr>kd_rows := rows\<rparr>)))"

section \<open>Handlers\<close>

definition created_by :: "auth_subject \<Rightarrow> string" where
  "created_by subject = (case subject of
     User username \<Rightarrow> username
   | Key key_id _ \<Rightarrow> ''key:'' @ (if key_id < 0 then CHR ''-'' # show_nat (nat (- key_id)) else show_nat (nat key_id)))"

fun scopes_are_subset :: "scope list \<Rightarrow> scope list \<Rightarrow> bool" where
  "scopes_are_subset [] caller = True"
| "scopes_are_subset (s # granted) caller =
     (if \<not> (case s of
              Inference \<Rightarrow> Inference \<in> set caller
            | ManagementRead \<Rightarrow> ManagementRead \<in> set caller \<or> ManagementWrite \<in> set caller
            | ManagementWrite \<Rightarrow> ManagementWrite \<in> set caller)
      then False else scopes_are_subset granted caller)"

definition may_grant :: "auth_subject \<Rightarrow> scope list \<Rightarrow> bool" where
  "may_grant subject scopes = (case subject of
     Key _ caller \<Rightarrow> scopes_are_subset scopes caller | User _ \<Rightarrow> True)"

record key_service =
  ks_db :: key_db
  ks_enabled :: bool

record create_request =
  cr_name :: string
  cr_scopes :: "scope list"
  cr_expires_at :: "string option"

datatype key_response = KeyStatus nat | KeyCreated int string

definition handle_create ::
  "key_ops \<Rightarrow> (nat \<Rightarrow> bool) \<Rightarrow> int \<Rightarrow> string \<Rightarrow> auth_subject \<Rightarrow> create_request \<Rightarrow> key_service
     \<Rightarrow> key_response \<times> key_service" where
  "handle_create K db now rnd subject body s =
     (if cr_scopes body = [] then (KeyStatus 400, s)
      else if \<not> may_grant subject (cr_scopes body) then (KeyStatus 403, s)
      else if (case cr_expires_at body of Some e \<Rightarrow> ko_time K e = None | None \<Rightarrow> False)
      then (KeyStatus 400, s)
      else
        let raw_key = generate_key rnd in
        (case create_key K db now (cr_name body) raw_key (cr_scopes body) (created_by subject)
                (cr_expires_at body) (ks_db s) of
           (Inl _, d) \<Rightarrow> (KeyStatus 500, s\<lparr>ks_db := d\<rparr>)
         | (Inr key_id, d) \<Rightarrow> (KeyCreated key_id raw_key, \<lparr>ks_db = d, ks_enabled = True\<rparr>)))"

definition handle_update ::
  "key_ops \<Rightarrow> (nat \<Rightarrow> bool) \<Rightarrow> string \<Rightarrow> auth_subject \<Rightarrow> scope list \<Rightarrow> key_service
     \<Rightarrow> key_response \<times> key_service" where
  "handle_update K db key_id_str subject scopes s = (case parse_i64 key_id_str of
       None \<Rightarrow> (KeyStatus 400, s)
     | Some k \<Rightarrow>
         if scopes = [] then (KeyStatus 400, s)
         else if \<not> may_grant subject scopes then (KeyStatus 403, s)
         else (case get_key K db k (ks_db s) of
             Inl _ \<Rightarrow> (KeyStatus 500, s)
           | Inr None \<Rightarrow> (KeyStatus 404, s)
           | Inr (Some rec) \<Rightarrow>
               if ak_revoked_at rec \<noteq> None then (KeyStatus 404, s)
               else (case update_key_scopes K db k scopes (ks_db s) of
                   (Inl _, d) \<Rightarrow> (KeyStatus 500, s\<lparr>ks_db := d\<rparr>)
                 | (Inr _, d) \<Rightarrow> (KeyStatus 200, s\<lparr>ks_db := d\<rparr>))))"

definition handle_revoke ::
  "key_ops \<Rightarrow> (nat \<Rightarrow> bool) \<Rightarrow> int \<Rightarrow> string \<Rightarrow> key_service \<Rightarrow> key_response \<times> key_service" where
  "handle_revoke K db now key_id_str s = (case parse_i64 key_id_str of
       None \<Rightarrow> (KeyStatus 400, s)
     | Some k \<Rightarrow> (case get_key K db k (ks_db s) of
           Inl _ \<Rightarrow> (KeyStatus 500, s)
         | Inr None \<Rightarrow> (KeyStatus 404, s)
         | Inr (Some rec) \<Rightarrow>
             if ak_revoked_at rec \<noteq> None then (KeyStatus 204, s)
             else (case revoke_key db now k (ks_db s) of
                 (Inl _, d) \<Rightarrow> (KeyStatus 500, s\<lparr>ks_db := d\<rparr>)
               | (Inr enabled, d) \<Rightarrow> (KeyStatus 204, \<lparr>ks_db = d, ks_enabled = enabled\<rparr>))))"

definition handle_list :: "key_ops \<Rightarrow> (nat \<Rightarrow> bool) \<Rightarrow> key_service \<Rightarrow> nat \<times> api_key_record list" where
  "handle_list K db s = (case list_keys K db (ks_db s) of Inl _ \<Rightarrow> (500, []) | Inr ks \<Rightarrow> (200, ks))"

end
