(* ===== verification/Auth.thy ===== *)
theory Auth
  imports ApiKeys Paths
begin

text \<open>
  Who may call the proxy: the authentication middleware (\<open>proxy/auth/middleware.rs\<close>,
  \<open>session.rs\<close>), the scope check (\<open>proxy/scope_middleware.rs\<close>), and both composed with the key
  handlers the way \<open>server/router.rs\<close> layers them. The cookie jar's signature check, the
  session's JSON and the identity provider's answer are the parameter record \<open>auth_ops\<close>. A
  header is present as text or absent; a header that is not visible ASCII counts as absent.
\<close>

section \<open>Data\<close>

record session_claims =
  sc_sub :: string
  sc_username :: string
  sc_email :: "string option"
  sc_iat :: int
  sc_exp :: int

text \<open>The provider's answer: a success with or without a readable user, a status, no answer.\<close>

datatype me_response = MeOk "string option" | MeStatus nat | MeUnreachable

record auth_ops =
  ao_verify :: "string \<Rightarrow> string option"
  ao_claims :: "string \<Rightarrow> session_claims option"
  ao_me :: "string \<Rightarrow> string \<Rightarrow> me_response"

datatype http_method = GET | HEAD | POST | PUT | PATCH | DELETE | OPTIONS | OtherMethod string

datatype request_body = NoBody | CreateBody create_request | ScopesBody "scope list"

record request =
  rq_method :: http_method
  rq_path :: string
  rq_cookie :: "string option"
  rq_authorization :: "string option"
  rq_authentik_username :: "string option"
  rq_accept :: "string option"
  rq_body :: request_body

record auth_config =
  ac_url :: "string option"
  ac_skip_paths :: "string list"
  ac_oauth2 :: bool

datatype unauthorized = KeysDisabled | InvalidKey | Unauthenticated
datatype gate = Through "auth_subject option" | Reject unauthorized | ToLogin

section \<open>Sessions and tokens\<close>

definition SESSION_COOKIE_NAME :: string where
  "SESSION_COOKIE_NAME = ''tama_session''"

definition session_valid :: "int \<Rightarrow> session_claims \<Rightarrow> bool" where
  "session_valid now c = (now < sc_exp c)"

definition cookie_value :: "string \<Rightarrow> string \<Rightarrow> string option" where
  "cookie_value name raw =
     Option.bind (List.find (\<lambda>p. starts_with p (name @ ''='')) (map trim_ws (split_char CHR '';'' raw)))
       (strip_prefix (name @ ''=''))"

definition extract_session :: "auth_ops \<Rightarrow> int \<Rightarrow> request \<Rightarrow> session_claims option" where
  "extract_session A now req = (case rq_cookie req of
       None \<Rightarrow> None
     | Some raw \<Rightarrow> (case cookie_value SESSION_COOKIE_NAME raw of
           None \<Rightarrow> None
         | Some v \<Rightarrow> (case Option.bind (ao_verify A v) (ao_claims A) of
               Some c \<Rightarrow> if session_valid now c then Some c else None
             | None \<Rightarrow> None)))"

definition extract_bearer_token :: "request \<Rightarrow> string option" where
  "extract_bearer_token req = Option.bind (rq_authorization req) (strip_prefix ''Bearer '')"

definition validate_token_against_authentik :: "auth_ops \<Rightarrow> string \<Rightarrow> string \<Rightarrow> string option" where
  "validate_token_against_authentik A url tok =
     (case ao_me A (url @ ''/api/v3/core/users/me/'') tok of
        MeOk (Some username) \<Rightarrow> Some username
      | MeOk None \<Rightarrow> None
      | MeStatus _ \<Rightarrow> None
      | MeUnreachable \<Rightarrow> Some ''unknown'')"

section \<open>The middlewares\<close>

definition auth_configured :: "auth_config \<Rightarrow> key_service \<Rightarrow> bool" where
  "auth_configured c s = ((case ac_url c of Some u \<Rightarrow> u \<noteq> [] | None \<Rightarrow> False)
     \<or> ac_oauth2 c \<or> ks_enabled s)"

definition LOGIN_SKIP_PATHS :: "string list" where
  "LOGIN_SKIP_PATHS = [''/login'', ''/login/callback'', ''/login/error'']"

definition skips_auth :: "auth_config \<Rightarrow> string \<Rightarrow> bool" where
  "skips_auth c path = (list_ex (starts_with path) LOGIN_SKIP_PATHS
     \<or> list_ex (starts_with path) (ac_skip_paths c))"

definition accepts_html :: "request \<Rightarrow> bool" where
  "accepts_html req = (case rq_accept req of Some v \<Rightarrow> contains_str v ''text/html'' | None \<Rightarrow> False)"

definition auth_middleware ::
  "auth_ops \<Rightarrow> key_ops \<Rightarrow> (nat \<Rightarrow> bool) \<Rightarrow> int \<Rightarrow> auth_config \<Rightarrow> request \<Rightarrow> key_service \<Rightarrow> gate \<times> key_service" where
  "auth_middleware A K db now c req s =
     (if \<not> auth_configured c s then (Through None, s)
      else if skips_auth c (rq_path req) then (Through None, s)
      else (case extract_session A now req of
          Some claims \<Rightarrow> (Through (Some (User (sc_username claims))), s)
        | None \<Rightarrow> (case extract_bearer_token req of
              Some tok \<Rightarrow>
                if starts_with tok ''tama_'' then
                  (if \<not> ks_enabled s then (Reject KeysDisabled, s)
                   else (case validate_key K db now tok (ks_db s) of
                       (Inr (Some (key_id, scopes)), d) \<Rightarrow> (Through (Some (Key key_id scopes)), s\<lparr>ks_db := d\<rparr>)
                     | (Inr None, d) \<Rightarrow> (Reject InvalidKey, s\<lparr>ks_db := d\<rparr>)
                     | (Inl _, d) \<Rightarrow> (Reject Unauthenticated, s\<lparr>ks_db := d\<rparr>)))
                else (case validate_token_against_authentik A (case ac_url c of Some u \<Rightarrow> u | None \<Rightarrow> []) tok of
                    Some username \<Rightarrow> (Through (Some (User username)), s)
                  | None \<Rightarrow> (Reject Unauthenticated, s))
            | None \<Rightarrow> (case rq_authentik_username req of
                  Some username \<Rightarrow> (Through (Some (User username)), s)
                | None \<Rightarrow> if accepts_html req \<and> ac_oauth2 c then (ToLogin, s)
                          else (Reject Unauthenticated, s)))))"

definition required_scope :: "string \<Rightarrow> http_method \<Rightarrow> scope option" where
  "required_scope path method =
     (if starts_with path ''/v1/'' \<or> path = ''/v1'' then Some Inference
      else if path = ''/model/info'' then Some Inference
      else if starts_with path ''/tama/v1/'' then
        Some (if method \<in> {POST, PUT, PATCH, DELETE} then ManagementWrite else ManagementRead)
      else None)"

definition has_scope :: "scope \<Rightarrow> scope list \<Rightarrow> bool" where
  "has_scope required scopes = (case required of
       Inference \<Rightarrow> Inference \<in> set scopes
     | ManagementRead \<Rightarrow> ManagementRead \<in> set scopes \<or> ManagementWrite \<in> set scopes
     | ManagementWrite \<Rightarrow> ManagementWrite \<in> set scopes)"

text \<open>\<open>None\<close> lets the request on; otherwise it is a 403 naming the scope that is missing.\<close>

definition scope_middleware :: "auth_subject option \<Rightarrow> request \<Rightarrow> scope option" where
  "scope_middleware subject req = (case subject of
       None \<Rightarrow> None
     | Some (User _) \<Rightarrow> None
     | Some (Key _ scopes) \<Rightarrow>
         (case required_scope (rq_path req) (rq_method req) of
            None \<Rightarrow> None
          | Some required \<Rightarrow> if has_scope required scopes then None else Some required))"

section \<open>The composed service\<close>

text \<open>
  What reaches a handler. The key routes run here; every other path is \<open>Passed\<close> on with the
  subject. The \<open>Extension\<close> extractor answers 500 when there is no subject, the body extractor
  422 when the body does not fit.
\<close>

datatype answer = Answered key_response | Passed "auth_subject option" | Unauthorized unauthorized
  | LoginRedirect | Forbidden scope

definition key_id_of_path :: "string \<Rightarrow> string option" where
  "key_id_of_path path = (case strip_prefix ''/tama/v1/keys/'' path of
       Some r \<Rightarrow> if r \<noteq> [] \<and> CHR ''/'' \<notin> set r then Some r else None | None \<Rightarrow> None)"

definition dispatch ::
  "key_ops \<Rightarrow> (nat \<Rightarrow> bool) \<Rightarrow> int \<Rightarrow> string \<Rightarrow> auth_subject option \<Rightarrow> request \<Rightarrow> key_service \<Rightarrow> answer \<times> key_service" where
  "dispatch K db now rnd subject req s =
     (if rq_path req = ''/tama/v1/keys'' \<and> rq_method req = POST then
        (case (subject, rq_body req) of
           (None, _) \<Rightarrow> (Answered (KeyStatus 500), s)
         | (Some sub, CreateBody b) \<Rightarrow> (case handle_create K db now rnd sub b s of (r, s') \<Rightarrow> (Answered r, s'))
         | _ \<Rightarrow> (Answered (KeyStatus 422), s))
      else (case key_id_of_path (rq_path req) of
          None \<Rightarrow> (Passed subject, s)
        | Some k \<Rightarrow>
            if rq_method req = PATCH then
              (case (subject, rq_body req) of
                 (None, _) \<Rightarrow> (Answered (KeyStatus 500), s)
               | (Some sub, ScopesBody b) \<Rightarrow> (case handle_update K db k sub b s of (r, s') \<Rightarrow> (Answered r, s'))
               | _ \<Rightarrow> (Answered (KeyStatus 422), s))
            else if rq_method req = DELETE then
              (case handle_revoke K db now k s of (r, s') \<Rightarrow> (Answered r, s'))
            else (Passed subject, s)))"

definition serve ::
  "auth_ops \<Rightarrow> key_ops \<Rightarrow> auth_config \<Rightarrow> (nat \<Rightarrow> bool) \<Rightarrow> int \<Rightarrow> string \<Rightarrow> request \<Rightarrow> key_service \<Rightarrow> answer \<times> key_service" where
  "serve A K c db now rnd req s = (case auth_middleware A K db now c req s of
       (Through subject, s1) \<Rightarrow>
         (case scope_middleware subject req of
            Some required \<Rightarrow> (Forbidden required, s1)
          | None \<Rightarrow> dispatch K db now rnd subject req s1)
     | (Reject u, s1) \<Rightarrow> (Unauthorized u, s1)
     | (ToLogin, s1) \<Rightarrow> (LoginRedirect, s1))"

end
