(* ===== verification/AuthFacts.thy ===== *)
theory AuthFacts
  imports Auth
begin

text \<open>
  What the gate of \<open>Auth\<close> guarantees: which subjects get through and with which rights, that
  keys cannot extend their own rights, that a revoked key stays out, and two ways in which a
  deployment protected by keys alone is open.
\<close>

section \<open>Subjects\<close>

lemma validate_key_Some:
  "validate_key K db now tok d = (Inr (Some (k, sc)), d') \<Longrightarrow>
    \<exists>r \<in> set (kd_rows d). kr_id r = k \<and> kr_key_hash r = ko_hash K tok \<and> row_active now r
      \<and> sc = parse_scopes K (kr_scopes r)"
  by (auto simp: validate_key_def row_active_def find_Some_iff split: if_splits option.splits)

lemma gate_cases:
  assumes "auth_middleware A K db now c req s = (g, s')"
  obtains (open_mode) "g = Through None" "s' = s" "\<not> auth_configured c s \<or> skips_auth c (rq_path req)"
  | (session) cl where "g = Through (Some (User (sc_username cl)))" "s' = s" "extract_session A now req = Some cl"
  | (key) tok k sc where "g = Through (Some (Key k sc))" "extract_bearer_token req = Some tok"
      "starts_with tok ''tama_''" "ks_enabled s"
      "validate_key K db now tok (ks_db s) = (Inr (Some (k, sc)), ks_db s')" "ks_enabled s' = ks_enabled s"
  | (token) tok u where "g = Through (Some (User u))" "s' = s" "extract_bearer_token req = Some tok"
      "\<not> starts_with tok ''tama_''"
      "validate_token_against_authentik A (case ac_url c of Some u \<Rightarrow> u | None \<Rightarrow> []) tok = Some u"
  | (header) u where "g = Through (Some (User u))" "s' = s" "rq_authentik_username req = Some u"
      "extract_bearer_token req = None"
  | (out) "(\<forall>x. g \<noteq> Through x)" "kd_rows (ks_db s') = kd_rows (ks_db s)" "ks_enabled s' = ks_enabled s"
      "ks_db s' = ks_db s"
  using assms
  by (auto simp: auth_middleware_def validate_key_def split: if_splits option.splits sum.splits prod.splits)

definition key_admits :: "key_ops \<Rightarrow> int \<Rightarrow> string \<Rightarrow> key_service \<Rightarrow> int \<Rightarrow> scope list \<Rightarrow> bool" where
  "key_admits K now tok s k sc = (ks_enabled s \<and> (\<exists>r \<in> set (kd_rows (ks_db s)).
     kr_id r = k \<and> kr_key_hash r = ko_hash K tok \<and> row_active now r \<and> sc = parse_scopes K (kr_scopes r)))"

text \<open>
  C28. The gate is sound: a request goes on without a subject only when no authentication is
  configured or its path is skipped; as a key only with the bearer token of a row that is
  neither revoked nor expired and with exactly that row's scopes; as a user only with a valid
  session, a token the provider accepted or could not be asked about, or the forwarded header.
  And a key that reaches a key handler or is passed on has the scope its path and method need.
\<close>

theorem gate_sound:
  assumes "serve A K c db now rnd req s = (ans, s')"
  shows "(fst (auth_middleware A K db now c req s) = Through None \<longrightarrow>
        \<not> auth_configured c s \<or> skips_auth c (rq_path req))
    \<and> (\<forall>k sc. fst (auth_middleware A K db now c req s) = Through (Some (Key k sc)) \<longrightarrow>
        (\<exists>tok. extract_bearer_token req = Some tok \<and> starts_with tok ''tama_'' \<and> key_admits K now tok s k sc)
        \<and> (ans = Passed (Some (Key k sc)) \<or> (\<exists>r. ans = Answered r) \<longrightarrow>
             (\<forall>q. required_scope (rq_path req) (rq_method req) = Some q \<longrightarrow> has_scope q sc)))
    \<and> (\<forall>u. fst (auth_middleware A K db now c req s) = Through (Some (User u)) \<longrightarrow>
        (\<exists>cl. extract_session A now req = Some cl \<and> sc_username cl = u)
        \<or> (\<exists>tok. extract_bearer_token req = Some tok \<and>
             (ao_me A ((case ac_url c of Some v \<Rightarrow> v | None \<Rightarrow> []) @ ''/api/v3/core/users/me/'') tok
                \<in> {MeOk (Some u), MeUnreachable}))
        \<or> rq_authentik_username req = Some u)"
proof -
  obtain g s1 where g: "auth_middleware A K db now c req s = (g, s1)" by fastforce
  from g show ?thesis
  proof (cases rule: gate_cases)
    case (key tok k sc)
    from validate_key_Some [OF key(5)] key(4) have "key_admits K now tok s k sc"
      by (simp add: key_admits_def)
    with key g assms show ?thesis
      by (auto simp: serve_def scope_middleware_def split: option.splits if_splits)
  next
    case (token tok u)
    with g show ?thesis
      by (auto simp: validate_token_against_authentik_def split: me_response.splits option.splits)
  qed (use g in auto)
qed

section \<open>Keys cannot extend their rights\<close>

definition scopes_lossless :: "key_ops \<Rightarrow> bool" where
  "scopes_lossless K = (\<forall>xs. ko_read K (ko_write K xs) = Some xs)"

lemma parse_written: "scopes_lossless K \<Longrightarrow> parse_scopes K (ko_write K xs) = xs"
  by (simp add: parse_scopes_def scopes_lossless_def)

text \<open>The scopes some active key carries.\<close>

definition held :: "key_ops \<Rightarrow> int \<Rightarrow> key_db \<Rightarrow> scope \<Rightarrow> bool" where
  "held K now d q = (\<exists>r \<in> set (kd_rows d). row_active now r \<and> has_scope q (parse_scopes K (kr_scopes r)))"

lemma scopes_are_subset_iff: "scopes_are_subset granted caller \<longleftrightarrow> (\<forall>q \<in> set granted. has_scope q caller)"
  by (induction granted) (auto simp: has_scope_def split: scope.splits)

lemma subset_has_scope: "scopes_are_subset granted caller \<Longrightarrow> has_scope q granted \<Longrightarrow> has_scope q caller"
  by (auto simp: scopes_are_subset_iff has_scope_def split: scope.splits)

lemma row_active_later: "row_active t' r \<Longrightarrow> t \<le> t' \<Longrightarrow> row_active t r"
  by (auto simp: row_active_def split: option.splits)

lemma held_later: "held K t' d q \<Longrightarrow> t \<le> t' \<Longrightarrow> held K t d q"
  by (auto simp: held_def intro: row_active_later)

lemma held_map_row:
  "held K now (d\<lparr>kd_rows := map_row k f (kd_rows d)\<rparr>) q \<Longrightarrow>
    (\<And>r. row_active now (f r) \<Longrightarrow> has_scope q (parse_scopes K (kr_scopes (f r))) \<Longrightarrow>
       held K now d q \<or> (row_active now r \<and> has_scope q (parse_scopes K (kr_scopes r)))) \<Longrightarrow> held K now d q"
  by (auto simp: held_def map_row_def split: if_splits)

lemma held_validate: "validate_key K db now tok d = (x, d') \<Longrightarrow> held K t d' q \<Longrightarrow> held K t d q"
  by (auto simp: validate_key_def row_active_def split: if_splits option.splits elim!: held_map_row)

lemma held_revoke: "revoke_key db now k d = (x, d') \<Longrightarrow> held K t d' q \<Longrightarrow> held K t d q"
proof -
  assume "revoke_key db now k d = (x, d')" "held K t d' q"
  then have "d' = d \<or> held K t (d\<lparr>kd_rows := map_row k (\<lambda>r. r\<lparr>kr_revoked_at := Some now\<rparr>) (kd_rows d)\<rparr>) q"
    by (auto simp: revoke_key_def Let_def held_def split: if_splits)
  with \<open>held K t d' q\<close> show "held K t d q" by (auto simp: row_active_def elim!: held_map_row)
qed

lemma held_update:
  assumes "scopes_lossless K" "update_key_scopes K db k scopes d = (x, d')" "held K t d' q"
  shows "held K t d q \<or> has_scope q scopes"
proof -
  have "d' = d \<or> d' = d\<lparr>kd_rows := map_row k (\<lambda>r. r\<lparr>kr_scopes := ko_write K scopes\<rparr>) (kd_rows d)\<rparr>"
    using assms(2) by (auto simp: update_key_scopes_def Let_def split: sum.splits if_splits option.splits)
  with assms show ?thesis
    by (auto simp: held_def map_row_def parse_written split: if_splits)
qed

lemma held_create:
  assumes "scopes_lossless K" "create_key K db now name raw scopes by exp d = (x, d')" "held K t d' q"
  shows "held K t d q \<or> has_scope q scopes"
  using assms
  by (auto simp: create_key_def Let_def held_def parse_written
      split: sum.splits option.splits if_splits)

text \<open>One request of a key: what is held afterwards was held before, or by the key itself.\<close>

lemma dispatch_held:
  assumes "scopes_lossless K" "dispatch K db now rnd (Some (Key k0 caller)) req s = (ans, s')"
    and "held K now (ks_db s') q"
  shows "held K now (ks_db s) q \<or> has_scope q caller"
proof -
  have "held K now (ks_db s) q \<or> has_scope q caller" if "handle_create K db now rnd (Key k0 caller) b s = (r, s')" for b r
    using that assms(3) held_create [OF assms(1)] subset_has_scope
    by (fastforce simp: handle_create_def may_grant_def Let_def split: if_splits prod.splits sum.splits)
  moreover have "held K now (ks_db s) q \<or> has_scope q caller" if "handle_update K db kid (Key k0 caller) b s = (r, s')" for kid b r
    using that assms(3) held_update [OF assms(1)] subset_has_scope
    by (fastforce simp: handle_update_def may_grant_def split: if_splits prod.splits sum.splits option.splits)
  moreover have "held K now (ks_db s) q" if "handle_revoke K db now kid s = (r, s')" for kid r
    using that assms(3) held_revoke
    by (fastforce simp: handle_revoke_def split: if_splits prod.splits sum.splits option.splits)
  ultimately show ?thesis
    using assms(2,3)
    by (auto simp: dispatch_def split: if_splits option.splits request_body.splits prod.splits)
qed

text \<open>A run of requests none of which comes from a user or goes on without a subject.\<close>

inductive key_run ::
  "auth_ops \<Rightarrow> key_ops \<Rightarrow> auth_config \<Rightarrow> int \<times> key_service \<Rightarrow> int \<times> key_service \<Rightarrow> bool" for A K c x where
  start: "key_run A K c x x"
| more: "key_run A K c x (t, s) \<Longrightarrow> t \<le> now
    \<Longrightarrow> fst (auth_middleware A K db now c req s) \<noteq> Through None
    \<Longrightarrow> \<forall>u. fst (auth_middleware A K db now c req s) \<noteq> Through (Some (User u))
    \<Longrightarrow> serve A K c db now rnd req s = (ans, s') \<Longrightarrow> key_run A K c x (now, s')"

lemma serve_held:
  assumes "scopes_lossless K" "serve A K c db now rnd req s = (ans, s')"
    and "fst (auth_middleware A K db now c req s) \<noteq> Through None"
    and "\<forall>u. fst (auth_middleware A K db now c req s) \<noteq> Through (Some (User u))"
    and "held K now (ks_db s') q"
  shows "held K now (ks_db s) q"
proof -
  obtain g s1 where g: "auth_middleware A K db now c req s = (g, s1)" by fastforce
  from g show ?thesis
  proof (cases rule: gate_cases)
    case (key tok k sc)
    from validate_key_Some [OF key(5)] have own: "has_scope q sc \<Longrightarrow> held K now (ks_db s) q"
      by (auto simp: held_def)
    have "held K now (ks_db s1) q \<or> has_scope q sc"
      using assms(2,5) g key(1) dispatch_held [OF assms(1)]
      by (fastforce simp: serve_def split: option.splits)
    with own held_validate [OF key(5)] show ?thesis by blast
  next
    case out
    with g assms(2,5) show ?thesis by (auto simp: serve_def split: gate.splits)
  qed (use g assms(3,4) in auto)
qed

text \<open>
  C16. Keys cannot extend their rights: along any run of requests that authenticate by API keys
  (or not at all), however many keys they create, rescope and revoke, a scope that some active
  key holds at the end was held by an active key at the start.
\<close>

theorem no_scope_escalation:
  assumes "key_run A K c (t0, s0) (t, s)" "scopes_lossless K" "held K t (ks_db s) q"
  shows "held K t0 (ks_db s0) q"
  using assms(1,3)
proof (induction "(t, s)" arbitrary: t s rule: key_run.induct)
  case (more t s now db req rnd ans s')
  from serve_held [OF assms(2) more.hyps(6,4,5) more.prems] held_later [OF _ more.hyps(3)]
  have "held K t (ks_db s) q" by blast
  with more.hyps(2) show ?case by blast
qed simp

section \<open>Revocation\<close>

definition keys_wf :: "key_db \<Rightarrow> bool" where
  "keys_wf d = (distinct (map kr_id (kd_rows d)) \<and> (\<forall>r \<in> set (kd_rows d). kr_id r < kd_next_id d))"

definition gone :: "int \<Rightarrow> key_db \<Rightarrow> bool" where
  "gone k d = ((\<forall>r \<in> set (kd_rows d). kr_id r = k \<longrightarrow> kr_revoked_at r \<noteq> None) \<and> k < kd_next_id d)"

lemma gone_map_row:
  "gone k d \<Longrightarrow> (\<And>r. kr_id (f r) = kr_id r \<and> (kr_revoked_at r \<noteq> None \<longrightarrow> kr_revoked_at (f r) \<noteq> None))
    \<Longrightarrow> gone k (d\<lparr>kd_rows := map_row k' f (kd_rows d)\<rparr>)"
  by (auto simp: gone_def map_row_def)

lemma gone_enabled [simp]: "gone k (d\<lparr>kd_enabled := e\<rparr>) = gone k d"
  by (simp add: gone_def)

lemma gone_ops:
  assumes "gone k d"
  shows "validate_key K db now tok d = (x, d') \<Longrightarrow> gone k d'"
    and "create_key K db now name raw scopes by exp d = (y, d') \<Longrightarrow> gone k d'"
    and "update_key_scopes K db k' scopes d = (z, d') \<Longrightarrow> gone k d'"
    and "revoke_key db now k' d = (v, d') \<Longrightarrow> gone k d'"
proof -
  show "validate_key K db now tok d = (x, d') \<Longrightarrow> gone k d'"
    using assms by (auto simp: validate_key_def split: if_splits option.splits intro: gone_map_row)
  show "create_key K db now name raw scopes by exp d = (y, d') \<Longrightarrow> gone k d'"
    using assms by (auto simp: create_key_def Let_def gone_def split: if_splits option.splits sum.splits)
  show "update_key_scopes K db k' scopes d = (z, d') \<Longrightarrow> gone k d'"
    using assms by (auto simp: update_key_scopes_def Let_def split: if_splits option.splits sum.splits
        intro: gone_map_row)
  show "revoke_key db now k' d = (v, d') \<Longrightarrow> gone k d'"
    using assms gone_map_row [of k d "\<lambda>r. r\<lparr>kr_revoked_at := Some now\<rparr>" k']
    by (auto simp: revoke_key_def Let_def gone_def split: if_splits)
qed

lemma gone_dispatch:
  assumes "gone k (ks_db s)" "dispatch K db now rnd sub req s = (ans, s')"
  shows "gone k (ks_db s')"
proof -
  have "gone k (ks_db s')" if "handle_create K db now rnd sb b s = (r, s')" for sb b r
    using that assms(1) gone_ops(2) [OF assms(1)]
    by (fastforce simp: handle_create_def Let_def split: if_splits prod.splits sum.splits)
  moreover have "gone k (ks_db s')" if "handle_update K db kid sb b s = (r, s')" for kid sb b r
    using that assms(1) gone_ops(3) [OF assms(1)]
    by (fastforce simp: handle_update_def split: if_splits prod.splits sum.splits option.splits)
  moreover have "gone k (ks_db s')" if "handle_revoke K db now kid s = (r, s')" for kid r
    using that assms(1) gone_ops(4) [OF assms(1)]
    by (fastforce simp: handle_revoke_def split: if_splits prod.splits sum.splits option.splits)
  ultimately show ?thesis
    using assms
    by (auto simp: dispatch_def split: if_splits option.splits request_body.splits prod.splits)
qed

lemma gone_serve:
  assumes "gone k (ks_db s)" "serve A K c db now rnd req s = (ans, s')"
  shows "gone k (ks_db s')"
proof -
  obtain g s1 where g: "auth_middleware A K db now c req s = (g, s1)" by fastforce
  then have "gone k (ks_db s1)"
    using assms(1) gone_ops(1) [OF assms(1)] by (cases rule: gate_cases) auto
  with g assms(2) gone_dispatch show ?thesis
    by (fastforce simp: serve_def split: gate.splits option.splits)
qed

fun serve_all ::
  "auth_ops \<Rightarrow> key_ops \<Rightarrow> auth_config \<Rightarrow> ((nat \<Rightarrow> bool) \<times> int \<times> string \<times> request) list \<Rightarrow> key_service \<Rightarrow> key_service"
where
  "serve_all A K c [] s = s"
| "serve_all A K c ((db, now, rnd, req) # rest) s = serve_all A K c rest (snd (serve A K c db now rnd req s))"

lemma gone_serve_all: "gone k (ks_db s) \<Longrightarrow> gone k (ks_db (serve_all A K c rs s))"
proof (induction A K c rs s rule: serve_all.induct)
  case (2 A K c db now rnd req rest s)
  obtain ans s' where "serve A K c db now rnd req s = (ans, s')" by fastforce
  with 2 gone_serve [OF 2(2) this] show ?case by simp
qed simp

lemma map_row_hit:
  assumes "x \<in> set (map_row k f rows)" "kr_id x = k"
  shows "\<exists>r. x = f r"
proof -
  obtain r where "x = (if kr_id r = k then f r else r)"
    using assms(1) unfolding map_row_def set_map by (elim imageE)
  then show ?thesis using assms(2) by (cases "kr_id r = k") auto
qed

lemma handle_revoke_204:
  assumes "handle_revoke K db now kid s = (KeyStatus 204, s')" "parse_i64 kid = Some k"
  obtains r where "find_row k (kd_rows (ks_db s)) = Some r" "kr_revoked_at r \<noteq> None" "s' = s"
  | r e d where "find_row k (kd_rows (ks_db s)) = Some r" "kr_revoked_at r = None"
      "revoke_key db now k (ks_db s) = (Inr e, d)" "s' = \<lparr>ks_db = d, ks_enabled = e\<rparr>"
proof -
  obtain x d where x: "revoke_key db now k (ks_db s) = (x, d)" by fastforce
  from assms obtain r where r: "find_row k (kd_rows (ks_db s)) = Some r"
    by (auto simp: handle_revoke_def get_key_def split: if_splits option.splits)
  show thesis
    using assms r x that by (cases x) (auto simp: handle_revoke_def get_key_def record_of_row_def split: if_splits)
qed

lemma revoke_gone:
  assumes "handle_revoke K db now kid s = (KeyStatus 204, s')" "parse_i64 kid = Some k" "keys_wf (ks_db s)"
  shows "gone k (ks_db s')"
  using assms(1,2)
proof (cases rule: handle_revoke_204)
  case (1 r)
  then have m: "r \<in> set (kd_rows (ks_db s))" "kr_id r = k" by (auto simp: find_row_def find_Some_iff)
  have "kr_revoked_at x \<noteq> None" if "x \<in> set (kd_rows (ks_db s))" "kr_id x = k" for x
    using that m assms(3) 1(2) by (metis keys_wf_def distinct_map inj_onD)
  moreover have "k < kd_next_id (ks_db s)" using m assms(3) by (auto simp: keys_wf_def)
  ultimately show ?thesis using 1(3) by (simp add: gone_def)
next
  case (2 r e d)
  then have m: "r \<in> set (kd_rows (ks_db s))" "kr_id r = k" by (auto simp: find_row_def find_Some_iff)
  with assms(3) have "k < kd_next_id (ks_db s)" by (auto simp: keys_wf_def)
  moreover have "kd_rows d = map_row k (\<lambda>r. r\<lparr>kr_revoked_at := Some now\<rparr>) (kd_rows (ks_db s))
      \<and> kd_next_id d = kd_next_id (ks_db s)"
    using 2(3) by (cases "db 4") (simp_all add: revoke_key_def Let_def, force)
  moreover have "kr_revoked_at x \<noteq> None"
    if "x \<in> set (map_row k (\<lambda>r. r\<lparr>kr_revoked_at := Some now\<rparr>) rows)" "kr_id x = k" for x rows
    using map_row_hit [OF that] by auto
  ultimately show ?thesis using 2(4) by (simp add: gone_def)
qed

text \<open>
  C36. Revocation is effective at once and for good: after a revocation was answered with 204,
  no request ever passes the gate as that key again, whatever requests users and keys make in
  between, creations and scope changes of that very key included.
\<close>

theorem revoked_key_stays_out:
  assumes "handle_revoke K db now kid s = (KeyStatus 204, s1)" "parse_i64 kid = Some k"
    and "keys_wf (ks_db s)" "s2 = serve_all A K c rs s1"
  shows "fst (auth_middleware A K db' now' c req s2) \<noteq> Through (Some (Key k sc))"
proof
  assume a: "fst (auth_middleware A K db' now' c req s2) = Through (Some (Key k sc))"
  have g: "gone k (ks_db s2)" unfolding assms(4) by (rule gone_serve_all [OF revoke_gone [OF assms(1-3)]])
  obtain x y where "auth_middleware A K db' now' c req s2 = (x, y)" by fastforce
  then show False
  proof (cases rule: gate_cases)
    case (key tok k' sc')
    with a \<open>auth_middleware A K db' now' c req s2 = (x, y)\<close> validate_key_Some [OF key(5)] g
    show ?thesis by (auto simp: gone_def row_active_def)
  qed (use a \<open>auth_middleware A K db' now' c req s2 = (x, y)\<close> in auto)
qed

section \<open>Two open doors\<close>

text \<open>
  A proxy that is protected by API keys alone, without an identity provider, does not ask
  for a key: a request with a forwarded user header, or with any bearer token that does not
  start with \<open>tama_\<close>, passes as a user, whom the scope check lets do everything.
\<close>

theorem keys_alone_do_not_protect:
  assumes "ac_url c = None" "rq_cookie req = None" "ks_enabled s" "\<not> skips_auth c (rq_path req)"
    and "\<And>tok. ao_me A ''/api/v3/core/users/me/'' tok = MeUnreachable"
    and "(rq_authorization req = None \<and> rq_authentik_username req = Some u)
      \<or> (rq_authorization req = Some (''Bearer '' @ tok) \<and> \<not> starts_with tok ''tama_'' \<and> u = ''unknown'')"
  shows "auth_middleware A K db now c req s = (Through (Some (User u)), s)
    \<and> scope_middleware (Some (User u)) req = None"
  using assms
  by (auto simp: auth_middleware_def auth_configured_def extract_session_def extract_bearer_token_def
      validate_token_against_authentik_def scope_middleware_def)

text \<open>
  Revoking the last active key switches authentication off: when neither a provider nor the
  login flow is configured, every later request passes without a subject, to every route.
\<close>

theorem last_revocation_opens:
  assumes "handle_revoke K db now kid s = (KeyStatus 204, s1)" "parse_i64 kid = Some k"
    and "find_row k (kd_rows (ks_db s)) = Some r" "kr_revoked_at r = None"
    and "\<And>x. x \<in> set (kd_rows (ks_db s)) \<Longrightarrow> kr_id x \<noteq> k \<Longrightarrow> \<not> row_active now x"
    and "ac_url c = None" "\<not> ac_oauth2 c"
  shows "serve A K c db' now' rnd req s1 = dispatch K db' now' rnd None req s1 \<and> \<not> ks_enabled s1"
  using assms(1,2)
proof (cases rule: handle_revoke_204)
  case (2 r' e d)
  have "filter (row_active now) (map_row k (\<lambda>r. r\<lparr>kr_revoked_at := Some now\<rparr>) (kd_rows (ks_db s))) = []"
    using assms(5) by (auto simp: filter_empty_conv map_row_def row_active_def)
  then have "\<not> e" using 2(3) by (cases "db 4") (simp_all add: revoke_key_def Let_def)
  with 2(4) have "\<not> ks_enabled s1" by simp
  with assms(6,7) show ?thesis
    by (simp add: serve_def auth_middleware_def auth_configured_def scope_middleware_def)
qed (use assms(3,4) in simp)

section \<open>A concrete deployment\<close>

definition demo_ops :: key_ops where
  "demo_ops = \<lparr>ko_hash = (\<lambda>s. s),
     ko_write = map (\<lambda>q. case q of Inference \<Rightarrow> CHR ''i'' | ManagementRead \<Rightarrow> CHR ''r'' | ManagementWrite \<Rightarrow> CHR ''w''),
     ko_read = (\<lambda>s. Some (map (\<lambda>c. if c = CHR ''i'' then Inference
        else if c = CHR ''r'' then ManagementRead else ManagementWrite) s)),
     ko_time = (\<lambda>s. None)\<rparr>"

definition demo_auth :: auth_ops where
  "demo_auth = \<lparr>ao_verify = (\<lambda>s. None), ao_claims = (\<lambda>s. None), ao_me = (\<lambda>u t. MeUnreachable)\<rparr>"

definition demo_row :: key_row where
  "demo_row = \<lparr>kr_id = 7, kr_name = ''ci'', kr_key_prefix = ''tama_x'', kr_key_hash = ''tama_x'',
     kr_scopes = ''iw'', kr_created_by = ''ann'', kr_created_at = 1, kr_last_used_at = None,
     kr_revoked_at = None, kr_expires_at = None\<rparr>"

definition demo_service :: key_service where
  "demo_service = \<lparr>ks_db = \<lparr>kd_rows = [demo_row], kd_next_id = 8, kd_enabled = True\<rparr>, ks_enabled = True\<rparr>"

definition demo_config :: auth_config where
  "demo_config = \<lparr>ac_url = None, ac_skip_paths = [], ac_oauth2 = False\<rparr>"

definition demo_request :: "http_method \<Rightarrow> string \<Rightarrow> string option \<Rightarrow> request_body \<Rightarrow> request" where
  "demo_request m p auth b = \<lparr>rq_method = m, rq_path = p, rq_cookie = None, rq_authorization = auth,
     rq_authentik_username = None, rq_accept = None, rq_body = b\<rparr>"

definition demo_create :: request where
  "demo_create = demo_request POST ''/tama/v1/keys'' (Some ''Bearer tama_x'')
     (CreateBody \<lparr>cr_name = ''n'', cr_scopes = [Inference], cr_expires_at = None\<rparr>)"

lemma demo_lossless: "scopes_lossless demo_ops"
proof -
  have "map (\<lambda>c. if c = CHR ''i'' then Inference else if c = CHR ''r'' then ManagementRead else ManagementWrite)
     (map (\<lambda>q. case q of Inference \<Rightarrow> CHR ''i'' | ManagementRead \<Rightarrow> CHR ''r'' | ManagementWrite \<Rightarrow> CHR ''w'') xs) = xs"
    for xs by (induction xs) (auto split: scope.splits)
  then show ?thesis by (simp add: scopes_lossless_def demo_ops_def)
qed

lemma demo_admitted:
  "fst (auth_middleware demo_auth demo_ops (\<lambda>n. True) 5 demo_config demo_create demo_service)
    = Through (Some (Key 7 [Inference, ManagementWrite]))"
  by code_simp

lemma demo_id: "parse_i64 ''7'' = Some 7"
  by (simp add: parse_i64_def parse_uint_def is_digit_def digits_val_def digit_val_def Let_def)

lemma demo_revoked:
  "handle_revoke demo_ops (\<lambda>n. True) 5 ''7'' demo_service
    = (KeyStatus 204, \<lparr>ks_db = \<lparr>kd_rows = [demo_row\<lparr>kr_revoked_at := Some 5\<rparr>], kd_next_id = 8, kd_enabled = False\<rparr>,
        ks_enabled = False\<rparr>)"
  unfolding handle_revoke_def demo_id by code_simp

theorem gate_sound_witness:
  "\<exists>tok. extract_bearer_token demo_create = Some tok
    \<and> key_admits demo_ops 5 tok demo_service 7 [Inference, ManagementWrite]"
  using gate_sound [where A = demo_auth and K = demo_ops and c = demo_config and db = "\<lambda>n. True"
      and now = 5 and rnd = "''y''" and req = demo_create and s = demo_service, OF prod.collapse [symmetric]]
    demo_admitted
  by blast

theorem no_scope_escalation_witness: "held demo_ops 1 (ks_db demo_service) Inference"
proof -
  obtain ans s' where s: "serve demo_auth demo_ops demo_config (\<lambda>n. True) 5 ''y'' demo_create demo_service = (ans, s')"
    by fastforce
  have "key_run demo_auth demo_ops demo_config (1, demo_service) (5, s')"
    by (rule key_run.more [OF key_run.start _ _ _ s]) (simp_all add: demo_admitted)
  moreover have "held demo_ops 5 (ks_db (snd (serve demo_auth demo_ops demo_config (\<lambda>n. True) 5 ''y'' demo_create demo_service))) Inference"
    by code_simp
  ultimately show ?thesis
    using no_scope_escalation [of demo_auth demo_ops demo_config 1 demo_service 5 s' Inference] demo_lossless s by simp
qed

theorem revoked_key_stays_out_witness:
  "fst (auth_middleware demo_auth demo_ops (\<lambda>n. True) 9 demo_config demo_create
     (serve_all demo_auth demo_ops demo_config [(\<lambda>n. True, 8, ''z'', demo_create)]
       (snd (handle_revoke demo_ops (\<lambda>n. True) 5 ''7'' demo_service))))
   \<noteq> Through (Some (Key 7 [Inference, ManagementWrite]))"
proof -
  have c: "keys_wf (ks_db demo_service)" by code_simp
  show ?thesis unfolding demo_revoked snd_conv by (rule revoked_key_stays_out [OF demo_revoked demo_id c refl])
qed

theorem keys_alone_do_not_protect_witness:
  "auth_middleware demo_auth demo_ops (\<lambda>n. True) 5 demo_config
      (demo_request DELETE ''/tama/v1/keys/7'' (Some ''Bearer guess'') NoBody) demo_service
    = (Through (Some (User ''unknown'')), demo_service)"
proof -
  let ?r = "demo_request DELETE ''/tama/v1/keys/7'' (Some ''Bearer guess'') NoBody"
  have "ac_url demo_config = None" "rq_cookie ?r = None" "ks_enabled demo_service"
    "\<not> skips_auth demo_config (rq_path ?r)"
    "rq_authorization ?r = Some (''Bearer '' @ ''guess'')" "\<not> starts_with ''guess'' ''tama_''"
    by code_simp+
  moreover have "ao_me demo_auth ''/api/v3/core/users/me/'' tok = MeUnreachable" for tok
    by (simp add: demo_auth_def)
  ultimately show ?thesis
    using keys_alone_do_not_protect [of demo_config ?r demo_service demo_auth "''unknown''" "''guess''"]
    by (metis (full_types))
qed

theorem last_revocation_opens_witness:
  "\<not> ks_enabled (snd (handle_revoke demo_ops (\<lambda>n. True) 5 ''7'' demo_service))"
proof -
  have c: "find_row 7 (kd_rows (ks_db demo_service)) = Some demo_row"
    and d: "kr_revoked_at demo_row = None" "ac_url demo_config = None" "\<not> ac_oauth2 demo_config"
    by code_simp+
  have e: "\<not> row_active 5 x" if "x \<in> set (kd_rows (ks_db demo_service))" "kr_id x \<noteq> 7" for x
    using that by (simp add: demo_service_def demo_row_def)
  show ?thesis unfolding demo_revoked snd_conv using last_revocation_opens [OF demo_revoked demo_id c d(1) e d(2,3)] by simp
qed

end
