(* ===== verification/PullQueue.thy ===== *)
theory PullQueue
  imports Paths Containers "HOL-Library.Product_Lexorder"
begin

text \<open>
  The download queue of the proxy: the table \<open>pull_queue\<close> and its queries
  (\<open>db/queries/pull_queue_queries.rs\<close>, \<open>pull_queue/recovery.rs\<close>), the service
  (\<open>pull_queue/service.rs\<close>), the processor loop (\<open>pull_queue/recovery.rs\<close>) and the task of one
  download (\<open>tama_handlers/pull/start.rs\<close>, \<open>start_tamad.rs\<close>, \<open>verify.rs\<close>). Rows stand in
  insertion order; every query is one step and may fail; between two \<open>await\<close>s anything else may
  run. The download itself is done by a tamad: what it answers is part of the environment of a
  step. Times are milliseconds; byte counts are the integers of the wire.
\<close>

section \<open>Data\<close>

record pq_item =
  pq_id :: int
  pq_job_id :: string
  pq_repo_id :: string
  pq_filename :: string
  pq_display_name :: "string option"
  pq_status :: string
  pq_bytes :: int
  pq_total :: "int option"
  pq_error :: "string option"
  pq_started_at :: "int option"
  pq_completed_at :: "int option"
  pq_queued_at :: int
  pq_kind :: string
  pq_quant :: "string option"
  pq_context_length :: "u32 option"

definition active_statuses :: "string list" where
  "active_statuses = [''queued'', ''running'', ''verifying'']"

definition terminal_statuses :: "string list" where
  "terminal_statuses = [''completed'', ''failed'', ''cancelled'']"

datatype pull_event =
    Started string string string "int option"
  | Progress string int "int option"
  | Verifying string string
  | Completed string string int nat
  | Failed string string string
  | Cancelled string string
  | Queued string string string

datatype pull_job_status = JobPending | JobRunning | JobVerifying | JobCompleted | JobFailed | JobCancelled

record pull_job =
  pj_status :: pull_job_status
  pj_bytes :: int
  pj_total :: "int option"
  pj_error :: "string option"
  pj_verified_ok :: "bool option"
  pj_tamad_job_id :: "string option"

definition pull_job_new :: pull_job where
  "pull_job_new = \<lparr>pj_status = JobPending, pj_bytes = 0, pj_total = None, pj_error = None,
     pj_verified_ok = None, pj_tamad_job_id = None\<rparr>"

section \<open>Queries\<close>

definition map_job :: "string \<Rightarrow> (pq_item \<Rightarrow> pq_item) \<Rightarrow> pq_item list \<Rightarrow> pq_item list" where
  "map_job jid f rows = map (\<lambda>r. if pq_job_id r = jid then f r else r) rows"

definition insert_queue_item ::
  "int \<Rightarrow> int \<Rightarrow> string \<Rightarrow> string \<Rightarrow> string \<Rightarrow> string option \<Rightarrow> string \<Rightarrow> string option \<Rightarrow> u32 option
     \<Rightarrow> pq_item list \<Rightarrow> pq_item list option" where
  "insert_queue_item k now jid repo filename display kind quant ctx rows =
     (if jid \<in> pq_job_id ` set rows then None
      else Some (rows @ [\<lparr>pq_id = k, pq_job_id = jid, pq_repo_id = repo, pq_filename = filename,
        pq_display_name = display, pq_status = ''queued'', pq_bytes = 0, pq_total = None,
        pq_error = None, pq_started_at = None, pq_completed_at = None, pq_queued_at = now,
        pq_kind = kind, pq_quant = quant, pq_context_length = ctx\<rparr>]))"

definition get_queued_item :: "pq_item list \<Rightarrow> pq_item option" where
  "get_queued_item rows = (case sort_key pq_queued_at (filter (\<lambda>r. pq_status r = ''queued'') rows) of
     [] \<Rightarrow> None | r # _ \<Rightarrow> Some r)"

definition get_item_by_job_id :: "string \<Rightarrow> pq_item list \<Rightarrow> pq_item option" where
  "get_item_by_job_id jid rows = List.find (\<lambda>r. pq_job_id r = jid) rows"

definition coalesce :: "'a option \<Rightarrow> 'a \<Rightarrow> 'a option" where
  "coalesce x y = (case x of Some v \<Rightarrow> Some v | None \<Rightarrow> Some y)"

definition update_queue_status ::
  "int \<Rightarrow> string \<Rightarrow> string \<Rightarrow> int \<Rightarrow> int option \<Rightarrow> string option \<Rightarrow> pq_item list \<Rightarrow> pq_item list" where
  "update_queue_status now jid new bytes total_n err = map_job jid (\<lambda>r. r\<lparr>pq_status := new,
     pq_bytes := bytes, pq_total := total_n, pq_error := err,
     pq_started_at := coalesce (pq_started_at r) now,
     pq_completed_at := if new \<in> set terminal_statuses then Some now else pq_completed_at r\<rparr>)"

definition update_progress_only :: "string \<Rightarrow> int \<Rightarrow> int option \<Rightarrow> pq_item list \<Rightarrow> pq_item list" where
  "update_progress_only jid bytes total_n = map_job jid (\<lambda>r. r\<lparr>pq_bytes := bytes, pq_total := total_n\<rparr>)"

definition claim_queued_item :: "int \<Rightarrow> string \<Rightarrow> pq_item list \<Rightarrow> bool \<times> pq_item list" where
  "claim_queued_item now jid rows =
     (list_ex (\<lambda>r. pq_job_id r = jid \<and> pq_status r = ''queued'') rows,
      map_job jid (\<lambda>r. if pq_status r = ''queued''
        then r\<lparr>pq_status := ''running'', pq_started_at := Some now\<rparr> else r) rows)"

definition active_rank :: "pq_item \<Rightarrow> nat" where
  "active_rank r = (if pq_status r = ''running'' then 0 else if pq_status r = ''verifying'' then 1 else 2)"

definition get_active_items :: "pq_item list \<Rightarrow> pq_item list" where
  "get_active_items rows = sort_key active_rank (sort_key pq_queued_at
     (filter (\<lambda>r. pq_status r \<in> set active_statuses) rows))"

definition history_rows :: "pq_item list \<Rightarrow> pq_item list" where
  "history_rows rows = filter (\<lambda>r. pq_status r \<in> set terminal_statuses) rows"

definition get_history_items :: "nat \<Rightarrow> nat \<Rightarrow> pq_item list \<Rightarrow> pq_item list" where
  "get_history_items limit offset rows =
     take limit (drop offset (rev (sort_key (\<lambda>r. case pq_completed_at r of
        Some t \<Rightarrow> (0::nat, t) | None \<Rightarrow> (1, 0)) (history_rows rows))))"

definition count_history_items :: "pq_item list \<Rightarrow> nat" where
  "count_history_items rows = length (history_rows rows)"

definition cancel_queue_item :: "int \<Rightarrow> string \<Rightarrow> pq_item list \<Rightarrow> pq_item list" where
  "cancel_queue_item now jid = map_job jid (\<lambda>r. if pq_status r \<in> set active_statuses
     then r\<lparr>pq_status := ''cancelled'', pq_completed_at := Some now\<rparr> else r)"

definition get_active_item_by_repo_filename :: "string \<Rightarrow> string \<Rightarrow> pq_item list \<Rightarrow> pq_item option" where
  "get_active_item_by_repo_filename repo filename rows = List.find (\<lambda>r.
     pq_repo_id r = repo \<and> pq_filename r = filename \<and> pq_status r \<in> set active_statuses) rows"

definition requeue_stale_running :: "int \<Rightarrow> pq_item list \<Rightarrow> pq_item list" where
  "requeue_stale_running now rows = map (\<lambda>r.
     if pq_status r = ''running'' \<and> (case pq_started_at r of None \<Rightarrow> True | Some st \<Rightarrow> now - st > 3600000)
     then r\<lparr>pq_status := ''queued'', pq_started_at := None, pq_completed_at := None\<rparr> else r) rows"

definition requeue_dead_task :: "string \<Rightarrow> pq_item list \<Rightarrow> pq_item list" where
  "requeue_dead_task jid = map_job jid (\<lambda>r. r\<lparr>pq_status := ''queued'', pq_started_at := None\<rparr>)"

section \<open>The service\<close>

record pulls =
  pl_rows :: "pq_item list"
  pl_next_id :: int
  pl_jobs :: "(string, pull_job) hmap"
  pl_in_flight :: "string list"
  pl_events :: "pull_event list"

definition emit_event :: "pull_event \<Rightarrow> pulls \<Rightarrow> pulls" where
  "emit_event e s = s\<lparr>pl_events := pl_events s @ [e]\<rparr>"

definition enqueue ::
  "bool \<Rightarrow> int \<Rightarrow> string \<Rightarrow> string \<Rightarrow> string \<Rightarrow> string option \<Rightarrow> string \<Rightarrow> string option \<Rightarrow> u32 option
     \<Rightarrow> pulls \<Rightarrow> bool \<times> pulls" where
  "enqueue ok now jid repo filename display kind quant ctx s =
     (case (if ok then insert_queue_item (pl_next_id s) now jid repo filename display kind quant ctx (pl_rows s)
            else None) of
        None \<Rightarrow> (False, s\<lparr>pl_next_id := pl_next_id s + 1\<rparr>)
      | Some rows \<Rightarrow> (True, emit_event (Queued jid repo filename)
                       (s\<lparr>pl_rows := rows, pl_next_id := pl_next_id s + 1\<rparr>)))"

definition status_event :: "pq_item \<Rightarrow> string \<Rightarrow> int \<Rightarrow> int option \<Rightarrow> string option \<Rightarrow> nat option \<Rightarrow> pull_event option" where
  "status_event r new bytes total_n err ms = (let jid = pq_job_id r in
     if new = ''running'' then Some (Started jid (pq_repo_id r) (pq_filename r) total_n)
     else if new = ''verifying'' then Some (Verifying jid (pq_filename r))
     else if new = ''completed'' then
       Some (Completed jid (pq_filename r) bytes (case ms of Some n \<Rightarrow> n | None \<Rightarrow> 0))
     else if new = ''failed'' then
       Some (Failed jid (pq_filename r) (case err of Some e \<Rightarrow> e | None \<Rightarrow> ''Unknown error''))
     else if new = ''cancelled'' then Some (Cancelled jid (pq_filename r))
     else None)"

text \<open>
  The row read first only supplies columns that no query changes, and no query deletes a row:
  the read and the update are one step.
\<close>

definition update_status ::
  "bool \<Rightarrow> int \<Rightarrow> string \<Rightarrow> string \<Rightarrow> int \<Rightarrow> int option \<Rightarrow> string option \<Rightarrow> nat option \<Rightarrow> pulls \<Rightarrow> bool \<times> pulls" where
  "update_status ok now jid new bytes total_n err ms s =
     (case (if ok then get_item_by_job_id jid (pl_rows s) else None) of
        None \<Rightarrow> (False, s)
      | Some r \<Rightarrow>
          let s1 = s\<lparr>pl_rows := update_queue_status now jid new bytes total_n err (pl_rows s)\<rparr>
          in (True, case status_event r new bytes total_n err ms of
                      Some e \<Rightarrow> emit_event e s1 | None \<Rightarrow> s1))"

definition update_progress :: "bool \<Rightarrow> string \<Rightarrow> int \<Rightarrow> int option \<Rightarrow> pulls \<Rightarrow> pulls" where
  "update_progress ok jid bytes total_n s =
     (if \<not> ok then s
      else emit_event (Progress jid bytes total_n)
             (s\<lparr>pl_rows := update_progress_only jid bytes total_n (pl_rows s)\<rparr>))"

text \<open>\<open>cancel\<close> reads the row, then updates it: two steps.\<close>

definition cancel_check :: "bool \<Rightarrow> string \<Rightarrow> pulls \<Rightarrow> pq_item option" where
  "cancel_check ok jid s = (case (if ok then get_item_by_job_id jid (pl_rows s) else None) of
     None \<Rightarrow> None
   | Some r \<Rightarrow> if pq_status r \<in> set terminal_statuses then None else Some r)"

definition cancel_apply :: "bool \<Rightarrow> int \<Rightarrow> pq_item \<Rightarrow> pulls \<Rightarrow> pulls" where
  "cancel_apply ok now r s =
     (if \<not> ok then s
      else emit_event (Cancelled (pq_job_id r) (pq_filename r))
             (s\<lparr>pl_rows := cancel_queue_item now (pq_job_id r) (pl_rows s)\<rparr>))"

definition set_job :: "string \<Rightarrow> (pull_job \<Rightarrow> pull_job) \<Rightarrow> pulls \<Rightarrow> pulls" where
  "set_job jid f s = (case hm_get (pl_jobs s) jid of
     None \<Rightarrow> s | Some j \<Rightarrow> s\<lparr>pl_jobs := hm_insert jid (f j) (pl_jobs s)\<rparr>)"

section \<open>Tasks\<close>

record host_file =
  hf_path :: string
  hf_size :: int
  hf_expected_sha :: "string option"
  hf_verified :: bool
  hf_verify_error :: "string option"

record host_event =
  he_status :: string
  he_error :: string
  he_bytes :: int
  he_total :: int
  he_result :: "string + host_file list"

text \<open>
  What the outside answers: the file system before a download, the dispatch to the pull host,
  and the host's event stream. The result payload is carried parsed, \<open>Inl\<close> a parse error.
\<close>

datatype prepare_answer = Prepared | PrepareFailed string

datatype dispatch_answer = NoHost | DispatchFailed string | Dispatched string

datatype relay_answer = RelayBroken string | RelayEvent host_event

record pull_env =
  en_ok :: bool
  en_now :: int
  en_elapsed :: nat
  en_prepare :: prepare_answer
  en_dispatch :: dispatch_answer
  en_relay :: relay_answer

datatype ptask =
    ProcRecover
  | ProcPoll
  | ProcCheck pq_item
  | ProcAlive pq_item
  | ProcRequeue string
  | ProcDequeue
  | ProcClaim string
  | ProcMarkStarted string
  | PullStart string
  | PullBegin pq_item
  | PullPrepare pq_item
  | PullLock pq_item
  | PullDispatch pq_item string
  | PullRelay pq_item string
  | PullMirror pq_item string host_event
  | PullVerify pq_item string host_file
  | PullVerifyRow pq_item string host_file
  | PullVerdict pq_item string host_file
  | PullUnlock pq_item string string int "int option" "string option"
  | PullSettle string string int "int option" "string option"
  | CancelApply pq_item

section \<open>The processor loop\<close>

definition is_running :: "pq_item \<Rightarrow> bool" where
  "is_running r = (pq_status r = ''running'' \<or> pq_status r = ''verifying'')"

definition poll :: "bool \<Rightarrow> pulls \<Rightarrow> ptask" where
  "poll ok s =
     (if \<not> ok then ProcPoll
      else (case List.find is_running (get_active_items (pl_rows s)) of
          Some r \<Rightarrow> ProcCheck r
        | None \<Rightarrow> ProcDequeue))"

definition started_recently :: "int \<Rightarrow> pq_item \<Rightarrow> bool" where
  "started_recently now r = (case pq_started_at r of
     None \<Rightarrow> False | Some st \<Rightarrow> max 0 (now - st) div 1000 < 10)"

fun run_processor :: "pull_env \<Rightarrow> ptask \<Rightarrow> pulls \<Rightarrow> ptask list \<times> pulls" where
  "run_processor ev ProcRecover s =
     ([ProcPoll], if en_ok ev then s\<lparr>pl_rows := requeue_stale_running (en_now ev) (pl_rows s)\<rparr> else s)"
| "run_processor ev ProcPoll s = ([poll (en_ok ev) s], s)"
| "run_processor ev (ProcCheck r) s =
     ([case (if en_ok ev then get_item_by_job_id (pq_job_id r) (pl_rows s) else None) of
         None \<Rightarrow> ProcPoll
       | Some current \<Rightarrow> if is_running current then ProcAlive r else ProcPoll], s)"
| "run_processor ev (ProcAlive r) s =
     ([if hm_get (pl_jobs s) (pq_job_id r) = None \<and> \<not> started_recently (en_now ev) r
       then ProcRequeue (pq_job_id r) else ProcPoll], s)"
| "run_processor ev (ProcRequeue jid) s =
     ([ProcPoll], if en_ok ev then s\<lparr>pl_rows := requeue_dead_task jid (pl_rows s)\<rparr> else s)"
| "run_processor ev ProcDequeue s =
     ([case (if en_ok ev then get_queued_item (pl_rows s) else None) of
         None \<Rightarrow> ProcPoll | Some r \<Rightarrow> ProcClaim (pq_job_id r)], s)"
| "run_processor ev (ProcClaim jid) s =
     (if \<not> en_ok ev then ([ProcPoll], s)
      else (case claim_queued_item (en_now ev) jid (pl_rows s) of
          (claimed, rows) \<Rightarrow> ([if claimed then ProcMarkStarted jid else ProcPoll], s\<lparr>pl_rows := rows\<rparr>)))"
| "run_processor ev (ProcMarkStarted jid) s =
     ([PullStart jid, ProcPoll],
      snd (update_status (en_ok ev) (en_now ev) jid ''running'' 0 None None None s))"
| "run_processor ev t s = ([], s)"

section \<open>The task of one download\<close>

definition dest_path :: "string \<Rightarrow> pq_item \<Rightarrow> string" where
  "dest_path models_dir r = path_join (repo_path models_dir (pq_repo_id r)) (pq_filename r)"

definition fail_job :: "string \<Rightarrow> string \<Rightarrow> pulls \<Rightarrow> pulls" where
  "fail_job jid msg = set_job jid (\<lambda>j. j\<lparr>pj_status := JobFailed, pj_error := Some msg\<rparr>)"

text \<open>The two ways to fail: before the path is locked, and with the lock held.\<close>

definition fail_pull :: "pq_item \<Rightarrow> string \<Rightarrow> pulls \<Rightarrow> ptask list \<times> pulls" where
  "fail_pull r msg s = ([PullSettle (pq_job_id r) ''failed'' 0 None (Some msg)], fail_job (pq_job_id r) msg s)"

definition fail_locked :: "pq_item \<Rightarrow> string \<Rightarrow> string \<Rightarrow> pulls \<Rightarrow> ptask list \<times> pulls" where
  "fail_locked r path msg s =
     ([PullUnlock r path ''failed'' 0 None (Some msg)], fail_job (pq_job_id r) msg s)"

definition event_total :: "host_event \<Rightarrow> int option" where
  "event_total e = (if he_total e > 0 then Some (he_total e) else None)"

definition verify_message :: "host_file \<Rightarrow> string option" where
  "verify_message f = (if hf_verified f then None
     else (case hf_verify_error f of
             Some e \<Rightarrow> if e = [] then Some ''verification failed'' else Some e
           | None \<Rightarrow> Some ''verification failed''))"

text \<open>How the pull goes on after an event of the host's stream.\<close>

definition relay_outcome :: "pq_item \<Rightarrow> string \<Rightarrow> host_event \<Rightarrow> pulls \<Rightarrow> ptask list \<times> pulls" where
  "relay_outcome r path e s =
     (if he_status e = ''succeeded'' then
        (case he_result e of
           Inl err \<Rightarrow> fail_locked r path (''tamad pull returned a malformed result payload: '' @ err) s
         | Inr files \<Rightarrow> (case List.find (\<lambda>f. hf_path f = pq_filename r) files of
               None \<Rightarrow> fail_locked r path (''tamad pull result payload has no entry for requested file ''
                 @ CHR 0x27 # pq_filename r @ [CHR 0x27]) s
             | Some f \<Rightarrow> ([PullVerify r path f], s)))
      else if he_status e = ''cancelled'' then
        ([PullUnlock r path ''cancelled'' 0 None None],
         set_job (pq_job_id r) (\<lambda>j. j\<lparr>pj_status := JobCancelled\<rparr>) s)
      else if he_status e = ''failed'' then
        fail_locked r path (''tamad pull failed: '' @ trim_ws (he_error e)) s
      else ([PullRelay r path], s))"

text \<open>Up to the lock (\<open>start.rs\<close>).\<close>

fun run_start :: "string \<Rightarrow> pull_env \<Rightarrow> ptask \<Rightarrow> pulls \<Rightarrow> ptask list \<times> pulls" where
  "run_start dir ev (PullStart jid) s =
     ((case (if en_ok ev then get_item_by_job_id jid (pl_rows s) else None) of
         None \<Rightarrow> [] | Some r \<Rightarrow> [PullBegin r]), s)"
| "run_start dir ev (PullBegin r) s =
     (if \<not> is_safe_relative_path (pq_filename r) then fail_pull r ''Invalid filename'' s
      else if \<not> is_valid_repo_id (pq_repo_id r) then fail_pull r ''Invalid repo_id'' s
      else if hm_get (pl_jobs s) (pq_job_id r) = None then ([], s)
      else ([PullPrepare r], set_job (pq_job_id r) (\<lambda>j. j\<lparr>pj_status := JobRunning\<rparr>) s))"
| "run_start dir ev (PullPrepare r) s = (case en_prepare ev of
       PrepareFailed msg \<Rightarrow> fail_pull r msg s
     | Prepared \<Rightarrow> ([PullLock r], s))"
| "run_start dir ev (PullLock r) s =
     (if dest_path dir r \<in> set (pl_in_flight s)
      then fail_pull r (''Another pull of '' @ CHR 0x27 # pq_filename r @ CHR 0x27 # '' is already in progress'') s
      else ([PullDispatch r (dest_path dir r)], s\<lparr>pl_in_flight := dest_path dir r # pl_in_flight s\<rparr>))"
| "run_start dir ev t s = ([], s)"

text \<open>Handing the download to the pull host (\<open>try_start_tamad_pull\<close>).\<close>

fun run_dispatch :: "string \<Rightarrow> pull_env \<Rightarrow> ptask \<Rightarrow> pulls \<Rightarrow> ptask list \<times> pulls" where
  "run_dispatch dir ev (PullDispatch r path) s = (case en_dispatch ev of
       NoHost \<Rightarrow> fail_pull r ''no pull host configured: set proxy.pull_backend'' s
     | DispatchFailed msg \<Rightarrow> fail_locked r path msg s
     | Dispatched tid \<Rightarrow> ([PullRelay r path],
         set_job (pq_job_id r) (\<lambda>j. j\<lparr>pj_tamad_job_id := Some tid\<rparr>) s))"
| "run_dispatch dir ev t s = ([], s)"

text \<open>Relaying the host's events (\<open>relay_job\<close>).\<close>

fun run_relay :: "string \<Rightarrow> pull_env \<Rightarrow> ptask \<Rightarrow> pulls \<Rightarrow> ptask list \<times> pulls" where
  "run_relay dir ev (PullRelay r path) s = (case en_relay ev of
       RelayBroken msg \<Rightarrow> fail_locked r path msg s
     | RelayEvent e \<Rightarrow> ([PullMirror r path e], set_job (pq_job_id r) (\<lambda>j. j\<lparr>
           pj_total := if he_total e > 0 then Some (he_total e) else pj_total j,
           pj_bytes := if he_bytes e > 0 then he_bytes e else pj_bytes j\<rparr>) s))"
| "run_relay dir ev (PullMirror r path e) s =
     relay_outcome r path e (update_progress (en_ok ev) (pq_job_id r) (he_bytes e) (event_total e) s)"
| "run_relay dir ev t s = ([], s)"

text \<open>Taking over the host's verdict (\<open>complete_pull_from_tamad_result\<close>).\<close>

fun run_complete :: "string \<Rightarrow> pull_env \<Rightarrow> ptask \<Rightarrow> pulls \<Rightarrow> ptask list \<times> pulls" where
  "run_complete dir ev (PullVerify r path f) s =
     ([PullVerifyRow r path f], set_job (pq_job_id r) (\<lambda>j. j\<lparr>pj_status := JobVerifying,
        pj_bytes := hf_size f, pj_total := Some (hf_size f)\<rparr>) s)"
| "run_complete dir ev (PullVerifyRow r path f) s =
     ([PullVerdict r path f], snd (update_status (en_ok ev) (en_now ev) (pq_job_id r) ''verifying''
        (hf_size f) (Some (hf_size f)) None None s))"
| "run_complete dir ev (PullVerdict r path f) s =
     ([PullUnlock r path (if hf_verified f then ''completed'' else ''failed'') (hf_size f)
         (Some (hf_size f)) (verify_message f)],
      set_job (pq_job_id r) (\<lambda>j. j\<lparr>pj_status := if hf_verified f then JobCompleted else JobFailed,
        pj_verified_ok := map_option (\<lambda>_. hf_verified f) (hf_expected_sha f),
        pj_error := verify_message f\<rparr>) s)"
| "run_complete dir ev t s = ([], s)"

text \<open>Releasing the destination and settling the row (\<open>finalize_pull\<close> and the failure paths).\<close>

fun run_finalize :: "string \<Rightarrow> pull_env \<Rightarrow> ptask \<Rightarrow> pulls \<Rightarrow> ptask list \<times> pulls" where
  "run_finalize dir ev (PullUnlock r path st bytes total_n err) s =
     ([PullSettle (pq_job_id r) st bytes total_n err], s\<lparr>pl_in_flight := removeAll path (pl_in_flight s)\<rparr>)"
| "run_finalize dir ev (PullSettle jid st bytes total_n err) s =
     ([], snd (update_status (en_ok ev) (en_now ev) jid st bytes total_n err (Some (en_elapsed ev)) s))"
| "run_finalize dir ev t s = ([], s)"

fun run_pull :: "string \<Rightarrow> pull_env \<Rightarrow> ptask \<Rightarrow> pulls \<Rightarrow> ptask list \<times> pulls" where
  "run_pull dir ev (PullStart jid) s = run_start dir ev (PullStart jid) s"
| "run_pull dir ev (PullBegin r) s = run_start dir ev (PullBegin r) s"
| "run_pull dir ev (PullPrepare r) s = run_start dir ev (PullPrepare r) s"
| "run_pull dir ev (PullLock r) s = run_start dir ev (PullLock r) s"
| "run_pull dir ev (PullDispatch r path) s = run_dispatch dir ev (PullDispatch r path) s"
| "run_pull dir ev (PullRelay r path) s = run_relay dir ev (PullRelay r path) s"
| "run_pull dir ev (PullMirror r path e) s = run_relay dir ev (PullMirror r path e) s"
| "run_pull dir ev (PullVerify r path f) s = run_complete dir ev (PullVerify r path f) s"
| "run_pull dir ev (PullVerifyRow r path f) s = run_complete dir ev (PullVerifyRow r path f) s"
| "run_pull dir ev (PullVerdict r path f) s = run_complete dir ev (PullVerdict r path f) s"
| "run_pull dir ev (PullUnlock r path st bytes total_n err) s = run_finalize dir ev (PullUnlock r path st bytes total_n err) s"
| "run_pull dir ev (PullSettle jid st bytes total_n err) s = run_finalize dir ev (PullSettle jid st bytes total_n err) s"
| "run_pull dir ev (CancelApply r) s = ([], cancel_apply (en_ok ev) (en_now ev) r s)"
| "run_pull dir ev t s = ([], s)"

section \<open>The proxy's queue\<close>

text \<open>
  Requests and the running tasks. \<open>SubmitPull\<close> is the pull handler, which registers the job
  before it enqueues it; \<open>SubmitUpdate\<close> is the update handler of the web API, which only
  enqueues; a restart keeps the table and nothing else.
\<close>

datatype paction =
    SubmitPull string string string "string option" "string option" "u32 option" pull_env
  | SubmitUpdate string string string "string option" pull_env
  | CancelRequest string bool
  | ProxyRestart
  | RunTask nat pull_env

record pull_sys =
  py_state :: pulls
  py_tasks :: "ptask list"

fun is_processor :: "ptask \<Rightarrow> bool" where
  "is_processor ProcRecover = True"
| "is_processor ProcPoll = True"
| "is_processor (ProcCheck r) = True"
| "is_processor (ProcAlive r) = True"
| "is_processor (ProcRequeue j) = True"
| "is_processor ProcDequeue = True"
| "is_processor (ProcClaim j) = True"
| "is_processor (ProcMarkStarted j) = True"
| "is_processor t = False"

definition run_ptask :: "string \<Rightarrow> pull_env \<Rightarrow> ptask \<Rightarrow> pulls \<Rightarrow> ptask list \<times> pulls" where
  "run_ptask dir ev t s = (if is_processor t then run_processor ev t s else run_pull dir ev t s)"

definition submit_pull ::
  "pull_env \<Rightarrow> string \<Rightarrow> string \<Rightarrow> string \<Rightarrow> string option \<Rightarrow> string option \<Rightarrow> u32 option \<Rightarrow> pulls \<Rightarrow> pulls" where
  [simp]: "submit_pull ev jid repo filename display quant ctx s =
     snd (enqueue (en_ok ev) (en_now ev) jid repo filename display ''model'' quant ctx
       (s\<lparr>pl_jobs := hm_insert jid pull_job_new (pl_jobs s)\<rparr>))"

definition submit_update ::
  "pull_env \<Rightarrow> string \<Rightarrow> string \<Rightarrow> string \<Rightarrow> string option \<Rightarrow> pulls \<Rightarrow> pulls" where
  [simp]: "submit_update ev jid repo filename quant s =
     snd (enqueue (en_ok ev) (en_now ev) jid repo filename quant ''model'' quant None s)"

fun pact :: "string \<Rightarrow> paction \<Rightarrow> pull_sys \<Rightarrow> pull_sys option" where
  "pact dir (SubmitPull jid repo filename display quant ctx ev) y = Some (y\<lparr>py_state :=
     submit_pull ev jid repo filename display quant ctx (py_state y)\<rparr>)"
| "pact dir (SubmitUpdate jid repo filename quant ev) y = Some (y\<lparr>py_state :=
     submit_update ev jid repo filename quant (py_state y)\<rparr>)"
| "pact dir (CancelRequest jid ok) y = (case cancel_check ok jid (py_state y) of
     None \<Rightarrow> Some y | Some r \<Rightarrow> Some (y\<lparr>py_tasks := py_tasks y @ [CancelApply r]\<rparr>))"
| "pact dir ProxyRestart y = Some \<lparr>py_state = (py_state y)\<lparr>pl_jobs := [], pl_in_flight := [], pl_events := []\<rparr>,
     py_tasks = [ProcRecover]\<rparr>"
| "pact dir (RunTask i ev) y =
     (if i < length (py_tasks y) then
        (case run_ptask dir ev (py_tasks y ! i) (py_state y) of
           (ts, s) \<Rightarrow> Some \<lparr>py_state = s, py_tasks = take i (py_tasks y) @ drop (Suc i) (py_tasks y) @ ts\<rparr>)
      else None)"

definition pull_boot :: "pq_item list \<Rightarrow> pull_sys" where
  "pull_boot rows = \<lparr>py_state = \<lparr>pl_rows = rows, pl_next_id = int (length rows) + 1, pl_jobs = [],
     pl_in_flight = [], pl_events = []\<rparr>, py_tasks = [ProcRecover]\<rparr>"

inductive preach :: "string \<Rightarrow> pull_sys \<Rightarrow> bool" for dir where
  pull_init: "preach dir (pull_boot [])"
| pull_step: "preach dir y \<Longrightarrow> pact dir a y = Some y' \<Longrightarrow> preach dir y'"

end
