(* ===== verification/PullQueueFacts.thy ===== *)
theory PullQueueFacts
  imports PullQueue "HOL-Library.Multiset"
begin

text \<open>
  What holds of the download queue of \<open>PullQueue\<close> in every reachable state: typed rows with
  their stamps, and one download per destination path; that the task of a download ends with
  the host's verdict; and four ways in which the queue goes wrong.
\<close>

section \<open>Frames\<close>

lemma set_job_frame [simp]:
  "pl_in_flight (set_job j f s) = pl_in_flight s" "pl_rows (set_job j f s) = pl_rows s"
  "pl_events (set_job j f s) = pl_events s"
  by (simp_all add: set_job_def split: option.split)

lemma set_job_dom [simp]: "hm_get (pl_jobs (set_job j f s)) k = None \<longleftrightarrow> hm_get (pl_jobs s) k = None"
  by (auto simp: set_job_def split: option.split)

lemma fail_job_frame [simp]:
  "pl_in_flight (fail_job j m s) = pl_in_flight s" "pl_rows (fail_job j m s) = pl_rows s"
  by (simp_all add: fail_job_def)

lemma emit_event_frame [simp]:
  "pl_in_flight (emit_event e s) = pl_in_flight s" "pl_rows (emit_event e s) = pl_rows s"
  "pl_jobs (emit_event e s) = pl_jobs s"
  by (simp_all add: emit_event_def)

lemma update_status_frame [simp]:
  "pl_in_flight (snd (update_status ok now j st b n e ms s)) = pl_in_flight s"
  "pl_jobs (snd (update_status ok now j st b n e ms s)) = pl_jobs s"
  by (simp_all add: update_status_def Let_def split: option.split)

lemma map_job_absent: "List.find (\<lambda>r. pq_job_id r = j) rows = None \<Longrightarrow> map_job j f rows = rows"
  by (auto simp: map_job_def find_None_iff intro: map_idI)

lemma update_status_rows:
  "pl_rows (snd (update_status ok now j st b n e ms s)) =
     (if ok then update_queue_status now j st b n e (pl_rows s) else pl_rows s)"
  by (auto simp: update_status_def Let_def update_queue_status_def get_item_by_job_id_def map_job_absent
      split: option.split)

lemma update_progress_frame [simp]:
  "pl_in_flight (update_progress ok j b n s) = pl_in_flight s"
  "pl_jobs (update_progress ok j b n s) = pl_jobs s"
  "pl_rows (update_progress ok j b n s) = (if ok then update_progress_only j b n (pl_rows s) else pl_rows s)"
  by (simp_all add: update_progress_def)

lemma cancel_apply_frame [simp]:
  "pl_in_flight (cancel_apply ok now r s) = pl_in_flight s"
  "pl_jobs (cancel_apply ok now r s) = pl_jobs s"
  "pl_rows (cancel_apply ok now r s) =
     (if ok then cancel_queue_item now (pq_job_id r) (pl_rows s) else pl_rows s)"
  by (simp_all add: cancel_apply_def)

lemma enqueue_frame [simp]:
  "pl_in_flight (snd (enqueue ok now j repo f d k q c s)) = pl_in_flight s"
  "pl_jobs (snd (enqueue ok now j repo f d k q c s)) = pl_jobs s"
  by (simp_all add: enqueue_def split: option.split)

lemma enqueue_rows:
  "pl_rows (snd (enqueue ok now j repo f d k q c s)) =
     (case (if ok then insert_queue_item (pl_next_id s) now j repo f d k q c (pl_rows s) else None) of
        None \<Rightarrow> pl_rows s | Some rows \<Rightarrow> rows)"
  by (simp add: enqueue_def split: option.split)

section \<open>One download per path\<close>

fun holds :: "ptask \<Rightarrow> (pq_item \<times> string) option" where
  "holds (PullDispatch r p) = Some (r, p)"
| "holds (PullRelay r p) = Some (r, p)"
| "holds (PullMirror r p e) = Some (r, p)"
| "holds (PullVerify r p f) = Some (r, p)"
| "holds (PullVerifyRow r p f) = Some (r, p)"
| "holds (PullVerdict r p f) = Some (r, p)"
| "holds (PullUnlock r p st b n e) = Some (r, p)"
| "holds t = None"

definition held :: "ptask list \<Rightarrow> (pq_item \<times> string) list" where
  "held ts = List.map_filter holds ts"

lemma held_simps [simp]: "held [] = []"
  "held (t # ts) = (case holds t of Some h \<Rightarrow> h # held ts | None \<Rightarrow> held ts)"
  "held (ts @ us) = held ts @ held us"
  by (simp_all add: held_def map_filter_simps List.map_filter_def split: option.split)

lemma relay_outcome_held:
  "relay_outcome r p e s = (ts, s') \<Longrightarrow> held ts = [(r, p)] \<and> pl_in_flight s' = pl_in_flight s"
  by (auto simp: relay_outcome_def fail_locked_def split: if_splits sum.splits option.splits)

lemma processor_held:
  "run_processor ev t s = (ts, s') \<Longrightarrow> is_processor t \<Longrightarrow> held ts = [] \<and> pl_in_flight s' = pl_in_flight s"
  by (cases t) (auto simp: poll_def split: option.splits if_splits prod.splits)

definition names_ok :: "pq_item \<Rightarrow> bool" where
  "names_ok r = (is_safe_relative_path (pq_filename r) \<and> is_valid_repo_id (pq_repo_id r))"

text \<open>A task past the checks works on an item with checked names.\<close>

fun checked :: "ptask \<Rightarrow> bool" where
  "checked (PullPrepare r) = names_ok r"
| "checked (PullLock r) = names_ok r"
| "checked t = (case holds t of Some (r, p) \<Rightarrow> names_ok r | None \<Rightarrow> True)"

text \<open>What a task does to the locks: it keeps its own, takes a free one, frees or leaks it.\<close>

definition lock_step :: "string \<Rightarrow> ptask \<Rightarrow> string list \<Rightarrow> ptask list \<Rightarrow> string list \<Rightarrow> bool" where
  "lock_step dir t l ts l' = (
     (held ts = held [t] \<and> l' = l)
   \<or> (\<exists>r. holds t = None \<and> held ts = [(r, dest_path dir r)] \<and> dest_path dir r \<notin> set l \<and> l' = dest_path dir r # l)
   \<or> (\<exists>r p. holds t = Some (r, p) \<and> held ts = [] \<and> (l' = removeAll p l \<or> l' = l)))"

lemma run_pull_lock:
  "run_pull dir ev t s = (ts, s') \<Longrightarrow> \<not> is_processor t \<Longrightarrow> lock_step dir t (pl_in_flight s) ts (pl_in_flight s')"
  by (cases t) (auto simp: fail_pull_def fail_locked_def dest: relay_outcome_held
      simp: lock_step_def split: if_splits option.splits prepare_answer.splits dispatch_answer.splits
      relay_answer.splits)

lemma run_ptask_lock:
  "run_ptask dir ev t s = (ts, s') \<Longrightarrow> lock_step dir t (pl_in_flight s) ts (pl_in_flight s')"
proof (cases "is_processor t")
  case True
  then have "holds t = None" by (cases t) auto
  moreover assume "run_ptask dir ev t s = (ts, s')"
  ultimately show ?thesis
    using True processor_held [of ev t s ts s'] by (auto simp: run_ptask_def lock_step_def)
qed (simp add: run_ptask_def run_pull_lock)

lemma run_pull_checked:
  "run_pull dir ev t s = (ts, s') \<Longrightarrow> checked t \<Longrightarrow> \<not> is_processor t \<Longrightarrow> list_all checked ts"
  by (cases t) (auto simp: fail_pull_def fail_locked_def names_ok_def relay_outcome_def
      split: if_splits option.splits prepare_answer.splits dispatch_answer.splits relay_answer.splits sum.splits)

lemma run_processor_checked: "run_processor ev t s = (ts, s') \<Longrightarrow> is_processor t \<Longrightarrow> list_all checked ts"
  by (cases t) (auto simp: poll_def split: option.splits if_splits prod.splits)

definition locks_inv :: "string \<Rightarrow> pull_sys \<Rightarrow> bool" where
  "locks_inv dir y = (distinct (map snd (held (py_tasks y)))
     \<and> (\<forall>r p. (r, p) \<in> set (held (py_tasks y)) \<longrightarrow> p = dest_path dir r \<and> p \<in> set (pl_in_flight (py_state y)))
     \<and> list_all checked (py_tasks y))"

lemma held_single: "held [t] = (case holds t of None \<Rightarrow> [] | Some h \<Rightarrow> [h])"
  by (simp split: option.split)

lemma locks_step:
  assumes inv: "locks_inv dir \<lparr>py_state = s, py_tasks = a @ t # b\<rparr>"
    and "run_ptask dir ev t s = (ts, s')"
  shows "locks_inv dir \<lparr>py_state = s', py_tasks = a @ b @ ts\<rparr>"
proof -
  have "list_all checked ts"
    using assms run_pull_checked run_processor_checked
    by (cases "is_processor t") (auto simp: run_ptask_def locks_inv_def)
  moreover from run_ptask_lock [OF assms(2)] consider
      (keep) "held ts = held [t]" "pl_in_flight s' = pl_in_flight s"
    | (take_new) r where "holds t = None" "held ts = [(r, dest_path dir r)]"
        "dest_path dir r \<notin> set (pl_in_flight s)" "pl_in_flight s' = dest_path dir r # pl_in_flight s"
    | (drop_old) r p where "holds t = Some (r, p)" "held ts = []"
        "pl_in_flight s' = removeAll p (pl_in_flight s) \<or> pl_in_flight s' = pl_in_flight s"
    by (auto simp: lock_step_def)
  then have "distinct (map snd (held (a @ b @ ts)))
      \<and> (\<forall>r p. (r, p) \<in> set (held (a @ b @ ts)) \<longrightarrow> p = dest_path dir r \<and> p \<in> set (pl_in_flight s'))"
  proof cases
    case keep
    then have m: "mset (held (a @ b @ ts)) = mset (held (a @ t # b))"
      by (simp add: held_single split: option.split)
    then have "distinct (map snd (held (a @ b @ ts))) = distinct (map snd (held (a @ t # b)))"
      by (intro mset_eq_imp_distinct_iff) (simp only: mset_map)
    with mset_eq_setD [OF m] keep(2) inv show ?thesis unfolding locks_inv_def by simp
  next
    case take_new
    from take_new(1) inv have old: "distinct (map snd (held (a @ b)))"
        "\<forall>r p. (r, p) \<in> set (held (a @ b)) \<longrightarrow> p = dest_path dir r \<and> p \<in> set (pl_in_flight s)"
      by (simp_all add: locks_inv_def)
    from old(2) take_new(3) have "dest_path dir r \<notin> snd ` set (held (a @ b))" by fastforce
    with old take_new(2,4) show ?thesis by auto
  next
    case drop_old
    with inv have "p \<notin> snd ` set (held (a @ b))" by (auto simp: locks_inv_def)
    then have "\<forall>r p'. (r, p') \<in> set (held (a @ b)) \<longrightarrow> p' \<noteq> p" by force
    moreover from drop_old(1) inv have "distinct (map snd (held (a @ b)))"
        "\<forall>r p. (r, p) \<in> set (held (a @ b)) \<longrightarrow> p = dest_path dir r \<and> p \<in> set (pl_in_flight s)"
      by (simp_all add: locks_inv_def)
    ultimately show ?thesis using drop_old(2,3) by auto
  qed
  ultimately show ?thesis using inv by (simp add: locks_inv_def)
qed

lemma locks_act: "pact dir a y = Some y' \<Longrightarrow> locks_inv dir y \<Longrightarrow> locks_inv dir y'"
proof (induction dir a y rule: pact.induct)
  case (5 dir i ev y)
  then have "i < length (py_tasks y)" by (simp split: if_splits)
  then have "py_tasks y = take i (py_tasks y) @ py_tasks y ! i # drop (Suc i) (py_tasks y)"
    by (rule id_take_nth_drop)
  with 5(2) have inv: "locks_inv dir \<lparr>py_state = py_state y,
      py_tasks = take i (py_tasks y) @ py_tasks y ! i # drop (Suc i) (py_tasks y)\<rparr>"
    by (simp add: locks_inv_def)
  obtain ts s' where r: "run_ptask dir ev (py_tasks y ! i) (py_state y) = (ts, s')" by fastforce
  with 5(1) \<open>i < length (py_tasks y)\<close> have "y' = \<lparr>py_state = s',
      py_tasks = take i (py_tasks y) @ drop (Suc i) (py_tasks y) @ ts\<rparr>"
    by simp
  with locks_step [OF inv r] show ?case by simp
qed (auto simp: locks_inv_def split: option.splits)


section \<open>Typed rows\<close>

definition row_typed :: "pq_item \<Rightarrow> bool" where
  "row_typed r = (pq_status r \<in> set (active_statuses @ terminal_statuses)
     \<and> (pq_status r \<in> set terminal_statuses \<longrightarrow> pq_completed_at r \<noteq> None)
     \<and> (is_running r \<longrightarrow> pq_started_at r \<noteq> None))"

definition rows_ok :: "pq_item list \<Rightarrow> bool" where
  "rows_ok rows = (distinct (map pq_job_id rows) \<and> list_all row_typed rows)"

fun task_typed :: "ptask \<Rightarrow> bool" where
  "task_typed (PullUnlock r p st b n e) = (st \<in> set terminal_statuses)"
| "task_typed (PullSettle j st b n e) = (st \<in> set terminal_statuses)"
| "task_typed t = True"

lemmas status_lists = active_statuses_def terminal_statuses_def

lemma rows_ok_map:
  assumes "rows_ok rows" "\<And>r. pq_job_id (f r) = pq_job_id r" "\<And>r. row_typed r \<Longrightarrow> row_typed (f r)"
  shows "rows_ok (map f rows)"
  using assms by (auto simp: rows_ok_def list_all_iff comp_def)

lemma rows_ok_map_job:
  "rows_ok rows \<Longrightarrow> (\<And>r. pq_job_id (f r) = pq_job_id r) \<Longrightarrow> (\<And>r. row_typed r \<Longrightarrow> row_typed (f r)) \<Longrightarrow>
    rows_ok (map_job j f rows)"
  unfolding map_job_def by (rule rows_ok_map) auto

lemma rows_ok_queries:
  "rows_ok rows \<Longrightarrow> st \<in> set terminal_statuses \<or> st = ''running'' \<or> st = ''verifying'' \<Longrightarrow>
    rows_ok (update_queue_status now j st b n e rows)"
  "rows_ok rows \<Longrightarrow> rows_ok (update_progress_only j b n rows)"
  "rows_ok rows \<Longrightarrow> rows_ok (snd (claim_queued_item now j rows))"
  "rows_ok rows \<Longrightarrow> rows_ok (cancel_queue_item now j rows)"
  "rows_ok rows \<Longrightarrow> rows_ok (requeue_stale_running now rows)"
  "rows_ok rows \<Longrightarrow> rows_ok (requeue_dead_task j rows)"
  "rows_ok rows \<Longrightarrow> insert_queue_item k now j repo f d kd q c rows = Some rows' \<Longrightarrow> rows_ok rows'"
proof -
  show "rows_ok rows \<Longrightarrow> st \<in> set terminal_statuses \<or> st = ''running'' \<or> st = ''verifying'' \<Longrightarrow>
      rows_ok (update_queue_status now j st b n e rows)"
    unfolding update_queue_status_def
    by (rule rows_ok_map_job) (auto simp: row_typed_def status_lists coalesce_def is_running_def split: option.splits)
  show "rows_ok rows \<Longrightarrow> rows_ok (update_progress_only j b n rows)"
    unfolding update_progress_only_def
    by (rule rows_ok_map_job) (auto simp: row_typed_def is_running_def)
  show "rows_ok rows \<Longrightarrow> rows_ok (snd (claim_queued_item now j rows))"
    unfolding claim_queued_item_def snd_conv
    by (rule rows_ok_map_job) (auto simp: row_typed_def status_lists is_running_def)
  show "rows_ok rows \<Longrightarrow> rows_ok (cancel_queue_item now j rows)"
    unfolding cancel_queue_item_def
    by (rule rows_ok_map_job) (auto simp: row_typed_def status_lists is_running_def)
  show "rows_ok rows \<Longrightarrow> rows_ok (requeue_stale_running now rows)"
    unfolding requeue_stale_running_def
    by (rule rows_ok_map) (auto simp: row_typed_def status_lists is_running_def)
  show "rows_ok rows \<Longrightarrow> rows_ok (requeue_dead_task j rows)"
    unfolding requeue_dead_task_def
    by (rule rows_ok_map_job) (auto simp: row_typed_def status_lists is_running_def)
  show "rows_ok rows \<Longrightarrow> insert_queue_item k now j repo f d kd q c rows = Some rows' \<Longrightarrow> rows_ok rows'"
    by (auto simp: insert_queue_item_def rows_ok_def row_typed_def status_lists is_running_def split: if_splits)
qed

lemma run_ptask_typed:
  assumes "run_ptask dir ev t s = (ts, s')" "task_typed t" "rows_ok (pl_rows s)"
  shows "rows_ok (pl_rows s') \<and> list_all task_typed ts"
proof (cases "is_processor t")
  case True
  with assms show ?thesis
    by (cases t) (auto simp: run_ptask_def poll_def update_status_rows rows_ok_queries
        claim_queued_item_def rows_ok_queries(3) [unfolded claim_queued_item_def snd_conv]
        split: option.splits if_splits)
next
  case False
  with assms show ?thesis
    by (cases t) (auto simp: run_ptask_def fail_pull_def fail_locked_def relay_outcome_def update_status_rows
        rows_ok_queries terminal_statuses_def
        split: if_splits option.splits prepare_answer.splits dispatch_answer.splits relay_answer.splits sum.splits)
qed

definition types_inv :: "pull_sys \<Rightarrow> bool" where
  "types_inv y = (rows_ok (pl_rows (py_state y)) \<and> list_all task_typed (py_tasks y))"

lemma types_act: "pact dir a y = Some y' \<Longrightarrow> types_inv y \<Longrightarrow> types_inv y'"
proof (induction dir a y rule: pact.induct)
  case (5 dir i ev y)
  then have i: "i < length (py_tasks y)" by (simp split: if_splits)
  obtain ts s' where r: "run_ptask dir ev (py_tasks y ! i) (py_state y) = (ts, s')" by fastforce
  with 5(1) i have y': "y' = \<lparr>py_state = s',
      py_tasks = take i (py_tasks y) @ drop (Suc i) (py_tasks y) @ ts\<rparr>" by simp
  from 5(2) i have "task_typed (py_tasks y ! i)" "list_all task_typed (take i (py_tasks y))"
    "list_all task_typed (drop (Suc i) (py_tasks y))"
    by (auto simp: types_inv_def list_all_iff dest: in_set_takeD in_set_dropD)
  with run_ptask_typed [OF r] 5(2) y' show ?case by (simp add: types_inv_def)
qed (auto simp: types_inv_def enqueue_rows rows_ok_queries split: option.splits if_splits)

lemma mset_split: "mset (filter P xs) + mset (filter (\<lambda>x. \<not> P x) xs) = mset xs"
  by (induction xs) auto

text \<open>
  C22. The queue table is typed in every reachable state: job ids are unique, every status is
  one of the six words, a finished row carries its completion time and a row that is being
  downloaded or verified its start time, and the history together with the active listing
  shows every row exactly once.
\<close>

theorem queue_rows_typed:
  assumes "preach dir y"
  defines "rows \<equiv> pl_rows (py_state y)"
  shows "distinct (map pq_job_id rows)
    \<and> (\<forall>r \<in> set rows. pq_status r \<in> {''queued'', ''running'', ''verifying'', ''completed'', ''failed'', ''cancelled''}
        \<and> (pq_status r \<in> {''completed'', ''failed'', ''cancelled''} \<longrightarrow> pq_completed_at r \<noteq> None)
        \<and> (pq_status r \<in> {''running'', ''verifying''} \<longrightarrow> pq_started_at r \<noteq> None))
    \<and> mset (get_active_items rows) + mset (get_history_items (count_history_items rows) 0 rows) = mset rows"
proof -
  from assms(1) have "types_inv y"
  proof induction
    case pull_init
    show ?case by (simp add: pull_boot_def types_inv_def rows_ok_def)
  next
    case (pull_step y a y')
    then show ?case by (blast intro: types_act)
  qed
  then have ok: "rows_ok rows" by (simp add: types_inv_def rows_def)
  then have f: "filter (\<lambda>r. pq_status r \<in> set terminal_statuses) rows
      = filter (\<lambda>r. pq_status r \<notin> set active_statuses) rows"
    by (intro filter_cong) (auto simp: rows_ok_def list_all_iff row_typed_def status_lists)
  have "mset (get_active_items rows) + mset (get_history_items (count_history_items rows) 0 rows) = mset rows"
    using mset_split [of "\<lambda>r. pq_status r \<in> set active_statuses" rows]
    by (simp add: get_active_items_def get_history_items_def count_history_items_def history_rows_def f
        del: mset_filter)
  moreover have "row_typed r" if "r \<in> set rows" for r
    using ok that by (simp add: rows_ok_def list_all_iff)
  ultimately show ?thesis
    using ok by (auto simp: rows_ok_def row_typed_def status_lists is_running_def)
qed

section \<open>The end of a download\<close>

text \<open>
  A run of one download with nothing in between: every query succeeds and the host answers the
  given events, one per read of its stream.
\<close>

inductive download :: "string \<Rightarrow> string \<Rightarrow> relay_answer list \<Rightarrow> ptask \<Rightarrow> pulls \<Rightarrow> pulls \<Rightarrow> bool" for dir tid where
  over: "run_pull dir ev t s = ([], s') \<Longrightarrow> en_ok ev \<Longrightarrow> \<forall>r p. t \<noteq> PullRelay r p \<Longrightarrow> download dir tid [] t s s'"
| go: "run_pull dir ev t s = ([t'], s1) \<Longrightarrow> en_ok ev \<Longrightarrow> en_prepare ev = Prepared \<Longrightarrow>
     en_dispatch ev = Dispatched tid \<Longrightarrow> \<forall>r p. t \<noteq> PullRelay r p \<Longrightarrow>
     download dir tid answers t' s1 s' \<Longrightarrow> download dir tid answers t s s'"
| read: "run_pull dir ev (PullRelay r p) s = ([t'], s1) \<Longrightarrow> en_relay ev = a \<Longrightarrow>
     download dir tid answers t' s1 s' \<Longrightarrow> download dir tid (a # answers) (PullRelay r p) s s'"

definition ends :: "string \<Rightarrow> string \<Rightarrow> relay_answer list \<Rightarrow> ptask \<Rightarrow> pulls \<Rightarrow> string \<Rightarrow> string \<Rightarrow> string list \<Rightarrow> bool" where
  "ends dir tid answers t s jid st l = (\<exists>s'. download dir tid answers t s s' \<and> pl_in_flight s' = l
     \<and> map_option pq_status (get_item_by_job_id jid (pl_rows s')) = Some st
     \<and> (\<forall>k. k \<noteq> jid \<longrightarrow> get_item_by_job_id k (pl_rows s') = get_item_by_job_id k (pl_rows s)))"

definition good_env :: "string \<Rightarrow> relay_answer \<Rightarrow> pull_env" where
  "good_env tid a = \<lparr>en_ok = True, en_now = 0, en_elapsed = 0, en_prepare = Prepared,
     en_dispatch = Dispatched tid, en_relay = a\<rparr>"

lemma good_env_simps [simp]: "en_ok (good_env tid a)" "en_prepare (good_env tid a) = Prepared"
  "en_dispatch (good_env tid a) = Dispatched tid" "en_relay (good_env tid a) = a"
  by (simp_all add: good_env_def)

lemma get_item_map_job:
  assumes "\<And>r. pq_job_id (f r) = pq_job_id r"
  shows "get_item_by_job_id k (map_job j f rows) =
    (if k = j then map_option f (get_item_by_job_id k rows) else get_item_by_job_id k rows)"
  using assms by (induction rows) (auto simp: get_item_by_job_id_def map_job_def)

lemma get_item_update [simp]:
  "get_item_by_job_id k (update_queue_status now j st b n e rows) =
    (if k = j then map_option (\<lambda>r. r\<lparr>pq_status := st, pq_bytes := b, pq_total := n, pq_error := e,
       pq_started_at := coalesce (pq_started_at r) now,
       pq_completed_at := if st \<in> set terminal_statuses then Some now else pq_completed_at r\<rparr>)
       (get_item_by_job_id k rows) else get_item_by_job_id k rows)"
  unfolding update_queue_status_def by (rule get_item_map_job) simp

lemma get_item_progress [simp]:
  "get_item_by_job_id k (update_progress_only j b n rows) =
    (if k = j then map_option (\<lambda>r. r\<lparr>pq_bytes := b, pq_total := n\<rparr>) (get_item_by_job_id k rows)
     else get_item_by_job_id k rows)"
  unfolding update_progress_only_def by (rule get_item_map_job) simp

lemma ends_go:
  assumes "run_pull dir (good_env tid a) t s = ([t'], s1)" "\<forall>r p. t \<noteq> PullRelay r p"
    and "ends dir tid answers t' s1 jid st l"
    and "\<And>k. k \<noteq> jid \<Longrightarrow> get_item_by_job_id k (pl_rows s1) = get_item_by_job_id k (pl_rows s)"
  shows "ends dir tid answers t s jid st l"
proof -
  from assms(3) obtain s' where s': "download dir tid answers t' s1 s'" "pl_in_flight s' = l"
      "map_option pq_status (get_item_by_job_id jid (pl_rows s')) = Some st"
      "\<forall>k. k \<noteq> jid \<longrightarrow> get_item_by_job_id k (pl_rows s') = get_item_by_job_id k (pl_rows s1)"
    unfolding ends_def by blast
  moreover have "download dir tid answers t s s'"
    using download.go [OF assms(1) _ _ _ assms(2) s'(1)] by simp
  ultimately show ?thesis unfolding ends_def using assms(4) by auto
qed

lemma ends_read:
  assumes "run_pull dir (good_env tid a) (PullRelay r p) s = ([t'], s1)"
    and "ends dir tid answers t' s1 jid st l"
    and "\<And>k. k \<noteq> jid \<Longrightarrow> get_item_by_job_id k (pl_rows s1) = get_item_by_job_id k (pl_rows s)"
  shows "ends dir tid (a # answers) (PullRelay r p) s jid st l"
proof -
  from assms(2) obtain s' where s': "download dir tid answers t' s1 s'" "pl_in_flight s' = l"
      "map_option pq_status (get_item_by_job_id jid (pl_rows s')) = Some st"
      "\<forall>k. k \<noteq> jid \<longrightarrow> get_item_by_job_id k (pl_rows s') = get_item_by_job_id k (pl_rows s1)"
    unfolding ends_def by blast
  moreover have "download dir tid (a # answers) (PullRelay r p) s s'"
    using download.read [OF assms(1) _ s'(1)] by simp
  ultimately show ?thesis unfolding ends_def using assms(3) by auto
qed

lemma ends_settle:
  assumes "get_item_by_job_id jid (pl_rows s) \<noteq> None" "pl_in_flight s = l"
  shows "ends dir tid [] (PullSettle jid st b n e) s jid st l"
proof -
  let ?s' = "snd (run_pull dir (good_env tid (RelayBroken [])) (PullSettle jid st b n e) s)"
  have "download dir tid [] (PullSettle jid st b n e) s ?s'"
    by (rule download.over [of _ "good_env tid (RelayBroken [])"]) simp_all
  moreover obtain y where "get_item_by_job_id jid (pl_rows s) = Some y" using assms(1) by blast
  then have "pl_in_flight ?s' = l"
    "map_option pq_status (get_item_by_job_id jid (pl_rows ?s')) = Some st"
    "\<forall>k. k \<noteq> jid \<longrightarrow> get_item_by_job_id k (pl_rows ?s') = get_item_by_job_id k (pl_rows s)"
    using assms(2) by (simp_all add: update_status_rows)
  ultimately show ?thesis unfolding ends_def by blast
qed

lemma ends_unlock:
  assumes "get_item_by_job_id (pq_job_id r) (pl_rows s) \<noteq> None" "pl_in_flight s = p # l" "p \<notin> set l"
  shows "ends dir tid [] (PullUnlock r p st b n e) s (pq_job_id r) st l"
  by (rule ends_go [where a = "RelayBroken []"], simp, simp, rule ends_settle) (use assms in simp_all)

definition verdict :: "pq_item \<Rightarrow> relay_answer \<Rightarrow> string option" where
  "verdict r a = (case a of
     RelayBroken _ \<Rightarrow> Some ''failed''
   | RelayEvent e \<Rightarrow>
       if he_status e = ''succeeded'' then
         (case he_result e of
            Inl _ \<Rightarrow> Some ''failed''
          | Inr files \<Rightarrow> (case List.find (\<lambda>f. hf_path f = pq_filename r) files of
                None \<Rightarrow> Some ''failed''
              | Some f \<Rightarrow> Some (if hf_verified f then ''completed'' else ''failed'')))
       else if he_status e = ''cancelled'' then Some ''cancelled''
       else if he_status e = ''failed'' then Some ''failed''
       else None)"

lemma ends_verify:
  assumes "get_item_by_job_id (pq_job_id r) (pl_rows s) \<noteq> None" "pl_in_flight s = p # l" "p \<notin> set l"
  shows "ends dir tid [] (PullVerify r p f) s (pq_job_id r) (if hf_verified f then ''completed'' else ''failed'') l"
  by (rule ends_go [where a = "RelayBroken []"], simp, simp, rule ends_go [where a = "RelayBroken []"], simp, simp,
      rule ends_go [where a = "RelayBroken []"], simp, simp, rule ends_unlock)
    (use assms in \<open>simp_all add: update_status_rows\<close>)

lemma ends_mirror:
  assumes "get_item_by_job_id (pq_job_id r) (pl_rows s) \<noteq> None" "pl_in_flight s = p # l" "p \<notin> set l"
    and "verdict r (RelayEvent e) = Some st"
  shows "ends dir tid [] (PullMirror r p e) s (pq_job_id r) st l"
proof -
  let ?s1 = "update_progress True (pq_job_id r) (he_bytes e) (event_total e) s"
  obtain t s2 where o: "relay_outcome r p e ?s1 = ([t], s2)" "pl_rows s2 = pl_rows ?s1"
      "pl_in_flight s2 = pl_in_flight s" and t: "(\<exists>b n m. t = PullUnlock r p st b n m)
        \<or> (\<exists>f. t = PullVerify r p f \<and> st = (if hf_verified f then ''completed'' else ''failed''))"
    using assms(4) by (auto simp: verdict_def relay_outcome_def fail_locked_def
        split: if_splits sum.splits option.splits)
  have "ends dir tid [] t s2 (pq_job_id r) st l"
    using t o(2,3) assms(1-3) by (auto intro: ends_unlock ends_verify)
  then show ?thesis
    by (rule ends_go [where a = "RelayBroken []", rotated 2]) (use o in simp_all)
qed

lemma ends_relay:
  assumes "get_item_by_job_id (pq_job_id r) (pl_rows s) \<noteq> None" "pl_in_flight s = p # l" "p \<notin> set l"
    and "\<forall>x \<in> set answers. verdict r x = None" "verdict r a = Some st"
  shows "ends dir tid (answers @ [a]) (PullRelay r p) s (pq_job_id r) st l"
  using assms
proof (induction answers arbitrary: s)
  case Nil
  show ?case
  proof (cases a)
    case (RelayBroken m)
    with Nil show ?thesis
      by (auto simp: fail_locked_def verdict_def intro!: ends_read ends_unlock)
  next
    case (RelayEvent e)
    with Nil show ?thesis by (auto intro!: ends_read ends_mirror)
  qed
next
  case (Cons x answers)
  then obtain e where x: "x = RelayEvent e" by (cases x) (auto simp: verdict_def)
  with Cons.prems(4) have o: "relay_outcome r p e s' = ([PullRelay r p], s')" for s'
    by (auto simp: verdict_def relay_outcome_def split: if_splits sum.splits option.splits)
  show ?case
    unfolding append_Cons x
    by (rule ends_read, simp, rule ends_go [where a = "RelayBroken []"], simp add: o, simp, rule Cons.IH)
      (use Cons.prems in simp_all)
qed


section \<open>An unregistered item blocks the queue\<close>

text \<open>
  \<open>ahead h q rows\<close>: the row of job \<open>h\<close> is waiting or counted as running, was queued at \<open>q\<close>,
  before every other waiting row, and no other row is counted as running.
\<close>

definition ahead :: "string \<Rightarrow> int \<Rightarrow> pq_item list \<Rightarrow> bool" where
  "ahead h q rows = (distinct (map pq_job_id rows)
     \<and> (\<exists>r \<in> set rows. pq_job_id r = h)
     \<and> (\<forall>r \<in> set rows. if pq_job_id r = h
          then names_ok r \<and> pq_queued_at r = q \<and> (pq_status r = ''queued'' \<or> is_running r)
          else \<not> is_running r \<and> (pq_status r = ''queued'' \<longrightarrow> q < pq_queued_at r)))"

fun harmless_task :: "string \<Rightarrow> pq_item list \<Rightarrow> ptask \<Rightarrow> bool" where
  "harmless_task h rows ProcRecover = True"
| "harmless_task h rows ProcPoll = True"
| "harmless_task h rows (ProcCheck r) = (pq_job_id r = h)"
| "harmless_task h rows (ProcAlive r) = (pq_job_id r = h)"
| "harmless_task h rows (ProcRequeue j) = (j = h)"
| "harmless_task h rows ProcDequeue = (\<forall>r \<in> set rows. pq_job_id r = h \<longrightarrow> pq_status r = ''queued'')"
| "harmless_task h rows (ProcClaim j) = (j = h)"
| "harmless_task h rows (ProcMarkStarted j) = (j = h)"
| "harmless_task h rows (PullStart j) = (j = h)"
| "harmless_task h rows (PullBegin r) = (pq_job_id r = h \<and> names_ok r)"
| "harmless_task h rows (CancelApply r) = (pq_job_id r \<noteq> h)"
| "harmless_task h rows t = False"

definition blocked :: "string \<Rightarrow> int \<Rightarrow> pull_sys \<Rightarrow> bool" where
  "blocked h q y = (ahead h q (pl_rows (py_state y)) \<and> hm_get (pl_jobs (py_state y)) h = None
     \<and> list_all (harmless_task h (pl_rows (py_state y))) (py_tasks y)
     \<and> length (filter is_processor (py_tasks y)) = 1)"

text \<open>Everything but a cancellation of the item itself, an item with its id, and a clock running back.\<close>

fun leaves_alone :: "string \<Rightarrow> int \<Rightarrow> paction \<Rightarrow> bool" where
  "leaves_alone h q (SubmitPull j repo f d k c ev) = (j \<noteq> h \<and> q < en_now ev)"
| "leaves_alone h q (SubmitUpdate j repo f k ev) = (j \<noteq> h \<and> q < en_now ev)"
| "leaves_alone h q (CancelRequest j ok) = (j \<noteq> h)"
| "leaves_alone h q ProxyRestart = True"
| "leaves_alone h q (RunTask i ev) = True"

lemma find_running_ahead:
  assumes "ahead h q rows"
  shows "List.find is_running (get_active_items rows) = Some r \<Longrightarrow> pq_job_id r = h"
    and "List.find is_running (get_active_items rows) = None \<Longrightarrow>
      \<forall>r \<in> set rows. pq_job_id r = h \<longrightarrow> pq_status r = ''queued''"
proof -
  have s: "set (get_active_items rows) = {r \<in> set rows. pq_status r \<in> set active_statuses}"
    by (simp add: get_active_items_def)
  show "List.find is_running (get_active_items rows) = Some r \<Longrightarrow> pq_job_id r = h"
    using assms s by (auto simp: find_Some_iff ahead_def split: if_splits)
  show "List.find is_running (get_active_items rows) = None \<Longrightarrow>
      \<forall>r \<in> set rows. pq_job_id r = h \<longrightarrow> pq_status r = ''queued''"
    using assms unfolding find_None_iff s
    by (fastforce simp: ahead_def is_running_def active_statuses_def)
qed

lemma queued_ahead:
  assumes "ahead h q rows" "\<forall>r \<in> set rows. pq_job_id r = h \<longrightarrow> pq_status r = ''queued''"
    and "get_queued_item rows = Some r"
  shows "pq_job_id r = h"
proof -
  let ?q = "sort_key pq_queued_at (filter (\<lambda>r. pq_status r = ''queued'') rows)"
  from assms(3) obtain rest where q: "?q = r # rest"
    by (auto simp: get_queued_item_def split: list.splits)
  have set_q: "set ?q = {r \<in> set rows. pq_status r = ''queued''}" by simp
  have "sorted (map pq_queued_at ?q)" by simp
  then have le: "\<forall>x \<in> set ?q. pq_queued_at r \<le> pq_queued_at x" unfolding q by auto
  from assms(1,2) obtain x where x: "x \<in> set rows" "pq_job_id x = h" "pq_status x = ''queued''"
      "pq_queued_at x = q" by (fastforce simp: ahead_def)
  then have "x \<in> set ?q" using set_q by blast
  with le x(4) have "pq_queued_at r \<le> q" by auto
  moreover have "r \<in> set rows" "pq_status r = ''queued''" using q set_q by auto
  moreover from this have "pq_job_id r \<noteq> h \<Longrightarrow> q < pq_queued_at r"
    using assms(1) by (auto simp: ahead_def)
  ultimately show ?thesis by force
qed

lemma ahead_map_other:
  assumes "ahead h q rows" "\<And>r. pq_job_id (f r) = pq_job_id r"
    and "\<And>r. r \<in> set rows \<Longrightarrow> pq_job_id r = h \<Longrightarrow> pq_filename (f r) = pq_filename r \<and> pq_repo_id (f r) = pq_repo_id r
       \<and> pq_queued_at (f r) = pq_queued_at r \<and> (pq_status (f r) = ''queued'' \<or> is_running (f r))"
    and "\<And>r. r \<in> set rows \<Longrightarrow> pq_job_id r \<noteq> h \<Longrightarrow> f r = r
       \<or> (\<not> is_running (f r) \<and> pq_status (f r) \<noteq> ''queued'')"
  shows "ahead h q (map f rows)"
proof -
  have "distinct (map pq_job_id (map f rows))" using assms(1,2) by (simp add: ahead_def comp_def)
  moreover have "\<exists>r \<in> set (map f rows). pq_job_id r = h"
    using assms(1,2) by (auto simp: ahead_def)
  moreover have "if pq_job_id (f r) = h
      then names_ok (f r) \<and> pq_queued_at (f r) = q \<and> (pq_status (f r) = ''queued'' \<or> is_running (f r))
      else \<not> is_running (f r) \<and> (pq_status (f r) = ''queued'' \<longrightarrow> q < pq_queued_at (f r))"
    if "r \<in> set rows" for r
    using assms(1) assms(3) [OF that] assms(4) [OF that] that
    by (cases "pq_job_id r = h") (auto simp: ahead_def assms(2) names_ok_def)
  ultimately show ?thesis by (simp add: ahead_def)
qed

text \<open>Rows of other items that wait or were cancelled stay so.\<close>

definition status_of :: "string \<Rightarrow> pq_item list \<Rightarrow> string option" where
  "status_of k rows = map_option pq_status (get_item_by_job_id k rows)"

definition waits :: "string option \<Rightarrow> bool" where
  "waits st = (st = Some ''queued'' \<or> st = Some ''cancelled'')"

definition starved :: "string \<Rightarrow> pq_item list \<Rightarrow> pq_item list \<Rightarrow> bool" where
  "starved h rows rows' = (\<forall>k. k \<noteq> h \<longrightarrow> waits (status_of k rows) \<longrightarrow> waits (status_of k rows'))"

lemma starved_refl [simp]: "starved h rows rows"
  by (simp add: starved_def)

lemma starved_trans: "starved h a b \<Longrightarrow> starved h b c \<Longrightarrow> starved h a c"
  by (simp add: starved_def)

lemma starved_map:
  assumes "\<And>r. pq_job_id (f r) = pq_job_id r"
    and "\<And>r. r \<in> set rows \<Longrightarrow> pq_job_id r \<noteq> h \<Longrightarrow> pq_status (f r) = pq_status r \<or> pq_status (f r) = ''cancelled''"
  shows "starved h rows (map f rows)"
proof -
  have "get_item_by_job_id k (map f rows) = map_option f (get_item_by_job_id k rows)" for k
    using assms(1) by (induction rows) (auto simp: get_item_by_job_id_def)
  moreover have "get_item_by_job_id k rows = Some r \<Longrightarrow> r \<in> set rows \<and> pq_job_id r = k" for k r
    by (auto simp: get_item_by_job_id_def find_Some_iff)
  ultimately show ?thesis
    using assms(2) by (fastforce simp: starved_def status_of_def waits_def)
qed

lemma h_row_kept:
  "ahead h q rows \<Longrightarrow> (\<And>r. pq_job_id (f r) = pq_job_id r) \<Longrightarrow>
   (\<And>r. pq_filename (f r) = pq_filename r \<and> pq_repo_id (f r) = pq_repo_id r \<and> pq_queued_at (f r) = pq_queued_at r) \<Longrightarrow>
   (\<And>r. pq_status r = ''queued'' \<or> is_running r \<Longrightarrow> pq_status (f r) = ''queued'' \<or> is_running (f r)) \<Longrightarrow>
   ahead h q (map_job h f rows) \<and> starved h rows (map_job h f rows)"
  unfolding map_job_def
  by (intro conjI ahead_map_other starved_map) (auto simp: ahead_def)

lemma ahead_queries:
  assumes "ahead h q rows"
  shows "ahead h q (update_queue_status now h ''running'' b n e rows) \<and> starved h rows (update_queue_status now h ''running'' b n e rows)"
    and "ahead h q (snd (claim_queued_item now h rows)) \<and> starved h rows (snd (claim_queued_item now h rows))"
    and "ahead h q (requeue_dead_task h rows) \<and> starved h rows (requeue_dead_task h rows)"
    and "ahead h q (requeue_stale_running now rows) \<and> starved h rows (requeue_stale_running now rows)"
    and "j \<noteq> h \<Longrightarrow> ahead h q (cancel_queue_item now j rows) \<and> starved h rows (cancel_queue_item now j rows)"
    and "j \<noteq> h \<Longrightarrow> q < now \<Longrightarrow> insert_queue_item k now j repo f d kd qn c rows = Some rows' \<Longrightarrow>
      ahead h q rows' \<and> starved h rows rows'"
proof -
  show "ahead h q (update_queue_status now h ''running'' b n e rows) \<and> starved h rows (update_queue_status now h ''running'' b n e rows)"
    unfolding update_queue_status_def by (rule h_row_kept [OF assms]) (auto simp: is_running_def)
  show "ahead h q (snd (claim_queued_item now h rows)) \<and> starved h rows (snd (claim_queued_item now h rows))"
    unfolding claim_queued_item_def snd_conv by (rule h_row_kept [OF assms]) (auto simp: is_running_def)
  show "ahead h q (requeue_dead_task h rows) \<and> starved h rows (requeue_dead_task h rows)"
    unfolding requeue_dead_task_def by (rule h_row_kept [OF assms]) auto
  show "ahead h q (requeue_stale_running now rows) \<and> starved h rows (requeue_stale_running now rows)"
    unfolding requeue_stale_running_def
    by (intro conjI ahead_map_other [OF assms] starved_map) (use assms in \<open>auto simp: ahead_def is_running_def\<close>)
  show "j \<noteq> h \<Longrightarrow> ahead h q (cancel_queue_item now j rows) \<and> starved h rows (cancel_queue_item now j rows)"
    unfolding cancel_queue_item_def map_job_def
    by (intro conjI ahead_map_other [OF assms] starved_map) (use assms in \<open>auto simp: ahead_def is_running_def\<close>)
  assume "j \<noteq> h" "q < now" "insert_queue_item k now j repo f d kd qn c rows = Some rows'"
  then obtain x where x: "rows' = rows @ [x]" "j \<notin> pq_job_id ` set rows" "pq_job_id x = j"
      "pq_status x = ''queued''" "pq_queued_at x = now"
    by (auto simp: insert_queue_item_def split: if_splits)
  then have "ahead h q rows'"
    using assms \<open>j \<noteq> h\<close> \<open>q < now\<close> by (auto simp: ahead_def is_running_def)
  moreover have "starved h rows rows'"
  proof -
    have "status_of k rows' = status_of k rows" if "waits (status_of k rows)" for k
    proof -
      from that obtain r where "List.find (\<lambda>r. pq_job_id r = k) rows = Some r"
        by (auto simp: waits_def status_of_def get_item_by_job_id_def)
      then show ?thesis unfolding status_of_def get_item_by_job_id_def x(1) by (simp add: find_snoc)
    qed
    then show ?thesis by (simp add: starved_def)
  qed
  ultimately show "ahead h q rows' \<and> starved h rows rows'" by simp
qed

text \<open>One step of any task keeps the block; only a processor step touches the row in front.\<close>

lemma blocked_task:
  assumes "ahead h q (pl_rows s)" "hm_get (pl_jobs s) h = None" "harmless_task h (pl_rows s) t"
    and "run_ptask dir ev t s = (ts, s')"
  shows "ahead h q (pl_rows s') \<and> starved h (pl_rows s) (pl_rows s') \<and> hm_get (pl_jobs s') h = None
    \<and> list_all (harmless_task h (pl_rows s')) ts
    \<and> length (filter is_processor ts) = (if is_processor t then 1 else 0)
    \<and> (\<not> is_processor t \<longrightarrow> (\<forall>r \<in> set (pl_rows s'). pq_job_id r = h \<longrightarrow> r \<in> set (pl_rows s)))"
proof (cases t)
  case ProcPoll
  with assms find_running_ahead [OF assms(1)] show ?thesis
    by (auto simp: run_ptask_def poll_def split: option.splits)
next
  case ProcDequeue
  with assms queued_ahead [OF assms(1)] show ?thesis
    by (auto simp: run_ptask_def split: option.splits if_splits)
next
  case (ProcClaim j)
  with assms ahead_queries(2) [OF assms(1), of "en_now ev"] show ?thesis
    by (auto simp: run_ptask_def split: if_splits prod.splits)
next
  case (ProcMarkStarted j)
  with assms ahead_queries(1) [OF assms(1)] show ?thesis
    by (auto simp: run_ptask_def update_status_rows)
next
  case (ProcRequeue j)
  with assms ahead_queries(3) [OF assms(1)] show ?thesis
    by (auto simp: run_ptask_def)
next
  case ProcRecover
  with assms ahead_queries(4) [OF assms(1)] show ?thesis
    by (auto simp: run_ptask_def)
next
  case (PullStart j)
  from assms(1) have "names_ok r" if "r \<in> set (pl_rows s)" "pq_job_id r = h" for r
    using that by (auto simp: ahead_def)
  with PullStart assms show ?thesis
    by (auto simp: run_ptask_def get_item_by_job_id_def find_Some_iff split: option.splits if_splits)
next
  case (CancelApply r)
  with assms ahead_queries(5) [OF assms(1), of "pq_job_id r"] show ?thesis
    by (auto simp: run_ptask_def cancel_queue_item_def map_job_def split: if_splits)
qed (use assms in \<open>auto simp: run_ptask_def names_ok_def split: option.splits if_splits\<close>)

lemma harmless_rows:
  "harmless_task h rows t \<Longrightarrow> (t = ProcDequeue \<Longrightarrow> \<forall>r \<in> set rows'. pq_job_id r = h \<longrightarrow> r \<in> set rows) \<Longrightarrow>
    harmless_task h rows' t"
  by (cases t) auto

lemma blocked_step:
  assumes "blocked h q \<lparr>py_state = s, py_tasks = a @ t # b\<rparr>" "run_ptask dir ev t s = (ts, s')"
  shows "blocked h q \<lparr>py_state = s', py_tasks = a @ b @ ts\<rparr> \<and> starved h (pl_rows s) (pl_rows s')"
proof -
  from assms(1) have b: "ahead h q (pl_rows s)" "hm_get (pl_jobs s) h = None" "harmless_task h (pl_rows s) t"
      "list_all (harmless_task h (pl_rows s)) (a @ b)"
      "length (filter is_processor (a @ b)) = (if is_processor t then 0 else 1)"
    by (auto simp: blocked_def)
  note step = blocked_task [OF b(1-3) assms(2)]
  have "harmless_task h (pl_rows s') u" if u: "u \<in> set (a @ b)" for u
  proof (rule harmless_rows)
    show "harmless_task h (pl_rows s) u" using b(4) u by (auto simp: list_all_iff)
    assume "u = ProcDequeue"
    then have "u \<in> set (filter is_processor (a @ b))" using u by simp
    then have "\<not> is_processor t" using b(5) by (metis length_greater_0_conv length_pos_if_in_set less_irrefl)
    with step show "\<forall>r \<in> set (pl_rows s'). pq_job_id r = h \<longrightarrow> r \<in> set (pl_rows s)" by blast
  qed
  then have "list_all (harmless_task h (pl_rows s')) (a @ b)" by (simp add: list_all_iff)
  with step b(5) show ?thesis by (auto simp: blocked_def split: if_splits)
qed

lemma insert_queue_item_Some:
  "insert_queue_item k now j repo f d kd qn c rows = Some rows' \<Longrightarrow> \<exists>x. rows' = rows @ [x] \<and> pq_job_id x = j"
  by (auto simp: insert_queue_item_def split: if_splits)

lemma blocked_enqueue:
  assumes "blocked h q y" "j \<noteq> h" "q < now" "pl_rows s = pl_rows (py_state y)" "hm_get (pl_jobs s) h = None"
    and s'_def: "s' = snd (enqueue ok now j repo f d kd qn c s)"
  shows "blocked h q (y\<lparr>py_state := s'\<rparr>) \<and> starved h (pl_rows (py_state y)) (pl_rows s')"
proof -
  from assms(1) have a: "ahead h q (pl_rows s)" by (simp add: blocked_def assms(4))
  consider "pl_rows s' = pl_rows s"
    | rows where "insert_queue_item (pl_next_id s) now j repo f d kd qn c (pl_rows s) = Some rows" "pl_rows s' = rows"
    using enqueue_rows [of ok now j repo f d kd qn c s] unfolding s'_def [symmetric]
    by (cases "insert_queue_item (pl_next_id s) now j repo f d kd qn c (pl_rows s)"; cases ok) simp_all
  then have r: "ahead h q (pl_rows s') \<and> starved h (pl_rows s) (pl_rows s')
      \<and> (\<forall>r \<in> set (pl_rows s'). pq_job_id r = h \<longrightarrow> r \<in> set (pl_rows s))"
  proof cases
    case (2 rows)
    with insert_queue_item_Some [OF 2(1)] obtain x where "pl_rows s' = pl_rows s @ [x]" "pq_job_id x = j"
      by blast
    then have "\<forall>r \<in> set (pl_rows s'). pq_job_id r = h \<longrightarrow> r \<in> set (pl_rows s)"
      using assms(2) by auto
    with ahead_queries(6) [OF a assms(2,3) 2(1)] 2(2) show ?thesis by simp
  qed (use a in simp)
  have "harmless_task h (pl_rows s') u" if "u \<in> set (py_tasks y)" for u
  proof (rule harmless_rows)
    show "harmless_task h (pl_rows s) u"
      using assms(1) that unfolding blocked_def assms(4) list_all_iff by blast
    show "\<forall>r \<in> set (pl_rows s'). pq_job_id r = h \<longrightarrow> r \<in> set (pl_rows s)" using r by blast
  qed
  with r assms(1,5) show ?thesis
    by (simp add: blocked_def assms(4) list_all_iff s'_def)
qed

lemma blocked_act:
  "pact dir act y = Some y' \<Longrightarrow> blocked h q y \<Longrightarrow> leaves_alone h q act \<Longrightarrow>
    blocked h q y' \<and> starved h (pl_rows (py_state y)) (pl_rows (py_state y'))"
proof (induction dir act y rule: pact.induct)
  case (5 dir i ev y)
  then have i: "i < length (py_tasks y)" by (simp split: if_splits)
  then have "py_tasks y = take i (py_tasks y) @ py_tasks y ! i # drop (Suc i) (py_tasks y)"
    by (rule id_take_nth_drop)
  with 5(2) have b: "blocked h q \<lparr>py_state = py_state y,
      py_tasks = take i (py_tasks y) @ py_tasks y ! i # drop (Suc i) (py_tasks y)\<rparr>"
    by (simp add: blocked_def)
  obtain ts s' where r: "run_ptask dir ev (py_tasks y ! i) (py_state y) = (ts, s')" by fastforce
  with 5(1) i have "y' = \<lparr>py_state = s', py_tasks = take i (py_tasks y) @ drop (Suc i) (py_tasks y) @ ts\<rparr>"
    by simp
  with blocked_step [OF b r] show ?case by simp
next
  case (3 dir jid ok y)
  then show ?case
    by (auto simp: blocked_def cancel_check_def get_item_by_job_id_def find_Some_iff split: option.splits if_splits)
next
  case (1 dir jid repo filename display quant ctx ev y)
  then show ?case
    using blocked_enqueue [of h q y jid "en_now ev"
        "(py_state y)\<lparr>pl_jobs := hm_insert jid pull_job_new (pl_jobs (py_state y))\<rparr>", OF _ _ _ _ _ refl]
    by (auto simp: blocked_def)
next
  case (2 dir jid repo filename quant ev y)
  then show ?case
    using blocked_enqueue [of h q y jid "en_now ev" "py_state y", OF _ _ _ _ _ refl] by (auto simp: blocked_def)
qed (auto simp: blocked_def)

fun run_pacts :: "string \<Rightarrow> paction list \<Rightarrow> pull_sys \<Rightarrow> pull_sys option" where
  "run_pacts dir [] y = Some y"
| "run_pacts dir (a # as) y = Option.bind (pact dir a y) (run_pacts dir as)"

lemma blocked_run:
  "run_pacts dir as y = Some y' \<Longrightarrow> blocked h q y \<Longrightarrow> list_all (leaves_alone h q) as \<Longrightarrow>
    blocked h q y' \<and> starved h (pl_rows (py_state y)) (pl_rows (py_state y'))"
proof (induction as arbitrary: y)
  case (Cons a as)
  then obtain y1 where y1: "pact dir a y = Some y1" "run_pacts dir as y1 = Some y'"
    by (auto simp: bind_eq_Some_conv)
  with blocked_act [OF y1(1) Cons.prems(2)] Cons show ?case by (auto intro: starved_trans)
qed simp

text \<open>
  One item that the proxy holds no job for blocks the queue for ever: the processor claims
  it, its task returns without a trace, the item is queued again after ten seconds and is still
  the oldest. Whatever runs and is requested afterwards, restarts of the proxy included, as
  long as nobody cancels that very item, no other waiting item is ever downloaded.
\<close>

theorem unregistered_item_blocks_queue:
  assumes "blocked h q y" "list_all (leaves_alone h q) as" "run_pacts dir as y = Some y'"
    and "k \<noteq> h" "status_of k (pl_rows (py_state y)) = Some ''queued''"
  shows "status_of k (pl_rows (py_state y')) \<in> {Some ''queued'', Some ''cancelled''}
    \<and> status_of h (pl_rows (py_state y')) \<in> {Some ''queued'', Some ''running'', Some ''verifying''}"
proof -
  from blocked_run [OF assms(3,1,2)] have b: "blocked h q y'"
    and s: "starved h (pl_rows (py_state y)) (pl_rows (py_state y'))" by simp_all
  from s assms(4,5) have k: "status_of k (pl_rows (py_state y')) \<in> {Some ''queued'', Some ''cancelled''}"
    by (auto simp: starved_def waits_def)
  from b have a: "ahead h q (pl_rows (py_state y'))" by (simp add: blocked_def)
  then obtain r where "get_item_by_job_id h (pl_rows (py_state y')) = Some r"
    by (cases "get_item_by_job_id h (pl_rows (py_state y'))")
      (auto simp: get_item_by_job_id_def ahead_def find_None_iff)
  moreover from this have "r \<in> set (pl_rows (py_state y'))" "pq_job_id r = h"
    by (auto simp: get_item_by_job_id_def find_Some_iff)
  ultimately have "status_of h (pl_rows (py_state y')) \<in> {Some ''queued'', Some ''running'', Some ''verifying''}"
    using a by (auto simp: status_of_def ahead_def is_running_def)
  with k show ?thesis by simp
qed

section \<open>A lock nobody holds\<close>

text \<open>Without a pull host the task ends with its destination still in the in-flight set.\<close>

definition leaked :: "string \<Rightarrow> pull_sys \<Rightarrow> bool" where
  "leaked p y = (p \<in> set (pl_in_flight (py_state y)) \<and> p \<notin> snd ` set (held (py_tasks y)))"

fun no_restart :: "paction \<Rightarrow> bool" where
  "no_restart ProxyRestart = False"
| "no_restart a = True"

lemma leaked_act: "pact dir a y = Some y' \<Longrightarrow> leaked p y \<Longrightarrow> no_restart a \<Longrightarrow> leaked p y'"
proof (induction dir a y rule: pact.induct)
  case (5 dir i ev y)
  then have i: "i < length (py_tasks y)" by (simp split: if_splits)
  let ?a = "take i (py_tasks y)" and ?b = "drop (Suc i) (py_tasks y)" and ?t = "py_tasks y ! i"
  obtain ts s' where r: "run_ptask dir ev ?t (py_state y) = (ts, s')" by fastforce
  with 5(1) i have y': "y' = \<lparr>py_state = s', py_tasks = ?a @ ?b @ ts\<rparr>" by simp
  from i have "held (py_tasks y) = held (?a @ ?t # ?b)" by (simp only: id_take_nth_drop [symmetric])
  with 5(2) have l: "p \<in> set (pl_in_flight (py_state y))" "p \<notin> snd ` set (held ?a)" "p \<notin> snd ` set (held ?b)"
      "p \<notin> snd ` set (held [?t])"
    by (auto simp: leaked_def held_single split: option.splits)
  from run_ptask_lock [OF r] l(1,4) have "p \<in> set (pl_in_flight s') \<and> p \<notin> snd ` set (held ts)"
    by (auto simp: lock_step_def held_single split: option.splits)
  with l y' show ?case by (auto simp: leaked_def)
qed (auto simp: leaked_def split: option.splits)

lemma leaked_run:
  "run_pacts dir as y = Some y' \<Longrightarrow> leaked p y \<Longrightarrow> list_all no_restart as \<Longrightarrow> leaked p y'"
  by (induction as arbitrary: y) (auto simp: bind_eq_Some_conv dest: leaked_act)

text \<open>
  A download that starts while no pull host is configured fails and never releases its
  destination: until the proxy is restarted, whatever happens in between, every later download
  of the same file is refused as already in progress.
\<close>

theorem no_host_locks_path_for_good:
  assumes "preach dir y" "i < length (py_tasks y)" "py_tasks y ! i = PullDispatch r p" "en_dispatch ev = NoHost"
    and "pact dir (RunTask i ev) y = Some y1" "run_pacts dir as y1 = Some y2" "list_all no_restart as"
    and "dest_path dir r' = p"
  shows "\<exists>msg. run_pull dir ev' (PullLock r') (py_state y2) = fail_pull r' msg (py_state y2)"
proof -
  have inv: "locks_inv dir y"
    using assms(1)
  proof induction
    case pull_init
    show ?case by (simp add: pull_boot_def locks_inv_def)
  next
    case (pull_step y a y')
    then show ?case by (blast intro: locks_act)
  qed
  let ?a = "take i (py_tasks y)" and ?b = "drop (Suc i) (py_tasks y)"
  have t: "held (py_tasks y) = held ?a @ (r, p) # held ?b"
    using id_take_nth_drop [OF assms(2)] assms(3) by (metis held_simps(2,3) holds.simps(1) option.simps(5))
  from assms(2-5) have "y1 = \<lparr>py_state = fail_job (pq_job_id r) ''no pull host configured: set proxy.pull_backend'' (py_state y),
      py_tasks = ?a @ ?b @ [PullSettle (pq_job_id r) ''failed'' 0 None (Some ''no pull host configured: set proxy.pull_backend'')]\<rparr>"
    by (simp add: run_ptask_def fail_pull_def)
  with inv t have "leaked p y1" by (auto simp: leaked_def locks_inv_def)
  then have "leaked p y2" using leaked_run [OF assms(6) _ assms(7)] by blast
  with assms(8) show ?thesis by (auto simp: leaked_def)
qed

section \<open>Traces\<close>

definition demo_env :: "int \<Rightarrow> dispatch_answer \<Rightarrow> pull_env" where
  "demo_env now d = \<lparr>en_ok = True, en_now = now, en_elapsed = 0, en_prepare = Prepared,
     en_dispatch = d, en_relay = RelayBroken ''gone''\<rparr>"

definition demo_run :: "nat \<Rightarrow> int \<Rightarrow> paction" where
  "demo_run i now = RunTask i (demo_env now NoHost)"

definition claimed_trace :: "paction list" where
  "claimed_trace = SubmitPull ''j'' ''o/r'' ''f.gguf'' None None None (demo_env 0 NoHost) # map (demo_run 0) [1, 2, 3, 4]"

text \<open>
  A cancellation that arrives between the claim of an item and the write of its start is
  lost: the row is cancelled and reported as cancelled, then set to running again, and the
  download starts.
\<close>

theorem cancel_lost_at_start:
  "(case run_pacts ''/m'' (claimed_trace @ [CancelRequest ''j'' True, demo_run 1 5]) (pull_boot []) of
      None \<Rightarrow> False
    | Some y \<Rightarrow> status_of ''j'' (pl_rows (py_state y)) = Some ''cancelled''
        \<and> Cancelled ''j'' ''f.gguf'' \<in> set (pl_events (py_state y))
        \<and> (case run_pacts ''/m'' [demo_run 0 6] y of
             None \<Rightarrow> False
           | Some y' \<Rightarrow> status_of ''j'' (pl_rows (py_state y')) = Some ''running''
               \<and> PullStart ''j'' \<in> set (py_tasks y')))"
  by code_simp

lemma demo_reach: "run_pacts dir as y = Some y' \<Longrightarrow> preach dir y \<Longrightarrow> preach dir y'"
  by (induction as arbitrary: y) (auto simp: bind_eq_Some_conv intro: pull_step)

definition demo_item :: pq_item where
  "demo_item = \<lparr>pq_id = 1, pq_job_id = ''j'', pq_repo_id = ''o/r'', pq_filename = ''f.gguf'',
     pq_display_name = None, pq_status = ''running'', pq_bytes = 0, pq_total = None, pq_error = None,
     pq_started_at = Some 4, pq_completed_at = None, pq_queued_at = 0, pq_kind = ''model'',
     pq_quant = None, pq_context_length = None\<rparr>"

definition dispatch_trace :: "paction list" where
  "dispatch_trace = claimed_trace @ [demo_run 0 5, demo_run 0 6, demo_run 1 7, demo_run 1 8, demo_run 1 9]"

definition demo_state :: pull_sys where
  "demo_state = the (run_pacts ''/m'' dispatch_trace (pull_boot []))"

lemma demo_state_runs: "run_pacts ''/m'' dispatch_trace (pull_boot []) = Some demo_state"
  "py_tasks demo_state ! 1 = PullDispatch demo_item ''/m/o/r/f.gguf''"
  "1 < length (py_tasks demo_state)"
  by code_simp+

lemma demo_state_reachable: "preach ''/m'' demo_state"
  by (rule demo_reach [OF demo_state_runs(1) pull_init])


theorem queue_rows_typed_witness: "distinct (map pq_job_id (pl_rows (py_state demo_state)))"
  using queue_rows_typed [OF demo_state_reachable] by blast


definition stuck_state :: pull_sys where
  "stuck_state = the (run_pacts ''/m'' [SubmitUpdate ''u'' ''o/r'' ''f.gguf'' None (demo_env 0 NoHost),
     SubmitPull ''j'' ''o/r'' ''g.gguf'' None None None (demo_env 1 NoHost)] (pull_boot []))"

definition stuck_run :: "paction list" where
  "stuck_run = map (demo_run 0) [2, 3, 4, 5, 6] @ [ProxyRestart, demo_run 0 20000]"

theorem unregistered_item_blocks_queue_witness:
  "status_of ''j'' (pl_rows (py_state (the (run_pacts ''/m'' stuck_run stuck_state))))
     \<in> {Some ''queued'', Some ''cancelled''}"
proof -
  have a: "blocked ''u'' 0 stuck_state" "list_all (leaves_alone ''u'' 0) stuck_run"
    "status_of ''j'' (pl_rows (py_state stuck_state)) = Some ''queued''"
    "\<not> Option.is_none (run_pacts ''/m'' stuck_run stuck_state)"
    by code_simp+
  then have "run_pacts ''/m'' stuck_run stuck_state = Some (the (run_pacts ''/m'' stuck_run stuck_state))"
    by (auto simp: Option.is_none_def)
  from unregistered_item_blocks_queue [OF a(1,2) this _ a(3)] show ?thesis by simp
qed

theorem no_host_locks_path_for_good_witness:
  "\<exists>msg. run_pull ''/m'' (demo_env 9 NoHost) (PullLock demo_item)
       (py_state (the (run_pacts ''/m'' [demo_run 1 10, demo_run 1 11] demo_state)))
     = fail_pull demo_item msg (py_state (the (run_pacts ''/m'' [demo_run 1 10, demo_run 1 11] demo_state)))"
proof -
  have "\<not> Option.is_none (pact ''/m'' (RunTask 1 (demo_env 10 NoHost)) demo_state)"
    and n: "\<not> Option.is_none (run_pacts ''/m'' [demo_run 1 10, demo_run 1 11] demo_state)" by code_simp+
  then obtain y1 where y1: "pact ''/m'' (RunTask 1 (demo_env 10 NoHost)) demo_state = Some y1"
    by (auto simp: Option.is_none_def simp del: pact.simps)
  from n have "run_pacts ''/m'' [demo_run 1 10, demo_run 1 11] demo_state \<noteq> None"
    by (auto simp: Option.is_none_def simp del: pact.simps)
  with y1 have y2: "run_pacts ''/m'' [demo_run 1 11] y1
      = Some (the (run_pacts ''/m'' [demo_run 1 10, demo_run 1 11] demo_state))"
    by (auto simp: demo_run_def simp del: pact.simps)
  have "dest_path ''/m'' demo_item = ''/m/o/r/f.gguf''" "list_all no_restart [demo_run 1 11]" by code_simp+
  then show ?thesis
    using no_host_locks_path_for_good [OF demo_state_reachable demo_state_runs(3,2) _ y1 y2] 
    by (simp add: demo_env_def)
qed

end
