(* ===== verification/Download.thy ===== *)
theory Download
  imports Containers
begin

text \<open>
  Downloading one file: \<open>tamad/src/download/mod.rs\<close>, \<open>parallel.rs\<close>, \<open>single.rs\<close>. The server is a
  function from a connection, an attempt and an offset to a reply; a reply's body arrives in
  pieces and ends or breaks off. The directory is a map from names to contents. Sizes are
  naturals; \<open>range_fits\<close> shows that no product exceeds the size of the file, so the \<open>u64\<close>
  arithmetic does not wrap.
\<close>

section \<open>Plans\<close>

definition MIN_CHUNK_SIZE :: nat where "MIN_CHUNK_SIZE = 5 * 1024 * 1024"
definition MAX_RETRIES :: nat where "MAX_RETRIES = 3"

definition exponential_backoff :: "nat \<Rightarrow> nat \<Rightarrow> nat" where
  "exponential_backoff jitter attempt = min (300 + attempt ^ 2 + jitter) 10000"

definition hf_resolve_url :: "string \<Rightarrow> string \<Rightarrow> string \<Rightarrow> string" where
  "hf_resolve_url endpoint repo_id filename =
     endpoint @ ''/'' @ repo_id @ ''/resolve/main/'' @ filename"

definition parse_content_length :: "string option \<Rightarrow> nat option" where
  "parse_content_length header = Option.bind header (parse_uint (2 ^ 64))"

definition calculate_connections :: "nat \<Rightarrow> nat \<Rightarrow> nat" where
  "calculate_connections total_size max_connections =
     (if total_size \<le> MIN_CHUNK_SIZE then 1
      else max (min (total_size div MIN_CHUNK_SIZE) max_connections) 1)"

definition calculate_chunk_ranges :: "nat \<Rightarrow> nat \<Rightarrow> (nat \<times> nat) list" where
  "calculate_chunk_ranges total_size num_chunks =
     (if num_chunks = 0 \<or> total_size = 0 then []
      else (let chunk_size = total_size div num_chunks
            in map (\<lambda>i. (i * chunk_size,
                         if i = num_chunks - 1 then total_size - 1 else (i + 1) * chunk_size - 1))
                 [0..<num_chunks]))"

section \<open>Replies\<close>

text \<open>The pieces of a body, and whether it ended or broke off; the disk may fail after the headers.\<close>

datatype 'b reply = NoReply | Reply nat "'b list list" bool | DiskFails

definition is_success :: "nat \<Rightarrow> bool" where
  "is_success status = (200 \<le> status \<and> status < 300)"

section \<open>One chunk\<close>

text \<open>The data of the chunk, or an error; and the progress counter, which is never taken back.\<close>

function pull_chunk_with_retry :: "(nat \<Rightarrow> 'b reply) \<Rightarrow> nat \<Rightarrow> nat \<Rightarrow> nat \<Rightarrow> 'b list option \<times> nat" where
  "pull_chunk_with_retry srv expected_size attempt counter =
     (let a = attempt + 1;
          retry = (\<lambda>c. if a \<le> MAX_RETRIES then pull_chunk_with_retry srv expected_size a c else (None, c))
      in case srv a of
           NoReply \<Rightarrow> retry counter
         | DiskFails \<Rightarrow> (None, counter)
         | Reply status pieces ended \<Rightarrow>
             if status \<noteq> 206 then retry counter
             else
               let data = concat pieces; c = counter + length data
               in if \<not> ended then retry c
                  else if length data \<noteq> expected_size then retry c
                  else (Some data, c))"
  by auto
termination by (relation "measure (\<lambda>(srv, e, a, c). MAX_RETRIES - a)") auto

declare pull_chunk_with_retry.simps [simp del]

section \<open>Many connections\<close>

type_synonym 'b dir = "(string, 'b list) hmap"

definition tmp_path :: "string \<Rightarrow> nat \<Rightarrow> string" where
  "tmp_path dest_filename i = ''.'' @ dest_filename @ ''.part'' @ show_nat i"

definition cleanup_temp_files :: "string list \<Rightarrow> 'b dir \<Rightarrow> 'b dir" where
  "cleanup_temp_files paths d = fold hm_remove paths d"

text \<open>
  Reassembly in index order; \<open>fault n\<close> says whether the n-th piece fails to be opened or copied
  (with as many pieces as \<open>n\<close>: whether the destination fails to be created). A failure leaves
  what was written and the remaining pieces.
\<close>

fun reassemble :: "(nat \<Rightarrow> bool) \<Rightarrow> nat \<Rightarrow> string \<Rightarrow> string list \<Rightarrow> 'b dir \<Rightarrow> bool \<times> 'b dir" where
  "reassemble fault n dest [] d = (True, d)"
| "reassemble fault n dest (p # ps) d =
     (case (if fault n then None else hm_get d p) of
        None \<Rightarrow> (False, d)
      | Some data \<Rightarrow> reassemble fault (n + 1) dest ps (hm_remove p
          (hm_insert dest ((case hm_get d dest of Some old \<Rightarrow> old | None \<Rightarrow> []) @ data) d)))"

definition write_chunks :: "string list \<Rightarrow> 'b list option list \<Rightarrow> 'b dir \<Rightarrow> 'b dir" where
  "write_chunks paths chunks d =
     fold (\<lambda>(p, c) d. case c of Some data \<Rightarrow> hm_insert p data d | None \<Rightarrow> d) (zip paths chunks) d"

definition pull_parallel ::
  "(nat \<Rightarrow> nat \<Rightarrow> 'b reply) \<Rightarrow> (nat \<Rightarrow> bool) \<Rightarrow> string \<Rightarrow> nat \<Rightarrow> nat \<Rightarrow> 'b dir \<Rightarrow> bool \<times> 'b dir" where
  "pull_parallel srv fault dest total_size num_connections d =
     (if num_connections = 0 \<or> total_size < num_connections then (False, d)
      else
        let tmp_paths = map (tmp_path dest) [0..<num_connections];
            ranges = calculate_chunk_ranges total_size num_connections;
            chunks = map (\<lambda>i. fst (pull_chunk_with_retry (srv i)
                       (snd (ranges ! i) - fst (ranges ! i) + 1) 0 0)) [0..<num_connections];
            d1 = write_chunks tmp_paths chunks d
        in if None \<in> set chunks then (False, cleanup_temp_files tmp_paths d1)
           else if fault num_connections then (False, d1)
           else reassemble fault 0 dest tmp_paths (hm_insert dest [] d1))"

section \<open>One connection\<close>

text \<open>
  \<open>srv a n\<close> answers attempt \<open>a\<close>, which asks for the bytes from \<open>n\<close> on when \<open>n > 0\<close>; the file
  is absent until it is created.
\<close>

function pull_single_loop :: "(nat \<Rightarrow> nat \<Rightarrow> 'b reply) \<Rightarrow> nat \<Rightarrow> nat \<Rightarrow> 'b list option \<Rightarrow> bool \<times> 'b list option" where
  "pull_single_loop srv attempt pulled file =
     (let a = attempt + 1;
          retry = (\<lambda>n f. if a \<le> MAX_RETRIES then pull_single_loop srv a n f else (False, f))
      in case srv a pulled of
           NoReply \<Rightarrow> retry pulled file
         | DiskFails \<Rightarrow> (False, file)
         | Reply status pieces ended \<Rightarrow>
             if pulled > 0 \<and> status \<noteq> 206 then
               (if status = 200 then (False, file) else retry pulled file)
             else if pulled = 0 \<and> \<not> is_success status then retry pulled file
             else
               let data = concat pieces;
                   opened = (case file of Some old \<Rightarrow> if pulled > 0 then old else [] | None \<Rightarrow> []);
                   f = Some (opened @ data)
               in if ended then (True, f) else retry (pulled + length data) f)"
  by auto
termination by (relation "measure (\<lambda>(srv, a, n, f). MAX_RETRIES - a)") auto

declare pull_single_loop.simps [simp del]

definition pull_single :: "(nat \<Rightarrow> nat \<Rightarrow> 'b reply) \<Rightarrow> string \<Rightarrow> 'b dir \<Rightarrow> bool \<times> 'b dir" where
  "pull_single srv dest d = (case pull_single_loop srv 0 0 None of
     (ok, None) \<Rightarrow> (ok, d)
   | (ok, Some f) \<Rightarrow> (ok, hm_insert dest f d))"

section \<open>The whole download\<close>

record head_reply =
  hd_success :: bool
  hd_content_length :: "string option"
  hd_accept_ranges :: "string option"

definition pull_chunked_with_progress ::
  "head_reply option \<Rightarrow> (nat \<Rightarrow> nat \<Rightarrow> 'b reply) \<Rightarrow> (nat \<Rightarrow> nat \<Rightarrow> 'b reply) \<Rightarrow> (nat \<Rightarrow> bool) \<Rightarrow> string \<Rightarrow> nat
     \<Rightarrow> 'b dir \<Rightarrow> nat option \<times> 'b dir" where
  "pull_chunked_with_progress head ranged whole fault dest connections d =
     (case head of None \<Rightarrow> (None, d) | Some h \<Rightarrow>
        if \<not> hd_success h then (None, d)
        else (case parse_content_length (hd_content_length h) of None \<Rightarrow> (None, d) | Some total_size \<Rightarrow>
          if total_size = 0 then (None, d)
          else if map_option length (hm_get d dest) = Some total_size then (Some total_size, d)
          else
            let accept_ranges = (case hd_accept_ranges h of Some v \<Rightarrow> v | None \<Rightarrow> ''none'');
                use_chunked = (accept_ranges \<noteq> ''none'' \<and> total_size > MIN_CHUNK_SIZE);
                num_connections = (if use_chunked then calculate_connections total_size connections else 1);
                result = (if num_connections = 1 then pull_single whole dest d
                  else pull_parallel ranged fault dest total_size num_connections d)
            in (if fst result then Some total_size else None, snd result)))"

section \<open>The ranges of the chunks\<close>

lemma ranges_length [simp]: "0 < n \<Longrightarrow> 0 < t \<Longrightarrow> length (calculate_chunk_ranges t n) = n"
  by (simp add: calculate_chunk_ranges_def Let_def)

lemma ranges_nth:
  "i < n \<Longrightarrow> 0 < t \<Longrightarrow> calculate_chunk_ranges t n ! i =
    (i * (t div n), if i = n - 1 then t - 1 else (i + 1) * (t div n) - 1)"
  by (auto simp: calculate_chunk_ranges_def Let_def)

lemma range_size:
  assumes "i < n" "n \<le> t"
  shows "snd (calculate_chunk_ranges t n ! i) - fst (calculate_chunk_ranges t n ! i) + 1
    = (if i = n - 1 then t - i * (t div n) else t div n)"
proof -
  have "0 < t div n" using assms by (simp add: div_greater_zero_iff)
  moreover have "n * (t div n) \<le> t" by (simp add: times_div_less_eq_dividend)
  then have "(n - 1) * (t div n) < t" using assms \<open>0 < t div n\<close>
    by (metis diff_less le_less_trans less_one mult_less_cancel2 nat_neq_iff not_less0 zero_less_iff_neq_zero less_le_trans)
  ultimately show ?thesis using assms by (auto simp: ranges_nth)
qed

text \<open>No product of the computation exceeds the size of the file.\<close>

lemma range_fits: "i < n \<Longrightarrow> n \<le> t \<Longrightarrow> (i + 1) * (t div n) \<le> (t :: nat)"
  by (metis Suc_eq_plus1 Suc_leI mult_le_mono1 order_trans times_div_less_eq_dividend)

lemma pieces_prefix:
  "concat (map (\<lambda>i. take c (drop (i * c) xs)) [0..<m]) = take (m * c) xs"
proof (induction m)
  case (Suc m)
  have "take (Suc m * c) xs = take (m * c + c) xs" by (simp add: add.commute)
  also have "\<dots> = take (m * c) xs @ take c (drop (m * c) xs)" by (rule take_add)
  finally show ?case using Suc by simp
qed simp

lemma pieces_whole:
  assumes "0 < n" "n \<le> length xs"
  shows "concat (map (\<lambda>i. take (snd (calculate_chunk_ranges (length xs) n ! i)
        - fst (calculate_chunk_ranges (length xs) n ! i) + 1)
      (drop (fst (calculate_chunk_ranges (length xs) n ! i)) xs)) [0..<n]) = xs"
proof -
  let ?c = "length xs div n"
  have t: "0 < length xs" using assms by linarith
  have init: "map (\<lambda>i. if i = n - 1 then drop (i * ?c) xs else take ?c (drop (i * ?c) xs)) [0..<n - 1]
      = map (\<lambda>i. take ?c (drop (i * ?c) xs)) [0..<n - 1]"
    by (rule map_cong) auto
  have up: "[0..<n] = [0..<n - 1] @ [n - 1]"
    using assms(1) by (metis Suc_pred' upt_Suc_append zero_le)
  have "map (\<lambda>i. take (snd (calculate_chunk_ranges (length xs) n ! i)
        - fst (calculate_chunk_ranges (length xs) n ! i) + 1)
      (drop (fst (calculate_chunk_ranges (length xs) n ! i)) xs)) [0..<n]
    = map (\<lambda>i. if i = n - 1 then drop (i * ?c) xs else take ?c (drop (i * ?c) xs)) [0..<n]"
    by (rule map_cong [OF refl], subst range_size) (use assms t in \<open>auto simp: ranges_nth [OF _ t]\<close>)
  also have "concat \<dots> = concat (map (\<lambda>i. take ?c (drop (i * ?c) xs)) [0..<n - 1]) @ drop ((n - 1) * ?c) xs"
    unfolding up map_append concat_append init by simp
  also have "\<dots> = xs" unfolding pieces_prefix by simp
  finally show ?thesis .
qed

section \<open>Retries\<close>

text \<open>A reply ends the attempts when it is a complete chunk or the disk fails.\<close>

definition decisive :: "nat \<Rightarrow> 'b reply \<Rightarrow> bool" where
  "decisive e r = (case r of Reply st pieces ended \<Rightarrow> st = 206 \<and> ended \<and> length (concat pieces) = e
     | DiskFails \<Rightarrow> True | NoReply \<Rightarrow> False)"

definition reply_data :: "'b reply \<Rightarrow> 'b list option" where
  "reply_data r = (case r of Reply st pieces ended \<Rightarrow> Some (concat pieces) | _ \<Rightarrow> None)"

lemma decisive_simps [simp]:
  "decisive e (Reply st pieces ended) = (st = 206 \<and> ended \<and> length (concat pieces) = e)"
  "decisive e DiskFails" "\<not> decisive e NoReply"
  by (simp_all add: decisive_def)

lemma reply_data_simps [simp]: "reply_data (Reply st pieces ended) = Some (concat pieces)"
  "reply_data DiskFails = None" "reply_data NoReply = None"
  by (simp_all add: reply_data_def)

lemma chunk_retry_from:
  "a \<le> MAX_RETRIES \<Longrightarrow> fst (pull_chunk_with_retry srv e a c)
    = Option.bind (List.find (decisive e) (map srv [Suc a..<MAX_RETRIES + 2])) reply_data"
proof (induction srv e a c rule: pull_chunk_with_retry.induct)
  case (1 srv e a c)
  define rest where "rest = map srv [Suc (Suc a)..<MAX_RETRIES + 2]"
  have up: "map srv [Suc a..<MAX_RETRIES + 2] = srv (Suc a) # rest"
    using 1(2) by (simp add: rest_def upt_rec)
  define retry where "retry c = (if Suc a \<le> MAX_RETRIES then pull_chunk_with_retry srv e (Suc a) c else (None, c))" for c
  have retry: "fst (retry c) = Option.bind (List.find (decisive e) rest) reply_data" for c
  proof (cases "Suc a \<le> MAX_RETRIES")
    case True
    then show ?thesis using 1(1) [of "Suc a" c] by (simp add: retry_def rest_def)
  next
    case False
    with 1(2) have "rest = []" by (simp add: rest_def)
    with False show ?thesis by (simp add: retry_def)
  qed
  have "pull_chunk_with_retry srv e a c = (case srv (Suc a) of
       NoReply \<Rightarrow> retry c
     | DiskFails \<Rightarrow> (None, c)
     | Reply st pieces ended \<Rightarrow>
         if st \<noteq> 206 then retry c
         else if \<not> ended then retry (c + length (concat pieces))
         else if length (concat pieces) \<noteq> e then retry (c + length (concat pieces))
         else (Some (concat pieces), c + length (concat pieces)))"
    by (subst pull_chunk_with_retry.simps) (simp add: Let_def retry_def split: reply.split)
  then show ?case
    unfolding up by (cases "srv (Suc a)") (auto simp: retry)
qed

lemma chunk_retry:
  "fst (pull_chunk_with_retry srv e 0 c)
    = Option.bind (List.find (decisive e) [srv 1, srv 2, srv 3, srv 4]) reply_data"
proof -
  have "map srv [Suc 0..<MAX_RETRIES + 2] = [srv 1, srv 2, srv 3, srv 4]"
    by (simp add: MAX_RETRIES_def upt_rec numeral_eq_Suc)
  with chunk_retry_from [of 0 srv e c] show ?thesis by simp
qed

text \<open>
  The retry loop of a chunk is the search for the first decisive one of at most four
  replies: it returns the data of the first complete chunk, unless the disk fails before, and
  gives up after the fourth attempt.
\<close>

theorem chunk_retries_bounded:
  "fst (pull_chunk_with_retry srv e 0 c)
    = Option.bind (List.find (decisive e) [srv 1, srv 2, srv 3, srv 4]) reply_data"
  by (rule chunk_retry)

lemma chunk_data_from_reply:
  assumes "fst (pull_chunk_with_retry srv e 0 c) = Some data"
  shows "\<exists>a pieces. srv a = Reply 206 pieces True \<and> concat pieces = data \<and> length data = e"
proof -
  from assms obtain r where r: "List.find (decisive e) [srv 1, srv 2, srv 3, srv 4] = Some r"
    "reply_data r = Some data"
    unfolding chunk_retry by (auto simp: bind_eq_Some_conv)
  then have "decisive e r" "r \<in> {srv 1, srv 2, srv 3, srv 4}" by (auto split: if_splits)
  with r(2) show ?thesis by (auto simp: decisive_def reply_data_def split: reply.splits) metis+
qed

section \<open>Reassembly\<close>

lemma show_nat_inject: "show_nat m = show_nat n \<longleftrightarrow> m = n"
  by (metis digits_val_show_nat)

lemma tmp_path_inject [simp]: "tmp_path f i = tmp_path f j \<longleftrightarrow> i = j"
  by (simp add: tmp_path_def show_nat_inject)

lemma tmp_path_not_dest [simp]: "tmp_path f i \<noteq> f"
proof
  assume "tmp_path f i = f"
  then have "length (tmp_path f i) = length f" by simp
  then show False by (simp add: tmp_path_def)
qed

lemma hm_get_cleanup [simp]:
  "hm_get (cleanup_temp_files ps d) k = (if k \<in> set ps then None else hm_get d k)"
  unfolding cleanup_temp_files_def by (induction ps arbitrary: d) auto

lemma hm_get_write_chunks:
  "length ps = length cs \<Longrightarrow> distinct ps \<Longrightarrow> hm_get (write_chunks ps cs d) k =
    (case map_of (zip ps cs) k of Some (Some data) \<Rightarrow> Some data | _ \<Rightarrow> hm_get d k)"
  unfolding write_chunks_def
proof (induction ps cs arbitrary: d rule: list_induct2)
  case (Cons p ps c cs)
  then have n: "map_of (zip ps cs) p = None" by (auto simp: map_of_eq_None_iff dest: set_zip_leftD)
  let ?d = "(case c of Some data \<Rightarrow> hm_insert p data d | None \<Rightarrow> d)"
  have "fold (\<lambda>(p, c) d. case c of Some data \<Rightarrow> hm_insert p data d | None \<Rightarrow> d) (zip (p # ps) (c # cs)) d
      = fold (\<lambda>(p, c) d. case c of Some data \<Rightarrow> hm_insert p data d | None \<Rightarrow> d) (zip ps cs) ?d"
    by simp
  moreover have "distinct ps" using Cons.prems by simp
  ultimately show ?case using Cons.IH [of ?d] n by (cases "k = p"; cases c) (simp_all split: option.split)
qed simp

lemma reassemble_ok:
  assumes "reassemble fault n dest ps d = (True, d')" "distinct ps" "dest \<notin> set ps"
    and "hm_get d dest = Some acc"
  shows "hm_get d' dest = Some (acc @ concat (map (\<lambda>p. the (hm_get d p)) ps))
    \<and> (\<forall>k. k \<noteq> dest \<longrightarrow> hm_get d' k = (if k \<in> set ps then None else hm_get d k))"
  using assms
proof (induction ps arbitrary: n d acc)
  case (Cons p ps)
  then obtain data where p: "hm_get d p = Some data" "\<not> fault n"
    by (auto split: option.splits if_splits)
  let ?d = "hm_remove p (hm_insert dest (acc @ data) d)"
  from Cons.prems p have r: "reassemble fault (n + 1) dest ps ?d = (True, d')" by simp
  have "hm_get ?d dest = Some (acc @ data)" using Cons.prems(3) by simp
  from Cons.IH [OF r _ _ this] Cons.prems have i:
    "hm_get d' dest = Some ((acc @ data) @ concat (map (\<lambda>p. the (hm_get ?d p)) ps))"
    "\<forall>k. k \<noteq> dest \<longrightarrow> hm_get d' k = (if k \<in> set ps then None else hm_get ?d k)" by simp_all
  have m: "map (\<lambda>p. the (hm_get ?d p)) ps = map (\<lambda>p. the (hm_get d p)) ps"
    using Cons.prems(2,3) by (intro map_cong) auto
  have "hm_get d' dest = Some ((acc @ data) @ concat (map (\<lambda>p. the (hm_get d p)) ps))"
    using i(1) unfolding m .
  then show ?case using i(2) p(1) by auto
qed simp

section \<open>The file\<close>

text \<open>
  What is assumed of the server: a complete 206 body of the requested size is the requested
  range, and an accepted body on the single stream is a prefix of what was asked for, all of it
  when it ended.
\<close>

definition honest_ranged :: "(nat \<Rightarrow> nat \<Rightarrow> 'b reply) \<Rightarrow> 'b list \<Rightarrow> nat \<Rightarrow> bool" where
  "honest_ranged srv content n = (\<forall>i a pieces. i < n \<longrightarrow> srv i a = Reply 206 pieces True \<longrightarrow>
     (case calculate_chunk_ranges (length content) n ! i of (s, e) \<Rightarrow>
        length (concat pieces) = e - s + 1 \<longrightarrow> concat pieces = take (e - s + 1) (drop s content)))"

definition honest_whole :: "(nat \<Rightarrow> nat \<Rightarrow> 'b reply) \<Rightarrow> 'b list \<Rightarrow> bool" where
  "honest_whole srv content = (\<forall>a n st pieces ended. n \<le> length content \<longrightarrow> srv a n = Reply st pieces ended \<longrightarrow>
     (if n > 0 then st = 206 else is_success st) \<longrightarrow>
     (\<exists>r. drop n content = concat pieces @ r \<and> (ended \<longrightarrow> r = [])))"

lemma single_exact:
  "honest_whole srv content \<Longrightarrow> pull_single_loop srv a n fl = (True, f) \<Longrightarrow> n \<le> length content \<Longrightarrow>
    n = 0 \<or> fl = Some (take n content) \<Longrightarrow> f = Some content"
proof (induction srv a n fl rule: pull_single_loop.induct)
  case (1 srv a n fl)
  define retry where "retry n f = (if Suc a \<le> MAX_RETRIES then pull_single_loop srv (Suc a) n f else (False, f))" for n f
  have again: "f = Some content"
    if "retry m g = (True, f)" "m \<le> length content" "m = 0 \<or> g = Some (take m content)" for m g
    using that 1(1) [of "Suc a" m g] 1(2) by (auto simp: retry_def split: if_splits)
  have step: "pull_single_loop srv a n fl = (case srv (Suc a) n of
      NoReply \<Rightarrow> retry n fl | DiskFails \<Rightarrow> (False, fl)
    | Reply st pieces ended \<Rightarrow>
        if n > 0 \<and> st \<noteq> 206 then (if st = 200 then (False, fl) else retry n fl)
        else if n = 0 \<and> \<not> is_success st then retry n fl
        else let g = Some ((case fl of Some old \<Rightarrow> if n > 0 then old else [] | None \<Rightarrow> []) @ concat pieces)
             in if ended then (True, g) else retry (n + length (concat pieces)) g)"
    by (subst pull_single_loop.simps) (simp add: Let_def retry_def split: reply.split)
  show ?case
  proof (cases "srv (Suc a) n")
    case NoReply
    with step 1(3-5) again show ?thesis by simp
  next
    case DiskFails
    with step 1(3) show ?thesis by simp
  next
    case (Reply st pieces ended)
    show ?thesis
    proof (cases "if n > 0 then st = 206 else is_success st")
      case False
      with Reply step 1(3-5) again show ?thesis by (auto split: if_splits)
    next
      case True
      with 1(2,4) Reply obtain r where r: "drop n content = concat pieces @ r" "ended \<longrightarrow> r = []"
        unfolding honest_whole_def by blast
      let ?g = "Some (take n content @ concat pieces)"
      have c: "content = take n content @ concat pieces @ r" using r(1) by (metis append_take_drop_id)
      have m: "n + length (concat pieces) \<le> length content"
        using arg_cong [OF r(1), of length] 1(4) by simp
      have g: "take n content @ concat pieces = take (n + length (concat pieces)) content"
        using r(1) by (simp add: take_add)
      from True Reply step 1(3,5) have "(if ended then (True, ?g) else retry (n + length (concat pieces)) ?g) = (True, f)"
        by (cases "n = 0") (auto simp: Let_def split: option.splits)
      with again [OF _ m] g c r(2) show ?thesis by (cases ended) auto
    qed
  qed
qed

definition parts :: "string \<Rightarrow> nat \<Rightarrow> string set" where
  "parts dest n = tmp_path dest ` {..<n}"

lemma parallel_exact:
  assumes "pull_parallel srv fault dest (length content) n d = (ok, d')" "honest_ranged srv content n"
    and "0 < n" "n \<le> length content"
  shows "ok \<Longrightarrow> hm_get d' dest = Some content \<and> (\<forall>k. k \<noteq> dest \<longrightarrow> hm_get d' k = (if k \<in> parts dest n then None else hm_get d k))"
proof -
  assume ok
  let ?size = "\<lambda>i. snd (calculate_chunk_ranges (length content) n ! i) - fst (calculate_chunk_ranges (length content) n ! i) + 1"
  let ?start = "\<lambda>i. fst (calculate_chunk_ranges (length content) n ! i)"
  define chunks where "chunks = map (\<lambda>i. fst (pull_chunk_with_retry (srv i) (?size i) 0 0)) [0..<n]"
  define paths where "paths = map (tmp_path dest) [0..<n]"
  let ?d1 = "write_chunks paths chunks d"
  from assms(1,3,4) \<open>ok\<close> have all: "None \<notin> set chunks"
    and r: "reassemble fault 0 dest paths (hm_insert dest [] ?d1) = (True, d')"
    by (auto simp: pull_parallel_def Let_def chunks_def paths_def split: if_splits)
  have data: "chunks ! i = Some (take (?size i) (drop (?start i) content))" if "i < n" for i
  proof -
    from that have "fst (pull_chunk_with_retry (srv i) (?size i) 0 0) \<in> set chunks" by (simp add: chunks_def)
    with all obtain data where d: "fst (pull_chunk_with_retry (srv i) (?size i) 0 0) = Some data"
      by (metis not_None_eq)
    from chunk_data_from_reply [OF d] assms(2) that have "data = take (?size i) (drop (?start i) content)"
      unfolding honest_ranged_def by (auto split: prod.splits)
    with d that show ?thesis by (simp add: chunks_def)
  qed
  have dist: "distinct paths" by (simp add: paths_def distinct_map inj_on_def)
  have len: "length paths = length chunks" by (simp add: paths_def chunks_def)
  have written: "hm_get ?d1 (tmp_path dest i) = Some (take (?size i) (drop (?start i) content))" if "i < n" for i
  proof -
    have "map_of (zip paths chunks) (paths ! i) = Some (chunks ! i)"
      using that dist len by (intro map_of_zip_nth) (simp_all add: paths_def)
    with that data [OF that] hm_get_write_chunks [OF len dist, of d "tmp_path dest i"] show ?thesis
      by (simp add: paths_def)
  qed
  have other: "hm_get ?d1 k = hm_get d k" if "k \<notin> parts dest n" for k
  proof -
    have "map_of (zip paths chunks) k = None"
      using that len by (auto simp: map_of_zip_is_None paths_def parts_def)
    then show ?thesis by (simp add: hm_get_write_chunks [OF len dist])
  qed
  have p: "set paths = parts dest n" by (auto simp: paths_def parts_def)
  have "dest \<notin> set paths" by (auto simp: paths_def dest!: sym [of dest])
  from reassemble_ok [OF r dist this] have
    "hm_get d' dest = Some (concat (map (\<lambda>p. the (hm_get (hm_insert dest [] ?d1) p)) paths))"
    "\<forall>k. k \<noteq> dest \<longrightarrow> hm_get d' k = (if k \<in> set paths then None else hm_get (hm_insert dest [] ?d1) k)"
    by simp_all
  moreover have "map (\<lambda>p. the (hm_get (hm_insert dest [] ?d1) p)) paths
      = map (\<lambda>i. take (?size i) (drop (?start i) content)) [0..<n]"
    unfolding paths_def map_map by (rule map_cong) (use written in \<open>auto simp: paths_def\<close>)
  ultimately show ?thesis using pieces_whole [OF assms(3,4)] other p by auto
qed

text \<open>A chunk that fails for good leaves the directory without the pieces.\<close>

lemma parallel_failed:
  assumes "i < n" "n \<le> t" "calculate_chunk_ranges t n ! i = (s, e)"
    and "fst (pull_chunk_with_retry (srv i) (e - s + 1) 0 0) = None"
    and "pull_parallel srv fault dest t n d = (ok, d')"
  shows "\<not> ok \<and> hm_get d' k = (if k \<in> parts dest n then None else hm_get d k)"
proof -
  define chunks where "chunks = map (\<lambda>i. fst (pull_chunk_with_retry (srv i) (snd (calculate_chunk_ranges t n ! i)
      - fst (calculate_chunk_ranges t n ! i) + 1) 0 0)) [0..<n]"
  define paths where "paths = map (tmp_path dest) [0..<n]"
  have dist: "distinct paths" and len: "length paths = length chunks" and p: "set paths = parts dest n"
    by (auto simp: paths_def chunks_def distinct_map inj_on_def parts_def)
  have "chunks ! i = None" "i < length chunks" using assms(1,3,4) by (simp_all add: chunks_def)
  then have "None \<in> set chunks" by (metis nth_mem)
  with assms(1,2,5) have "\<not> ok" "d' = cleanup_temp_files paths (write_chunks paths chunks d)"
    by (auto simp: pull_parallel_def Let_def chunks_def paths_def)
  moreover have "k \<notin> set paths \<Longrightarrow> map_of (zip paths chunks) k = None"
    using len by (simp add: map_of_zip_is_None)
  ultimately show ?thesis using p by (auto simp: hm_get_write_chunks [OF len dist])
qed


definition demo_content :: "nat list" where
  "demo_content = [7, 8, 9]"

text \<open>A server whose first answer breaks off after one byte and whose second goes on from there.\<close>

definition demo_server :: "nat \<Rightarrow> nat \<Rightarrow> nat reply" where
  "demo_server a n = (if n = 0 then Reply 200 [take 1 demo_content] False
     else Reply 206 [drop n demo_content] True)"

definition demo_head :: head_reply where
  "demo_head = \<lparr>hd_success = True, hd_content_length = Some ''3'', hd_accept_ranges = Some ''bytes''\<rparr>"

lemma demo_honest: "honest_whole demo_server demo_content" "honest_ranged (\<lambda>i a. NoReply) demo_content n"
  by (auto simp: honest_whole_def honest_ranged_def demo_server_def demo_content_def)

lemma demo_length: "parse_content_length (hd_content_length demo_head) = Some (length demo_content)"
  by (simp add: parse_content_length_def demo_head_def demo_content_def parse_uint_def is_digit_def
      digits_val_def digit_val_def Let_def)

lemma demo_pull: "pull_chunked_with_progress (Some demo_head) (\<lambda>i a. NoReply) demo_server (\<lambda>i. False) ''m'' 4 []
    = (Some 3, [(''m'', demo_content)])"
  by (simp add: pull_chunked_with_progress_def demo_length)
    (simp add: demo_head_def demo_content_def MIN_CHUNK_SIZE_def pull_single_def demo_server_def
      pull_single_loop.simps is_success_def MAX_RETRIES_def hm_insert_def)


end
