(* ===== verification/Utf8.thy ===== *)
theory Utf8
  imports Prelude
begin

text \<open>
  UTF-8 as Rust's standard library reads it: \<^verbatim>\<open>std::str::from_utf8\<close>,
  which rejects overlong forms, surrogates and values above U+10FFFF, and
  \<^verbatim>\<open>String::from_utf8_lossy\<close>, which replaces every maximal ill-formed part by
  U+FFFD. Text is a list of code points. The facts say how the decoders behave when a
  stream of bytes arrives in pieces.
\<close>

type_synonym u8 = "8 word"
type_synonym bytes = "u8 list"
type_synonym utext = "nat list"

section \<open>One character\<close>

definition is_cont :: "u8 \<Rightarrow> bool" where
  "is_cont b \<longleftrightarrow> 0x80 \<le> b \<and> b \<le> 0xBF"

definition utf8_width :: "u8 \<Rightarrow> nat" where
  "utf8_width a = (if a < 0x80 then 1 else if a < 0xC2 then 0 else if a < 0xE0 then 2
     else if a < 0xF0 then 3 else if a < 0xF5 then 4 else 0)"

definition second_ok :: "u8 \<Rightarrow> u8 \<Rightarrow> bool" where
  "second_ok a b \<longleftrightarrow>
     (if a = 0xE0 then 0xA0 \<le> b \<and> b \<le> 0xBF
      else if a = 0xED then 0x80 \<le> b \<and> b \<le> 0x9F
      else if a = 0xF0 then 0x90 \<le> b \<and> b \<le> 0xBF
      else if a = 0xF4 then 0x80 \<le> b \<and> b \<le> 0x8F
      else is_cont b)"

text \<open>How many of the bytes after the lead byte belong to it.\<close>

fun follow_len :: "u8 \<Rightarrow> bytes \<Rightarrow> nat" where
  "follow_len a [] = 0"
| "follow_len a (b # bs) = (if second_ok a b then Suc (length (takeWhile is_cont bs)) else 0)"

definition scalar_of :: "u8 \<Rightarrow> bytes \<Rightarrow> nat" where
  "scalar_of a cs = foldl (\<lambda>acc b. acc * 64 + unat b mod 64)
     (if cs = [] then unat a else unat a mod 2 ^ (6 - length cs)) cs"

datatype utf8_head = Scalar nat bytes | Broken bytes

definition utf8_head :: "u8 \<Rightarrow> bytes \<Rightarrow> utf8_head" where
  "utf8_head a bs =
     (let n = utf8_width a in
      if n = 0 then Broken bs
      else let k = follow_len a (take (n - 1) bs) in
        if k = n - 1 then Scalar (scalar_of a (take k bs)) (drop k bs)
        else Broken (drop k bs))"

lemma utf8_head_length:
  "utf8_head a bs = Scalar c r \<Longrightarrow> length r \<le> length bs"
  "utf8_head a bs = Broken r \<Longrightarrow> length r \<le> length bs"
  by (auto simp: utf8_head_def Let_def split: if_splits)

section \<open>The decoders\<close>

function from_utf8 :: "bytes \<Rightarrow> utext option" where
  "from_utf8 [] = Some []"
| "from_utf8 (a # bs) =
     (case utf8_head a bs of
        Scalar c r \<Rightarrow> map_option ((#) c) (from_utf8 r)
      | Broken r \<Rightarrow> None)"
  by pat_completeness auto
termination
  by (relation "measure length") (auto simp: less_Suc_eq_le dest: utf8_head_length)

function from_utf8_lossy :: "bytes \<Rightarrow> utext" where
  "from_utf8_lossy [] = []"
| "from_utf8_lossy (a # bs) =
     (case utf8_head a bs of
        Scalar c r \<Rightarrow> c # from_utf8_lossy r
      | Broken r \<Rightarrow> 0xFFFD # from_utf8_lossy r)"
  by pat_completeness auto
termination
  by (relation "measure length") (auto simp: less_Suc_eq_le dest: utf8_head_length)

text \<open>The characters that are complete at the start of a byte string.\<close>

function utf8_prefix :: "bytes \<Rightarrow> utext" where
  "utf8_prefix [] = []"
| "utf8_prefix (a # bs) =
     (case utf8_head a bs of
        Scalar c r \<Rightarrow> c # utf8_prefix r
      | Broken r \<Rightarrow> [])"
  by pat_completeness auto
termination
  by (relation "measure length") (auto simp: less_Suc_eq_le dest: utf8_head_length)

section \<open>Decoding a concatenation\<close>

lemma follow_len_le: "follow_len a bs \<le> length bs"
  by (cases bs) (auto simp: length_takeWhile_le)

lemma utf8_head_Scalar_iff:
  "utf8_head a bs = Scalar c r \<longleftrightarrow>
     (\<exists>cs. bs = cs @ r \<and> utf8_width a = Suc (length cs) \<and> follow_len a cs = length cs \<and>
        c = scalar_of a cs)"
  (is "?L \<longleftrightarrow> ?R")
proof
  assume ?L
  define m where "m = utf8_width a - 1"
  have m: "follow_len a (take m bs) = m" "utf8_width a = Suc m" "c = scalar_of a (take m bs)" "r = drop m bs"
    using \<open>?L\<close> by (auto simp: utf8_head_def Let_def m_def split: if_splits)
  then have "length (take m bs) = m"
    using follow_len_le[of a "take m bs"] by simp
  then show ?R
    using m by (intro exI[of _ "take m bs"]) (simp only: append_take_drop_id simp_thms)
next
  assume ?R
  then show ?L
    by (auto simp: utf8_head_def Let_def)
qed

lemma utf8_head_append:
  "utf8_head a bs = Scalar c r \<Longrightarrow> utf8_head a (bs @ x) = Scalar c (r @ x)"
  by (auto simp: utf8_head_Scalar_iff)

lemma from_utf8_append:
  "from_utf8 p = Some t \<Longrightarrow> from_utf8 (p @ q) = map_option ((@) t) (from_utf8 q)"
proof (induction p arbitrary: t rule: from_utf8.induct)
  case 1
  then show ?case by (simp add: option.map_ident)
next
  case (2 a bs)
  obtain c r u where head: "utf8_head a bs = Scalar c r" and u: "from_utf8 r = Some u"
    and t: "t = c # u"
    using "2.prems" by (auto split: utf8_head.splits)
  show ?case
    using "2.IH"[OF head u] t by (simp add: utf8_head_append[OF head] option.map_comp comp_def)
qed

lemma from_utf8_lossy_valid: "from_utf8 p = Some t \<Longrightarrow> from_utf8_lossy p = t"
  by (induction p arbitrary: t rule: from_utf8.induct) (auto split: utf8_head.splits)

lemma from_utf8_lossy_append:
  "from_utf8 p = Some t \<Longrightarrow> from_utf8_lossy (p @ q) = t @ from_utf8_lossy q"
  by (induction p arbitrary: t rule: from_utf8.induct)
    (auto simp: utf8_head_append split: utf8_head.splits)

lemma utf8_prefix_append:
  "from_utf8 p = Some t \<Longrightarrow> utf8_prefix (p @ q) = t @ utf8_prefix q"
  by (induction p arbitrary: t rule: from_utf8.induct)
    (auto simp: utf8_head_append split: utf8_head.splits)

section \<open>A character that is cut in two\<close>

text \<open>A proper, non-empty initial part of the bytes of one character.\<close>

definition partial_char :: "bytes \<Rightarrow> bool" where
  "partial_char q \<longleftrightarrow> (\<exists>a cs ds. q = a # cs \<and> ds \<noteq> [] \<and>
     utf8_width a = Suc (length (cs @ ds)) \<and> follow_len a (cs @ ds) = length (cs @ ds))"

lemma second_ok_cont: "second_ok a b \<Longrightarrow> is_cont b"
  by (auto simp: second_ok_def is_cont_def word_le_nat_alt split: if_splits)

lemma takeWhile_full: "length (takeWhile P xs) = length xs \<longleftrightarrow> list_all P xs"
  by (induction xs) auto

lemma follow_len_full_cont:
  "follow_len a cs = length cs \<Longrightarrow> list_all is_cont cs"
  by (cases cs) (auto simp: takeWhile_full second_ok_cont split: if_splits)

lemma follow_len_prefix:
  "follow_len a (cs @ ds) = length (cs @ ds) \<Longrightarrow> follow_len a cs = length cs"
proof (cases cs)
  case (Cons b bs)
  assume full: "follow_len a (cs @ ds) = length (cs @ ds)"
  have "list_all is_cont bs"
    using follow_len_full_cont[OF full] Cons by simp
  then have "length (takeWhile is_cont bs) = length bs"
    by (simp only: takeWhile_full)
  then show ?thesis
    using Cons full by (simp split: if_splits)
qed simp

lemma lead_not_cont: "0 < utf8_width a \<Longrightarrow> \<not> is_cont a"
  by (auto simp: utf8_width_def is_cont_def word_le_nat_alt word_less_nat_alt split: if_splits)

lemma partial_char_head:
  assumes "partial_char (a # cs)"
  shows "utf8_head a cs = Broken []" and "\<not> is_cont a" and "list_all is_cont cs"
    and "utf8_head a [] = Broken []"
proof -
  obtain ds where ds: "ds \<noteq> []" "utf8_width a = Suc (length (cs @ ds))"
      "follow_len a (cs @ ds) = length (cs @ ds)"
    using assms by (auto simp: partial_char_def)
  have "follow_len a cs = length cs"
    using ds(3) by (rule follow_len_prefix)
  then show "utf8_head a cs = Broken []"
    using ds(1,2) by (simp add: utf8_head_def Let_def)
  show "\<not> is_cont a"
    using ds(2) lead_not_cont by simp
  show "list_all is_cont cs"
    using follow_len_full_cont[OF ds(3)] by simp
  show "utf8_head a [] = Broken []"
    using ds(1,2) by (simp add: utf8_head_def Let_def)
qed

lemma partial_char_undecodable: "partial_char q \<Longrightarrow> from_utf8 q = None"
  by (cases q) (auto simp: partial_char_def[of "[]"] partial_char_head(1))

lemma partial_char_prefix: "partial_char q \<Longrightarrow> utf8_prefix q = []"
  by (cases q) (auto simp: partial_char_def[of "[]"] partial_char_head(1))

lemma partial_char_lossy: "partial_char q \<Longrightarrow> from_utf8_lossy q = [0xFFFD]"
  by (cases q) (auto simp: partial_char_def[of "[]"] partial_char_head(1))

text \<open>An initial part of a well-formed string is whole characters and at most one cut one.\<close>

lemma cut_point:
  assumes "from_utf8 (b @ x) = Some u"
  shows "\<exists>p q t. b = p @ q \<and> from_utf8 p = Some t \<and> (q = [] \<or> partial_char q)"
  using assms
proof (induction b arbitrary: u rule: length_induct)
  case (1 b)
  show ?case
  proof (cases b)
    case Nil
    then show ?thesis by (intro exI[of _ "[]"]) simp
  next
    case (Cons a bs)
    obtain c r v where head: "utf8_head a (bs @ x) = Scalar c r" and v: "from_utf8 r = Some v"
      using "1.prems" Cons by (auto split: utf8_head.splits)
    obtain cs where cs: "bs @ x = cs @ r" "utf8_width a = Suc (length cs)"
        "follow_len a cs = length cs"
      using head by (auto simp: utf8_head_Scalar_iff)
    show ?thesis
    proof (cases "length cs \<le> length bs")
      case True
      then obtain r' where r': "bs = cs @ r'" "r = r' @ x"
        using cs(1) by (auto simp: append_eq_append_conv2)
      obtain p q t where pq: "r' = p @ q" "from_utf8 p = Some t" "q = [] \<or> partial_char q"
        using "1.IH"[rule_format, of r' v] v r' Cons by auto
      have "utf8_head a (cs @ p) = Scalar (scalar_of a cs) p"
        using cs by (auto simp: utf8_head_Scalar_iff)
      then have "from_utf8 (a # cs @ p) = Some (scalar_of a cs # t)"
        using pq(2) by simp
      then show ?thesis
        using pq(1,3) r'(1) Cons by (intro exI[of _ "a # cs @ p"] exI[of _ q]) auto
    next
      case False
      then obtain ds where "cs = bs @ ds" "ds \<noteq> []"
        using cs(1) by (auto simp: append_eq_append_conv2)
      then have "partial_char b"
        using cs(2,3) Cons by (auto simp: partial_char_def)
      then show ?thesis
        by (intro exI[of _ "[]"] exI[of _ b]) simp
    qed
  qed
qed

lemma from_utf8_suffix:
  assumes "from_utf8 p = Some t" and "from_utf8 (p @ q) = Some u"
  shows "\<exists>v. from_utf8 q = Some v \<and> u = t @ v"
  using assms by (auto simp: from_utf8_append)

section \<open>Encoding\<close>

text \<open>\<^verbatim>\<open>char::encode_utf8\<close>, on every code point that a Rust \<^verbatim>\<open>char\<close> can hold.\<close>

definition is_scalar :: "nat \<Rightarrow> bool" where
  "is_scalar c \<longleftrightarrow> c < 0x110000 \<and> \<not> (0xD800 \<le> c \<and> c < 0xE000)"

definition encode_char :: "nat \<Rightarrow> bytes" where
  "encode_char c =
     map of_nat (if c < 0x80 then [c]
       else if c < 0x800 then [0xC0 + c div 64, 0x80 + c mod 64]
       else if c < 0x10000 then [0xE0 + c div 64 div 64, 0x80 + c div 64 mod 64, 0x80 + c mod 64]
       else [0xF0 + c div 64 div 64 div 64, 0x80 + c div 64 div 64 mod 64,
             0x80 + c div 64 mod 64, 0x80 + c mod 64])"

definition utf8_encode :: "utext \<Rightarrow> bytes" where
  "utf8_encode t = concat (map encode_char t)"

lemma utf8_encode_simps [simp]:
  "utf8_encode [] = []" "utf8_encode (c # t) = encode_char c @ utf8_encode t"
  "utf8_encode (t @ u) = utf8_encode t @ utf8_encode u"
  by (simp_all add: utf8_encode_def)

lemma unat_u8 [simp]: "n < 256 \<Longrightarrow> unat (word_of_nat n :: u8) = n"
  by (simp add: unat_of_nat)

lemma u8_eq_iff: "n < 256 \<Longrightarrow> (word_of_nat n :: u8) = w \<longleftrightarrow> n = unat w"
  by (metis unat_u8 word_unat_eq_iff)

lemma u8_conv:
  "n < 256 \<Longrightarrow> (word_of_nat n :: u8) < w \<longleftrightarrow> n < unat w"
  "n < 256 \<Longrightarrow> (word_of_nat n :: u8) \<le> w \<longleftrightarrow> n \<le> unat w"
  "n < 256 \<Longrightarrow> w \<le> (word_of_nat n :: u8) \<longleftrightarrow> unat w \<le> n"
  by (simp_all add: word_less_nat_alt word_le_nat_alt)

lemma utf8_head_1: "c < 0x80 \<Longrightarrow> utf8_head (word_of_nat c) r = Scalar c r"
  by (simp add: utf8_head_def utf8_width_def u8_conv scalar_of_def)

lemma is_cont_of_nat: "0x80 \<le> y \<Longrightarrow> y < 0xC0 \<Longrightarrow> is_cont (word_of_nat y)"
  by (simp add: is_cont_def u8_conv)

lemma utf8_head_2:
  "0xC2 \<le> x \<Longrightarrow> x < 0xE0 \<Longrightarrow> 0x80 \<le> y \<Longrightarrow> y < 0xC0 \<Longrightarrow>
     utf8_head (word_of_nat x) (word_of_nat y # r) = Scalar (x mod 32 * 64 + y mod 64) r"
  by (simp add: utf8_head_def utf8_width_def u8_conv u8_eq_iff second_ok_def is_cont_of_nat scalar_of_def)

lemma utf8_head_3:
  "0xE0 \<le> x \<Longrightarrow> x < 0xF0 \<Longrightarrow> 0x80 \<le> y \<Longrightarrow> y < 0xC0 \<Longrightarrow> 0x80 \<le> z \<Longrightarrow> z < 0xC0 \<Longrightarrow>
     (x = 0xE0 \<Longrightarrow> 0xA0 \<le> y) \<Longrightarrow> (x = 0xED \<Longrightarrow> y \<le> 0x9F) \<Longrightarrow>
     utf8_head (word_of_nat x) (word_of_nat y # word_of_nat z # r) =
       Scalar ((x mod 16 * 64 + y mod 64) * 64 + z mod 64) r"
  by (simp add: utf8_head_def utf8_width_def u8_conv u8_eq_iff second_ok_def is_cont_of_nat scalar_of_def)

lemma utf8_head_4:
  "0xF0 \<le> x \<Longrightarrow> x < 0xF5 \<Longrightarrow> 0x80 \<le> y \<Longrightarrow> y < 0xC0 \<Longrightarrow> 0x80 \<le> z \<Longrightarrow> z < 0xC0 \<Longrightarrow>
     0x80 \<le> w \<Longrightarrow> w < 0xC0 \<Longrightarrow>
     (x = 0xF0 \<Longrightarrow> 0x90 \<le> y) \<Longrightarrow> (x = 0xF4 \<Longrightarrow> y \<le> 0x8F) \<Longrightarrow>
     utf8_head (word_of_nat x) (word_of_nat y # word_of_nat z # word_of_nat w # r) =
       Scalar (((x mod 8 * 64 + y mod 64) * 64 + z mod 64) * 64 + w mod 64) r"
  by (simp add: utf8_head_def utf8_width_def u8_conv u8_eq_iff second_ok_def is_cont_of_nat scalar_of_def)

lemma from_utf8_Scalar: "utf8_head a bs = Scalar c r \<Longrightarrow> from_utf8 (a # bs) = map_option ((#) c) (from_utf8 r)"
  by simp

lemma low_bits:
  "m < (64::nat) \<Longrightarrow> (128 + m) mod 64 = m" "m < (32::nat) \<Longrightarrow> (192 + m) mod 32 = m"
  "m < (16::nat) \<Longrightarrow> (224 + m) mod 16 = m" "m < (8::nat) \<Longrightarrow> (240 + m) mod 8 = m"
  using mod_mult_self1[of m 2 64] mod_mult_self1[of m 6 32] mod_mult_self1[of m 14 16]
    mod_mult_self1[of m 30 8]
  by (simp_all add: add.commute)

lemma from_utf8_encode_char:
  assumes "is_scalar c"
  shows "from_utf8 (encode_char c @ r) = map_option ((#) c) (from_utf8 r)"
proof -
  define k m where "k = c div 64" and "m = c mod 64"
  define k2 m2 where "k2 = k div 64" and "m2 = k mod 64"
  define k3 m3 where "k3 = k2 div 64" and "m3 = k2 mod 64"
  note defs = k_def m_def k2_def m2_def k3_def m3_def
  have c: "c = k * 64 + m" "k = k2 * 64 + m2" "k2 = k3 * 64 + m3"
    by (simp_all add: defs)
  have m: "m < 64" "m2 < 64" "m3 < 64"
    by (simp_all add: defs)
  consider "c < 0x80" | "0x80 \<le> c" "c < 0x800" | "0x800 \<le> c" "c < 0x10000" | "0x10000 \<le> c"
    by linarith
  then show ?thesis
  proof cases
    case 1
    then have "encode_char c = [word_of_nat c]"
      by (simp add: encode_char_def)
    then show ?thesis
      using from_utf8_Scalar[OF utf8_head_1[OF 1]] by simp
  next
    case 2
    then have k: "2 \<le> k" "k < 32" using c m by auto
    have "encode_char c = [word_of_nat (192 + k), word_of_nat (128 + m)]"
      using 2 by (simp add: encode_char_def defs)
    moreover have "utf8_head (word_of_nat (192 + k)) (word_of_nat (128 + m) # r) = Scalar c r"
      using utf8_head_2[of "192 + k" "128 + m" r] k m c(1) by (simp add: low_bits)
    ultimately show ?thesis
      by (simp only: from_utf8_Scalar append.simps)
  next
    case 3
    then have k: "k2 < 16" "k2 = 0 \<Longrightarrow> 32 \<le> m2" "k2 = 13 \<Longrightarrow> m2 \<le> 31"
      using 3 c(1,2) m(1,2) assms by (auto simp: is_scalar_def)
    have "encode_char c = [word_of_nat (224 + k2), word_of_nat (128 + m2), word_of_nat (128 + m)]"
      using 3 by (simp add: encode_char_def defs)
    moreover have "utf8_head (word_of_nat (224 + k2))
        (word_of_nat (128 + m2) # word_of_nat (128 + m) # r) = Scalar c r"
      using utf8_head_3[of "224 + k2" "128 + m2" "128 + m" r] k m c(1,2) by (simp only: low_bits) simp
    ultimately show ?thesis
      by (simp only: from_utf8_Scalar append.simps)
  next
    case 4
    then have k: "k3 < 5" "k3 = 0 \<Longrightarrow> 16 \<le> m3" "k3 = 4 \<Longrightarrow> m3 \<le> 15"
      using c m assms by (auto simp: is_scalar_def)
    then have k8: "k3 < 8" by simp
    have "encode_char c = [word_of_nat (240 + k3), word_of_nat (128 + m3), word_of_nat (128 + m2),
        word_of_nat (128 + m)]"
      using 4 by (simp add: encode_char_def defs)
    moreover have "utf8_head (word_of_nat (240 + k3))
        (word_of_nat (128 + m3) # word_of_nat (128 + m2) # word_of_nat (128 + m) # r) = Scalar c r"
      using utf8_head_4[of "240 + k3" "128 + m3" "128 + m2" "128 + m" r] k k8 m c
      by (simp only: low_bits) simp
    ultimately show ?thesis
      by (simp only: from_utf8_Scalar append.simps)
  qed
qed

lemma from_utf8_encode: "list_all is_scalar t \<Longrightarrow> from_utf8 (utf8_encode t @ r) = map_option ((@) t) (from_utf8 r)"
  by (induction t; cases "from_utf8 r") (simp_all add: from_utf8_encode_char)

lemma utf8_roundtrip: "list_all is_scalar t \<Longrightarrow> from_utf8 (utf8_encode t) = Some t"
  using from_utf8_encode[of t "[]"] by simp

lemma utf8_prefix_encode: "list_all is_scalar t \<Longrightarrow> utf8_prefix (utf8_encode t) = t"
  using utf8_prefix_append[OF utf8_roundtrip, of t "[]"] by simp

lemma lossy_cont:
  "list_all is_cont ds \<Longrightarrow> from_utf8_lossy (ds @ r) = replicate (length ds) 0xFFFD @ from_utf8_lossy r"
proof (induction ds)
  case (Cons d ds)
  then have "utf8_width d = 0"
    using lead_not_cont[of d] by (cases "utf8_width d") auto
  then show ?case using Cons by (simp add: utf8_head_def)
qed simp

end
