(* ===== verification/Json.thy ===== *)
theory Json
  imports Utf8 Containers "HOL-Library.Finite_Map"
begin

text \<open>
  JSON documents as \<^verbatim>\<open>serde_json::Value\<close> holds them, over an abstract type of
  numbers, with the accessors the proxy uses; the text operations of the Rust standard
  library on code points; and the terminated lines of a text that arrives in pieces. The
  parser and the printer are third-party code: a record of parameters.
\<close>

section \<open>Text\<close>

abbreviation newline :: nat where
  "newline \<equiv> 10"

definition lit :: "string \<Rightarrow> utext" where
  "lit s = map of_char s"

lemma lit_simps [simp]: "lit [] = []" "lit (c # s) = of_char c # lit s" "lit (a @ b) = lit a @ lit b"
  by (simp_all add: lit_def)

text \<open>\<^verbatim>\<open>char::is_whitespace\<close>: the Unicode property White\_Space.\<close>

definition white_space :: "nat \<Rightarrow> bool" where
  "white_space c \<longleftrightarrow> (9 \<le> c \<and> c \<le> 13) \<or> c = 32 \<or> c = 0x85 \<or> c = 0xA0 \<or> c = 0x1680 \<or>
     (0x2000 \<le> c \<and> c \<le> 0x200A) \<or> c = 0x2028 \<or> c = 0x2029 \<or> c = 0x202F \<or> c = 0x205F \<or> c = 0x3000"

definition trim_end_matches :: "('a \<Rightarrow> bool) \<Rightarrow> 'a list \<Rightarrow> 'a list" where
  "trim_end_matches P s = rev (dropWhile P (rev s))"

definition trim_end_u :: "utext \<Rightarrow> utext" where
  "trim_end_u s = trim_end_matches white_space s"

definition trim_u :: "utext \<Rightarrow> utext" where
  "trim_u s = trim_end_u (dropWhile white_space s)"

definition join_u :: "utext \<Rightarrow> utext list \<Rightarrow> utext" where
  "join_u sep ss = (case ss of [] \<Rightarrow> [] | s # rest \<Rightarrow> s @ concat (map (\<lambda>r. sep @ r) rest))"

lemma trim_end_matches_last:
  "s = [] \<or> \<not> P (last s) \<Longrightarrow> trim_end_matches P s = s"
  by (cases s rule: rev_cases) (auto simp: trim_end_matches_def)

lemma trim_u_id:
  assumes "s \<noteq> [] \<Longrightarrow> \<not> white_space (hd s) \<and> \<not> white_space (last s)"
  shows "trim_u s = s"
  using assms by (cases s) (auto simp: trim_u_def trim_end_u_def trim_end_matches_last)

section \<open>Documents\<close>

datatype 'n json =
    JNull
  | JBool bool
  | JNum 'n
  | JStr utext
  | JArr "'n json list"
  | JObj "(utext, 'n json) fmap"

definition jget :: "'n json \<Rightarrow> string \<Rightarrow> 'n json option" where
  "jget v k = (case v of JObj m \<Rightarrow> fmlookup m (lit k) | _ \<Rightarrow> None)"

definition as_str :: "'n json \<Rightarrow> utext option" where
  "as_str v = (case v of JStr s \<Rightarrow> Some s | _ \<Rightarrow> None)"

definition as_array :: "'n json \<Rightarrow> 'n json list option" where
  "as_array v = (case v of JArr xs \<Rightarrow> Some xs | _ \<Rightarrow> None)"

definition as_bool :: "'n json \<Rightarrow> bool option" where
  "as_bool v = (case v of JBool b \<Rightarrow> Some b | _ \<Rightarrow> None)"

text \<open>
  \<^verbatim>\<open>value[key] = new\<close>: sets the entry of an object, turns null into an object and
  panics on everything else.
\<close>

definition index_set :: "'n json \<Rightarrow> string \<Rightarrow> 'n json \<Rightarrow> 'n json option" where
  "index_set v k new = (case v of
       JObj m \<Rightarrow> Some (JObj (fmupd (lit k) new m))
     | JNull \<Rightarrow> Some (JObj (fmupd (lit k) new fmempty))
     | _ \<Rightarrow> None)"

definition jput :: "string \<Rightarrow> 'n json \<Rightarrow> (utext, 'n json) fmap \<Rightarrow> (utext, 'n json) fmap" where
  "jput k v m = fmupd (lit k) v m"

definition jput_opt :: "string \<Rightarrow> 'n json option \<Rightarrow> (utext, 'n json) fmap \<Rightarrow> (utext, 'n json) fmap" where
  "jput_opt k v m = (case v of Some x \<Rightarrow> jput k x m | None \<Rightarrow> m)"

lemma accessor_simps [simp]:
  "jget (JObj m) k = fmlookup m (lit k)" "jget JNull k = None" "jget (JStr s) k = None"
  "jget (JArr xs) k = None" "jget (JNum x) k = None" "jget (JBool b) k = None"
  "as_str (JStr s) = Some s" "as_str (JObj m) = None" "as_str JNull = None"
  "as_str (JArr xs) = None" "as_str (JNum x) = None" "as_str (JBool b) = None"
  "as_array (JArr xs) = Some xs" "as_bool (JBool b) = Some b"
  by (simp_all add: jget_def as_str_def as_array_def as_bool_def)

lemma as_str_SomeD: "as_str v = Some s \<Longrightarrow> v = JStr s"
  by (cases v) (auto simp: as_str_def)

text \<open>serde\_json as the proxy calls it; printing never fails on a document.\<close>

record 'n serde =
  sj_from_str :: "utext \<Rightarrow> 'n json option"
  sj_from_slice :: "bytes \<Rightarrow> 'n json option"
  sj_to_string :: "'n json \<Rightarrow> utext"
  sj_to_vec :: "'n json \<Rightarrow> bytes"
  sj_as_i64 :: "'n \<Rightarrow> 64 word option"
  sj_from_i64 :: "64 word \<Rightarrow> 'n"

section \<open>Terminated lines\<close>

fun cut_lines :: "utext \<Rightarrow> utext list \<times> utext" where
  "cut_lines [] = ([], [])"
| "cut_lines (c # cs) =
     (if c = newline then ([] # fst (cut_lines cs), snd (cut_lines cs))
      else case fst (cut_lines cs) of
          [] \<Rightarrow> ([], c # snd (cut_lines cs))
        | l # ls \<Rightarrow> ((c # l) # ls, snd (cut_lines cs)))"

fun run_lines :: "('s \<Rightarrow> utext \<Rightarrow> 's \<times> 'o list) \<Rightarrow> 's \<Rightarrow> utext list \<Rightarrow> 's \<times> 'o list" where
  "run_lines f s [] = (s, [])"
| "run_lines f s (l # ls) =
     (fst (run_lines f (fst (f s l)) ls), snd (f s l) @ snd (run_lines f (fst (f s l)) ls))"

lemma cut_lines_append:
  "cut_lines (a @ b) =
     (fst (cut_lines a) @ fst (cut_lines (snd (cut_lines a) @ b)), snd (cut_lines (snd (cut_lines a) @ b)))"
proof (induction a)
  case (Cons c a)
  let ?ca = "cut_lines a" and ?cb = "cut_lines (snd (cut_lines a) @ b)"
  show ?case
    using Cons.IH by (cases "fst ?ca") (auto split: list.splits)
qed simp

lemma cut_lines_line: "newline \<notin> set l \<Longrightarrow> cut_lines (l @ newline # r) = (l # fst (cut_lines r), snd (cut_lines r))"
  by (induction l) auto

lemma cut_lines_no_newline: "newline \<notin> set l \<Longrightarrow> cut_lines l = ([], l)"
  by (induction l) auto

lemma cut_lines_rest: "newline \<notin> set (snd (cut_lines t))"
  by (induction t) (auto split: list.splits)

lemma run_lines_append:
  "run_lines f s (a @ b) =
     (fst (run_lines f (fst (run_lines f s a)) b),
      snd (run_lines f s a) @ snd (run_lines f (fst (run_lines f s a)) b))"
  by (induction a arbitrary: s) auto

text \<open>
  A reader of lines is fed text in pieces, keeps what follows the last line end and
  handles every line as soon as it is complete. Then the pieces do not matter.
\<close>

fun feed_all :: "('s \<Rightarrow> utext \<Rightarrow> utext \<Rightarrow> ('s \<times> utext) \<times> 'o list) \<Rightarrow> 's \<times> utext \<Rightarrow> utext list \<Rightarrow> ('s \<times> utext) \<times> 'o list" where
  "feed_all feed s [] = (s, [])"
| "feed_all feed s (t # ts) =
     (let (s1, out1) = feed (fst s) (snd s) t; (s2, out2) = feed_all feed s1 ts in (s2, out1 @ out2))"

locale line_reader =
  fixes feed :: "'s \<Rightarrow> utext \<Rightarrow> utext \<Rightarrow> ('s \<times> utext) \<times> 'o list"
    and on_line :: "'s \<Rightarrow> utext \<Rightarrow> 's \<times> 'o list"
  assumes feed_lines: "newline \<notin> set buf \<Longrightarrow>
      feed s buf t = (let ls = fst (cut_lines (buf @ t)); r = run_lines on_line s ls in
        ((fst r, snd (cut_lines (buf @ t))), snd r))"
begin

lemma feed_all_lines:
  "newline \<notin> set buf \<Longrightarrow>
     feed_all feed (s, buf) ts =
       (let c = cut_lines (buf @ concat ts); r = run_lines on_line s (fst c) in ((fst r, snd c), snd r))"
proof (induction ts arbitrary: s buf)
  case Nil
  then show ?case by (simp add: cut_lines_no_newline)
next
  case (Cons t ts)
  let ?c = "cut_lines (buf @ t)" and ?r = "run_lines on_line s (fst (cut_lines (buf @ t)))"
  have "feed s buf t = ((fst ?r, snd ?c), snd ?r)"
    using feed_lines[OF Cons.prems, of s t] by (simp add: Let_def)
  then show ?case
    using Cons.IH[OF cut_lines_rest[of "buf @ t"], of "fst ?r"]
      cut_lines_append[of "buf @ t" "concat ts"]
    by (simp add: Let_def run_lines_append)
qed

lemma feed_append:
  assumes "newline \<notin> set buf"
  shows "feed s buf (t @ u) =
    (let r = feed s buf t; r' = feed (fst (fst r)) (snd (fst r)) u in (fst r', snd r @ snd r'))"
  using feed_all_lines[OF assms, of s "[t, u]"] feed_lines[OF assms, of s "t @ u"]
  by (simp add: Let_def split_beta)

lemma feed_rest: "newline \<notin> set buf \<Longrightarrow> newline \<notin> set (snd (fst (feed s buf t)))"
  by (simp add: feed_lines Let_def cut_lines_rest)

lemma feed_nothing: "newline \<notin> set buf \<Longrightarrow> feed s buf [] = ((s, buf), [])"
  by (simp add: feed_lines Let_def cut_lines_no_newline)

lemma feed_all_concat:
  "newline \<notin> set buf \<Longrightarrow> concat ts = concat ts' \<Longrightarrow>
     feed_all feed (s, buf) ts = feed_all feed (s, buf) ts'"
  by (simp add: feed_all_lines)

end

end
