(* ===== verification/Rows.thy ===== *)
theory Rows
  imports Containers
begin

text \<open>
  What the proxy knows of the running models (\<open>proxy/state/rows.rs\<close>): the processes every
  connected host reported last, as one list of rows with an index by configuration key; and
  the providers (\<open>providers/types.rs\<close>). Time is in milliseconds. The floating-point
  observations of a process are of two abstract types with the cast between them a
  parameter.
\<close>

section \<open>Providers\<close>

datatype provider_type = Local | Remote

datatype engine =
    LlamaCpp | IkLlama | TtsKokoro | CompactionEngine | DockerEngine | CustomEngine | OpenAI | AnthropicEngine

record provider =
  pv_id :: int
  pv_name :: string
  pv_type :: provider_type
  pv_engine :: engine
  pv_tamad_id :: "string option"
  pv_base_url :: "string option"
  pv_api_key :: "string option"
  pv_created_at :: int

section \<open>Processes and rows\<close>

record 'd process_info =
  pi_model_name :: string
  pi_status :: string
  pi_alive :: bool
  pi_endpoint_url :: string
  pi_pid :: int
  pi_desired :: bool
  pi_restart_count :: u32
  pi_max_restarts :: u32
  pi_spec_accept_pct :: "'d option"
  pi_spec_decoding_active :: bool
  pi_tps :: "'d option"
  pi_prompt_tps :: "'d option"
  pi_cache_hit_pct :: "'d option"
  pi_last_obs_ms :: "int option"

record 'f model_row =
  mr_key :: string
  mr_status :: string
  mr_alive :: bool
  mr_endpoint :: string
  mr_last_seen_ms :: int
  mr_pid :: int
  mr_desired :: bool
  mr_restart_count :: u32
  mr_max_restarts :: u32
  mr_spec_accept_pct :: "'f option"
  mr_spec_decoding_active :: bool
  mr_tps :: "'f option"
  mr_prompt_tps :: "'f option"
  mr_cache_hit_pct :: "'f option"
  mr_last_obs_ms :: "int option"

definition eligible_status :: "string \<Rightarrow> bool" where
  "eligible_status st \<longleftrightarrow> st = ''ready'' \<or> st = ''starting'' \<or> st = ''restarting''"

definition is_eligible :: "'d process_info \<Rightarrow> bool" where
  "is_eligible p \<longleftrightarrow> (pi_alive p \<and> eligible_status (pi_status p)) \<or> pi_status p = ''budget_exhausted''"

definition row_from :: "('d \<Rightarrow> 'f) \<Rightarrow> int \<Rightarrow> 'd process_info \<Rightarrow> 'f model_row" where
  "row_from as_f32 last_seen p =
     \<lparr>mr_key = pi_model_name p, mr_status = pi_status p, mr_alive = pi_alive p,
      mr_endpoint = pi_endpoint_url p, mr_last_seen_ms = last_seen, mr_pid = pi_pid p,
      mr_desired = pi_desired p, mr_restart_count = pi_restart_count p,
      mr_max_restarts = pi_max_restarts p,
      mr_spec_accept_pct = map_option as_f32 (pi_spec_accept_pct p),
      mr_spec_decoding_active = pi_spec_decoding_active p,
      mr_tps = map_option as_f32 (pi_tps p), mr_prompt_tps = map_option as_f32 (pi_prompt_tps p),
      mr_cache_hit_pct = map_option as_f32 (pi_cache_hit_pct p), mr_last_obs_ms = pi_last_obs_ms p\<rparr>"

text \<open>The rows in the order of their first sighting, and the position of every key.\<close>

record 'f rows =
  rw_ordered :: "'f model_row list"
  rw_by_key :: "(string, nat) hmap"

definition rows_row :: "'f rows \<Rightarrow> string \<Rightarrow> 'f model_row option" where
  "rows_row rs key = map_option (\<lambda>i. rw_ordered rs ! i) (hm_get (rw_by_key rs) key)"

definition rows_online :: "'f rows \<Rightarrow> string \<Rightarrow> bool" where
  "rows_online rs key = (case rows_row rs key of Some r \<Rightarrow> mr_alive r | None \<Rightarrow> False)"

definition ready_count :: "'f rows \<Rightarrow> nat" where
  "ready_count rs = length (filter (\<lambda>r. mr_status r = ''ready'') (rw_ordered rs))"

section \<open>Aggregation\<close>

text \<open>A host's latest frame with the time it arrived; a frame at the bound is stale.\<close>

definition LIVE_FRAME_MAX_AGE :: int where
  "LIVE_FRAME_MAX_AGE = 5000"

record 'd host_handle =
  hh_tamad_id :: string
  hh_latest :: "(int \<times> 'd process_info list) option"

definition latest_fresh :: "int \<Rightarrow> int \<Rightarrow> 'd host_handle \<Rightarrow> 'd process_info list option" where
  "latest_fresh max_age now h = (case hh_latest h of
       None \<Rightarrow> None
     | Some (at, processes) \<Rightarrow> if max 0 (now - at) < max_age then Some processes else None)"

definition add_process :: "('d \<Rightarrow> 'f) \<Rightarrow> int \<Rightarrow> 'd process_info \<Rightarrow> 'f rows \<Rightarrow> 'f rows" where
  "add_process as_f32 last_ms p rs =
     (if \<not> is_eligible p then rs
      else case hm_get (rw_by_key rs) (pi_model_name p) of
          Some i \<Rightarrow> rs\<lparr>rw_ordered := (rw_ordered rs)[i := row_from as_f32 last_ms p]\<rparr>
        | None \<Rightarrow> \<lparr>rw_ordered = rw_ordered rs @ [row_from as_f32 last_ms p],
            rw_by_key = hm_insert (pi_model_name p) (length (rw_ordered rs)) (rw_by_key rs)\<rparr>)"

definition live_processes :: "int \<Rightarrow> 'd host_handle list \<Rightarrow> 'd process_info list" where
  "live_processes now hs = concat (map (\<lambda>h. case latest_fresh LIVE_FRAME_MAX_AGE now h of
       Some ps \<Rightarrow> ps | None \<Rightarrow> []) hs)"

definition live_rows :: "('d \<Rightarrow> 'f) \<Rightarrow> int \<Rightarrow> int \<Rightarrow> 'd host_handle list \<Rightarrow> 'f rows" where
  "live_rows as_f32 last_ms now hs =
     fold (add_process as_f32 last_ms) (live_processes now hs) \<lparr>rw_ordered = [], rw_by_key = []\<rparr>"

section \<open>One row per key\<close>

definition rows_inv :: "'f rows \<Rightarrow> bool" where
  "rows_inv rs \<longleftrightarrow> distinct (map mr_key (rw_ordered rs)) \<and>
     (\<forall>k i. hm_get (rw_by_key rs) k = Some i \<longleftrightarrow> i < length (rw_ordered rs) \<and> mr_key (rw_ordered rs ! i) = k)"

lemma row_from_key [simp]: "mr_key (row_from f t p) = pi_model_name p"
  by (simp add: row_from_def)

lemma map_key_update:
  "i < length xs \<Longrightarrow> mr_key (xs ! i) = mr_key r \<Longrightarrow> map mr_key (xs[i := r]) = map mr_key xs"
  by (metis list_update_id map_update)

lemma add_process_inv:
  assumes "rows_inv rs"
  shows "rows_inv (add_process f t p rs)"
proof (cases "is_eligible p")
  case True
  show ?thesis
  proof (cases "hm_get (rw_by_key rs) (pi_model_name p)")
    case None
    then have "pi_model_name p \<notin> set (map mr_key (rw_ordered rs))"
      using assms unfolding rows_inv_def by (metis in_set_conv_nth length_map nth_map option.distinct(1))
    then have "i < length (rw_ordered rs) \<Longrightarrow> mr_key (rw_ordered rs ! i) \<noteq> pi_model_name p" for i
      by (metis length_map nth_map nth_mem)
    then show ?thesis
      using assms True None
      by (auto simp: rows_inv_def add_process_def nth_append less_Suc_eq in_set_conv_nth split: if_splits) blast
  next
    case (Some i)
    then have i: "i < length (rw_ordered rs)" "mr_key (rw_ordered rs ! i) = pi_model_name p"
      using assms by (auto simp: rows_inv_def)
    then have "map mr_key ((rw_ordered rs)[i := row_from f t p]) = map mr_key (rw_ordered rs)"
      by (intro map_key_update) simp_all
    moreover have "j < length (rw_ordered rs) \<Longrightarrow>
        mr_key ((rw_ordered rs)[i := row_from f t p] ! j) = mr_key (rw_ordered rs ! j)" for j
      using i by (cases "i = j") simp_all
    moreover have "add_process f t p rs = rs\<lparr>rw_ordered := (rw_ordered rs)[i := row_from f t p]\<rparr>"
      using True Some by (simp add: add_process_def)
    ultimately show ?thesis
      using assms by (auto simp: rows_inv_def)
  qed
qed (use assms in \<open>simp add: add_process_def\<close>)

lemma fold_add_process_inv: "rows_inv rs \<Longrightarrow> rows_inv (fold (add_process f t) ps rs)"
  by (induction ps arbitrary: rs) (simp_all add: add_process_inv)

lemma add_process_row:
  assumes "rows_inv rs"
  shows "rows_row (add_process f t p rs) k =
    (if is_eligible p \<and> pi_model_name p = k then Some (row_from f t p) else rows_row rs k)"
proof (cases "is_eligible p")
  case True
  have bound: "hm_get (rw_by_key rs) k = Some j \<Longrightarrow> j < length (rw_ordered rs) \<and> mr_key (rw_ordered rs ! j) = k" for k j
    using assms by (simp add: rows_inv_def)
  show ?thesis
  proof (cases "hm_get (rw_by_key rs) (pi_model_name p)")
    case None
    have "hm_get (rw_by_key rs) k = Some j \<Longrightarrow> (rw_ordered rs @ [row_from f t p]) ! j = rw_ordered rs ! j" for j
      using bound by (simp add: nth_append)
    then show ?thesis
      using True None by (cases "hm_get (rw_by_key rs) k") (simp_all add: rows_row_def add_process_def)
  next
    case (Some i)
    note i = bound[OF Some]
    have "hm_get (rw_by_key rs) k = Some j \<Longrightarrow> k \<noteq> pi_model_name p \<Longrightarrow> j \<noteq> i" for j
      using bound[of k j] i by auto
    then show ?thesis
      using True Some i
      by (cases "hm_get (rw_by_key rs) k"; cases "k = pi_model_name p")
        (simp_all add: rows_row_def add_process_def)
  qed
qed (simp add: add_process_def)

lemma fold_add_process_row:
  "rows_inv rs \<Longrightarrow> rows_row (fold (add_process f t) ps rs) k =
     (case List.find (\<lambda>p. is_eligible p \<and> pi_model_name p = k) (rev ps) of
        Some p \<Rightarrow> Some (row_from f t p) | None \<Rightarrow> rows_row rs k)"
  by (induction ps rule: rev_induct) (simp_all add: add_process_row fold_add_process_inv)

lemma rows_empty [simp]:
  "rows_inv \<lparr>rw_ordered = [], rw_by_key = []\<rparr>" "rows_row \<lparr>rw_ordered = [], rw_by_key = []\<rparr> k = None"
  by (simp_all add: rows_inv_def rows_row_def)

lemma rows_row_in: "rows_inv rs \<Longrightarrow> rows_row rs k = Some r \<Longrightarrow> r \<in> set (rw_ordered rs) \<and> mr_key r = k"
  by (auto simp: rows_inv_def rows_row_def)

lemma rows_row_of: "rows_inv rs \<Longrightarrow> r \<in> set (rw_ordered rs) \<Longrightarrow> rows_row rs (mr_key r) = Some r"
  unfolding rows_inv_def rows_row_def in_set_conv_nth by auto

lemma live_rows_inv: "rows_inv (live_rows f t now hs)"
  unfolding live_rows_def by (rule fold_add_process_inv) simp

text \<open>C13. The aggregate of all hosts has at most one row per model, found under its key: the
  one of the last eligible process that a fresh frame reports, later hosts before earlier
  ones. The list of all rows holds exactly these.\<close>

theorem live_rows_exact:
  "rows_row (live_rows f t now hs) k =
     map_option (row_from f t)
       (List.find (\<lambda>p. is_eligible p \<and> pi_model_name p = k) (rev (live_processes now hs))) \<and>
   distinct (map mr_key (rw_ordered (live_rows f t now hs))) \<and>
   (r \<in> set (rw_ordered (live_rows f t now hs)) \<longleftrightarrow> rows_row (live_rows f t now hs) (mr_key r) = Some r)"
proof (intro conjI)
  show "rows_row (live_rows f t now hs) k = map_option (row_from f t)
       (List.find (\<lambda>p. is_eligible p \<and> pi_model_name p = k) (rev (live_processes now hs)))"
    by (simp add: live_rows_def fold_add_process_row split: option.split)
  show "distinct (map mr_key (rw_ordered (live_rows f t now hs)))"
    using live_rows_inv[of f t now hs] by (simp add: rows_inv_def)
  show "r \<in> set (rw_ordered (live_rows f t now hs)) \<longleftrightarrow> rows_row (live_rows f t now hs) (mr_key r) = Some r"
    using rows_row_in[OF live_rows_inv] rows_row_of[OF live_rows_inv] by blast
qed

end
