(* ===== verification/Forward.thy ===== *)
theory Forward
  imports Json Rows
begin

text \<open>
  Forwarding a request to a model's server and its answer back
  (\<^verbatim>\<open>tama-core/src/proxy/forward\<close>): the header filters, the rewritten bodies, the
  relay of an event stream line by line, the counters and every answer the proxy gives in
  the server's place. A header map is the list of its entries in iteration order, names in
  lower case; which values are readable is the HTTP library's word and a parameter. The
  telemetry that is sent besides is in the last section.
\<close>

section \<open>Headers\<close>

type_synonym headers = "(string \<times> string) list"

definition REQUEST_SKIP_HEADERS :: "string list" where
  "REQUEST_SKIP_HEADERS = [''connection'', ''keep-alive'', ''proxy-authenticate'', ''proxy-authorization'',
     ''te'', ''transfer-encoding'', ''upgrade'', ''trailer'', ''host'', ''content-length'']"

definition RESPONSE_SKIP_HEADERS :: "string list" where
  "RESPONSE_SKIP_HEADERS = [''connection'', ''keep-alive'', ''proxy-authenticate'', ''proxy-authorization'',
     ''te'', ''transfer-encoding'', ''upgrade'', ''trailer'', ''content-length'']"

text \<open>The request's headers are inserted, the answer's appended.\<close>

definition filter_request_headers :: "(string \<Rightarrow> bool) \<Rightarrow> headers \<Rightarrow> headers" where
  "filter_request_headers readable hs =
     fold (\<lambda>(k, v) acc. if k \<notin> set REQUEST_SKIP_HEADERS \<and> readable v then hm_insert k v acc else acc) hs []"

definition strip_response_headers :: "(string \<Rightarrow> bool) \<Rightarrow> headers \<Rightarrow> headers" where
  "strip_response_headers readable hs =
     filter (\<lambda>(k, v). k \<notin> set RESPONSE_SKIP_HEADERS \<and> readable v) hs"

fun contains_sub :: "string \<Rightarrow> string \<Rightarrow> bool" where
  "contains_sub pat [] = (pat = [])"
| "contains_sub pat (c # s) = (starts_with (c # s) pat \<or> contains_sub pat s)"

definition is_event_stream :: "(string \<Rightarrow> bool) \<Rightarrow> headers \<Rightarrow> bool" where
  "is_event_stream readable hs = (case map_of hs ''content-type'' of
       Some v \<Rightarrow> readable v \<and> contains_sub ''text/event-stream'' v | None \<Rightarrow> False)"

section \<open>Bodies\<close>

definition normalize_reasoning_effort_body :: "'n json \<Rightarrow> bool \<times> 'n json" where
  "normalize_reasoning_effort_body body =
     (if Option.bind (jget body ''reasoning_effort'') as_str = Some (lit ''off'')
      then (True, (case index_set body ''reasoning_effort'' (JStr (lit ''none'')) of Some b \<Rightarrow> b | None \<Rightarrow> body))
      else (False, body))"

text \<open>None: the assignment to the entry of a value that is no object panics.\<close>

definition rewrite_json_model_name :: "'n json \<Rightarrow> string option \<Rightarrow> 'n json option" where
  "rewrite_json_model_name json model_name = (case model_name of
       Some name \<Rightarrow> if name \<noteq> [] then index_set json ''model'' (JStr (lit name)) else Some json
     | None \<Rightarrow> Some json)"

definition include_usage :: "'n json option \<Rightarrow> 'n json" where
  "include_usage stream_options = (case stream_options of
       None \<Rightarrow> JObj (jput ''include_usage'' (JBool True) fmempty)
     | Some (JObj opts) \<Rightarrow> JObj (jput ''include_usage'' (JBool True) opts)
     | Some other \<Rightarrow> other)"

definition rewrite_request :: "bool \<Rightarrow> bool \<Rightarrow> string option \<Rightarrow> 'n json \<Rightarrow> 'n json" where
  "rewrite_request langfuse chat_path model_name body =
     (case snd (normalize_reasoning_effort_body body) of
        JObj m \<Rightarrow>
          (let m1 = (case model_name of
                 Some name \<Rightarrow> if name \<noteq> [] then jput ''model'' (JStr (lit name)) m else m
               | None \<Rightarrow> m)
           in JObj (if langfuse \<and> chat_path \<and> Option.bind (fmlookup m1 (lit ''stream'')) as_bool = Some True
                then jput ''stream_options'' (include_usage (fmlookup m1 (lit ''stream_options''))) m1 else m1))
      | other \<Rightarrow> other)"

definition body_to_send :: "'n serde \<Rightarrow> bool \<Rightarrow> bool \<Rightarrow> string option \<Rightarrow> bytes \<Rightarrow> bytes" where
  "body_to_send S langfuse chat_path model_name body = (case sj_from_slice S body of
       Some v \<Rightarrow> sj_to_vec S (rewrite_request langfuse chat_path model_name v)
     | None \<Rightarrow> body)"

section \<open>Event streams\<close>

text \<open>A whole line with its line end; None is the panic of the assignment.\<close>

definition process_sse_line :: "'n serde \<Rightarrow> string option \<Rightarrow> utext \<Rightarrow> utext option" where
  "process_sse_line S model_name line =
     (case strip_prefix (lit ''data: '') line of
        None \<Rightarrow> Some line
      | Some data_content \<Rightarrow>
          (let trimmed = trim_end_u data_content
           in if trimmed = lit ''[DONE]'' then Some line
           else case sj_from_str S trimmed of
               None \<Rightarrow> Some line
             | Some v \<Rightarrow> (case rewrite_json_model_name v model_name of
                   None \<Rightarrow> None
                 | Some v' \<Rightarrow> Some (lit ''data: '' @ sj_to_string S v' @ [newline]))))"

text \<open>The loop over the characters of a piece, with the unfinished line.\<close>

fun relay_chars :: "'n serde \<Rightarrow> string option \<Rightarrow> utext \<Rightarrow> utext \<Rightarrow> utext \<times> utext option list" where
  "relay_chars S m line_buf [] = (line_buf, [])"
| "relay_chars S m line_buf (ch # chs) =
     (if ch = newline then
        (let r = relay_chars S m [] chs in (fst r, process_sse_line S m (line_buf @ [ch]) # snd r))
      else relay_chars S m (line_buf @ [ch]) chs)"

datatype relayed = Sent utext | Failed | Panicked

text \<open>
  One piece of the answer: it is decoded on its own, and a panic in one of its lines loses
  the lines before it. After a panic the stream is gone; an error of the server's connection
  is passed on and the stream goes on to be asked.
\<close>

fun relay_stream :: "'n serde \<Rightarrow> string option \<Rightarrow> utext \<Rightarrow> bytes option list \<Rightarrow> relayed list" where
  "relay_stream S m line_buf [] = []"
| "relay_stream S m line_buf (None # items) = Failed # relay_stream S m line_buf items"
| "relay_stream S m line_buf (Some chunk # items) =
     (let r = relay_chars S m line_buf (from_utf8_lossy chunk)
      in if None \<in> set (snd r) then [Panicked]
         else Sent (concat (List.map_filter id (snd r))) # relay_stream S m (fst r) items)"

section \<open>One request\<close>

text \<open>What the server answers: nothing, or a status, headers and the pieces of a body.\<close>

datatype upstream = NoAnswer bool | Responded nat headers "bytes option list"

datatype client_body = ErrorBody string | Whole bytes | Stream "relayed list" | Crash

record outgoing =
  og_method :: string
  og_url :: string
  og_headers :: headers
  og_body :: bytes

record client_reply =
  cr_status :: nat
  cr_headers :: headers
  cr_body :: client_body

record counters =
  ct_total :: "64 word"
  ct_successful :: "64 word"
  ct_failed :: "64 word"

definition is_success :: "nat \<Rightarrow> bool" where
  "is_success status \<longleftrightarrow> 200 \<le> status \<and> status < 300"

definition split_query :: "string \<Rightarrow> string \<times> string" where
  "split_query pq = (takeWhile (\<lambda>c. c \<noteq> CHR ''?'') pq, tl (dropWhile (\<lambda>c. c \<noteq> CHR ''?'') pq))"

definition target_of :: "string \<Rightarrow> string \<Rightarrow> string" where
  "target_of backend_url pq =
     (let (path, query) = split_query pq
      in backend_url @ path @ (if query = [] then [] else CHR ''?'' # query))"

definition ends_with :: "string \<Rightarrow> string \<Rightarrow> bool" where
  "ends_with s suf = starts_with (rev s) (rev suf)"

definition reply_body :: "'n serde \<Rightarrow> string option \<Rightarrow> bytes option list \<Rightarrow> client_body" where
  "reply_body S model_name pieces =
     (if None \<in> set pieces then ErrorBody ''BadGatewayError''
      else let body = concat (List.map_filter id pieces) in
        case sj_from_slice S body of
          None \<Rightarrow> Whole body
        | Some parsed \<Rightarrow> (case rewrite_json_model_name parsed model_name of
              None \<Rightarrow> Crash | Some v \<Rightarrow> Whole (sj_to_vec S v)))"

definition error_reply :: "nat \<Rightarrow> string \<Rightarrow> client_reply" where
  "error_reply status kind = \<lparr>cr_status = status, cr_headers = [], cr_body = ErrorBody kind\<rparr>"

definition answer_reply ::
  "'n serde \<Rightarrow> (string \<Rightarrow> bool) \<Rightarrow> string option \<Rightarrow> nat \<Rightarrow> headers \<Rightarrow> bytes option list \<Rightarrow> client_reply" where
  "answer_reply S readable model_name status hs pieces =
     (if is_event_stream readable hs then
        \<lparr>cr_status = status, cr_headers = strip_response_headers readable hs,
         cr_body = Stream (relay_stream S model_name [] pieces)\<rparr>
      else case reply_body S model_name pieces of
          ErrorBody kind \<Rightarrow> error_reply 502 kind
        | body \<Rightarrow> \<lparr>cr_status = status, cr_headers = strip_response_headers readable hs, cr_body = body\<rparr>)"

record client_request =
  rt_method :: string
  rt_path_and_query :: "string option"
  rt_headers :: headers
  rt_body :: bytes

text \<open>The inference statistics of a backend go when its server cannot be reached.\<close>

definition forward_request ::
  "'n serde \<Rightarrow> (string \<Rightarrow> bool) \<Rightarrow> bool \<Rightarrow> 'g rows \<Rightarrow> (outgoing \<Rightarrow> upstream) \<Rightarrow> string \<Rightarrow> client_request
     \<Rightarrow> string option \<Rightarrow> counters \<times> (string, 'i) hmap
     \<Rightarrow> client_reply \<times> outgoing option \<times> counters \<times> (string, 'i) hmap" where
  "forward_request S readable langfuse rs send backend_name req model_name st =
     (let counted = (fst st)\<lparr>ct_total := ct_total (fst st) + 1\<rparr>; stats = snd st
      in case rows_row rs backend_name of
          None \<Rightarrow> (error_reply 502 ''BackendUrlError'', None, counted, stats)
        | Some row \<Rightarrow>
           if mr_endpoint row = [] then (error_reply 502 ''BackendUrlError'', None, counted, stats)
           else case rt_path_and_query req of
              None \<Rightarrow> (error_reply 400 ''BadRequestError'', None, counted, stats)
            | Some pq \<Rightarrow>
               (let out = \<lparr>og_method = rt_method req, og_url = target_of (mr_endpoint row) pq,
                    og_headers = filter_request_headers readable (rt_headers req),
                    og_body = body_to_send S langfuse (ends_with (fst (split_query pq)) ''/chat/completions'')
                      model_name (rt_body req)\<rparr>
                in case send out of
                   NoAnswer unreachable \<Rightarrow>
                     (error_reply 502 ''BadGatewayError'', Some out,
                      counted\<lparr>ct_failed := ct_failed counted + 1\<rparr>,
                      if unreachable then hm_remove backend_name stats else stats)
                 | Responded status hs pieces \<Rightarrow>
                     (answer_reply S readable model_name status hs pieces, Some out,
                      (if is_success status then counted\<lparr>ct_successful := ct_successful counted + 1\<rparr>
                       else counted\<lparr>ct_failed := ct_failed counted + 1\<rparr>), stats)))"

end
