(* ===== verification/Anthropic.thy ===== *)
theory Anthropic
  imports Json
begin

text \<open>
  The translation between OpenAI and Anthropic chat requests
  (\<^verbatim>\<open>tama-core/src/proxy/remote/anthropic.rs\<close>): the request and response bodies,
  single stream events, and the task that turns an Anthropic event stream, arriving in
  arbitrary pieces of bytes, into OpenAI chunks. The lemmas show that the pieces do not
  matter, whatever character they cut.
\<close>

section \<open>Request bodies\<close>

datatype translate_error = MessagesMissing | MessagesEmpty

text \<open>The loop over the messages: system texts to one list, all others to the other.\<close>

fun split_system :: "'n json list \<Rightarrow> utext list \<Rightarrow> 'n json list \<Rightarrow> utext list \<times> 'n json list" where
  "split_system [] sys others = (sys, others)"
| "split_system (msg # msgs) sys others =
     (if Option.bind (jget msg ''role'') as_str = Some (lit ''system'')
      then (case Option.bind (jget msg ''content'') as_str of
            Some content \<Rightarrow> split_system msgs (sys @ [content]) others
          | None \<Rightarrow> split_system msgs sys others)
      else split_system msgs sys (others @ [msg]))"

definition anthropic_message :: "'n json \<Rightarrow> 'n json" where
  "anthropic_message msg =
     (let role = (case Option.bind (jget msg ''role'') as_str of Some r \<Rightarrow> r | None \<Rightarrow> lit ''user'');
          content = (case jget msg ''content'' of Some c \<Rightarrow> c | None \<Rightarrow> JStr [])
      in JObj (jput ''content'' content (jput ''role'' (JStr role) fmempty)))"

definition translate_request_body :: "'n json \<Rightarrow> translate_error + 'n json" where
  "translate_request_body body =
     (case Option.bind (jget body ''messages'') as_array of
        None \<Rightarrow> Inl MessagesMissing
      | Some messages \<Rightarrow>
          if messages = [] then Inl MessagesEmpty
          else
            let (sys, others) = split_system messages [] [];
                b0 = jput_opt ''model'' (jget body ''model'') fmempty;
                b1 = (if sys = [] then b0
                      else jput ''system'' (JStr (join_u [newline, newline] sys)) b0);
                b2 = jput ''messages'' (JArr (map anthropic_message others)) b1;
                b3 = jput_opt ''temperature'' (jget body ''temperature'') b2;
                b4 = jput_opt ''max_tokens'' (jget body ''max_tokens'') b3;
                b5 = jput_opt ''stream'' (jget body ''stream'') b4
            in Inr (JObj b5))"

section \<open>Response bodies\<close>

definition finish_reason_of :: "utext \<Rightarrow> string" where
  "finish_reason_of r =
     (if r = lit ''end_turn'' \<or> r = lit ''stop'' then ''stop''
      else if r = lit ''max_tokens'' then ''length''
      else if r = lit ''tool_use'' then ''tool_calls''
      else ''stop'')"

definition num_as_i64 :: "'n serde \<Rightarrow> 'n json \<Rightarrow> 64 word option" where
  "num_as_i64 S v = (case v of JNum x \<Rightarrow> sj_as_i64 S x | _ \<Rightarrow> None)"

definition token_count :: "'n serde \<Rightarrow> 'n json \<Rightarrow> string \<Rightarrow> 64 word" where
  "token_count S u k = (case Option.bind (jget u k) (num_as_i64 S) of Some x \<Rightarrow> x | None \<Rightarrow> 0)"

definition translate_usage :: "'n serde \<Rightarrow> 'n json \<Rightarrow> 'n json" where
  "translate_usage S u =
     JObj (jput ''total_tokens''
         (JNum (sj_from_i64 S (token_count S u ''input_tokens'' + token_count S u ''output_tokens'')))
       (jput_opt ''completion_tokens'' (jget u ''output_tokens'')
         (jput_opt ''prompt_tokens'' (jget u ''input_tokens'') fmempty)))"

definition or_text :: "utext \<Rightarrow> 'n json option \<Rightarrow> utext" where
  "or_text d v = (case Option.bind v as_str of Some s \<Rightarrow> s | None \<Rightarrow> d)"

definition first_element :: "'n json \<Rightarrow> 'n json option" where
  "first_element v = (case as_array v of Some (x # _) \<Rightarrow> Some x | _ \<Rightarrow> None)"

text \<open>
  The identifier (a fresh UUID) and the time are arguments. The sum of the two counts is
  computed in 64 bits and wraps.
\<close>

definition translate_response_body :: "'n serde \<Rightarrow> utext \<Rightarrow> 64 word \<Rightarrow> 'n json \<Rightarrow> 'n json" where
  "translate_response_body S uuid now body =
     (let model = or_text [] (jget body ''model'');
          content = or_text [] (Option.bind (Option.bind (jget body ''content'') first_element)
            (\<lambda>block. jget block ''text''));
          stop_reason = or_text (lit ''stop'') (jget body ''stop_reason'');
          usage = map_option (translate_usage S) (jget body ''usage'');
          message = JObj (jput ''content'' (JStr content) (jput ''role'' (JStr (lit ''assistant'')) fmempty));
          choice = JObj (jput ''finish_reason'' (JStr (lit (finish_reason_of stop_reason)))
            (jput ''message'' message (jput ''index'' (JNum (sj_from_i64 S 0)) fmempty)))
      in JObj (jput_opt ''usage'' usage
           (jput ''choices'' (JArr [choice])
           (jput ''model'' (JStr model)
           (jput ''created'' (JNum (sj_from_i64 S now))
           (jput ''object'' (JStr (lit ''chat.completion''))
           (jput ''id'' (JStr (lit ''chatcmpl-'' @ uuid)) fmempty)))))))"

section \<open>Stream events\<close>

definition sse_frame :: "utext \<Rightarrow> utext" where
  "sse_frame payload = lit ''data: '' @ payload @ [newline, newline]"

definition done_frame :: utext where
  "done_frame = sse_frame (lit ''[DONE]'')"

definition delta_chunk :: "'n serde \<Rightarrow> utext \<Rightarrow> 'n json" where
  "delta_chunk S text =
     JObj (jput ''choices'' (JArr [JObj
         (jput ''delta'' (JObj (jput ''content'' (JStr text) fmempty))
         (jput ''index'' (JNum (sj_from_i64 S 0)) fmempty))]) fmempty)"

definition finish_chunk :: "'n serde \<Rightarrow> string \<Rightarrow> 'n json" where
  "finish_chunk S reason =
     JObj (jput ''choices'' (JArr [JObj
         (jput ''finish_reason'' (JStr (lit reason))
         (jput ''delta'' (JObj (jput ''content'' JNull fmempty))
         (jput ''index'' (JNum (sj_from_i64 S 0)) fmempty)))]) fmempty)"

definition translate_stream_event :: "'n serde \<Rightarrow> utext \<Rightarrow> 'n json \<Rightarrow> utext option" where
  "translate_stream_event S event data =
     (if event = lit ''content_block_delta'' then
        (case Option.bind (Option.bind (jget data ''delta'') (\<lambda>d. jget d ''text'')) as_str of
           None \<Rightarrow> None
         | Some text \<Rightarrow> Some (sse_frame (sj_to_string S (delta_chunk S text))))
      else if event = lit ''message_delta'' then
        (let stop_reason = or_text (lit ''end_turn'')
               (Option.bind (jget data ''delta'') (\<lambda>d. jget d ''stop_reason''))
         in Some (sse_frame (sj_to_string S (finish_chunk S (finish_reason_of stop_reason)))))
      else if event = lit ''message_stop'' then Some done_frame
      else None)"

section \<open>The stream task\<close>

text \<open>
  Bytes to text: a whole buffer that is well-formed is taken at once. Otherwise trailing
  continuation bytes are skipped and the longest well-formed initial part before them is
  taken; the rest waits for the next piece.
\<close>

fun cont_end :: "bytes \<Rightarrow> nat \<Rightarrow> nat" where
  "cont_end bs 0 = 0"
| "cont_end bs (Suc n) = (if is_cont (bs ! n) then cont_end bs n else Suc n)"

fun shrink_to_valid :: "bytes \<Rightarrow> nat \<Rightarrow> utext \<times> bytes" where
  "shrink_to_valid bs 0 = ([], bs)"
| "shrink_to_valid bs (Suc n) =
     (case from_utf8 (take (Suc n) bs) of
        Some valid \<Rightarrow> (valid, drop (Suc n) bs)
      | None \<Rightarrow> shrink_to_valid bs n)"

definition take_text :: "bytes \<Rightarrow> utext \<times> bytes" where
  "take_text byte_buffer =
     (case from_utf8 byte_buffer of
        Some valid \<Rightarrow> (valid, [])
      | None \<Rightarrow> shrink_to_valid byte_buffer (cont_end byte_buffer (length byte_buffer)))"

text \<open>One line; the state is the current event and its pending data.\<close>

definition on_line :: "'n serde \<Rightarrow> utext \<times> utext \<Rightarrow> utext \<Rightarrow> (utext \<times> utext) \<times> utext list" where
  "on_line S st line0 =
     (let line = trim_end_matches (\<lambda>c. c = 13) line0; (event, data) = st in
      if line = [] then
        (([], []),
         if event \<noteq> [] \<and> data \<noteq> [] then
           (case sj_from_str S data of
              Some v \<Rightarrow> (case translate_stream_event S event v of Some t \<Rightarrow> [t] | None \<Rightarrow> [])
            | None \<Rightarrow> [])
         else [])
      else case strip_prefix (lit ''event: '') line of
          Some name \<Rightarrow> ((trim_u name, data), [])
        | None \<Rightarrow>
            (case strip_prefix (lit ''data: '') line of
               Some d \<Rightarrow> ((event, trim_u d), [])
             | None \<Rightarrow> ((event, data), [])))"

text \<open>The loop over the complete lines of the text buffer.\<close>

function process_lines :: "'n serde \<Rightarrow> utext \<times> utext \<Rightarrow> utext \<Rightarrow> ((utext \<times> utext) \<times> utext) \<times> utext list" where
  "process_lines S st buffer =
     (let line = takeWhile (\<lambda>c. c \<noteq> newline) buffer in
      if length line < length buffer then
        let (st1, out1) = on_line S st line;
            (r, out2) = process_lines S st1 (drop (Suc (length line)) buffer)
        in (r, out1 @ out2)
      else ((st, buffer), []))"
  by pat_completeness auto
termination
  by (relation "measure (\<lambda>(S, st, buffer). length buffer)") auto

declare process_lines.simps [simp del]

record stream_state =
  ss_bytes :: bytes
  ss_buffer :: utext
  ss_event :: "utext \<times> utext"

definition initial_stream :: stream_state where
  "initial_stream = \<lparr>ss_bytes = [], ss_buffer = [], ss_event = ([], [])\<rparr>"

definition on_chunk :: "'n serde \<Rightarrow> stream_state \<Rightarrow> bytes \<Rightarrow> stream_state \<times> utext list" where
  "on_chunk S st chunk =
     (let (text, rest) = take_text (ss_bytes st @ chunk);
          ((ev, buffer), out) = process_lines S (ss_event st) (ss_buffer st @ text)
      in (\<lparr>ss_bytes = rest, ss_buffer = buffer, ss_event = ev\<rparr>, out))"

text \<open>The pieces of the response body; None is a transport error, which ends the loop.\<close>

fun run_chunks :: "'n serde \<Rightarrow> stream_state \<Rightarrow> bytes option list \<Rightarrow> stream_state \<times> utext list" where
  "run_chunks S st [] = (st, [])"
| "run_chunks S st (None # items) = (st, [])"
| "run_chunks S st (Some chunk # items) =
     (let (st1, out1) = on_chunk S st chunk; (st2, out2) = run_chunks S st1 items in (st2, out1 @ out2))"

definition translate_stream :: "'n serde \<Rightarrow> bytes option list \<Rightarrow> utext list" where
  "translate_stream S items = snd (run_chunks S initial_stream items) @ [done_frame]"

section \<open>Pieces do not matter\<close>

lemma drop_Suc_takeWhile:
  "length (takeWhile P b) < length b \<Longrightarrow>
     b = takeWhile P b @ b ! length (takeWhile P b) # drop (Suc (length (takeWhile P b))) b \<and>
     \<not> P (b ! length (takeWhile P b))"
  by (metis id_take_nth_drop nth_length_takeWhile takeWhile_eq_take)

lemma process_lines_cut:
  "process_lines S st b =
     (let ls = fst (cut_lines b); r = run_lines (on_line S) st ls in ((fst r, snd (cut_lines b)), snd r))"
proof (induction S st b rule: process_lines.induct)
  case (1 S st b)
  let ?line = "takeWhile (\<lambda>c. c \<noteq> newline) b"
  show ?case
  proof (cases "length ?line < length b")
    case True
    let ?rest = "drop (Suc (length ?line)) b"
    have n: "b ! length ?line = newline"
      using drop_Suc_takeWhile[OF True] by simp
    have "b = ?line @ newline # ?rest"
      using drop_Suc_takeWhile[OF True, THEN conjunct1] unfolding n .
    moreover have "newline \<notin> set ?line"
      by (auto dest: set_takeWhileD)
    ultimately have "cut_lines b = (?line # fst (cut_lines ?rest), snd (cut_lines ?rest))"
      by (metis cut_lines_line)
    then show ?thesis
      using True "1.IH"[OF refl True refl prod.collapse]
      by (subst process_lines.simps) (simp add: Let_def split_beta)
  next
    case False
    then have "?line = b"
      by (metis length_takeWhile_le linorder_not_less nat_less_le takeWhile_eq_take take_all)
    then have "newline \<notin> set b"
      by (metis (full_types) set_takeWhileD)
    then show ?thesis
      using False by (subst process_lines.simps) (simp add: Let_def cut_lines_no_newline)
  qed
qed

interpretation anthropic_lines: line_reader "\<lambda>st buf t. process_lines S st (buf @ t)" "on_line S" for S
  by unfold_locales (rule process_lines_cut)

lemma cont_end_partial:
  assumes "\<not> is_cont a" and "list_all is_cont cs"
  shows "cont_end (p @ a # cs) (length (p @ a # cs)) = Suc (length p)"
proof -
  have "cont_end (p @ a # cs) (Suc (length p) + n) = Suc (length p)" if "n \<le> length cs" for n
    using that assms by (induction n) (auto simp: nth_append list_all_length)
  from this[of "length cs"] show ?thesis by simp
qed

lemma take_text_cut:
  assumes "from_utf8 p = Some t" and "q = [] \<or> partial_char q"
  shows "take_text (p @ q) = (t, q)"
proof (cases "q = []")
  case True
  then show ?thesis using assms by (simp add: take_text_def)
next
  case False
  then obtain a cs where q: "q = a # cs" and part: "partial_char (a # cs)"
    using assms(2) by (cases q) auto
  have none: "from_utf8 (p @ q) = None" "from_utf8 (p @ [a]) = None"
    using assms(1) partial_char_undecodable[OF part] partial_char_head(4)[OF part]
    by (simp_all add: q from_utf8_append)
  have "cont_end (p @ q) (length (p @ q)) = Suc (length p)"
    unfolding q using partial_char_head(2,3)[OF part] by (rule cont_end_partial)
  moreover have "shrink_to_valid (p @ q) (length p) = (t, q)"
    using assms(1) by (cases p) simp_all
  ultimately show ?thesis
    using none by (simp add: take_text_def q)
qed

lemma run_chunks_text:
  assumes "from_utf8 (q @ concat cs @ missing) = Some u" and "q = [] \<or> partial_char q"
    and "newline \<notin> set buf"
  shows "\<exists>q' p t. run_chunks S \<lparr>ss_bytes = q, ss_buffer = buf, ss_event = ev\<rparr> (map Some cs) =
      (let r = process_lines S ev (buf @ utf8_prefix (q @ concat cs)) in
        (\<lparr>ss_bytes = q', ss_buffer = snd (fst r), ss_event = fst (fst r)\<rparr>, snd r)) \<and>
      q @ concat cs = p @ q' \<and> from_utf8 p = Some t \<and> (q' = [] \<or> partial_char q')"
  using assms
proof (induction cs arbitrary: q buf ev u)
  case Nil
  have "utf8_prefix q = []"
    using Nil.prems(2) partial_char_prefix by auto
  then show ?case
    using Nil.prems(2) anthropic_lines.feed_nothing[OF Nil.prems(3), of S ev]
    by (intro exI[of _ q] exI[of _ "[]"]) simp
next
  case (Cons c cs)
  have "from_utf8 ((q @ c) @ (concat cs @ missing)) = Some u"
    using Cons.prems(1) by simp
  then obtain p q' t where pq: "q @ c = p @ q'" "from_utf8 p = Some t" "q' = [] \<or> partial_char q'"
    using cut_point by blast
  have joined: "q @ concat (c # cs) = p @ q' @ concat cs"
    using pq(1) by (metis append.assoc concat.simps(2))
  then have "from_utf8 (p @ (q' @ concat cs @ missing)) = Some u"
    using Cons.prems(1) by (metis append.assoc concat.simps(2))
  then obtain v where v: "from_utf8 (q' @ concat cs @ missing) = Some v"
    using from_utf8_suffix[OF pq(2)] by blast
  let ?r = "process_lines S ev (buf @ t)"
  obtain q2 p2 t2 where ih:
    "run_chunks S \<lparr>ss_bytes = q', ss_buffer = snd (fst ?r), ss_event = fst (fst ?r)\<rparr> (map Some cs) =
      (let r = process_lines S (fst (fst ?r)) (snd (fst ?r) @ utf8_prefix (q' @ concat cs)) in
        (\<lparr>ss_bytes = q2, ss_buffer = snd (fst r), ss_event = fst (fst r)\<rparr>, snd r))"
    "q' @ concat cs = p2 @ q2" "from_utf8 p2 = Some t2" "q2 = [] \<or> partial_char q2"
    using Cons.IH[OF v pq(3) anthropic_lines.feed_rest[OF Cons.prems(3), of S ev t]] by blast
  have prefix: "utf8_prefix (q @ concat (c # cs)) = t @ utf8_prefix (q' @ concat cs)"
    using utf8_prefix_append[OF pq(2), of "q' @ concat cs"] by (simp only: joined)
  have step: "on_chunk S \<lparr>ss_bytes = q, ss_buffer = buf, ss_event = ev\<rparr> c =
      (\<lparr>ss_bytes = q', ss_buffer = snd (fst ?r), ss_event = fst (fst ?r)\<rparr>, snd ?r)"
    by (simp add: on_chunk_def pq(1) take_text_cut[OF pq(2,3)] split_beta)
  have "run_chunks S \<lparr>ss_bytes = q, ss_buffer = buf, ss_event = ev\<rparr> (map Some (c # cs)) =
      (let r = process_lines S ev (buf @ utf8_prefix (q @ concat (c # cs))) in
        (\<lparr>ss_bytes = q2, ss_buffer = snd (fst r), ss_event = fst (fst r)\<rparr>, snd r))"
    using anthropic_lines.feed_append[OF Cons.prems(3), of S ev t "utf8_prefix (q' @ concat cs)"]
    unfolding prefix by (simp add: step ih(1) Let_def)
  moreover have "q @ concat (c # cs) = (p @ p2) @ q2"
    using joined ih(2) by simp
  moreover have "from_utf8 (p @ p2) = Some (t @ t2)"
    using from_utf8_append[OF pq(2)] ih(3) by simp
  ultimately show ?case
    using ih(4) by blast
qed

lemma run_chunks_stop:
  "run_chunks S st (map Some cs @ None # later) = run_chunks S st (map Some cs)"
  by (induction cs arbitrary: st) simp_all

lemma run_chunks_append:
  "run_chunks S st (map Some cs @ items) =
     (let r = run_chunks S st (map Some cs); r' = run_chunks S (fst r) items in (fst r', snd r @ snd r'))"
  by (induction cs arbitrary: st) (simp_all add: Let_def split_beta)

lemma translate_stream_text:
  assumes "from_utf8 (concat chunks @ missing) = Some whole"
  shows "translate_stream S (map Some chunks) =
    snd (run_lines (on_line S) ([], []) (fst (cut_lines (utf8_prefix (concat chunks))))) @ [done_frame]"
  using run_chunks_text[of "[]" chunks missing whole "[]" S "([], [])"] assms
  by (auto simp: translate_stream_def initial_stream_def process_lines_cut Let_def)

text \<open>C3. Whatever the pieces in which the bytes of an Anthropic event stream arrive, and
  wherever the connection breaks, even inside a character: the client receives the
  translation of the complete lines of the complete characters, in order, and the end mark.\<close>

theorem stream_chunking:
  assumes "from_utf8 (concat chunks @ missing) = Some whole"
    and "rest = [] \<or> hd rest = None"
  shows "translate_stream S (map Some chunks @ rest) =
    snd (run_lines (on_line S) ([], []) (fst (cut_lines (utf8_prefix (concat chunks))))) @ [done_frame]"
proof -
  have "run_chunks S initial_stream (map Some chunks @ rest) = run_chunks S initial_stream (map Some chunks)"
    using assms(2) by (cases rest) (auto simp: run_chunks_stop)
  then show ?thesis
    using translate_stream_text[OF assms(1)] by (simp add: translate_stream_def)
qed

section \<open>A byte that no character contains\<close>

lemma no_lead_undecodable: "utf8_width b = 0 \<Longrightarrow> from_utf8 (b # x) = None"
  by (simp add: utf8_head_def)

lemma no_lead_keeps_all:
  assumes "utf8_width b = 0"
  shows "take_text (b # x) = ([], b # x)"
proof -
  have "shrink_to_valid (b # x) n = ([], b # x)" for n
    using assms by (induction n) (simp_all add: utf8_head_def)
  then show ?thesis
    using assms by (simp add: take_text_def utf8_head_def)
qed

lemma no_lead_mutes:
  assumes "utf8_width b = 0" and "newline \<notin> set buf"
  shows "snd (run_chunks S \<lparr>ss_bytes = b # x, ss_buffer = buf, ss_event = ev\<rparr> items) = []"
proof (induction items arbitrary: x)
  case (Cons i items)
  have "process_lines S ev buf = ((ev, buf), [])"
    using anthropic_lines.feed_nothing[OF assms(2), of S ev] by simp
  then show ?case
    using Cons.IH by (cases i) (simp_all add: on_chunk_def no_lead_keeps_all[OF assms(1)] split_beta)
qed simp

text \<open>One byte that can start no UTF-8 character, at the start of a piece, silences the
  stream for good: everything the provider sends afterwards is withheld, and the client still
  receives the mark of a regular end.\<close>

theorem invalid_byte_mutes_stream:
  assumes "from_utf8 (concat chunks) = Some whole" and "utf8_width b = 0"
  shows "translate_stream S (map Some chunks @ Some (b # q) # later) = translate_stream S (map Some chunks)"
proof -
  obtain q' p t where run: "run_chunks S initial_stream (map Some chunks) =
      (let r = process_lines S ([], []) (utf8_prefix (concat chunks)) in
        (\<lparr>ss_bytes = q', ss_buffer = snd (fst r), ss_event = fst (fst r)\<rparr>, snd r))"
    and pq: "concat chunks = p @ q'" "from_utf8 p = Some t" "q' = [] \<or> partial_char q'"
    using run_chunks_text[of "[]" chunks "[]" whole "[]" S "([], [])"] assms(1)
    by (auto simp: initial_stream_def)
  have "q' = []"
    using assms(1) pq from_utf8_suffix[OF pq(2), of q' whole] partial_char_undecodable by auto
  moreover have "newline \<notin> set (snd (fst (process_lines S ([], []) (utf8_prefix (concat chunks)))))"
    using anthropic_lines.feed_rest[of "[]" S "([], [])" "utf8_prefix (concat chunks)"] by simp
  ultimately show ?thesis
    using no_lead_mutes[OF assms(2)] anthropic_lines.feed_nothing
    by (simp add: translate_stream_def run_chunks_append run Let_def on_chunk_def
        no_lead_keeps_all[OF assms(2)] split_beta process_lines_cut cut_lines_no_newline)
qed

section \<open>From provider to client\<close>

text \<open>An event as the provider writes it, and a payload that is a printed object.\<close>

definition event_text :: "string \<Rightarrow> utext \<Rightarrow> utext" where
  "event_text event payload =
     lit ''event: '' @ lit event @ [newline] @ lit ''data: '' @ payload @ [newline, newline]"

definition prints :: "'n serde \<Rightarrow> utext \<Rightarrow> 'n json \<Rightarrow> bool" where
  "prints S d v \<longleftrightarrow> sj_from_str S d = Some v \<and> newline \<notin> set d \<and> d \<noteq> [] \<and>
     hd d = of_char (CHR ''{'') \<and> last d = of_char (CHR ''}'')"

definition delta_text :: "'n json \<Rightarrow> utext option" where
  "delta_text v = Option.bind (Option.bind (jget v ''delta'') (\<lambda>d. jget d ''text'')) as_str"

lemma prints_trim: "prints S d v \<Longrightarrow> trim_u d = d"
  by (rule trim_u_id) (simp add: prints_def white_space_def)

lemma cut_lines_event:
  "newline \<notin> set (lit event) \<Longrightarrow> prints S d v \<Longrightarrow>
     fst (cut_lines (event_text event d @ r)) =
       [lit ''event: '' @ lit event, lit ''data: '' @ d, []] @ fst (cut_lines r)"
  using cut_lines_line[of "lit ''event: '' @ lit event" "lit ''data: '' @ d @ newline # newline # r"]
    cut_lines_line[of "lit ''data: '' @ d" "newline # r"]
  by (simp add: event_text_def prints_def)

lemma on_event_line:
  assumes "trim_u e = e" and "e \<noteq> []" and "last e \<noteq> 13"
  shows "on_line S st (lit ''event: '' @ e) = ((e, snd st), [])"
proof -
  have "trim_end_matches (\<lambda>c. c = 13) (lit ''event: '' @ e) = lit ''event: '' @ e"
    using assms by (intro trim_end_matches_last) simp
  then show ?thesis
    using assms(1) strip_prefix_append[of "lit ''event: ''" e]
    by (simp add: on_line_def split_beta del: strip_prefix_append)
qed

lemma on_data_line:
  assumes "prints S d v"
  shows "on_line S st (lit ''data: '' @ d) = ((fst st, d), [])"
proof -
  have "trim_end_matches (\<lambda>c. c = 13) (lit ''data: '' @ d) = lit ''data: '' @ d"
    using assms by (intro trim_end_matches_last) (simp add: prints_def)
  then show ?thesis
    using prints_trim[OF assms] by (simp add: on_line_def split_beta)
qed

lemma on_blank_line:
  "e \<noteq> [] \<Longrightarrow> prints S d v \<Longrightarrow>
     on_line S (e, d) [] = (([], []), case translate_stream_event S e v of Some t \<Rightarrow> [t] | None \<Rightarrow> [])"
  by (simp add: on_line_def trim_end_matches_def prints_def)

lemma run_event:
  assumes "event \<in> {''content_block_delta'', ''message_delta'', ''message_stop''}" and "prints S d v"
  shows "run_lines (on_line S) st [lit ''event: '' @ lit event, lit ''data: '' @ d, []] =
    (([], []), case translate_stream_event S (lit event) v of Some t \<Rightarrow> [t] | None \<Rightarrow> [])"
proof -
  have "trim_u (lit event) = lit event" "lit event \<noteq> []" "last (lit event) \<noteq> 13"
    using assms(1) by (auto simp: trim_u_id white_space_def)
  then show ?thesis
    using on_event_line[of "lit event" S st] on_data_line[OF assms(2), of "(lit event, snd st)"]
      on_blank_line[OF _ assms(2), of "lit event"]
    by (simp del: lit_simps)
qed

lemma event_no_newline:
  "event \<in> {''content_block_delta'', ''message_delta'', ''message_stop''} \<Longrightarrow> newline \<notin> set (lit event)"
  by auto

lemma delta_event:
  "delta_text v = Some t \<Longrightarrow>
     translate_stream_event S (lit ''content_block_delta'') v = Some (sse_frame (sj_to_string S (delta_chunk S t)))"
  by (simp add: translate_stream_event_def delta_text_def)

lemma run_event_text:
  assumes "event \<in> {''content_block_delta'', ''message_delta'', ''message_stop''}" and "prints S d v"
  shows "run_lines (on_line S) st (fst (cut_lines (event_text event d @ r))) =
    (let rest = run_lines (on_line S) ([], []) (fst (cut_lines r)) in
      (fst rest, (case translate_stream_event S (lit event) v of Some t \<Rightarrow> [t] | None \<Rightarrow> []) @ snd rest))"
  using run_event[OF assms, of st] cut_lines_event[OF event_no_newline[OF assms(1)] assms(2), of r]
  by (simp only: run_lines_append) (simp add: Let_def)

definition demo_delta :: "nat json" where
  "demo_delta = JObj (jput ''delta'' (JObj (jput ''text'' (JStr (lit ''Hi'')) fmempty)) fmempty)"

definition demo_serde :: "nat serde" where
  "demo_serde = \<lparr>sj_from_str = (\<lambda>t. if t = lit ''{}'' then Some (JObj fmempty)
       else if t = lit ''{Hi}'' then Some demo_delta else None),
     sj_from_slice = (\<lambda>_. None), sj_to_string = (\<lambda>_. lit ''{}''), sj_to_vec = (\<lambda>_. []),
     sj_as_i64 = (\<lambda>n. Some (of_nat n)), sj_from_i64 = unat\<rparr>"

lemma e_acute: "encode_char 0xE9 = [0xC3, 0xA9]"
  by (simp add: encode_char_def)

theorem stream_chunking_witness:
  "translate_stream demo_serde (map Some
      [utf8_encode (lit ''event: message_stop'' @ newline # lit '': '') @ [0xC3],
       0xA9 # utf8_encode (newline # lit ''data: {}'' @ [newline, newline])] @ [None]) =
   [done_frame, done_frame]"
proof -
  define t :: utext where "t = lit ''event: message_stop'' @ newline # (lit '': '' @ [0xE9]) @ newline # lit ''data: {}'' @ newline # [] @ newline # []"
  define chunks where "chunks = [utf8_encode (lit ''event: message_stop'' @ newline # lit '': '') @ [0xC3],
       0xA9 # utf8_encode (newline # lit ''data: {}'' @ [newline, newline])]"
  have whole: "concat chunks = utf8_encode t"
    unfolding chunks_def t_def
    by (simp only: concat.simps utf8_encode_simps e_acute append.simps append_Nil2 append_assoc)
  have scalar: "list_all is_scalar t"
    by (simp add: t_def is_scalar_def)
  have "from_utf8 (concat chunks @ []) = Some t"
    unfolding whole append_Nil2 using scalar by (rule utf8_roundtrip)
  note run = stream_chunking[OF this, of "[None]" demo_serde]
  have pr: "prints demo_serde (lit ''{}'') (JObj fmempty)"
    by (simp add: prints_def demo_serde_def)
  have stop: "trim_u (lit ''message_stop'') = lit ''message_stop''" "lit ''message_stop'' \<noteq> []"
      "last (lit ''message_stop'') \<noteq> 13"
    by (auto simp: trim_u_id white_space_def)
  have comment: "on_line demo_serde st (lit '': '' @ [0xE9]) = (st, [])" for st
    by (simp add: on_line_def trim_end_matches_def split_beta)
  have n: "newline \<notin> set (lit ''event: message_stop'')" "newline \<notin> set (lit '': '' @ [0xE9])"
      "newline \<notin> set (lit ''data: {}'')" "newline \<notin> set []"
    by auto
  have lines: "fst (cut_lines t) = [lit ''event: '' @ lit ''message_stop'', lit '': '' @ [0xE9],
      lit ''data: '' @ lit ''{}'', []]"
    unfolding t_def cut_lines_line[OF n(1)] cut_lines_line[OF n(2)] cut_lines_line[OF n(3)]
      cut_lines_line[OF n(4)] by simp
  have "snd (run_lines (on_line demo_serde) ([], []) (fst (cut_lines t))) = [done_frame]"
    unfolding lines run_lines.simps on_event_line[OF stop] comment on_data_line[OF pr] fst_conv snd_conv
      on_blank_line[OF stop(2) pr]
    by (simp add: translate_stream_event_def)
  then have "translate_stream demo_serde (map Some chunks @ [None]) = [done_frame, done_frame]"
    using run unfolding whole utf8_prefix_encode[OF scalar] by simp
  then show ?thesis
    unfolding chunks_def .
qed

theorem invalid_byte_mutes_stream_witness:
  "translate_stream demo_serde (map Some [utf8_encode (lit ''data'')] @ Some (0xFF # []) #
      [Some (utf8_encode (event_text ''message_stop'' (lit ''{}'')))]) =
    translate_stream demo_serde (map Some [utf8_encode (lit ''data'')])"
proof (rule invalid_byte_mutes_stream)
  have "from_utf8 (utf8_encode (lit ''data'')) = Some (lit ''data'')"
    by (rule utf8_roundtrip) (simp add: is_scalar_def)
  then show "from_utf8 (concat [utf8_encode (lit ''data'')]) = Some (lit ''data'')"
    by (simp only: concat.simps append_Nil2)
  show "utf8_width 0xFF = 0"
    by (simp add: utf8_width_def)
qed

text \<open>A complete reply reaches the client: every text delta once and in order, whatever
  the pieces it arrives in, then the reason of its end, and then the end mark twice.\<close>

theorem reply_relayed:
  assumes parts: "list_all (\<lambda>(d, v, t). prints S d v \<and> delta_text v = Some t) parts"
    and fd: "prints S fd fv" and sd: "prints S sd sv"
    and whole: "from_utf8 (concat chunks) =
      Some (concat (map (\<lambda>(d, v, t). event_text ''content_block_delta'' d) parts) @
        event_text ''message_delta'' fd @ event_text ''message_stop'' sd)"
  shows "translate_stream S (map Some chunks) =
    map (\<lambda>(d, v, t). sse_frame (sj_to_string S (delta_chunk S t))) parts @
    [sse_frame (sj_to_string S (finish_chunk S (finish_reason_of (or_text (lit ''end_turn'')
       (Option.bind (jget fv ''delta'') (\<lambda>d. jget d ''stop_reason'')))))), done_frame, done_frame]"
proof -
  have deltas: "snd (run_lines (on_line S) ([], []) (fst (cut_lines
      (concat (map (\<lambda>(d, v, t). event_text ''content_block_delta'' d) ps) @ r)))) =
      map (\<lambda>(d, v, t). sse_frame (sj_to_string S (delta_chunk S t))) ps @
      snd (run_lines (on_line S) ([], []) (fst (cut_lines r)))"
    if "list_all (\<lambda>(d, v, t). prints S d v \<and> delta_text v = Some t) ps" for ps r
    using that by (induction ps)
      (auto simp: run_event_text Let_def delta_event simp del: lit_simps)
  have "utf8_prefix (concat chunks) = concat (map (\<lambda>(d, v, t). event_text ''content_block_delta'' d) parts) @
      event_text ''message_delta'' fd @ event_text ''message_stop'' sd"
    using utf8_prefix_append[OF whole, of "[]"] by simp
  moreover have "snd (run_lines (on_line S) ([], []) (fst (cut_lines
      (event_text ''message_delta'' fd @ event_text ''message_stop'' sd @ [])))) =
      [sse_frame (sj_to_string S (finish_chunk S (finish_reason_of (or_text (lit ''end_turn'')
       (Option.bind (jget fv ''delta'') (\<lambda>d. jget d ''stop_reason'')))))), done_frame]"
    using run_event_text[OF _ fd, of "''message_delta''" "([], [])" "event_text ''message_stop'' sd @ []"]
      run_event_text[OF _ sd, of "''message_stop''" "([], [])" "[]"]
    by (simp add: Let_def translate_stream_event_def)
  moreover have "translate_stream S (map Some chunks) =
      snd (run_lines (on_line S) ([], []) (fst (cut_lines (utf8_prefix (concat chunks))))) @ [done_frame]"
    by (rule translate_stream_text[of chunks "[]"]) (simp only: append_Nil2 whole)
  ultimately show ?thesis
    using deltas[OF parts] by simp
qed

theorem reply_relayed_witness:
  "translate_stream demo_serde (map Some [utf8_encode
      (event_text ''content_block_delta'' (lit ''{Hi}'') @ event_text ''message_delta'' (lit ''{}'') @
       event_text ''message_stop'' (lit ''{}''))]) =
    [sse_frame (lit ''{}''), sse_frame (lit ''{}''), done_frame, done_frame]"
proof -
  let ?t = "event_text ''content_block_delta'' (lit ''{Hi}'') @ event_text ''message_delta'' (lit ''{}'') @
       event_text ''message_stop'' (lit ''{}'')"
  have pr: "prints demo_serde (lit ''{}'') (JObj fmempty)" "prints demo_serde (lit ''{Hi}'') demo_delta"
    by (simp_all add: prints_def demo_serde_def)
  have hi: "delta_text demo_delta = Some (lit ''Hi'')"
    by (simp add: delta_text_def demo_delta_def jput_def)
  have "from_utf8 (utf8_encode ?t) = Some ?t"
    by (rule utf8_roundtrip) (simp add: is_scalar_def event_text_def)
  then show ?thesis
    using reply_relayed[of demo_serde "[(lit ''{Hi}'', demo_delta, lit ''Hi'')]" "lit ''{}''" "JObj fmempty"
        "lit ''{}''" "JObj fmempty" "[utf8_encode ?t]"] pr hi
    by (simp add: demo_serde_def[THEN arg_cong[of _ _ sj_to_string]] del: lit_simps utf8_encode_simps)
qed

end
