(* ===== verification/Installations.thy ===== *)
theory Installations
  imports Containers Vocabulary
begin

text \<open>
  The table of installed engines and its settings (\<open>installations/manager.rs\<close>,
  \<open>db/queries/installation_queries.rs\<close>, \<open>installations/types.rs\<close>): every version of an engine
  per graphics variant, one of them active. A table is the list of its rows; a query that
  orders by time keeps the table's order among equal times. The JSON texts a row carries are
  opaque, with the decoder's verdict on them a parameter; fresh UUIDs are arguments; the
  lists of default arguments, which the code stores as JSON, are lists.
\<close>

section \<open>Rows\<close>

datatype installation_type = ILlamaCpp | IIkLlama | ITtsKokoro | ICompaction | ICustom | IDocker

definition installation_type_name :: "installation_type \<Rightarrow> string" where
  "installation_type_name t = (case t of ILlamaCpp \<Rightarrow> ''llama_cpp'' | IIkLlama \<Rightarrow> ''ik_llama''
     | ITtsKokoro \<Rightarrow> ''tts_kokoro'' | ICompaction \<Rightarrow> ''compaction'' | ICustom \<Rightarrow> ''custom''
     | IDocker \<Rightarrow> ''docker'')"

definition installation_type_parse :: "string \<Rightarrow> installation_type option" where
  "installation_type_parse s = (let l = to_lower s in
     if l \<in> {''llama_cpp'', ''llamacpp''} then Some ILlamaCpp
     else if l \<in> {''ik_llama'', ''ik-llama'', ''ikllama''} then Some IIkLlama
     else if l \<in> {''tts_kokoro'', ''ttskokoro''} then Some ITtsKokoro
     else if l = ''compaction'' then Some ICompaction
     else if l = ''custom'' then Some ICustom
     else if l = ''docker'' then Some IDocker else None)"

definition is_non_inference_backend :: "installation_type \<Rightarrow> bool" where
  "is_non_inference_backend t \<longleftrightarrow> t = ITtsKokoro \<or> t = ICompaction"

definition default_git_url :: "installation_type \<Rightarrow> string" where
  "default_git_url t = (if t = IIkLlama then ''https://github.com/ikawrakow/ik_llama.cpp.git''
     else ''https://github.com/ggml-org/llama.cpp.git'')"

text \<open>A missing logical identity is stored as NULL or as the empty text; both are the empty text here.\<close>

record installation =
  in_name :: string
  in_type :: string
  in_version :: string
  in_path :: string
  in_installed_at :: int
  in_variant :: string
  in_source :: "string option"
  in_active :: bool
  in_docker :: "string option"
  in_logical :: string

record install_config =
  ic_logical :: string
  ic_name :: string
  ic_variant :: string
  ic_args :: "string list"
  ic_env :: "string list"
  ic_health_url :: "string option"

text \<open>The third column is the engine of every model configuration.\<close>

record install_db =
  db_installs :: "installation list"
  db_configs :: "install_config list"
  db_model_backends :: "string list"

definition same_slot :: "string \<Rightarrow> string \<Rightarrow> installation \<Rightarrow> bool" where
  "same_slot name variant r \<longleftrightarrow> in_name r = name \<and> in_variant r = variant"

definition is_row :: "string \<Rightarrow> string \<Rightarrow> string \<Rightarrow> installation \<Rightarrow> bool" where
  "is_row name variant version r \<longleftrightarrow> same_slot name variant r \<and> in_version r = version"

section \<open>Queries\<close>

definition get_logical_id :: "string \<Rightarrow> install_db \<Rightarrow> string option" where
  "get_logical_id name db = map_option in_logical
     (List.find (\<lambda>r. in_name r = name \<and> in_logical r \<noteq> []) (db_installs db))"

definition get_active_installation :: "string \<Rightarrow> string \<Rightarrow> install_db \<Rightarrow> installation option" where
  "get_active_installation name variant db =
     List.find (\<lambda>r. same_slot name variant r \<and> in_active r) (db_installs db)"

definition list_active_installations :: "install_db \<Rightarrow> installation list" where
  "list_active_installations db = filter in_active (db_installs db)"

definition list_installation_versions :: "string \<Rightarrow> string option \<Rightarrow> install_db \<Rightarrow> installation list" where
  "list_installation_versions name variant db =
     sort_key (\<lambda>r. - in_installed_at r)
       (filter (\<lambda>r. case variant of Some v \<Rightarrow> same_slot name v r | None \<Rightarrow> in_name r = name) (db_installs db))"

definition get_installation_by_version :: "string \<Rightarrow> string \<Rightarrow> string \<Rightarrow> install_db \<Rightarrow> installation option" where
  "get_installation_by_version name variant version db =
     List.find (is_row name variant version) (db_installs db)"

definition get_installation_config :: "string \<Rightarrow> string \<Rightarrow> install_db \<Rightarrow> install_config option" where
  "get_installation_config key variant db =
     (let hits = filter (\<lambda>c. (ic_logical c = key \<and> key \<noteq> [] \<or> ic_name c = key) \<and> ic_variant c = variant) (db_configs db)
      in case filter (\<lambda>c. ic_logical c = key \<and> key \<noteq> []) hits of
           c # _ \<Rightarrow> Some c
         | [] \<Rightarrow> (case hits of c # _ \<Rightarrow> Some c | [] \<Rightarrow> None))"

section \<open>Updates\<close>

text \<open>The upsert, the spread of the logical identity and the deactivation of the other versions.\<close>

definition upsert_row :: "installation \<Rightarrow> installation list \<Rightarrow> installation list" where
  "upsert_row new rows =
     (if list_ex (is_row (in_name new) (in_variant new) (in_version new)) rows
      then map (\<lambda>r. if is_row (in_name new) (in_variant new) (in_version new) r then new else r) rows
      else rows @ [new])"

text \<open>The table constraints; a transaction that breaks one changes nothing.\<close>

definition row_key :: "installation \<Rightarrow> string \<times> string \<times> string" where
  "row_key r = (in_name r, in_variant r, in_version r)"

definition configs_unique :: "install_config list \<Rightarrow> bool" where
  "configs_unique cs \<longleftrightarrow> distinct (map (\<lambda>c. (ic_logical c, ic_variant c)) (filter (\<lambda>c. ic_logical c \<noteq> []) cs))"

definition insert_installation :: "string \<Rightarrow> installation \<Rightarrow> install_db \<Rightarrow> bool \<times> install_db" where
  "insert_installation uuid rec db =
     (let lid = (if in_logical rec \<noteq> [] then in_logical rec
                 else case get_logical_id (in_name rec) db of Some l \<Rightarrow> l | None \<Rightarrow> uuid);
          rows1 = upsert_row (rec\<lparr>in_active := True, in_logical := lid\<rparr>) (db_installs db);
          rows2 = map (\<lambda>r. if in_name r = in_name rec \<and> in_logical r = [] then r\<lparr>in_logical := lid\<rparr> else r) rows1;
          configs = map (\<lambda>c. if ic_name c = in_name rec \<and> ic_variant c = in_variant rec \<and> ic_logical c = []
                             then c\<lparr>ic_logical := lid\<rparr> else c) (db_configs db);
          rows3 = map (\<lambda>r. if same_slot (in_name rec) (in_variant rec) r \<and> in_version r \<noteq> in_version rec
                           then r\<lparr>in_active := False\<rparr> else r) rows2
      in if configs_unique configs then (True, db\<lparr>db_installs := rows3, db_configs := configs\<rparr>)
         else (False, db))"

definition delete_installation :: "string \<Rightarrow> string \<Rightarrow> string \<Rightarrow> install_db \<Rightarrow> install_db" where
  "delete_installation name variant version db =
     db\<lparr>db_installs := filter (\<lambda>r. \<not> is_row name variant version r) (db_installs db)\<rparr>"

definition activate_installation_version :: "string \<Rightarrow> string \<Rightarrow> string \<Rightarrow> install_db \<Rightarrow> bool \<times> install_db" where
  "activate_installation_version name variant version db =
     (if \<not> list_ex (is_row name variant version) (db_installs db) then (False, db)
      else (True, db\<lparr>db_installs := map (\<lambda>r. if same_slot name variant r
                then r\<lparr>in_active := (in_version r = version)\<rparr> else r) (db_installs db)\<rparr>))"

definition delete_all_versions :: "string \<Rightarrow> string option \<Rightarrow> install_db \<Rightarrow> install_db" where
  "delete_all_versions name variant db =
     db\<lparr>db_installs := filter (\<lambda>r. \<not> (case variant of Some v \<Rightarrow> same_slot name v r | None \<Rightarrow> in_name r = name))
        (db_installs db)\<rparr>"

definition update_installation_source :: "string \<Rightarrow> string \<Rightarrow> string \<Rightarrow> install_db \<Rightarrow> bool \<times> install_db" where
  "update_installation_source name variant source db =
     (if list_ex (\<lambda>r. same_slot name variant r \<and> in_active r) (db_installs db)
      then (True, db\<lparr>db_installs := map (\<lambda>r. if same_slot name variant r \<and> in_active r
              then r\<lparr>in_source := Some source\<rparr> else r) (db_installs db)\<rparr>)
      else (False, db))"

text \<open>
  Removing the active version activates the newest that is left, in a second transaction; the
  flag tells whether the program got that far.
\<close>

definition remove_version :: "bool \<Rightarrow> string \<Rightarrow> string \<Rightarrow> string \<Rightarrow> install_db \<Rightarrow> install_db" where
  "remove_version completes name variant version db =
     (let was_active = (case get_installation_by_version name variant version db of
            Some r \<Rightarrow> in_active r | None \<Rightarrow> False);
          db1 = delete_installation name variant version db
      in if was_active \<and> completes then
           (case list_installation_versions name (Some variant) db1 of
              newest # _ \<Rightarrow> snd (activate_installation_version name variant (in_version newest) db1)
            | [] \<Rightarrow> db1)
         else db1)"

datatype rename_result = RenameNotFound | Renamed | RenameRefused | RenameFailed

definition merges_distinct :: "string option \<Rightarrow> string option \<Rightarrow> bool \<Rightarrow> bool" where
  "merges_distinct old new new_exists = (case (old, new) of
       (Some a, Some b) \<Rightarrow> a \<noteq> b
     | (_, Some _) \<Rightarrow> True
     | (Some _, None) \<Rightarrow> new_exists
     | (None, None) \<Rightarrow> new_exists)"

definition rename_installation :: "string \<Rightarrow> string \<Rightarrow> install_db \<Rightarrow> rename_result \<times> install_db" where
  "rename_installation old_name new_name db =
     (let owns = (\<lambda>n. list_ex (\<lambda>r. in_name r = n) (db_installs db));
          old_logical = get_logical_id old_name db
      in if \<not> owns old_name then (RenameNotFound, db)
         else if old_name = new_name then (Renamed, db)
         else if merges_distinct old_logical (get_logical_id new_name db) (owns new_name) then (RenameRefused, db)
         else if list_ex (\<lambda>c. ic_name c = new_name \<and>
              (ic_logical c = [] \<or> ic_logical c \<noteq> (case old_logical of Some l \<Rightarrow> l | None \<Rightarrow> []))) (db_configs db)
           then (RenameRefused, db)
         else let rows = map (\<lambda>r. if in_name r = old_name then r\<lparr>in_name := new_name\<rparr> else r) (db_installs db)
         in if \<not> distinct (map row_key rows) then (RenameFailed, db)
         else (Renamed, db\<lparr>
           db_installs := rows,
           db_configs := map (\<lambda>c. if ic_name c = old_name then c\<lparr>ic_name := new_name\<rparr> else c) (db_configs db),
           db_model_backends := map (\<lambda>b. if b = old_name then new_name else b) (db_model_backends db)\<rparr>))"

definition upsert_installation_config ::
  "string \<Rightarrow> string \<Rightarrow> string \<Rightarrow> string list \<Rightarrow> string list \<Rightarrow> string option \<Rightarrow> install_db
     \<Rightarrow> bool \<times> install_db" where
  "upsert_installation_config logical name variant args env url db =
     (let hit = (\<lambda>c. ic_variant c = variant \<and> (logical \<noteq> [] \<and> ic_logical c = logical \<or> ic_name c = name));
          new = (\<lambda>c. c\<lparr>ic_name := name, ic_args := args, ic_env := env, ic_health_url := url,
                     ic_logical := (if logical \<noteq> [] then logical else ic_logical c)\<rparr>);
          configs = (if list_ex hit (db_configs db) then map (\<lambda>c. if hit c then new c else c) (db_configs db)
            else db_configs db @ [\<lparr>ic_logical = logical, ic_name = name, ic_variant = variant, ic_args = args,
               ic_env = env, ic_health_url = url\<rparr>])
      in if configs_unique configs then (True, db\<lparr>db_configs := configs\<rparr>) else (False, db))"

section \<open>The manager\<close>

datatype installation_source = Prebuilt string | SourceCode string string "string option"

text \<open>serde\_json on the texts of a row: the source, and whether a docker text decodes.\<close>

record install_json =
  ij_source :: "string \<Rightarrow> installation_source option"
  ij_docker_ok :: "string \<Rightarrow> bool"
  ij_show_source :: "installation_source \<Rightarrow> string"

datatype install_error = Undecodable | NotInstalled string string | WriteRefused

definition record_to_info :: "install_json \<Rightarrow> installation \<Rightarrow> install_error + installation" where
  "record_to_info K r =
     (if (case in_source r of Some s \<Rightarrow> ij_source K s = None | None \<Rightarrow> False) then Inl Undecodable
      else if (case in_docker r of Some s \<Rightarrow> \<not> ij_docker_ok K s | None \<Rightarrow> False) then Inl Undecodable
      else case installation_type_parse (in_type r) of
          None \<Rightarrow> Inl Undecodable
        | Some t \<Rightarrow> Inr (r\<lparr>in_type := installation_type_name t\<rparr>))"

definition info_opt :: "install_json \<Rightarrow> installation option \<Rightarrow> install_error + installation option" where
  "info_opt K r = (case r of None \<Rightarrow> Inr None
     | Some x \<Rightarrow> (case record_to_info K x of Inl e \<Rightarrow> Inl e | Inr i \<Rightarrow> Inr (Some i)))"

fun collect_infos :: "install_json \<Rightarrow> installation list \<Rightarrow> install_error + installation list" where
  "collect_infos K [] = Inr []"
| "collect_infos K (r # rs) = (case record_to_info K r of
       Inl e \<Rightarrow> Inl e
     | Inr i \<Rightarrow> (case collect_infos K rs of Inl e \<Rightarrow> Inl e | Inr is \<Rightarrow> Inr (i # is)))"

definition get_active :: "install_json \<Rightarrow> string \<Rightarrow> string \<Rightarrow> install_db \<Rightarrow> install_error + installation option" where
  "get_active K name variant db = info_opt K (get_active_installation name variant db)"

definition list_active :: "install_json \<Rightarrow> install_db \<Rightarrow> install_error + installation list" where
  "list_active K db = collect_infos K (list_active_installations db)"

definition get_by_version :: "install_json \<Rightarrow> string \<Rightarrow> string \<Rightarrow> string \<Rightarrow> install_db \<Rightarrow> install_error + installation option" where
  "get_by_version K name variant version db = info_opt K (get_installation_by_version name variant version db)"

definition list_versions :: "install_json \<Rightarrow> string \<Rightarrow> string option \<Rightarrow> install_db \<Rightarrow> install_error + installation list option" where
  "list_versions K name variant db = (case list_installation_versions name variant db of
       [] \<Rightarrow> Inr None
     | rs \<Rightarrow> (case collect_infos K rs of Inl e \<Rightarrow> Inl e | Inr is \<Rightarrow> Inr (Some is)))"

definition get_default_args :: "string \<Rightarrow> string \<Rightarrow> install_db \<Rightarrow> string list" where
  "get_default_args name variant db = (case get_installation_config name variant db of Some c \<Rightarrow> ic_args c | None \<Rightarrow> [])"

definition get_default_env :: "string \<Rightarrow> string \<Rightarrow> install_db \<Rightarrow> string list" where
  "get_default_env name variant db = (case get_installation_config name variant db of Some c \<Rightarrow> ic_env c | None \<Rightarrow> [])"

definition get_health_check_url :: "string \<Rightarrow> string \<Rightarrow> install_db \<Rightarrow> string option" where
  "get_health_check_url name variant db = Option.bind (get_installation_config name variant db) ic_health_url"

definition save_config :: "string \<Rightarrow> string \<Rightarrow> string list \<Rightarrow> string list \<Rightarrow> string option \<Rightarrow> install_db \<Rightarrow> bool \<times> install_db" where
  "save_config name variant args env url db =
     upsert_installation_config (case get_logical_id name db of Some l \<Rightarrow> l | None \<Rightarrow> []) name variant args env url db"

text \<open>\<open>info_to_record\<close> always leaves the identity to the insert.\<close>

definition add_installation :: "string \<Rightarrow> installation \<Rightarrow> install_db \<Rightarrow> bool \<times> install_db" where
  "add_installation uuid info db = insert_installation uuid (info\<lparr>in_active := True, in_logical := []\<rparr>) db"

definition update_version :: "install_json \<Rightarrow> string \<Rightarrow> int \<Rightarrow> string \<Rightarrow> string \<Rightarrow> string \<Rightarrow> string
     \<Rightarrow> installation_source option \<Rightarrow> install_db \<Rightarrow> (install_error + unit) \<times> install_db" where
  "update_version K uuid now name variant new_version new_path new_source db =
     (case get_active K name variant db of
        Inl e \<Rightarrow> (Inl e, db)
      | Inr None \<Rightarrow> (Inl (NotInstalled name variant), db)
      | Inr (Some existing) \<Rightarrow>
          (case add_installation uuid (existing\<lparr>in_version := new_version, in_path := new_path,
               in_installed_at := now, in_source := map_option (ij_show_source K) new_source\<rparr>) db of
             (ok, db') \<Rightarrow> (if ok then Inr () else Inl WriteRefused, db')))"

definition new_build_source :: "install_json \<Rightarrow> bool \<Rightarrow> installation \<Rightarrow> installation_source" where
  "new_build_source K build_from_source info =
     (if build_from_source then
        (case Option.bind (in_source info) (ij_source K) of
           Some (SourceCode _ git_url commit) \<Rightarrow> SourceCode (in_version info) git_url commit
         | _ \<Rightarrow> SourceCode (in_version info)
             (case installation_type_parse (in_type info) of Some t \<Rightarrow> default_git_url t | None \<Rightarrow> []) None)
      else Prebuilt (in_version info))"

definition update_build_method :: "install_json \<Rightarrow> string \<Rightarrow> string \<Rightarrow> bool \<Rightarrow> install_db \<Rightarrow> (install_error + unit) \<times> install_db" where
  "update_build_method K name variant build_from_source db =
     (case get_active K name variant db of
        Inl e \<Rightarrow> (Inl e, db)
      | Inr None \<Rightarrow> (Inl (NotInstalled name variant), db)
      | Inr (Some info) \<Rightarrow>
          (case update_installation_source name variant (ij_show_source K (new_build_source K build_from_source info)) db of
             (ok, db') \<Rightarrow> (if ok then Inr () else Inl (NotInstalled name variant), db')))"

fun dedup_options :: "(string \<times> string) list \<Rightarrow> installation list \<Rightarrow> (string \<times> string) list" where
  "dedup_options seen [] = []"
| "dedup_options seen (r # rs) = (let k = (in_name r, in_variant r) in
     if k \<in> set seen then dedup_options seen rs else k # dedup_options (k # seen) rs)"

definition available_installations :: "install_db \<Rightarrow> (string \<times> string \<times> string) list" where
  "available_installations db = map (\<lambda>(n, v). (n, v, if v = ''cpu'' then n else n @ '' ('' @ v @ '')''))
     (dedup_options [] (list_active_installations db))"

section \<open>One active version\<close>

definition one_active :: "installation list \<Rightarrow> bool" where
  "one_active rows \<longleftrightarrow> (\<forall>r\<in>set rows. \<exists>!a. a \<in> set rows \<and> same_slot (in_name r) (in_variant r) a \<and> in_active a)"

definition identities :: "installation list \<Rightarrow> bool" where
  "identities rows \<longleftrightarrow> (\<forall>r\<in>set rows. in_logical r \<noteq> [] \<and>
     (\<forall>r'\<in>set rows. in_logical r = in_logical r' \<longleftrightarrow> in_name r = in_name r'))"

definition install_inv :: "install_db \<Rightarrow> bool" where
  "install_inv db \<longleftrightarrow> distinct (map row_key (db_installs db)) \<and> one_active (db_installs db) \<and>
     identities (db_installs db)"

lemma same_slot_updates [simp]:
  "same_slot n v (r\<lparr>in_active := b\<rparr>) = same_slot n v r" "same_slot n v (r\<lparr>in_logical := l\<rparr>) = same_slot n v r"
  "same_slot n v (r\<lparr>in_source := x\<rparr>) = same_slot n v r"
  by (simp_all add: same_slot_def)

lemma row_key_updates [simp]:
  "row_key (r\<lparr>in_active := b\<rparr>) = row_key r" "row_key (r\<lparr>in_logical := l\<rparr>) = row_key r"
  "row_key (r\<lparr>in_source := x\<rparr>) = row_key r"
  by (simp_all add: row_key_def)

lemma is_row_key: "is_row n v ver r \<longleftrightarrow> row_key r = (n, v, ver)"
  by (auto simp: is_row_def same_slot_def row_key_def)

lemma row_key_inj: "distinct (map row_key rows) \<Longrightarrow> r \<in> set rows \<Longrightarrow> r' \<in> set rows \<Longrightarrow> row_key r = row_key r' \<Longrightarrow> r = r'"
  by (auto simp: distinct_map dest: inj_onD)

lemma same_slot_self: "same_slot (in_name r) (in_variant r) r"
  by (simp add: same_slot_def)

definition has_one :: "installation list \<Rightarrow> string \<Rightarrow> string \<Rightarrow> bool" where
  "has_one rows n v \<longleftrightarrow> (\<exists>!a. a \<in> set rows \<and> same_slot n v a \<and> in_active a)"

lemma one_active_slots: "one_active rows \<longleftrightarrow> (\<forall>n v. (\<exists>r\<in>set rows. same_slot n v r) \<longrightarrow> has_one rows n v)"
  unfolding one_active_def has_one_def[symmetric] by (auto simp: same_slot_def)

text \<open>Rewriting the rows of one slot so that exactly one version is active.\<close>

lemma has_one_map_other:
  assumes "has_one rows n v" and "\<And>r. r \<in> set rows \<Longrightarrow> same_slot n v (f r) = same_slot n v r"
    and "\<And>r. r \<in> set rows \<Longrightarrow> same_slot n v r \<Longrightarrow> in_active (f r) = in_active r"
  shows "has_one (map f rows) n v"
proof -
  obtain a where a: "a \<in> set rows" "same_slot n v a" "in_active a"
    and uniq: "\<And>b. b \<in> set rows \<Longrightarrow> same_slot n v b \<Longrightarrow> in_active b \<Longrightarrow> b = a"
    using assms(1) unfolding has_one_def by blast
  show ?thesis
    unfolding has_one_def
  proof (rule ex1I[of _ "f a"])
    show "f a \<in> set (map f rows) \<and> same_slot n v (f a) \<and> in_active (f a)"
      using a assms(2,3) by simp
  next
    fix b assume "b \<in> set (map f rows) \<and> same_slot n v b \<and> in_active b"
    then show "b = f a"
      using uniq assms(2,3) by auto
  qed
qed

lemma has_one_map_set:
  assumes "distinct (map row_key rows)" and "x \<in> set rows" and "row_key x = (n, v, ver)"
    and "\<And>r. r \<in> set rows \<Longrightarrow> same_slot n v (f r) = same_slot n v r"
    and "\<And>r. r \<in> set rows \<Longrightarrow> same_slot n v r \<Longrightarrow> in_active (f r) = (in_version r = ver)"
  shows "has_one (map f rows) n v"
proof -
  have x: "same_slot n v x" "in_version x = ver"
    using assms(3) by (auto simp: row_key_def same_slot_def)
  have uniq: "r = x" if "r \<in> set rows" "same_slot n v r" "in_version r = ver" for r
    using row_key_inj[OF assms(1) that(1) assms(2)] that assms(3) by (simp add: row_key_def same_slot_def)
  show ?thesis
    unfolding has_one_def
  proof (rule ex1I[of _ "f x"])
    show "f x \<in> set (map f rows) \<and> same_slot n v (f x) \<and> in_active (f x)"
      using assms(2,4,5) x by simp
  next
    fix b assume "b \<in> set (map f rows) \<and> same_slot n v b \<and> in_active b"
    then show "b = f x"
      using uniq assms(4,5) by auto
  qed
qed

lemma one_active_set_slot:
  assumes "distinct (map row_key rows)" and "x \<in> set rows" and "row_key x = (n, v, ver)"
    and "\<And>r. in_name (f r) = in_name r \<and> in_variant (f r) = in_variant r"
    and "\<And>r. r \<in> set rows \<Longrightarrow> same_slot n v r \<Longrightarrow> in_active (f r) = (in_version r = ver)"
    and "\<And>r. r \<in> set rows \<Longrightarrow> \<not> same_slot n v r \<Longrightarrow> in_active (f r) = in_active r"
    and "\<And>n' v'. (n', v') \<noteq> (n, v) \<Longrightarrow> (\<exists>r\<in>set rows. same_slot n' v' r) \<Longrightarrow> has_one rows n' v'"
  shows "one_active (map f rows)"
  unfolding one_active_slots
proof (intro allI impI)
  fix n' v' assume "\<exists>r\<in>set (map f rows). same_slot n' v' r"
  then have ex: "\<exists>r\<in>set rows. same_slot n' v' r"
    using assms(4) by (auto simp: same_slot_def)
  have keep: "same_slot n' v' (f r) = same_slot n' v' r" for r
    using assms(4) by (simp add: same_slot_def)
  show "has_one (map f rows) n' v'"
  proof (cases "(n', v') = (n, v)")
    case True
    then show ?thesis
      using has_one_map_set[OF assms(1-3), of f] keep assms(5) by auto
  next
    case False
    then have "\<not> same_slot n v r" if "same_slot n' v' r" for r
      using that by (auto simp: same_slot_def)
    then show ?thesis
      using has_one_map_other[OF assms(7)[OF False ex], of f] keep assms(6) by auto
  qed
qed

section \<open>The invariant is kept\<close>

lemma identities_map:
  "identities rows \<Longrightarrow> (\<And>r. in_logical (f r) = in_logical r) \<Longrightarrow> (\<And>r. in_name (f r) = in_name r) \<Longrightarrow>
     identities (map f rows)"
  by (auto simp: identities_def)

lemma row_keys_map:
  "distinct (map row_key rows) \<Longrightarrow> (\<And>r. row_key (f r) = row_key r) \<Longrightarrow> distinct (map row_key (map f rows))"
  by (simp add: comp_def)

lemma ex_slot_map:
  "(\<And>r. same_slot n v (f r) = same_slot n v r) \<Longrightarrow>
     (\<exists>r\<in>set (map f rows). same_slot n v r) = (\<exists>r\<in>set rows. same_slot n v r)"
  by auto

lemma activate_inv:
  assumes "install_inv db"
  shows "install_inv (snd (activate_installation_version n v ver db))"
proof (cases "list_ex (is_row n v ver) (db_installs db)")
  case True
  then obtain x where x: "x \<in> set (db_installs db)" "row_key x = (n, v, ver)"
    by (auto simp: list_ex_iff is_row_key)
  let ?f = "\<lambda>r. if same_slot n v r then r\<lparr>in_active := (in_version r = ver)\<rparr> else r"
  have inv: "distinct (map row_key (db_installs db))" "one_active (db_installs db)" "identities (db_installs db)"
    using assms by (auto simp: install_inv_def)
  have "one_active (map ?f (db_installs db))"
    by (rule one_active_set_slot[OF inv(1) x]) (use inv(2) in \<open>auto simp: one_active_slots\<close>)
  moreover have "distinct (map row_key (map ?f (db_installs db)))"
    by (rule row_keys_map[OF inv(1)]) simp
  moreover have "identities (map ?f (db_installs db))"
    by (rule identities_map[OF inv(3)]) simp_all
  ultimately show ?thesis
    using True by (simp add: activate_installation_version_def install_inv_def del: map_map list.map_comp)
qed (use assms in \<open>simp add: activate_installation_version_def\<close>)

lemma identities_subset: "identities rows \<Longrightarrow> set rows' \<subseteq> set rows \<Longrightarrow> identities rows'"
  unfolding identities_def by blast

lemma distinct_filter_keys: "distinct (map row_key rows) \<Longrightarrow> distinct (map row_key (filter P rows))"
  by (simp add: distinct_map_filter)

lemma has_one_filter:
  assumes "has_one rows n v" and "\<And>r. r \<in> set rows \<Longrightarrow> same_slot n v r \<Longrightarrow> in_active r \<Longrightarrow> P r"
  shows "has_one (filter P rows) n v"
  using assms unfolding has_one_def by (auto simp: Ex1_def)

lemma delete_all_inv:
  assumes "install_inv db"
  shows "install_inv (delete_all_versions n v db)"
proof -
  let ?P = "\<lambda>r. \<not> (case v of Some v \<Rightarrow> same_slot n v r | None \<Rightarrow> in_name r = n)"
  have "has_one (filter ?P (db_installs db)) n' v'" if "\<exists>r\<in>set (filter ?P (db_installs db)). same_slot n' v' r" for n' v'
  proof (rule has_one_filter)
    show "has_one (db_installs db) n' v'"
      using assms that by (auto simp: install_inv_def one_active_slots)
    show "?P r" if "r \<in> set (db_installs db)" "same_slot n' v' r" for r
      using \<open>\<exists>r\<in>set (filter ?P (db_installs db)). same_slot n' v' r\<close> that
      by (auto simp: same_slot_def split: option.splits)
  qed
  then show ?thesis
    using assms identities_subset[of "db_installs db" "filter ?P (db_installs db)"]
    by (simp add: install_inv_def delete_all_versions_def distinct_filter_keys one_active_slots)
qed

lemma update_source_inv:
  assumes "install_inv db"
  shows "install_inv (snd (update_installation_source n v src db))"
proof -
  let ?f = "\<lambda>r. if same_slot n v r \<and> in_active r then r\<lparr>in_source := Some src\<rparr> else r"
  have "has_one (map ?f (db_installs db)) n' v'" if "\<exists>r\<in>set (db_installs db). same_slot n' v' r" for n' v'
    by (rule has_one_map_other) (use assms that in \<open>auto simp: install_inv_def one_active_slots\<close>)
  moreover have "distinct (map row_key (map ?f (db_installs db)))"
    using assms by (intro row_keys_map) (simp_all add: install_inv_def)
  moreover have "(\<exists>r\<in>set (map ?f (db_installs db)). same_slot n' v' r) = (\<exists>r\<in>set (db_installs db). same_slot n' v' r)" for n' v'
    by (rule ex_slot_map) simp
  moreover have "identities (map ?f (db_installs db))"
    using assms by (intro identities_map) (simp_all add: install_inv_def)
  ultimately have "install_inv (db\<lparr>db_installs := map ?f (db_installs db)\<rparr>)"
    using assms unfolding install_inv_def one_active_slots by (simp del: map_map set_map list.map_comp)
  then show ?thesis
    using assms by (simp add: update_installation_source_def)
qed

lemma find_row:
  "distinct (map row_key rows) \<Longrightarrow> r \<in> set rows \<Longrightarrow> is_row n v ver r \<Longrightarrow>
     List.find (is_row n v ver) rows = Some r"
  by (induction rows) (auto simp: is_row_key image_iff)

lemma set_list_versions:
  "set (list_installation_versions n (Some v) db) = {r \<in> set (db_installs db). same_slot n v r}"
  by (simp add: list_installation_versions_def)

lemma remove_version_inv:
  assumes "install_inv db"
  shows "install_inv (remove_version True n v ver db)"
proof -
  let ?db = "delete_installation n v ver db"
  have inv: "distinct (map row_key (db_installs db))" "one_active (db_installs db)" "identities (db_installs db)"
    using assms by (auto simp: install_inv_def)
  have rows: "db_installs ?db = filter (\<lambda>r. \<not> is_row n v ver r) (db_installs db)"
    by (simp add: delete_installation_def)
  have d: "distinct (map row_key (db_installs ?db))" "identities (db_installs ?db)"
    using inv(1,3) unfolding rows by (auto intro: distinct_filter_keys identities_subset)
  have other: "has_one (db_installs ?db) n' v'"
    if "\<exists>r\<in>set (db_installs ?db). same_slot n' v' r"
      "(n', v') \<noteq> (n, v) \<or> \<not> (case get_installation_by_version n v ver db of Some r \<Rightarrow> in_active r | None \<Rightarrow> False)"
    for n' v'
    unfolding rows
  proof (rule has_one_filter)
    show "has_one (db_installs db) n' v'"
      using inv(2) that(1) by (auto simp: one_active_slots rows)
    fix r assume r: "r \<in> set (db_installs db)" "same_slot n' v' r" "in_active r"
    show "\<not> is_row n v ver r"
    proof
      assume row: "is_row n v ver r"
      then have "(n', v') = (n, v)"
        using r(2) by (auto simp: is_row_def same_slot_def)
      moreover have "get_installation_by_version n v ver db = Some r"
        using find_row[OF inv(1) r(1) row] by (simp add: get_installation_by_version_def)
      ultimately show False
        using that(2) r(3) by simp
    qed
  qed
  show ?thesis
  proof (cases "case get_installation_by_version n v ver db of Some r \<Rightarrow> in_active r | None \<Rightarrow> False")
    case False
    then show ?thesis
      using other d by (simp add: remove_version_def install_inv_def one_active_slots)
  next
    case True
    show ?thesis
    proof (cases "list_installation_versions n (Some v) ?db")
      case Nil
      then have "\<not> (\<exists>r\<in>set (db_installs ?db). same_slot n v r)"
        using set_list_versions[of n v ?db] by auto
      then have "one_active (db_installs ?db)"
        using other unfolding one_active_slots by blast
      then show ?thesis
        using True Nil d by (simp add: remove_version_def install_inv_def)
    next
      case (Cons newest rest)
      let ?f = "\<lambda>r. if same_slot n v r then r\<lparr>in_active := (in_version r = in_version newest)\<rparr> else r"
      have "newest \<in> {r \<in> set (db_installs ?db). same_slot n v r}"
        using Cons set_list_versions[of n v ?db] by (metis list.set_intros(1))
      then have newest: "newest \<in> set (db_installs ?db)" "row_key newest = (n, v, in_version newest)"
        by (auto simp: row_key_def same_slot_def)
      have "one_active (map ?f (db_installs ?db))"
        by (rule one_active_set_slot[OF d(1) newest]) (use other in auto)
      moreover have "distinct (map row_key (map ?f (db_installs ?db)))"
        by (rule row_keys_map[OF d(1)]) simp
      moreover have "identities (map ?f (db_installs ?db))"
        by (rule identities_map[OF d(2)]) simp_all
      moreover have "list_ex (is_row n v (in_version newest)) (db_installs ?db)"
        using newest by (auto simp: list_ex_iff is_row_key)
      ultimately have "install_inv (snd (activate_installation_version n v (in_version newest) ?db))"
        by (simp add: activate_installation_version_def install_inv_def del: map_map list.map_comp)
      moreover have "remove_version True n v ver db = snd (activate_installation_version n v (in_version newest) ?db)"
        using True Cons by (simp add: remove_version_def Let_def)
      ultimately show ?thesis
        by simp
    qed
  qed
qed

lemma find_SomeD: "List.find P xs = Some x \<Longrightarrow> x \<in> set xs \<and> P x"
  by (induction xs) (auto split: if_splits)

lemma get_logical_id_Some:
  "get_logical_id n db = Some l \<Longrightarrow> \<exists>x\<in>set (db_installs db). in_name x = n \<and> in_logical x = l \<and> l \<noteq> []"
  by (auto simp: get_logical_id_def dest: find_SomeD)

lemma get_logical_id_None:
  "get_logical_id n db = None \<Longrightarrow> r \<in> set (db_installs db) \<Longrightarrow> in_name r = n \<Longrightarrow> in_logical r = []"
  by (auto simp: get_logical_id_def find_None_iff)

lemma upsert_row_set:
  "set (upsert_row new rows) = insert new {r \<in> set rows. row_key r \<noteq> row_key new}"
proof -
  have "is_row (in_name new) (in_variant new) (in_version new) r \<longleftrightarrow> row_key r = row_key new" for r
    by (simp add: is_row_key row_key_def[of new])
  then show ?thesis
    by (auto simp: upsert_row_def list_ex_iff image_iff)
qed

lemma upsert_row_keys:
  assumes "distinct (map row_key rows)"
  shows "distinct (map row_key (upsert_row new rows))"
proof -
  have is_row: "is_row (in_name new) (in_variant new) (in_version new) = (\<lambda>r. row_key r = row_key new)"
    by (rule ext) (simp add: is_row_key row_key_def[of new])
  show ?thesis
  proof (cases "list_ex (\<lambda>r. row_key r = row_key new) rows")
    case True
    have "map row_key (map (\<lambda>r. if row_key r = row_key new then new else r) rows) = map row_key rows"
      by simp
    then show ?thesis
      using True assms by (simp add: upsert_row_def is_row del: map_map list.map_comp map_eq_conv)
  next
    case False
    then show ?thesis
      using assms by (auto simp: upsert_row_def is_row list_ex_iff)
  qed
qed

lemma insert_inv:
  assumes "install_inv db" and "in_logical rec = []"
    and "uuid \<noteq> []" and "uuid \<notin> in_logical ` set (db_installs db)"
  shows "install_inv (snd (insert_installation uuid rec db))"
proof -
  let ?rows = "db_installs db" and ?n = "in_name rec" and ?v = "in_variant rec"
  define lid where "lid = (case get_logical_id ?n db of Some l \<Rightarrow> l | None \<Rightarrow> uuid)"
  define new where "new = rec\<lparr>in_active := True, in_logical := lid\<rparr>"
  define rows1 where "rows1 = upsert_row new ?rows"
  define f2 where "f2 = (\<lambda>r :: installation. if in_name r = ?n \<and> in_logical r = [] then r\<lparr>in_logical := lid\<rparr> else r)"
  define f3 where "f3 = (\<lambda>r. if same_slot ?n ?v r \<and> in_version r \<noteq> in_version rec
    then r\<lparr>in_active := False\<rparr> else r)"
  define f where "f = (\<lambda>r. f3 (f2 r))"
  note fs = f_def f2_def f3_def
  have inv: "distinct (map row_key ?rows)" "one_active ?rows" "identities ?rows"
    using assms(1) by (auto simp: install_inv_def)
  have new: "row_key new = (?n, ?v, in_version rec)" "in_active new" "in_name new = ?n" "in_logical new = lid"
    by (simp_all add: new_def row_key_def)
  have set1: "set rows1 = insert new {r \<in> set ?rows. row_key r \<noteq> row_key new}"
    by (simp add: rows1_def upsert_row_set)
  have lid: "lid \<noteq> []" "r \<in> set ?rows \<Longrightarrow> in_logical r = lid \<longleftrightarrow> in_name r = ?n" for r
  proof -
    show "lid \<noteq> []"
      using assms(3) by (auto simp: lid_def split: option.splits dest: get_logical_id_Some)
    assume r: "r \<in> set ?rows"
    show "in_logical r = lid \<longleftrightarrow> in_name r = ?n"
    proof (cases "get_logical_id ?n db")
      case None
      then have "in_name r \<noteq> ?n"
        using r inv(3) get_logical_id_None[OF None r] by (auto simp: identities_def)
      moreover have "in_logical r \<noteq> lid"
        using None r assms(4) by (auto simp: lid_def)
      ultimately show ?thesis by simp
    next
      case (Some l)
      then obtain x where "x \<in> set ?rows" "in_name x = ?n" "in_logical x = lid"
        by (auto simp: lid_def dest: get_logical_id_Some)
      then show ?thesis
        using r inv(3) unfolding identities_def by metis
    qed
  qed
  have d1: "distinct (map row_key rows1)"
    unfolding rows1_def by (rule upsert_row_keys[OF inv(1)])
  have id1: "identities rows1"
  proof -
    have old: "in_logical r \<noteq> [] \<and> (in_logical r = lid \<longleftrightarrow> in_name r = ?n)" if "r \<in> set ?rows" for r
      using that lid(2)[OF that] inv(3) by (simp add: identities_def)
    show ?thesis
      unfolding identities_def set1
    proof (intro ballI conjI)
      fix r r' assume "r \<in> insert new {r \<in> set ?rows. row_key r \<noteq> row_key new}"
        "r' \<in> insert new {r \<in> set ?rows. row_key r \<noteq> row_key new}"
      then have "r = new \<or> r \<in> set ?rows" "r' = new \<or> r' \<in> set ?rows" by auto
      then show "in_logical r = in_logical r' \<longleftrightarrow> in_name r = in_name r'"
        using inv(3) old[of r] old[of r'] new(3,4) unfolding identities_def by metis
    next
      fix r assume "r \<in> insert new {r \<in> set ?rows. row_key r \<noteq> row_key new}"
      then show "in_logical r \<noteq> []"
        using old[of r] new(4) lid(1) by auto
    qed
  qed
  have "one_active (map f rows1)"
  proof (rule one_active_set_slot[OF d1 _ new(1)])
    show "new \<in> set rows1"
      by (simp add: set1)
    show "in_name (f r) = in_name r \<and> in_variant (f r) = in_variant r" for r
      by (simp add: fs)
    show "in_active (f r) = (in_version r = in_version rec)" if "r \<in> set rows1" "same_slot ?n ?v r" for r
    proof (cases "in_version r = in_version rec")
      case True
      then have "row_key r = row_key new"
        using that(2) new(1) by (simp add: row_key_def same_slot_def)
      then have "r = new"
        using that(1) row_key_inj[OF d1] by (simp add: set1)
      then show ?thesis
        using True new(2) by (simp add: fs)
    next
      case False
      then show ?thesis
        using that(2) by (simp add: fs)
    qed
    show "in_active (f r) = in_active r" if "\<not> same_slot ?n ?v r" for r
      using that by (simp add: fs)
    fix n' v' assume slot: "(n', v') \<noteq> (?n, ?v)" "\<exists>r\<in>set rows1. same_slot n' v' r"
    have same: "r \<in> set rows1 \<longleftrightarrow> r \<in> set ?rows" if "same_slot n' v' r" for r
      using that slot(1) new(1) by (auto simp: set1 same_slot_def row_key_def)
    then have "has_one ?rows n' v'"
      using slot(2) inv(2) by (auto simp: one_active_slots)
    then show "has_one rows1 n' v'"
      unfolding has_one_def using same by auto
  qed
  moreover have "distinct (map row_key (map f rows1))"
    by (rule row_keys_map[OF d1]) (simp add: fs)
  moreover have "identities (map f rows1)"
  proof -
    have "in_logical (f r) = in_logical r" if "r \<in> set rows1" for r
      using that id1 by (auto simp: fs identities_def)
    moreover have "in_name (f r) = in_name r" for r
      by (simp add: fs)
    ultimately show ?thesis
      using id1 by (auto simp: identities_def)
  qed
  moreover have "db_installs (snd (insert_installation uuid rec db)) \<in> {?rows, map f rows1}"
  proof -
    have "map f rows1 = map f3 (map f2 rows1)"
      by (simp add: f_def)
    then show ?thesis
      unfolding insert_installation_def Let_def f2_def f3_def rows1_def new_def lid_def
      using assms(2) by (simp del: map_map list.map_comp)
  qed
  ultimately show ?thesis
    using inv unfolding install_inv_def by auto
qed

lemma rename_inv:
  assumes "install_inv db"
  shows "install_inv (snd (rename_installation old new db))"
proof (cases "fst (rename_installation old new db) = Renamed \<and> old \<noteq> new")
  case True
  let ?rows = "db_installs db"
  let ?g = "\<lambda>r. if in_name r = old then r\<lparr>in_name := new\<rparr> else r"
  have inv: "distinct (map row_key ?rows)" "one_active ?rows" "identities ?rows"
    using assms by (auto simp: install_inv_def)
  have eq: "db_installs (snd (rename_installation old new db)) = map ?g ?rows"
    and owns: "list_ex (\<lambda>r. in_name r = old) ?rows" and keys: "distinct (map row_key (map ?g ?rows))"
    and distinct: "\<not> merges_distinct (get_logical_id old db) (get_logical_id new db) (list_ex (\<lambda>r. in_name r = new) ?rows)"
    using True by (auto simp: rename_installation_def Let_def split: if_splits)
  have found: "\<exists>x\<in>set ?rows. in_name x = n \<and> get_logical_id n db = Some (in_logical x)"
    if "r \<in> set ?rows" "in_name r = n" for r n
  proof -
    note r = that
    have "in_logical r \<noteq> []"
      using r inv(3) by (simp add: identities_def)
    then obtain l where "get_logical_id n db = Some l"
      using get_logical_id_None[OF _ r] by (cases "get_logical_id n db") auto
    then show ?thesis
      using get_logical_id_Some by fastforce
  qed
  have fresh: "in_name r \<noteq> new" if r: "r \<in> set ?rows" for r
  proof
    assume n: "in_name r = new"
    obtain o' where o': "o' \<in> set ?rows" "in_name o' = old"
      using owns by (auto simp: list_ex_iff)
    obtain x y where "x \<in> set ?rows" "in_name x = old" "get_logical_id old db = Some (in_logical x)"
        "y \<in> set ?rows" "in_name y = new" "get_logical_id new db = Some (in_logical y)"
      using found[OF o'] found[OF r n] by blast
    then show False
      using distinct True inv(3) unfolding identities_def by (auto simp: merges_distinct_def)
  qed
  have one: "has_one (map ?g ?rows) n v" if slot: "\<exists>r\<in>set (map ?g ?rows). same_slot n v r" for n v
  proof -
    define m where "m = (if n = new then old else n)"
    have shift: "same_slot n v (?g r) \<longleftrightarrow> same_slot m v r" if "r \<in> set ?rows" for r
      using fresh[OF that] that slot True fresh
      by (auto simp: same_slot_def m_def split: if_splits)
    obtain c where "c \<in> set ?rows" "same_slot n v (?g c)"
      using slot unfolding set_map by blast
    then have "c \<in> set ?rows" "same_slot m v c"
      using shift[of c] by blast+
    then have "has_one ?rows m v"
      using inv(2) unfolding one_active_slots by blast
    then obtain a where a: "a \<in> set ?rows" "same_slot m v a" "in_active a"
      and uniq: "\<And>b. b \<in> set ?rows \<Longrightarrow> same_slot m v b \<Longrightarrow> in_active b \<Longrightarrow> b = a"
      unfolding has_one_def by blast
    show ?thesis
      unfolding has_one_def
    proof (rule ex1I[of _ "?g a"])
      show "?g a \<in> set (map ?g ?rows) \<and> same_slot n v (?g a) \<and> in_active (?g a)"
        using a shift[OF a(1)] by simp
    next
      fix b assume b: "b \<in> set (map ?g ?rows) \<and> same_slot n v b \<and> in_active b"
      then obtain c where c: "c \<in> set ?rows" "b = ?g c"
        by auto
      moreover have "in_active c"
        using b c(2) by (simp split: if_splits)
      ultimately show "b = ?g a"
        using b uniq[OF c(1)] shift[OF c(1)] by simp
    qed
  qed
  have ident: "identities (map ?g ?rows)"
  proof -
    have name: "in_name (?g r) = in_name (?g r') \<longleftrightarrow> in_name r = in_name r'"
      if "r \<in> set ?rows" "r' \<in> set ?rows" for r r'
      using fresh[OF that(1)] fresh[OF that(2)] by auto
    have logical: "in_logical (?g r) = in_logical r" for r
      by simp
    have old_eq: "in_logical r \<noteq> [] \<and> (in_logical r = in_logical r' \<longleftrightarrow> in_name r = in_name r')"
      if "r \<in> set ?rows" "r' \<in> set ?rows" for r r'
      using that inv(3) by (simp add: identities_def)
    show ?thesis
      unfolding identities_def
    proof (intro ballI conjI)
      fix a assume "a \<in> set (map ?g ?rows)"
      then obtain r where r: "a = ?g r" "r \<in> set ?rows"
        unfolding set_map by (rule imageE)
      then show "in_logical a \<noteq> []"
        using old_eq[OF r(2) r(2)] by (simp only: r(1) logical simp_thms)
      fix b assume "b \<in> set (map ?g ?rows)"
      then obtain r' where r': "b = ?g r'" "r' \<in> set ?rows"
        unfolding set_map by (rule imageE)
      show "in_logical a = in_logical b \<longleftrightarrow> in_name a = in_name b"
        by (simp only: r(1) r'(1) logical old_eq[OF r(2) r'(2), THEN conjunct2] name[OF r(2) r'(2)])
    qed
  qed
  show ?thesis
    unfolding install_inv_def eq
  proof (intro conjI)
    show "distinct (map row_key (map ?g ?rows))"
      by (fact keys)
    show "one_active (map ?g ?rows)"
      unfolding one_active_slots using one by blast
    show "identities (map ?g ?rows)"
      by (fact ident)
  qed
next
  case False
  have "snd (rename_installation old new db) = db \<or> fst (rename_installation old new db) = Renamed \<and> old \<noteq> new"
    unfolding rename_installation_def Let_def by simp
  then show ?thesis
    using assms False by auto
qed

section \<open>Any sequence of operations\<close>

datatype install_op =
    AddInstallation string installation
  | Activate string string string
  | RemoveVersion string string string
  | DeleteAll string "string option"
  | Rename string string
  | UpdateVersion string int string string string string "installation_source option"
  | UpdateBuildMethod string string bool
  | SaveConfig string string "string list" "string list" "string option"

fun install_step :: "install_json \<Rightarrow> install_op \<Rightarrow> install_db \<Rightarrow> install_db" where
  "install_step K (AddInstallation uuid info) db = snd (add_installation uuid info db)"
| "install_step K (Activate n v ver) db = snd (activate_installation_version n v ver db)"
| "install_step K (RemoveVersion n v ver) db = remove_version True n v ver db"
| "install_step K (DeleteAll n v) db = delete_all_versions n v db"
| "install_step K (Rename old new) db = snd (rename_installation old new db)"
| "install_step K (UpdateVersion uuid now n v ver path src) db = snd (update_version K uuid now n v ver path src db)"
| "install_step K (UpdateBuildMethod n v b) db = snd (update_build_method K n v b db)"
| "install_step K (SaveConfig n v args env url) db = snd (save_config n v args env url db)"

text \<open>A UUID that an operation draws is not in use.\<close>

fun fresh_uuid :: "install_op \<Rightarrow> install_db \<Rightarrow> bool" where
  "fresh_uuid (AddInstallation uuid info) db = (uuid \<noteq> [] \<and> uuid \<notin> in_logical ` set (db_installs db))"
| "fresh_uuid (UpdateVersion uuid now n v ver path src) db = (uuid \<noteq> [] \<and> uuid \<notin> in_logical ` set (db_installs db))"
| "fresh_uuid _ db = True"

fun all_fresh :: "install_json \<Rightarrow> install_op list \<Rightarrow> install_db \<Rightarrow> bool" where
  "all_fresh K [] db = True"
| "all_fresh K (x # xs) db = (fresh_uuid x db \<and> all_fresh K xs (install_step K x db))"

definition empty_installs :: "string list \<Rightarrow> install_db" where
  "empty_installs backends = \<lparr>db_installs = [], db_configs = [], db_model_backends = backends\<rparr>"

lemma add_installation_inv:
  "install_inv db \<Longrightarrow> uuid \<noteq> [] \<Longrightarrow> uuid \<notin> in_logical ` set (db_installs db) \<Longrightarrow>
     install_inv (snd (add_installation uuid info db))"
  unfolding add_installation_def by (rule insert_inv) simp_all

lemma install_step_inv:
  assumes "install_inv db" and "fresh_uuid x db"
  shows "install_inv (install_step K x db)"
proof (cases x)
  case (UpdateVersion uuid now n v ver path src)
  then show ?thesis
    using assms add_installation_inv
    by (auto simp: update_version_def split: sum.split option.split prod.splits) (metis snd_conv)
next
  case (UpdateBuildMethod n v b)
  then show ?thesis
    using assms update_source_inv
    by (auto simp: update_build_method_def split: sum.split option.split prod.splits) (metis snd_conv)
next
  case (SaveConfig n v args env url)
  then show ?thesis
    using assms by (auto simp: save_config_def upsert_installation_config_def install_inv_def Let_def)
qed (use assms in \<open>simp_all add: add_installation_inv activate_inv remove_version_inv delete_all_inv rename_inv\<close>)

lemma fold_install_inv:
  "install_inv db \<Longrightarrow> all_fresh K xs db \<Longrightarrow> install_inv (fold (install_step K) xs db)"
  by (induction xs arbitrary: db) (simp_all add: install_step_inv)


definition demo_install :: "string \<Rightarrow> int \<Rightarrow> installation" where
  "demo_install version at = \<lparr>in_name = ''llama'', in_type = ''llama_cpp'', in_version = version, in_path = ''/opt/'' @ version,
     in_installed_at = at, in_variant = ''cpu'', in_source = None, in_active = False, in_docker = None, in_logical = []\<rparr>"

definition demo_install_json :: install_json where
  "demo_install_json = \<lparr>ij_source = (\<lambda>_. None), ij_docker_ok = (\<lambda>_. True), ij_show_source = (\<lambda>_. [])\<rparr>"

definition demo_install_ops :: "install_op list" where
  "demo_install_ops = [AddInstallation ''id1'' (demo_install ''b1'' 1), AddInstallation ''id2'' (demo_install ''b2'' 2),
     RemoveVersion ''llama'' ''cpu'' ''b2'']"


text \<open>
  A removal that stops between its two transactions leaves the other versions of the slot
  without an active one.
\<close>

lemma interrupted_removal:
  assumes "install_inv db" and "x \<in> set (db_installs db)" and "is_row n v ver x" and "in_active x"
  shows "get_active_installation n v (remove_version False n v ver db) = None"
proof -
  have "\<not> (same_slot n v r \<and> in_active r)" if "r \<in> set (db_installs db)" "\<not> is_row n v ver r" for r
  proof
    assume r: "same_slot n v r \<and> in_active r"
    then have "has_one (db_installs db) n v"
      using assms(1) that(1) by (auto simp: install_inv_def one_active_slots)
    then have "r = x"
      using r that(1) assms(2-4) unfolding has_one_def by (auto simp: is_row_def)
    then show False
      using that(2) assms(3) by simp
  qed
  then show ?thesis
    by (auto simp: get_active_installation_def remove_version_def delete_installation_def find_None_iff)
qed

end
