(* ===== verification/LoadSpec.thy ===== *)
theory LoadSpec
  imports Installations Resolve ProcessTable
begin

text \<open>
  The launch specification that the proxy sends to a host: \<open>build_load_spec\<close>,
  \<open>build_tts_load_spec\<close> and \<open>build_compaction_load_spec\<close> of \<open>proxy/lifecycle/spec.rs\<close>, and
  \<open>resolve_backend_path\<close> of \<open>config/resolve/mod.rs\<close>. The url, shlex and floating-point
  libraries and the listener that yields a free port are parameters. \<open>Path::strip_prefix\<close> is
  taken on paths without empty or dot components below the directory, which is what the
  validators of repository and file names leave.
\<close>

section \<open>The engine's executable\<close>

datatype spec_error =
    TargetError load_error | InstallError install_error | PinnedMissing string string | NoInstalledPath string
  | ArgsError resolve_error | NoFreePort | BadHealthUrl string | CompactionDisabled | EngineNotInstalled string

definition config_path :: "config \<Rightarrow> string \<Rightarrow> spec_error + string" where
  "config_path cfg name = (case Option.bind (hm_get (cf_backends cfg) name) bc_path of
       Some p \<Rightarrow> Inr p | None \<Rightarrow> Inl (NoInstalledPath name))"

definition pinned_path :: "install_json \<Rightarrow> install_db \<Rightarrow> string \<Rightarrow> string \<Rightarrow> string \<Rightarrow> spec_error + string option" where
  "pinned_path K db name variant version =
     (case get_by_version K name variant version db of
        Inl e \<Rightarrow> Inl (InstallError e)
      | Inr (Some info) \<Rightarrow> Inr (Some (in_path info))
      | Inr None \<Rightarrow> (case list_versions K name None db of
            Inl e \<Rightarrow> Inl (InstallError e)
          | Inr None \<Rightarrow> Inr None
          | Inr (Some vs) \<Rightarrow> Inr (map_option in_path (List.find (\<lambda>v. in_version v = version) vs))))"

definition active_path :: "install_json \<Rightarrow> install_db \<Rightarrow> string \<Rightarrow> string \<Rightarrow> spec_error + string option" where
  "active_path K db name variant =
     (case get_active K name variant db of
        Inl e \<Rightarrow> Inl (InstallError e)
      | Inr (Some info) \<Rightarrow> Inr (Some (in_path info))
      | Inr None \<Rightarrow> (case list_active K db of
            Inl e \<Rightarrow> Inl (InstallError e)
          | Inr vs \<Rightarrow> Inr (map_option in_path (List.find (\<lambda>v. in_name v = name) vs))))"

text \<open>Without a manager there is no installation to find.\<close>

definition resolve_backend_path ::
  "config \<Rightarrow> string \<Rightarrow> gpu_variant option \<Rightarrow> (install_json \<times> install_db) option \<Rightarrow> spec_error + string" where
  "resolve_backend_path cfg name model_variant manager =
     (let backend = hm_get (cf_backends cfg) name;
          variant = (case model_variant of Some v \<Rightarrow> variant_folder v
            | None \<Rightarrow> (case Option.bind backend bc_gpu_variant of Some v \<Rightarrow> variant_folder v | None \<Rightarrow> ''cpu''))
      in case Option.bind backend bc_version of
          Some version \<Rightarrow>
            (case (case manager of Some (K, db) \<Rightarrow> pinned_path K db name variant version | None \<Rightarrow> Inr None) of
               Inl e \<Rightarrow> Inl e
             | Inr (Some p) \<Rightarrow> Inr p
             | Inr None \<Rightarrow> Inl (PinnedMissing name version))
        | None \<Rightarrow>
            (case (case manager of Some (K, db) \<Rightarrow> active_path K db name variant | None \<Rightarrow> Inr None) of
               Inl e \<Rightarrow> Inl e
             | Inr (Some p) \<Rightarrow> Inr p
             | Inr None \<Rightarrow> config_path cfg name))"

section \<open>Building a specification\<close>

record load_spec =
  ls_backend_name :: string
  ls_backend :: string
  ls_gpu_device :: "string option"
  ls_request :: load_request

record ('f, 'u) spec_env =
  se_shlex :: shlex
  se_f64 :: "'f f64_ops"
  se_vllm_json :: "vllm_spec_config \<Rightarrow> string option"
  se_url :: "'u url_ops"
  se_set_host :: "'u \<Rightarrow> string \<Rightarrow> 'u option"
  se_config_dir :: "string option"
  se_json :: install_json
  se_installs :: install_db
  se_startup_secs :: "64 word"

definition normalize_device :: "string option \<Rightarrow> string option" where
  "normalize_device s = (case s of None \<Rightarrow> None
     | Some v \<Rightarrow> (let t = trim_ws v in if t = [] then None else Some t))"

definition resolve_gpu_device :: "string option \<Rightarrow> string option \<Rightarrow> string option" where
  "resolve_gpu_device config card_default =
     (case normalize_device config of Some d \<Rightarrow> Some d | None \<Rightarrow> normalize_device card_default)"

definition PROXY_MODELS_DIR_ENV :: string where
  "PROXY_MODELS_DIR_ENV = ''TAMA_MODELS_DIR''"

fun split_once_eq :: "string \<Rightarrow> (string \<times> string) option" where
  "split_once_eq [] = None"
| "split_once_eq (c # cs) = (if c = CHR ''='' then Some ([], cs)
     else map_option (\<lambda>(k, v). (c # k, v)) (split_once_eq cs))"

fun env_from :: "string list \<Rightarrow> (string, string) hmap \<Rightarrow> (string, string) hmap" where
  "env_from [] m = m"
| "env_from (e # es) m = (case split_once_eq e of
       Some (k, v) \<Rightarrow> env_from es (hm_insert k v m)
     | None \<Rightarrow> env_from es m)"

definition strip_dir :: "string \<Rightarrow> string \<Rightarrow> string" where
  "strip_dir dir p = (case strip_prefix (trim_end_slash dir @ ''/'') p of Some r \<Rightarrow> r | None \<Rightarrow> [])"

definition request_model_path :: "string \<Rightarrow> 'f model_config \<Rightarrow> string" where
  "request_model_path dir m =
     (case (mc_model m, mc_quant m) of
        (Some model_id, q) \<Rightarrow>
          if is_transformers m then strip_dir dir (repo_path dir model_id)
          else (case q of
              Some quant_name \<Rightarrow> (case mc_quants m quant_name of
                  Some entry \<Rightarrow> strip_dir dir (path_join (repo_path dir model_id) (qe_file entry))
                | None \<Rightarrow> [])
            | None \<Rightarrow> [])
      | (None, _) \<Rightarrow> [])"

text \<open>\<open>.ok()\<close> drops the result of the two setters: a URL they reject stays as it is.\<close>

definition spec_health_url :: "('f, 'u) spec_env \<Rightarrow> string option \<Rightarrow> u16 \<Rightarrow> spec_error + string" where
  "spec_health_url E template port =
     (case template of
        Some t \<Rightarrow> (case u_parse (se_url E) t of
            None \<Rightarrow> Inl (BadHealthUrl t)
          | Some u0 \<Rightarrow>
              (let u1 = unwrap_or (se_set_host E u0 ''127.0.0.1'') u0;
                   u2 = unwrap_or (u_set_port (se_url E) u1 port) u1
               in Inr (u_show (se_url E) u2)))
      | None \<Rightarrow> Inr (''http://127.0.0.1:'' @ show_u16 port @ ''/health''))"

definition startup_timeout_ms :: "('f, 'u) spec_env \<Rightarrow> int" where
  "startup_timeout_ms E = sint (se_startup_secs E * 1000)"

definition docker_text :: "('f, 'u) spec_env \<Rightarrow> string \<Rightarrow> string \<Rightarrow> string" where
  "docker_text E name variant = (case get_active (se_json E) name variant (se_installs E) of
       Inr (Some info) \<Rightarrow> unwrap_or (in_docker info) []
     | _ \<Rightarrow> [])"

text \<open>The card's default device and the port the listener yielded are arguments.\<close>

definition build_load_spec ::
  "('f, 'u) spec_env \<Rightarrow> config \<Rightarrow> (string, 'f model_config) hmap \<Rightarrow> string \<Rightarrow> string option \<Rightarrow> u16 option
     \<Rightarrow> spec_error + load_spec" where
  "build_load_spec E cfg models model_name card_device free_port =
     (case load_target cfg models model_name of
        Inl e \<Rightarrow> Inl (TargetError e)
      | Inr (backend_name, m, bc) \<Rightarrow>
         (let device = resolve_gpu_device (mc_gpu_device m) card_device;
              variant = unwrap_or (mc_gpu_variant m) CpuOnly;
              folder = variant_folder variant;
              db = se_installs E
          in case resolve_backend_path cfg (mc_backend m) (Some variant) (Some (se_json E, db)) of
            Inl e \<Rightarrow> Inl e
          | Inr command \<Rightarrow>
             (case build_full_args (se_shlex E) (se_f64 E) (se_vllm_json E) (se_config_dir E) cfg m None
                  (get_default_args (mc_backend m) folder db) of
                Inl e \<Rightarrow> Inl (ArgsError e)
              | Inr args0 \<Rightarrow>
                 (case free_port of
                    None \<Rightarrow> Inl NoFreePort
                  | Some port \<Rightarrow>
                     (case models_dir (se_config_dir E) cfg of
                        Inl e \<Rightarrow> Inl (ArgsError e)
                      | Inr dir \<Rightarrow>
                         (case spec_health_url E (get_health_check_url (mc_backend m) folder db) port of
                            Inl e \<Rightarrow> Inl e
                          | Inr health_url \<Rightarrow> Inr
                              \<lparr>ls_backend_name = backend_name, ls_backend = mc_backend m, ls_gpu_device = device,
                               ls_request =
                                \<lparr>lr_provider_name = mc_backend m, lr_model_path = request_model_path dir m,
                                 lr_gpu_variant = folder, lr_params = [], lr_model_name = backend_name,
                                 lr_command = command,
                                 lr_args = override_arg (override_arg args0 ''--host'' ''127.0.0.1'')
                                   ''--port'' (show_u16 port),
                                 lr_env = hm_insert PROXY_MODELS_DIR_ENV dir
                                   (env_from (get_default_env (mc_backend m) folder db) []),
                                 lr_health_url = health_url, lr_health_timeout_ms = startup_timeout_ms E,
                                 lr_gpu_device = unwrap_or device [],
                                 lr_docker_config_json = docker_text E (mc_backend m) folder\<rparr>\<rparr>))))))"

section \<open>Speech and compaction\<close>

definition uvicorn_args :: "string \<Rightarrow> u16 \<Rightarrow> string list" where
  "uvicorn_args app port = [''uvicorn'', app, ''--host'', ''127.0.0.1'', ''--port'', show_u16 port]"

definition build_tts_load_spec :: "('f, 'u) spec_env \<Rightarrow> string \<Rightarrow> u16 option \<Rightarrow> spec_error + load_spec" where
  "build_tts_load_spec E backend_name free_port =
     (case free_port of None \<Rightarrow> Inl NoFreePort | Some port \<Rightarrow>
       (case list_versions (se_json E) backend_name None (se_installs E) of
          Inl e \<Rightarrow> Inl (InstallError e)
        | Inr None \<Rightarrow> Inl (EngineNotInstalled backend_name)
        | Inr (Some variants) \<Rightarrow>
           (let variant = (case variants of v # _ \<Rightarrow> in_variant v | [] \<Rightarrow> ''cpu'')
            in case get_active (se_json E) backend_name variant (se_installs E) of
              Inl e \<Rightarrow> Inl (InstallError e)
            | Inr None \<Rightarrow> Inl (EngineNotInstalled backend_name)
            | Inr (Some info) \<Rightarrow>
               (let base = in_path info; repo_root = path_join base ''kokoro-fastapi'' in Inr
                 \<lparr>ls_backend_name = backend_name, ls_backend = in_name info, ls_gpu_device = None,
                  ls_request =
                   \<lparr>lr_provider_name = in_name info, lr_model_path = [], lr_gpu_variant = variant, lr_params = [],
                    lr_model_name = backend_name,
                    lr_command = path_join (path_join (path_join base ''venv'') ''bin'') ''python'',
                    lr_args = ''-m'' # uvicorn_args ''api.src.main:app'' port,
                    lr_env = hm_insert ''VOICES_DIR'' (path_join repo_root ''api/src/voices/v1_0'')
                      (hm_insert ''MODEL_DIR'' (path_join repo_root ''api/src/models'')
                      (hm_insert ''PYTHONPATH'' repo_root [])),
                    lr_health_url = ''http://127.0.0.1:'' @ show_u16 port @ ''/health'',
                    lr_health_timeout_ms = startup_timeout_ms E, lr_gpu_device = [],
                    lr_docker_config_json = []\<rparr>\<rparr>))))"

record compaction_config =
  cc_enabled :: bool
  cc_server_path :: "string option"
  cc_device :: compaction_device
  cc_port :: "u16 option"
  cc_request_timeout_ms :: "64 word"

definition build_compaction_load_spec ::
  "('f, 'u) spec_env \<Rightarrow> compaction_config \<Rightarrow> u16 option \<Rightarrow> spec_error + load_spec" where
  "build_compaction_load_spec E compaction free_port =
     (if \<not> cc_enabled compaction then Inl CompactionDisabled
      else case (case cc_port compaction of Some p \<Rightarrow> Some p | None \<Rightarrow> free_port) of
          None \<Rightarrow> Inl NoFreePort
        | Some port \<Rightarrow> Inr
            \<lparr>ls_backend_name = ''compaction'', ls_backend = ''compaction'', ls_gpu_device = None,
             ls_request =
              \<lparr>lr_provider_name = ''compaction'', lr_model_path = [], lr_gpu_variant = ''cpu'', lr_params = [],
               lr_model_name = ''compaction'', lr_command = ''uv'',
               lr_args = ''run'' # uvicorn_args ''main:app'' port,
               lr_env = hm_insert ''COMPACTION_DEVICE'' (device_show (cc_device compaction))
                 (hm_insert ''COMPACTION_PORT'' (show_u16 port) []),
               lr_health_url = ''http://127.0.0.1:'' @ show_u16 port @ ''/health'',
               lr_health_timeout_ms = startup_timeout_ms E, lr_gpu_device = [],
               lr_docker_config_json = []\<rparr>\<rparr>)"

section \<open>What a specification promises\<close>

lemma list_active_sound:
  "collect_infos K rs = Inr is \<Longrightarrow> i \<in> set is \<Longrightarrow> \<exists>r\<in>set rs. in_name r = in_name i \<and> in_path r = in_path i \<and> in_version r = in_version i"
proof (induction rs arbitrary: "is")
  case (Cons r rs)
  obtain j js where j: "record_to_info K r = Inr j" "collect_infos K rs = Inr js" "is = j # js"
    using Cons.prems(1) by (auto split: sum.splits)
  have "in_name r = in_name j \<and> in_path r = in_path j \<and> in_version r = in_version j"
    using j(1) by (auto simp: record_to_info_def split: if_splits option.splits)
  then show ?case
    using Cons.IH[OF j(2)] Cons.prems(2) j(3) by auto
qed simp

lemma info_opt_sound:
  "info_opt K r = Inr (Some i) \<Longrightarrow> \<exists>x. r = Some x \<and> in_name x = in_name i \<and> in_path x = in_path i"
  by (auto simp: info_opt_def record_to_info_def split: option.splits sum.splits if_splits)

definition installed_path :: "config \<Rightarrow> install_db \<Rightarrow> string \<Rightarrow> string \<Rightarrow> bool" where
  "installed_path cfg db name p \<longleftrightarrow>
     (\<exists>r\<in>set (db_installs db). in_name r = name \<and> in_path r = p) \<or>
     Option.bind (hm_get (cf_backends cfg) name) bc_path = Some p"

lemma pinned_path_sound:
  assumes "pinned_path K db name variant version = Inr (Some p)"
  shows "\<exists>r\<in>set (db_installs db). in_name r = name \<and> in_path r = p"
proof -
  consider info where "get_by_version K name variant version db = Inr (Some info)" "p = in_path info"
    | vs v where "list_versions K name None db = Inr (Some vs)" "v \<in> set vs" "p = in_path v"
    using assms by (auto simp: pinned_path_def split: sum.splits option.splits dest: find_SomeD)
  then show ?thesis
  proof cases
    case 1
    then show ?thesis
      by (auto simp: get_by_version_def get_installation_by_version_def is_row_def same_slot_def
          dest!: info_opt_sound find_SomeD)
  next
    case 2
    then have "collect_infos K (list_installation_versions name None db) = Inr vs"
      by (auto simp: list_versions_def split: list.splits sum.splits)
    from list_active_sound[OF this 2(2)] show ?thesis
      using 2(3) by (auto simp: list_installation_versions_def)
  qed
qed

lemma active_path_sound:
  assumes "active_path K db name variant = Inr (Some p)"
  shows "\<exists>r\<in>set (db_installs db). in_name r = name \<and> in_path r = p"
proof -
  consider info where "get_active K name variant db = Inr (Some info)" "p = in_path info"
    | vs v where "list_active K db = Inr vs" "v \<in> set vs" "in_name v = name" "p = in_path v"
    using assms by (auto simp: active_path_def split: sum.splits option.splits dest: find_SomeD)
  then show ?thesis
  proof cases
    case 1
    then show ?thesis
      by (auto simp: get_active_def get_active_installation_def same_slot_def dest!: info_opt_sound find_SomeD)
  next
    case 2
    then show ?thesis
      using list_active_sound[of K "list_active_installations db" vs v]
      by (auto simp: list_active_def list_active_installations_def)
  qed
qed

lemma backend_path_sound:
  "resolve_backend_path cfg name variant (Some (K, db)) = Inr p \<Longrightarrow> installed_path cfg db name p"
  by (auto simp: resolve_backend_path_def config_path_def installed_path_def Let_def
      split: option.splits sum.splits dest: pinned_path_sound active_path_sound)

lemma override_arg_shape:
  "\<exists>a b. override_arg args flag v = a @ flag # v # b \<and> flag \<notin> set a"
  using override_arg_spec[of args flag v v] by (metis (mono_tags, lifting) set_takeWhileD)

lemma load_target_key:
  "load_target cfg models name = Inr (k, m, bc) \<Longrightarrow>
     \<exists>m'. (k, m') \<in> set models \<and> mc_enabled m' \<and> model_answers_to name k m'"
  by (auto simp: load_target_def split: list.splits sum.splits dest: resolve_backends_first)

text \<open>C17. A launch specification names an enabled model that answers to the requested name,
  under its configuration key; its program is an installed version of the model's engine or
  the configured one; the port its arguments name first is the port of the health check where
  no template overrides it; and the host learns the models directory the paths are relative to.\<close>

theorem load_spec_sound:
  assumes "build_load_spec E cfg models model_name card_device port = Inr spec"
  shows "\<exists>m p dir a b. (ls_backend_name spec, m) \<in> set models \<and> mc_enabled m \<and>
    model_answers_to model_name (ls_backend_name spec) m \<and>
    lr_model_name (ls_request spec) = ls_backend_name spec \<and>
    installed_path cfg (se_installs E) (ls_backend spec) (lr_command (ls_request spec)) \<and>
    port = Some p \<and> lr_args (ls_request spec) = a @ ''--port'' # show_u16 p # b \<and> ''--port'' \<notin> set a \<and>
    (get_health_check_url (ls_backend spec) (lr_gpu_variant (ls_request spec)) (se_installs E) = None \<longrightarrow>
       lr_health_url (ls_request spec) = ''http://127.0.0.1:'' @ show_u16 p @ ''/health'') \<and>
    models_dir (se_config_dir E) cfg = Inr dir \<and>
    hm_get (lr_env (ls_request spec)) ''TAMA_MODELS_DIR'' = Some dir"
proof -
  obtain k m bc where t: "load_target cfg models model_name = Inr (k, m, bc)"
    using assms by (auto simp: build_load_spec_def split: sum.splits)
  let ?folder = "variant_folder (unwrap_or (mc_gpu_variant m) CpuOnly)"
  obtain command args0 p dir url where
    c: "resolve_backend_path cfg (mc_backend m) (Some (unwrap_or (mc_gpu_variant m) CpuOnly)) (Some (se_json E, se_installs E)) = Inr command"
    and p: "port = Some p" and d: "models_dir (se_config_dir E) cfg = Inr dir"
    and u: "spec_health_url E (get_health_check_url (mc_backend m) ?folder (se_installs E)) p = Inr url"
    and s: "ls_backend_name spec = k" "ls_backend spec = mc_backend m" "lr_model_name (ls_request spec) = k"
      "lr_command (ls_request spec) = command" "lr_gpu_variant (ls_request spec) = ?folder"
      "lr_args (ls_request spec) = override_arg (override_arg args0 ''--host'' ''127.0.0.1'') ''--port'' (show_u16 p)"
      "lr_health_url (ls_request spec) = url"
      "hm_get (lr_env (ls_request spec)) ''TAMA_MODELS_DIR'' = Some dir"
    using assms by (auto simp: build_load_spec_def t Let_def PROXY_MODELS_DIR_ENV_def split: sum.splits option.splits)
  obtain m' where "(k, m') \<in> set models" "mc_enabled m'" "model_answers_to model_name k m'"
    using load_target_key[OF t] by blast
  moreover obtain a b where "lr_args (ls_request spec) = a @ ''--port'' # show_u16 p # b" "''--port'' \<notin> set a"
    using override_arg_shape[of "override_arg args0 ''--host'' ''127.0.0.1''" "''--port''" "show_u16 p"] s(6) by auto
  moreover have "get_health_check_url (mc_backend m) ?folder (se_installs E) = None \<longrightarrow>
      url = ''http://127.0.0.1:'' @ show_u16 p @ ''/health''"
    using u by (auto simp: spec_health_url_def)
  ultimately show ?thesis
    using backend_path_sound[OF c] p d s by metis
qed

definition demo_spec_env :: "(nat, unit) spec_env" where
  "demo_spec_env = \<lparr>se_shlex = demo_shlex, se_f64 = demo_f64, se_vllm_json = (\<lambda>_. None),
     se_url = \<lparr>u_parse = (\<lambda>_. None), u_set_port = (\<lambda>u _. None), u_set_path = (\<lambda>u _. u), u_clear_query = (\<lambda>u. u),
       u_clear_fragment = (\<lambda>u. u), u_show = (\<lambda>_. [])\<rparr>, se_set_host = (\<lambda>_ _. None), se_config_dir = None,
     se_json = demo_install_json,
     se_installs = \<lparr>db_installs = [(demo_install ''b1'' 1)\<lparr>in_active := True, in_logical := ''id1''\<rparr>],
       db_configs = [], db_model_backends = []\<rparr>, se_startup_secs = 120\<rparr>"

theorem load_spec_sound_witness:
  "\<exists>spec p a b. build_load_spec demo_spec_env demo_config [(''a'', demo_named ''llama'' ''x'')] ''x'' None (Some 8080) = Inr spec \<and>
     ls_backend_name spec = ''a'' \<and> lr_args (ls_request spec) = a @ ''--port'' # show_u16 p # b \<and> p = 8080 \<and>
     hm_get (lr_env (ls_request spec)) ''TAMA_MODELS_DIR'' = Some ''/models''"
proof -
  let ?ms = "[(''a'', demo_named ''llama'' ''x'')]" and ?m = "demo_named ''llama'' ''x''"
  have t: "load_target demo_config ?ms ''x'' = Inr (''a'', ?m, empty_backend_config)"
    by (simp add: load_target_demo)
  have backend: "mc_backend ?m = ''llama''" "mc_gpu_variant ?m = None"
    by (simp_all add: demo_named_def model_default_def)
  have path: "resolve_backend_path demo_config ''llama'' (Some CpuOnly) (Some (demo_install_json, se_installs demo_spec_env)) = Inr ''/opt/b1''"
    by (simp add: resolve_backend_path_def demo_config_def hm_get_def active_path_def get_active_def
        get_active_installation_def demo_spec_env_def same_slot_def demo_install_def variant_folder_def
        info_opt_def record_to_info_def installation_type_parse_def to_lower_def lower_char_def)
  have dir: "models_dir None demo_config = Inr ''/models''"
    by (simp add: models_dir_def demo_config_def)
  have cfg: "get_default_args n v (se_installs demo_spec_env) = []" "get_default_env n v (se_installs demo_spec_env) = []"
    "get_health_check_url n v (se_installs demo_spec_env) = None" for n v
    by (simp_all add: get_default_args_def get_default_env_def get_health_check_url_def get_installation_config_def demo_spec_env_def)
  have env: "se_json demo_spec_env = demo_install_json" "se_shlex demo_spec_env = demo_shlex"
    "se_f64 demo_spec_env = demo_f64" "se_vllm_json demo_spec_env = (\<lambda>_. None)" "se_config_dir demo_spec_env = None"
    by (simp_all add: demo_spec_env_def)
  obtain g where g: "full_grouped demo_shlex demo_f64 (\<lambda>_. None) None demo_config ?m None [] = Inr g"
    using full_grouped_total[OF dir] by blast
  have "\<exists>spec. build_load_spec demo_spec_env demo_config ?ms ''x'' None (Some 8080) = Inr spec"
    using path dir g
    by (simp add: build_load_spec_def t backend cfg unwrap_or_def Let_def build_full_args_def
        spec_health_url_def env)
  then obtain spec where spec: "build_load_spec demo_spec_env demo_config ?ms ''x'' None (Some 8080) = Inr spec"
    by blast
  have "ls_backend_name spec = ''a''"
    using load_spec_sound[OF spec] by auto
  then show ?thesis
    using spec load_spec_sound[OF spec] dir by (auto simp: env)
qed

end
