(* ===== verification/Serving.thy ===== *)
theory Serving
  imports Rows LoadSpec
begin

text \<open>
  How the proxy gets a model running for a request, and lets go of it: \<open>proxy/lifecycle/mod.rs\<close>,
  \<open>idle_timeout.rs\<close>, the dispatch half of \<open>spec.rs\<close>, and the lookups of \<open>state/mod.rs\<close> and
  \<open>state/registry.rs\<close>. A handler reads the live rows several times, and every reading is an
  argument of its own, as are the database's answers, the answers of the host and the clock;
  the requests to a host are the outputs. Time is in milliseconds.
\<close>

section \<open>The registry\<close>

record ('f, 'i) model_registry =
  rg_models :: "(string, 'f model_config) hmap"
  rg_aliases :: "(string, string) hmap"
  rg_last_accessed :: "(string, int) hmap"
  rg_inference_stats :: "(string, 'i) hmap"

definition resolve_alias :: "('f, 'i) model_registry \<Rightarrow> string \<Rightarrow> string" where
  "resolve_alias s name = unwrap_or (hm_get (rg_aliases s) name) name"

definition update_last_accessed :: "int \<Rightarrow> string \<Rightarrow> ('f, 'i) model_registry \<Rightarrow> ('f, 'i) model_registry" where
  "update_last_accessed now name s = s\<lparr>rg_last_accessed := hm_insert name now (rg_last_accessed s)\<rparr>"

definition prune_last_accessed :: "string \<Rightarrow> ('f, 'i) model_registry \<Rightarrow> ('f, 'i) model_registry" where
  "prune_last_accessed name s = s\<lparr>rg_last_accessed := hm_remove name (rg_last_accessed s)\<rparr>"

definition clear_inference_stats :: "string \<Rightarrow> ('f, 'i) model_registry \<Rightarrow> ('f, 'i) model_registry" where
  "clear_inference_stats name s = s\<lparr>rg_inference_stats := hm_remove name (rg_inference_stats s)\<rparr>"

definition reload_model_configs :: "(string, 'f model_config) hmap \<Rightarrow> ('f, 'i) model_registry \<Rightarrow> ('f, 'i) model_registry" where
  "reload_model_configs configs s = s\<lparr>rg_models := configs\<rparr>"

definition reload_aliases :: "(string \<times> string) list \<Rightarrow> ('f, 'i) model_registry \<Rightarrow> ('f, 'i) model_registry" where
  "reload_aliases pairs s = s\<lparr>rg_aliases := fold (\<lambda>(k, v). hm_insert k v) pairs []\<rparr>"

definition get_available_backend ::
  "config \<Rightarrow> ('f, 'i) model_registry \<Rightarrow> 'g rows \<Rightarrow> string \<Rightarrow> string option" where
  "get_available_backend cfg s rs model_name =
     map_option fst (List.find (\<lambda>(name, _). case rows_row rs name of
         Some r \<Rightarrow> eligible_status (mr_status r) | None \<Rightarrow> False)
       (resolve_backends_for_model cfg (rg_models s) model_name))"

definition canonical_model_key :: "config \<Rightarrow> ('f, 'i) model_registry \<Rightarrow> string \<Rightarrow> string" where
  "canonical_model_key cfg s model_name =
     (case resolve_backends_for_model cfg (rg_models s) model_name of
        (name, _) # _ \<Rightarrow> name | [] \<Rightarrow> model_name)"

section \<open>Providers of a model\<close>

datatype load_failure =
    SpecFailed spec_error | DatabaseFailed | ProviderNotFound string | RemoteHasNoTamad string string
  | NoLocalProvider string | ManyLocalProviders string | NoTamad string | HostOffline string
  | VramFull | RpcFailed string | NotReadyInTime | DiedDuringStartup | Exhausted

text \<open>The providers as the database gives them; None is a database error.\<close>

definition resolve_provider_for_model ::
  "provider list option \<Rightarrow> ('f, 'i) model_registry \<Rightarrow> string \<Rightarrow> load_failure + provider" where
  "resolve_provider_for_model db s model_name =
     (case Option.bind (hm_get (rg_models s) model_name) mc_provider_name of
        Some name \<Rightarrow> (case db of
            None \<Rightarrow> Inl DatabaseFailed
          | Some providers \<Rightarrow> (case List.find (\<lambda>p. pv_name p = name) providers of
                None \<Rightarrow> Inl (ProviderNotFound name)
              | Some p \<Rightarrow> if pv_type p = Remote then Inl (RemoteHasNoTamad model_name name) else Inr p))
      | None \<Rightarrow> (case db of
            None \<Rightarrow> Inl DatabaseFailed
          | Some providers \<Rightarrow> (case filter (\<lambda>p. pv_type p = Local \<and> pv_tamad_id p \<noteq> None) providers of
                [p] \<Rightarrow> Inr p
              | [] \<Rightarrow> Inl (NoLocalProvider model_name)
              | _ \<Rightarrow> Inl (ManyLocalProviders model_name))))"

text \<open>The host of a provider, if its stream is registered.\<close>

definition provider_host :: "(string \<Rightarrow> bool) \<Rightarrow> provider \<Rightarrow> load_failure + string" where
  "provider_host connected p = (case pv_tamad_id p of
       None \<Rightarrow> Inl (NoTamad (pv_name p))
     | Some t \<Rightarrow> if connected t then Inr t else Inl (HostOffline (pv_name p)))"

text \<open>The comparison of two counters as floating-point numbers is a parameter.\<close>

definition vram_load_ok :: "(nat \<Rightarrow> nat \<Rightarrow> bool) \<Rightarrow> (nat \<times> nat) list \<Rightarrow> gpu_variant \<Rightarrow> string option \<Rightarrow> bool" where
  "vram_load_ok at_least_95 gpus variant gpu_device =
     (variant = CpuOnly \<or> gpu_device = None \<or> gpus = [] \<or>
      \<not> list_all (\<lambda>(used, total). total > 0 \<and> at_least_95 used total) gpus)"

section \<open>Waiting for a model to start\<close>

datatype row_status = Present string | Absent | NoFrame

text \<open>One turn of the loop: the time since its start and what the host's frame says then.\<close>

fun wait_for_terminal_row :: "nat \<Rightarrow> nat \<Rightarrow> bool \<Rightarrow> nat \<Rightarrow> (nat \<times> row_status) list \<Rightarrow> (load_failure + unit) option" where
  "wait_for_terminal_row deadline gone_threshold seen_any gone [] = None"
| "wait_for_terminal_row deadline gone_threshold seen_any gone ((elapsed, st) # turns) =
     (if elapsed \<ge> deadline then Some (Inl NotReadyInTime)
      else case st of
          Present s \<Rightarrow>
            if s = ''ready'' then Some (Inr ())
            else if s = ''budget_exhausted'' then Some (Inl Exhausted)
            else wait_for_terminal_row deadline gone_threshold True 0 turns
        | Absent \<Rightarrow>
            if seen_any then
              (if gone + 1 \<ge> gone_threshold then Some (Inl DiedDuringStartup)
               else wait_for_terminal_row deadline gone_threshold seen_any (gone + 1) turns)
            else wait_for_terminal_row deadline gone_threshold seen_any gone turns
        | NoFrame \<Rightarrow> wait_for_terminal_row deadline gone_threshold seen_any gone turns)"

definition row_status_of :: "'d process_info list option \<Rightarrow> string \<Rightarrow> row_status" where
  "row_status_of frame key = (case frame of
       None \<Rightarrow> NoFrame
     | Some ps \<Rightarrow> (case List.find (\<lambda>p. pi_model_name p = key \<and> is_eligible p) ps of
           Some p \<Rightarrow> Present (pi_status p) | None \<Rightarrow> Absent))"

section \<open>Unloading\<close>

datatype host_rpc = LoadRpc string load_request | UnloadRpc string string

datatype unload_answer = Unloaded | NotLoadedThere | UnloadError

datatype unload_error = NotLoaded string | NotReady string string

text \<open>What the world answers while a request is served.\<close>

record 'g serve_env =
  sv_cfg :: config
  sv_providers :: "provider list option"
  sv_connected :: "string \<Rightarrow> bool"
  sv_rows_exhausted :: "'g rows"
  sv_rows_available :: "'g rows"
  sv_rows_evict :: "'g rows"
  sv_rows_unload :: "'g rows"
  sv_unload_answer :: unload_answer
  sv_gpus :: "(nat \<times> nat) list option"
  sv_at_least_95 :: "nat \<Rightarrow> nat \<Rightarrow> bool"
  sv_rpc_ok :: bool
  sv_turns :: "(nat \<times> row_status) list"
  sv_max_loaded :: nat
  sv_now :: int

definition unload_model_on_tamad ::
  "'g serve_env \<Rightarrow> ('f, 'i) model_registry \<Rightarrow> string \<Rightarrow> (load_failure + bool) \<times> host_rpc list" where
  "unload_model_on_tamad E s model_name =
     (case resolve_provider_for_model (sv_providers E) s model_name of
        Inl e \<Rightarrow> (Inl e, [])
      | Inr p \<Rightarrow> (case provider_host (sv_connected E) p of
            Inl e \<Rightarrow> (Inl e, [])
          | Inr host \<Rightarrow>
              ((case sv_unload_answer E of
                  Unloaded \<Rightarrow> Inr True | NotLoadedThere \<Rightarrow> Inr False | UnloadError \<Rightarrow> Inl (RpcFailed (pv_name p))),
               [UnloadRpc host (canonical_model_key (sv_cfg E) s model_name)])))"

text \<open>The local state goes whatever the host answers.\<close>

definition unload_model ::
  "'g serve_env \<Rightarrow> 'g rows \<Rightarrow> string \<Rightarrow> ('f, 'i) model_registry
     \<Rightarrow> (unload_error + unit) \<times> host_rpc list \<times> ('f, 'i) model_registry" where
  "unload_model E rs name s =
     (case rows_row rs name of
        None \<Rightarrow> (Inl (NotLoaded name), [], s)
      | Some row \<Rightarrow>
          if mr_status row \<notin> {''ready'', ''starting'', ''restarting'', ''budget_exhausted''}
          then (Inl (NotReady name (mr_status row)), [], s)
          else (Inr (), snd (unload_model_on_tamad E s name),
                prune_last_accessed name (clear_inference_stats name s)))"

section \<open>Eviction\<close>

definition is_auxiliary :: "'f model_config option \<Rightarrow> bool" where
  "is_auxiliary mc = (let backend = (case mc of Some m \<Rightarrow> mc_backend m | None \<Rightarrow> [])
     in starts_with backend ''tts_'' \<or> backend = ''compaction'')"

definition evict_candidate :: "('f, 'i) model_registry \<Rightarrow> string option \<Rightarrow> 'g model_row \<Rightarrow> bool" where
  "evict_candidate s device r \<longleftrightarrow> mr_status r = ''ready'' \<and>
     \<not> is_auxiliary (hm_get (rg_models s) (mr_key r)) \<and>
     Option.bind (hm_get (rg_models s) (mr_key r)) mc_gpu_device = device"

fun string_less :: "string \<Rightarrow> string \<Rightarrow> bool" where
  "string_less s [] = False"
| "string_less [] (c # cs) = True"
| "string_less (a # s) (c # cs) = ((of_char a :: nat) < of_char c \<or> a = c \<and> string_less s cs)"

text \<open>Never accessed before accessed, older access first; ties by the wire's time, then the key.\<close>

definition lru_before :: "('f, 'i) model_registry \<Rightarrow> 'g model_row \<Rightarrow> 'g model_row \<Rightarrow> bool" where
  "lru_before s a b =
     (let ka = hm_get (rg_last_accessed s) (mr_key a); kb = hm_get (rg_last_accessed s) (mr_key b)
      in if ka = kb then
           mr_last_seen_ms a < mr_last_seen_ms b \<or>
           mr_last_seen_ms a = mr_last_seen_ms b \<and> string_less (mr_key a) (mr_key b)
         else (case (ka, kb) of (None, _) \<Rightarrow> True | (Some x, None) \<Rightarrow> False | (Some x, Some y) \<Rightarrow> x < y))"

text \<open>A stable sort by the comparison.\<close>

fun insert_by :: "('a \<Rightarrow> 'a \<Rightarrow> bool) \<Rightarrow> 'a \<Rightarrow> 'a list \<Rightarrow> 'a list" where
  "insert_by lt x [] = [x]"
| "insert_by lt x (y # ys) = (if lt y x then y # insert_by lt x ys else x # y # ys)"

definition sort_by :: "('a \<Rightarrow> 'a \<Rightarrow> bool) \<Rightarrow> 'a list \<Rightarrow> 'a list" where
  "sort_by lt xs = foldr (insert_by lt) xs []"

definition evict_lru_if_needed ::
  "'g serve_env \<Rightarrow> string option \<Rightarrow> ('f, 'i) model_registry
     \<Rightarrow> (unload_error + string option) \<times> host_rpc list \<times> ('f, 'i) model_registry" where
  "evict_lru_if_needed E device s =
     (if sv_max_loaded E = 0 then (Inr None, [], s)
      else let candidates = filter (evict_candidate s device) (rw_ordered (sv_rows_evict E))
      in if length candidates < sv_max_loaded E then (Inr None, [], s)
      else let name = mr_key (hd (sort_by (lru_before s) candidates))
      in case unload_model E (sv_rows_unload E) name s of
          (Inl e, rpcs, s') \<Rightarrow> (Inl e, rpcs, s')
        | (Inr _, rpcs, s') \<Rightarrow> (Inr (Some name), rpcs, s'))"

section \<open>Loading\<close>

definition load_spec_on_tamad ::
  "'g serve_env \<Rightarrow> load_spec \<Rightarrow> bool \<Rightarrow> ('f, 'i) model_registry
     \<Rightarrow> (load_failure + string) option \<times> host_rpc list \<times> ('f, 'i) model_registry" where
  "load_spec_on_tamad E spec evict_lru s =
     (case resolve_provider_for_model (sv_providers E) s (ls_backend_name spec) of
        Inl e \<Rightarrow> (Some (Inl e), [], s)
      | Inr p \<Rightarrow> (case provider_host (sv_connected E) p of
          Inl e \<Rightarrow> (Some (Inl e), [], s)
        | Inr host \<Rightarrow>
           (let (evicted, s1) = (if evict_lru then snd (evict_lru_if_needed E (ls_gpu_device spec) s) else ([], s));
                variant = unwrap_or (gpu_variant_parse (lr_gpu_variant (ls_request spec))) CpuOnly
            in if evict_lru \<and> (case sv_gpus E of
                  Some gpus \<Rightarrow> \<not> vram_load_ok (sv_at_least_95 E) gpus variant (ls_gpu_device spec) | None \<Rightarrow> False)
               then (Some (Inl VramFull), evicted, s1)
               else let rpcs = evicted @ [LoadRpc host (ls_request spec)]
               in if \<not> sv_rpc_ok E then (Some (Inl (RpcFailed (pv_name p))), rpcs, s1)
               else
                 (map_option (\<lambda>r. case r of Inl e \<Rightarrow> Inl e | Inr _ \<Rightarrow> Inr (ls_backend_name spec))
                    (wait_for_terminal_row (nat (lr_health_timeout_ms (ls_request spec)) + 20000) 30 False 0 (sv_turns E)),
                  rpcs, s1))))"

definition load_model_on_tamad ::
  "'g serve_env \<Rightarrow> (string \<Rightarrow> spec_error + load_spec) \<Rightarrow> string \<Rightarrow> ('f, 'i) model_registry
     \<Rightarrow> (load_failure + string) option \<times> host_rpc list \<times> ('f, 'i) model_registry" where
  "load_model_on_tamad E build model_name s =
     (case build model_name of
        Inl e \<Rightarrow> (Some (Inl (SpecFailed e)), [], s)
      | Inr spec \<Rightarrow> load_spec_on_tamad E spec True s)"

text \<open>Speech and compaction: a ready row short-cuts the load, and no model is evicted.\<close>

definition row_ready :: "'g rows \<Rightarrow> string \<Rightarrow> bool" where
  "row_ready rs key = (case rows_row rs key of Some r \<Rightarrow> mr_status r = ''ready'' | None \<Rightarrow> False)"

definition load_tts_on_tamad ::
  "'g serve_env \<Rightarrow> (spec_error + load_spec) \<Rightarrow> string \<Rightarrow> ('f, 'i) model_registry
     \<Rightarrow> (load_failure + string) option \<times> host_rpc list \<times> ('f, 'i) model_registry" where
  "load_tts_on_tamad E built backend_name s =
     (if row_ready (sv_rows_available E) backend_name then (Some (Inr backend_name), [], s)
      else case built of
          Inl e \<Rightarrow> (Some (Inl (SpecFailed e)), [], s)
        | Inr spec \<Rightarrow> load_spec_on_tamad E spec False s)"

definition load_compaction_on_tamad ::
  "'g serve_env \<Rightarrow> compaction_config \<Rightarrow> (spec_error + load_spec) \<Rightarrow> ('f, 'i) model_registry
     \<Rightarrow> (load_failure + string) option \<times> host_rpc list \<times> ('f, 'i) model_registry" where
  "load_compaction_on_tamad E compaction built s =
     (if \<not> cc_enabled compaction then (Some (Inl (SpecFailed CompactionDisabled)), [], s)
      else if row_ready (sv_rows_available E) ''compaction'' then (Some (Inr ''compaction''), [], s)
      else case built of
          Inl e \<Rightarrow> (Some (Inl (SpecFailed e)), [], s)
        | Inr spec \<Rightarrow> load_spec_on_tamad E spec False s)"

section \<open>Serving a request\<close>

text \<open>
  An error keeps its type only where the code returns it as it is: both callers turn the error
  of a load into a message.
\<close>

datatype serve_error = BudgetExhausted | FailedToLoad load_failure

definition on_load_error :: "load_failure \<Rightarrow> serve_error" where
  "on_load_error e = FailedToLoad e"

definition show_id :: "int \<Rightarrow> string" where
  "show_id i = (if i < 0 then ''-'' @ show_nat (nat (- i)) else show_nat (nat i))"

definition remote_sentinel :: "provider \<Rightarrow> string" where
  "remote_sentinel p = ''remote:'' @ show_id (pv_id p)"

definition ensure_model_loaded ::
  "'g serve_env \<Rightarrow> (string \<Rightarrow> spec_error + load_spec) \<Rightarrow> string \<Rightarrow> ('f, 'i) model_registry
     \<Rightarrow> (serve_error + string) option \<times> host_rpc list \<times> ('f, 'i) model_registry" where
  "ensure_model_loaded E build model_name s =
     (let resolved = resolve_alias s model_name
      in if (case rows_row (sv_rows_exhausted E) resolved of
               Some r \<Rightarrow> mr_status r = ''budget_exhausted'' | None \<Rightarrow> False)
         then (Some (Inl BudgetExhausted), [], s)
         else case Option.bind (Option.bind (Option.bind (hm_get (rg_models s) resolved) mc_provider_name)
               (\<lambda>n. Option.bind (sv_providers E) (List.find (\<lambda>p. pv_name p = n))))
               (\<lambda>p. if pv_type p = Remote then Some p else None) of
             Some p \<Rightarrow> (Some (Inr (remote_sentinel p)), [], s)
           | None \<Rightarrow>
              (case get_available_backend (sv_cfg E) s (sv_rows_available E) resolved of
                 Some backend \<Rightarrow> (Some (Inr backend), [], update_last_accessed (sv_now E) backend s)
               | None \<Rightarrow>
                  (case load_model_on_tamad E build resolved s of
                     (None, rpcs, s') \<Rightarrow> (None, rpcs, s')
                   | (Some (Inl e), rpcs, s') \<Rightarrow> (Some (Inl (on_load_error e)), rpcs, s')
                   | (Some (Inr backend), rpcs, s') \<Rightarrow>
                       (Some (Inr backend), rpcs, update_last_accessed (sv_now E) backend s'))))"

text \<open>The status of the answer to a request that could not be served.\<close>

definition load_error_status :: "serve_error \<Rightarrow> nat" where
  "load_error_status e = (case e of BudgetExhausted \<Rightarrow> 503 | FailedToLoad _ \<Rightarrow> 500)"

section \<open>Idle models\<close>

definition idle_models :: "bool \<Rightarrow> nat \<Rightarrow> int \<Rightarrow> 'g rows \<Rightarrow> ('f, 'i) model_registry \<Rightarrow> string list" where
  "idle_models auto_unload idle_timeout_secs now rs s =
     map mr_key (filter (\<lambda>r. mr_status r = ''ready'' \<and> \<not> is_auxiliary (hm_get (rg_models s) (mr_key r)) \<and>
       (case hm_get (rg_last_accessed s) (mr_key r) of
          Some seen \<Rightarrow> auto_unload \<and> max 0 (now - seen) > int idle_timeout_secs * 1000
        | None \<Rightarrow> False)) (rw_ordered rs))"

text \<open>Every unload reads the rows anew.\<close>

fun unload_each :: "'g serve_env \<Rightarrow> (nat \<Rightarrow> 'g rows) \<Rightarrow> nat \<Rightarrow> string list \<Rightarrow> ('f, 'i) model_registry \<Rightarrow> host_rpc list \<times> ('f, 'i) model_registry" where
  "unload_each E readings i [] s = ([], s)"
| "unload_each E readings i (n # ns) s =
     (case unload_model E (readings i) n s of
        (_, rpcs, s1) \<Rightarrow> (case unload_each E readings (Suc i) ns s1 of (rpcs', s2) \<Rightarrow> (rpcs @ rpcs', s2)))"

definition check_idle_timeouts ::
  "'g serve_env \<Rightarrow> bool \<Rightarrow> nat \<Rightarrow> 'g rows \<Rightarrow> (nat \<Rightarrow> 'g rows) \<Rightarrow> ('f, 'i) model_registry
     \<Rightarrow> string list \<times> host_rpc list \<times> ('f, 'i) model_registry" where
  "check_idle_timeouts E auto_unload idle_timeout_secs rs readings s =
     (let to_unload = idle_models auto_unload idle_timeout_secs (sv_now E) rs s
      in (to_unload, unload_each E readings 0 to_unload s))"

end
