(* ===== verification/Gateway.thy ===== *)
theory Gateway
  imports Forward Anthropic Serving ApiKeys
begin

text \<open>
  The chat and catch-all endpoints (\<^verbatim>\<open>proxy/handlers/chat.rs\<close>, \<^verbatim>\<open>handlers/forward.rs\<close>) and
  the two ways to a remote provider (\<^verbatim>\<open>proxy/remote/openai.rs\<close>, \<^verbatim>\<open>remote/anthropic.rs\<close>): the
  composition of the alias table, the load of a model, the forwarding and the translation.
  What the servers and providers answer is a function of the request sent to them.
\<close>

section \<open>Remote providers\<close>

datatype remote_failure =
    NoBaseUrl string | NoApiKey string | Untranslatable translate_error | NotReached | ErrorAnswer nat bytes | BodyLost

datatype remote_body = RawPieces "bytes option list" | JsonBody bytes | Frames "utext list"

record remote_reply =
  rr_status :: nat
  rr_headers :: headers
  rr_body :: remote_body

definition ANTHROPIC_VERSION :: string where
  "ANTHROPIC_VERSION = ''2023-06-01''"

definition ANTHROPIC_BASE_URL :: string where
  "ANTHROPIC_BASE_URL = ''https://api.anthropic.com''"

definition no_end_slash :: "string \<Rightarrow> string" where
  "no_end_slash url = trim_end_matches (\<lambda>c. c = CHR ''/'') url"

definition uri_path :: "client_request \<Rightarrow> string" where
  "uri_path req = (case rt_path_and_query req of Some pq \<Rightarrow> fst (split_query pq) | None \<Rightarrow> [])"

definition forward_openai ::
  "(outgoing \<Rightarrow> upstream) \<Rightarrow> provider \<Rightarrow> client_request \<Rightarrow> bytes \<Rightarrow> (remote_failure + remote_reply) \<times> outgoing list" where
  "forward_openai send p req body =
     (case pv_base_url p of
        None \<Rightarrow> (Inl (NoBaseUrl (pv_name p)), [])
      | Some base \<Rightarrow> (case pv_api_key p of
            None \<Rightarrow> (Inl (NoApiKey (pv_name p)), [])
          | Some api_key \<Rightarrow>
              (let out = \<lparr>og_method = rt_method req, og_url = no_end_slash base @ uri_path req,
                   og_headers = filter (\<lambda>(k, v). \<not> eq_ignore_case k ''host'' \<and> \<not> eq_ignore_case k ''authorization'')
                       (rt_headers req) @ [(''authorization'', ''Bearer '' @ api_key)],
                   og_body = body\<rparr>
               in (case send out of
                     NoAnswer _ \<Rightarrow> Inl NotReached
                   | Responded status hs pieces \<Rightarrow>
                       Inr \<lparr>rr_status = status, rr_headers = hs, rr_body = RawPieces pieces\<rparr>,
                   [out]))))"

definition wants_stream :: "'n json \<Rightarrow> bool" where
  "wants_stream body = (Option.bind (jget body ''stream'') as_bool = Some True)"

text \<open>The bytes of an error answer count as none when they break off, those of a good one do not.\<close>

definition forward_anthropic ::
  "'n serde \<Rightarrow> (outgoing \<Rightarrow> upstream) \<Rightarrow> utext \<Rightarrow> 64 word \<Rightarrow> provider \<Rightarrow> client_request \<Rightarrow> bytes
     \<Rightarrow> (remote_failure + remote_reply) \<times> outgoing list" where
  "forward_anthropic S send uuid now p req body =
     (case pv_api_key p of
        None \<Rightarrow> (Inl (NoApiKey (pv_name p)), [])
      | Some api_key \<Rightarrow>
          (let openai_body = (case sj_from_slice S body of Some v \<Rightarrow> v | None \<Rightarrow> JObj fmempty)
           in case translate_request_body openai_body of
              Inl e \<Rightarrow> (Inl (Untranslatable e), [])
            | Inr anthropic_body \<Rightarrow>
               (let out = \<lparr>og_method = ''POST'',
                   og_url = no_end_slash (unwrap_or (pv_base_url p) ANTHROPIC_BASE_URL) @ ''/v1/messages'',
                   og_headers = [(''anthropic-version'', ANTHROPIC_VERSION), (''x-api-key'', api_key),
                       (''content-type'', ''application/json'')] @
                     filter (\<lambda>(k, v). \<not> eq_ignore_case k ''host'' \<and> \<not> eq_ignore_case k ''authorization'' \<and>
                         \<not> eq_ignore_case k ''anthropic-version'' \<and> \<not> eq_ignore_case k ''x-api-key'') (rt_headers req),
                   og_body = utf8_encode (sj_to_string S anthropic_body)\<rparr>
                in (case send out of
                      NoAnswer _ \<Rightarrow> Inl NotReached
                    | Responded status hs pieces \<Rightarrow>
                        if \<not> is_success status then
                          Inl (ErrorAnswer status (if None \<in> set pieces then [] else concat (List.map_filter id pieces)))
                        else if wants_stream openai_body then
                          Inr \<lparr>rr_status = 200, rr_headers = [(''content-type'', ''text/event-stream''), (''cache-control'', ''no-cache'')],
                            rr_body = Frames (translate_stream S pieces)\<rparr>
                        else if None \<in> set pieces then Inl BodyLost
                        else
                          (let anthropic = (case sj_from_slice S (concat (List.map_filter id pieces)) of
                               Some v \<Rightarrow> v | None \<Rightarrow> JObj fmempty)
                           in Inr \<lparr>rr_status = 200, rr_headers = [(''content-type'', ''application/json'')],
                                rr_body = JsonBody (sj_to_vec S (translate_response_body S uuid now anthropic))\<rparr>),
                    [out]))))"

definition remote_forward ::
  "'n serde \<Rightarrow> (outgoing \<Rightarrow> upstream) \<Rightarrow> utext \<Rightarrow> 64 word \<Rightarrow> provider \<Rightarrow> client_request \<Rightarrow> bytes
     \<Rightarrow> (remote_failure + remote_reply) \<times> outgoing list" where
  "remote_forward S send uuid now p req body =
     (if pv_engine p = AnthropicEngine then forward_anthropic S send uuid now p req body
      else forward_openai send p req body)"

section \<open>Endpoints\<close>

datatype gateway_reply = FromServer client_reply | FromProvider remote_reply | Refused nat string

record ('f, 'g, 'i, 'n) gateway =
  gw_serde :: "'n serde"
  gw_readable :: "string \<Rightarrow> bool"
  gw_langfuse :: bool
  gw_env :: "'g serve_env"
  gw_build :: "string \<Rightarrow> spec_error + load_spec"
  gw_rows_forward :: "'g rows"
  gw_rows_first :: "'g rows"
  gw_send :: "outgoing \<Rightarrow> upstream"
  gw_remote_send :: "outgoing \<Rightarrow> upstream"
  gw_provider_by_id :: "int \<Rightarrow> provider option"
  gw_uuid :: utext
  gw_now :: "64 word"
  gw_registry :: "('f, 'i) model_registry"
  gw_counters :: counters

type_synonym ('f, 'i) handled =
  "gateway_reply \<times> host_rpc list \<times> outgoing list \<times> ('f, 'i) model_registry \<times> counters"

text \<open>A backend name that is a number after \<open>remote:\<close> is a provider, if the database has it.\<close>

definition remote_provider :: "('f, 'g, 'i, 'n) gateway \<Rightarrow> string \<Rightarrow> provider option" where
  "remote_provider G backend_name =
     Option.bind (Option.bind (strip_prefix ''remote:'' backend_name) parse_i64) (gw_provider_by_id G)"

definition remote_answer ::
  "('f, 'g, 'i, 'n) gateway \<Rightarrow> provider \<Rightarrow> client_request \<Rightarrow> bytes \<Rightarrow> gateway_reply \<times> outgoing list" where
  "remote_answer G p req body =
     (case remote_forward (gw_serde G) (gw_remote_send G) (gw_uuid G) (gw_now G) p req body of
        (Inl e, outs) \<Rightarrow> (Refused 502 ''RemoteForwardError'', outs)
      | (Inr r, outs) \<Rightarrow> (FromProvider r, outs))"

definition local_answer ::
  "('f, 'g, 'i, 'n) gateway \<Rightarrow> string \<Rightarrow> client_request \<Rightarrow> string option \<Rightarrow> ('f, 'i) model_registry
     \<Rightarrow> gateway_reply \<times> outgoing list \<times> ('f, 'i) model_registry \<times> counters" where
  "local_answer G backend_name req model_name s =
     (case forward_request (gw_serde G) (gw_readable G) (gw_langfuse G) (gw_rows_forward G) (gw_send G)
         backend_name req model_name (gw_counters G, rg_inference_stats s) of
        (reply, out, counters, stats) \<Rightarrow>
          (FromServer reply, (case out of Some sent \<Rightarrow> [sent] | None \<Rightarrow> []), s\<lparr>rg_inference_stats := stats\<rparr>, counters))"

definition load_error_reply :: "serve_error \<Rightarrow> gateway_reply" where
  "load_error_reply e = (case e of BudgetExhausted \<Rightarrow> Refused 503 ''retry-after: 60'' | FailedToLoad _ \<Rightarrow> Refused 500 ''LoadModelError'')"

definition remote_chat_body :: "'n serde \<Rightarrow> bytes \<Rightarrow> bytes" where
  "remote_chat_body S body = (case sj_from_slice S body of
       Some v \<Rightarrow> (case normalize_reasoning_effort_body v of (True, v') \<Rightarrow> sj_to_vec S v' | (False, _) \<Rightarrow> body)
     | None \<Rightarrow> body)"

text \<open>None: the load never settles.\<close>

definition resolve_and_load_server ::
  "('f, 'g, 'i, 'n) gateway \<Rightarrow> string \<Rightarrow> client_request \<Rightarrow> ('f, 'i) handled option" where
  "resolve_and_load_server G model_name req =
     (let resolved_model = resolve_alias (gw_registry G) model_name
      in case ensure_model_loaded (gw_env G) (gw_build G) model_name (gw_registry G) of
          (None, rpcs, s) \<Rightarrow> None
        | (Some (Inl e), rpcs, s) \<Rightarrow> Some (load_error_reply e, rpcs, [], s, gw_counters G)
        | (Some (Inr backend_name), rpcs, s) \<Rightarrow>
            (case remote_provider G backend_name of
               Some p \<Rightarrow> (case remote_answer G p req (remote_chat_body (gw_serde G) (rt_body req)) of
                   (reply, outs) \<Rightarrow> Some (reply, rpcs, outs, s, gw_counters G))
             | None \<Rightarrow> (case local_answer G backend_name req (Some resolved_model) s of
                   (reply, outs, s', counters) \<Rightarrow> Some (reply, rpcs, outs, s', counters))))"

text \<open>
  The name of the model in a body. Names are lists of 8-bit characters here, so the map from
  JSON text to them, the identity on the texts they can hold, is a parameter. A body over the
  size limit has been turned away before.
\<close>

definition body_model :: "(utext \<Rightarrow> string option) \<Rightarrow> 'n json \<Rightarrow> string option" where
  "body_model as_name body = Option.bind (Option.bind (jget body ''model'') as_str) as_name"

definition handle_chat_completions ::
  "(utext \<Rightarrow> string option) \<Rightarrow> ('f, 'g, 'i, 'n) gateway \<Rightarrow> client_request \<Rightarrow> ('f, 'i) handled option" where
  "handle_chat_completions as_name G req =
     (let req = (if uri_path req = ''/v1'' then req\<lparr>rt_path_and_query := Some ''/v1/chat/completions''\<rparr> else req)
      in case sj_from_slice (gw_serde G) (rt_body req) of
          None \<Rightarrow> Some (Refused 400 ''BadRequestError'', [], [], gw_registry G, gw_counters G)
        | Some request \<Rightarrow> (case body_model as_name request of
              None \<Rightarrow> Some (Refused 400 ''BadRequestError'', [], [], gw_registry G, gw_counters G)
            | Some model_name \<Rightarrow> resolve_and_load_server G model_name req))"

definition handle_stream_chat_completions ::
  "(utext \<Rightarrow> string option) \<Rightarrow> ('f, 'g, 'i, 'n) gateway \<Rightarrow> client_request \<Rightarrow> ('f, 'i) handled option" where
  "handle_stream_chat_completions as_name G req =
     (case sj_from_slice (gw_serde G) (rt_body req) of
          None \<Rightarrow> Some (Refused 400 ''BadRequestError'', [], [], gw_registry G, gw_counters G)
        | Some request \<Rightarrow> (case body_model as_name request of
              None \<Rightarrow> Some (Refused 400 ''BadRequestError'', [], [], gw_registry G, gw_counters G)
            | Some model_name \<Rightarrow> resolve_and_load_server G model_name req))"

definition first_row_key :: "'g rows \<Rightarrow> string option" where
  "first_row_key rs = (case rw_ordered rs of r # _ \<Rightarrow> Some (mr_key r) | [] \<Rightarrow> None)"

definition handle_forward_post ::
  "(utext \<Rightarrow> string option) \<Rightarrow> ('f, 'g, 'i, 'n) gateway \<Rightarrow> client_request \<Rightarrow> ('f, 'i) handled option" where
  "handle_forward_post as_name G req =
     (let resolved_model = map_option (resolve_alias (gw_registry G))
            (Option.bind (sj_from_slice (gw_serde G) (rt_body req)) (body_model as_name));
          routed = (\<lambda>backend_name rpcs s. case remote_provider G backend_name of
               Some p \<Rightarrow> (case remote_answer G p req (rt_body req) of
                   (reply, outs) \<Rightarrow> Some (reply, rpcs, outs, s, gw_counters G))
             | None \<Rightarrow> (case local_answer G backend_name req resolved_model s of
                   (reply, outs, s', counters) \<Rightarrow> Some (reply, rpcs, outs, s', counters)))
      in case resolved_model of
          Some model \<Rightarrow>
            (case ensure_model_loaded (gw_env G) (gw_build G) model (gw_registry G) of
               (None, rpcs, s) \<Rightarrow> None
             | (Some (Inl e), rpcs, s) \<Rightarrow> Some (load_error_reply e, rpcs, [], s, gw_counters G)
             | (Some (Inr backend_name), rpcs, s) \<Rightarrow> routed backend_name rpcs s)
        | None \<Rightarrow> (case first_row_key (gw_rows_first G) of
              Some key \<Rightarrow> routed key [] (gw_registry G)
            | None \<Rightarrow> Some (Refused 503 ''ServiceUnavailableError'', [], [], gw_registry G, gw_counters G)))"

definition forward_to_backend ::
  "('f, 'g, 'i, 'n) gateway \<Rightarrow> client_request \<Rightarrow> ('f, 'i) handled" where
  "forward_to_backend G req =
     (case first_row_key (gw_rows_first G) of
        None \<Rightarrow> (Refused 503 ''ServiceUnavailableError'', [], [], gw_registry G, gw_counters G)
      | Some key \<Rightarrow>
          if key = [] then (Refused 503 ''ServiceUnavailableError'', [], [], gw_registry G, gw_counters G)
          else (case local_answer G key req None (gw_registry G) of
              (reply, outs, s', counters) \<Rightarrow> (reply, [], outs, s', counters)))"

end
