(* ===== verification/ServingFacts.thy ===== *)
theory ServingFacts
  imports Serving
begin

text \<open>
  What the serving of a request guarantees: a load settles, its success rests on a row that was
  seen ready, an eviction takes the least recently used model of the device, and what a caller
  sees of a model that used up its restarts.
\<close>

section \<open>Waiting for the row\<close>

lemma wait_settles:
  "(t, st) \<in> set turns \<Longrightarrow> deadline \<le> t \<Longrightarrow> wait_for_terminal_row deadline g seen gone turns \<noteq> None"
proof (induction turns arbitrary: seen gone)
  case (Cons x turns)
  then show ?case by (cases x) (auto split: row_status.splits)
qed simp

lemma wait_ready:
  "wait_for_terminal_row deadline g seen gone turns = Some (Inr u) \<Longrightarrow>
     \<exists>t. (t, Present ''ready'') \<in> set turns \<and> t < deadline"
proof (induction turns arbitrary: seen gone)
  case (Cons x turns)
  obtain t st where x: "x = (t, st)" by (cases x)
  show ?case
  proof (cases "\<exists>seen' gone'. wait_for_terminal_row deadline g seen' gone' turns = Some (Inr u)")
    case True
    then show ?thesis using Cons.IH by fastforce
  next
    case False
    then show ?thesis
      using Cons.prems x by (cases st) (auto split: if_splits)
  qed
qed simp

lemma poll_reaches:
  assumes "\<forall>i < length turns. poll * i \<le> fst (turns ! i)" "deadline \<le> poll * (length turns - 1)" "turns \<noteq> []"
  shows "\<exists>t st. (t, st) \<in> set turns \<and> deadline \<le> t"
proof (intro exI conjI)
  let ?t = "turns ! (length turns - 1)"
  have l: "length turns - 1 < length turns" using assms(3) by simp
  show "(fst ?t, snd ?t) \<in> set turns" using l by simp
  show "deadline \<le> fst ?t" using assms(1)[rule_format, OF l] assms(2) by linarith
qed

section \<open>Eviction\<close>

lemma string_less_asym: "string_less a b \<Longrightarrow> \<not> string_less b a"
  by (induction a b rule: string_less.induct) auto

lemma string_less_total: "\<not> string_less a b \<Longrightarrow> a = b \<or> string_less b a"
proof (induction a b rule: string_less.induct)
  case (1 s)
  then show ?case by (cases s) simp_all
qed auto

lemma string_less_trans: "string_less a b \<Longrightarrow> string_less b c \<Longrightarrow> string_less a c"
proof (induction a arbitrary: b c)
  case Nil
  then show ?case by (cases b; cases c) simp_all
next
  case (Cons x a)
  then show ?case by (cases b; cases c) auto
qed

definition access_before :: "int option \<Rightarrow> int option \<Rightarrow> bool" where
  "access_before ka kb = (case (ka, kb) of (None, _) \<Rightarrow> True | (Some x, None) \<Rightarrow> False | (Some x, Some y) \<Rightarrow> x < y)"

lemma access_before:
  "ka \<noteq> kb \<Longrightarrow> access_before ka kb \<Longrightarrow> \<not> access_before kb ka"
  "ka \<noteq> kb \<Longrightarrow> kb \<noteq> kc \<Longrightarrow> access_before ka kb \<Longrightarrow> access_before kb kc \<Longrightarrow> ka \<noteq> kc \<and> access_before ka kc"
  "ka \<noteq> kb \<Longrightarrow> \<not> access_before ka kb \<Longrightarrow> access_before kb ka"
  by (cases ka; cases kb; cases kc; auto simp: access_before_def)+

lemma lru_before_alt:
  "lru_before s a b = (let ka = hm_get (rg_last_accessed s) (mr_key a); kb = hm_get (rg_last_accessed s) (mr_key b)
     in if ka = kb then mr_last_seen_ms a < mr_last_seen_ms b \<or>
          mr_last_seen_ms a = mr_last_seen_ms b \<and> string_less (mr_key a) (mr_key b)
        else access_before ka kb)"
  by (simp add: lru_before_def access_before_def)

lemma lru_before_asym: "lru_before s a b \<Longrightarrow> \<not> lru_before s b a"
  by (auto simp: lru_before_alt Let_def split: if_splits dest: access_before(1) string_less_asym)

lemma lru_before_negtrans:
  assumes "\<not> lru_before s a b" "\<not> lru_before s b c"
  shows "\<not> lru_before s a c"
proof -
  let ?k = "\<lambda>r. hm_get (rg_last_accessed s) (mr_key r)"
  show ?thesis
  proof (cases "?k a = ?k b \<and> ?k b = ?k c")
    case True
    then show ?thesis
      using assms string_less_total[of "mr_key a" "mr_key b"] string_less_total[of "mr_key b" "mr_key c"]
        string_less_trans[of "mr_key c" "mr_key b" "mr_key a"] string_less_asym[of "mr_key a" "mr_key c"]
      by (auto simp: lru_before_alt Let_def dest: string_less_asym)
  next
    case False
    then consider "?k a = ?k b" "?k b \<noteq> ?k c" | "?k a \<noteq> ?k b" "?k b = ?k c" | "?k a \<noteq> ?k b" "?k b \<noteq> ?k c"
      by blast
    then show ?thesis
    proof cases
      case 3
      then have "access_before (?k b) (?k a)" "access_before (?k c) (?k b)"
        using assms access_before(3) by (auto simp: lru_before_alt Let_def)
      then have "?k c \<noteq> ?k a \<and> access_before (?k c) (?k a)"
        using 3 access_before(2)[of "?k c" "?k b" "?k a"] by simp
      then show ?thesis
        using access_before(1)[of "?k c" "?k a"] by (auto simp: lru_before_alt Let_def)
    qed (use assms access_before(3) in \<open>auto simp: lru_before_alt Let_def dest: access_before(1)\<close>)
  qed
qed

lemma set_insert_by [simp]: "set (insert_by lt x ys) = insert x (set ys)"
  by (induction ys) auto

lemma set_sort_by [simp]: "set (sort_by lt xs) = set xs"
  by (induction xs) (simp_all add: sort_by_def)

lemma sort_by_not_Nil: "xs \<noteq> [] \<Longrightarrow> sort_by lt xs \<noteq> []"
  using set_sort_by[of lt xs] by fastforce

lemma sort_by_head:
  assumes "\<And>a b. lt a b \<Longrightarrow> \<not> lt b a" "\<And>a b c. \<not> lt a b \<Longrightarrow> \<not> lt b c \<Longrightarrow> \<not> lt a c"
  shows "z \<in> set xs \<Longrightarrow> \<not> lt z (hd (sort_by lt xs))"
proof (induction xs arbitrary: z)
  case (Cons x xs)
  show ?case
  proof (cases "sort_by lt xs")
    case Nil
    then have "xs = []" using sort_by_not_Nil by blast
    then show ?thesis using Cons.prems assms(1) by (auto simp: sort_by_def)
  next
    case (Cons y ys)
    then have sorted: "sort_by lt (x # xs) = insert_by lt x (y # ys)" by (simp add: sort_by_def)
    have y: "\<not> lt w y" if "w \<in> set xs" for w
      using Cons.IH[OF that] Cons by simp
    show ?thesis
    proof (cases "lt y x")
      case True
      then show ?thesis using sorted y Cons.prems assms(1) by auto
    next
      case False
      then show ?thesis using sorted y Cons.prems assms by (metis insert_by.simps(2) list.sel(1) set_ConsD)
    qed
  qed
qed simp

lemma lru_sort_head: "z \<in> set xs \<Longrightarrow> \<not> lru_before s z (hd (sort_by (lru_before s) xs))"
  by (rule sort_by_head) (blast dest: lru_before_asym lru_before_negtrans)+

lemma unload_on_tamad_rpcs: "length (snd (unload_model_on_tamad E s n)) \<le> 1 \<and>
    (\<forall>r \<in> set (snd (unload_model_on_tamad E s n)). \<exists>h k. r = UnloadRpc h k)"
  by (auto simp: unload_model_on_tamad_def split: sum.splits)

lemma unload_model_rpcs:
  "unload_model E rs n s = (res, rpcs, s') \<Longrightarrow>
     length rpcs \<le> 1 \<and> (\<forall>r \<in> set rpcs. \<exists>h k. r = UnloadRpc h k)"
  using unload_on_tamad_rpcs[of E s n]
  by (auto simp: unload_model_def split: option.splits if_splits)

lemma evict_rpcs:
  "evict_lru_if_needed E d s = (res, rpcs, s') \<Longrightarrow>
     length rpcs \<le> 1 \<and> (\<forall>r \<in> set rpcs. \<exists>h k. r = UnloadRpc h k)"
  using unload_model_rpcs[of E "sv_rows_unload E" _ s]
  by (fastforce simp: evict_lru_if_needed_def Let_def split: if_splits prod.splits sum.splits)



section \<open>Loads\<close>

lemma evict_part_rpcs:
  assumes "(if guarded then snd (evict_lru_if_needed E d s) else ([], s)) = (rpcs, s')"
  shows "length rpcs \<le> 1 \<and> (\<forall>r \<in> set rpcs. \<exists>h k. r = UnloadRpc h k)"
proof (cases guarded)
  case True
  obtain res where "evict_lru_if_needed E d s = (res, rpcs, s')"
    using assms True by (metis prod.collapse)
  then show ?thesis by (rule evict_rpcs)
qed (use assms in simp)


text \<open>A load always settles: with turns at least half a second apart and one at or after the
  deadline of the health timeout and 20 seconds, it answers with a model or an error.\<close>

theorem load_settles:
  assumes "\<forall>i < length (sv_turns E). 500 * i \<le> fst (sv_turns E ! i)" "sv_turns E \<noteq> []"
    and "nat (lr_health_timeout_ms (ls_request spec)) + 20000 \<le> 500 * (length (sv_turns E) - 1)"
  shows "fst (load_spec_on_tamad E spec guarded s) \<noteq> None"
proof -
  obtain t st where "(t, st) \<in> set (sv_turns E)" "nat (lr_health_timeout_ms (ls_request spec)) + 20000 \<le> t"
    using poll_reaches[OF assms(1) assms(3) assms(2)] by blast
  then have "wait_for_terminal_row (nat (lr_health_timeout_ms (ls_request spec)) + 20000) 30 False 0 (sv_turns E) \<noteq> None"
    by (rule wait_settles)
  then show ?thesis
    by (auto simp: load_spec_on_tamad_def Let_def split: sum.splits prod.splits)
qed

section \<open>A model that used up its restarts\<close>

lemma get_available_none:
  assumes "resolve_backends_for_model cfg (rg_models s) name = [(k, m)]"
    and "rows_row rs k = Some r" "mr_status r = ''budget_exhausted''"
  shows "get_available_backend cfg s rs name = None"
  using assms by (cases m) (simp add: get_available_backend_def eligible_status_def)

text \<open>A model that used up its restarts is refused with 503 and without a word to the host
  when it is asked for by its configuration key. Asked for by another of its names, it is
  sent to the host to be loaded again, and when the row says that the restarts are used up
  during the load, the answer is 500: both the check and the type of the error are lost.\<close>

theorem exhausted_by_other_name:
  assumes names: "resolve_alias s key = key" "resolve_alias s other = other"
    and exhausted: "rows_row (sv_rows_exhausted E) key = Some r" "mr_status r = ''budget_exhausted''"
    and other: "rows_row (sv_rows_exhausted E) other = None" "hm_get (rg_models s) other = None"
      "resolve_backends_for_model (sv_cfg E) (rg_models s) other = [(key, m)]"
    and same: "sv_rows_available E = sv_rows_exhausted E"
    and spec: "build other = Inr spec" "ls_backend_name spec = key"
    and host: "resolve_provider_for_model (sv_providers E) s key = Inr p" "provider_host (sv_connected E) p = Inr h"
    and free: "sv_max_loaded E = 0" "sv_gpus E = None"
    and load: "sv_rpc_ok E" "sv_turns E = (0, Present ''budget_exhausted'') # turns"
  shows "ensure_model_loaded E build key s = (Some (Inl BudgetExhausted), [], s) \<and>
    load_error_status BudgetExhausted = 503 \<and>
    (\<exists>e. ensure_model_loaded E build other s = (Some (Inl e), [LoadRpc h (ls_request spec)], s) \<and>
       load_error_status e = 500)"
proof (intro conjI)
  show "ensure_model_loaded E build key s = (Some (Inl BudgetExhausted), [], s)"
    by (simp add: ensure_model_loaded_def names exhausted)
  show "load_error_status BudgetExhausted = 503"
    by (simp add: load_error_status_def)
  have none: "get_available_backend (sv_cfg E) s (sv_rows_available E) other = None"
    using get_available_none[OF other(3)] exhausted same by simp
  have "load_spec_on_tamad E spec True s = (Some (Inl Exhausted), [LoadRpc h (ls_request spec)], s)"
    by (simp add: load_spec_on_tamad_def spec host evict_lru_if_needed_def free load)
  then have "ensure_model_loaded E build other s =
      (Some (Inl (FailedToLoad Exhausted)), [LoadRpc h (ls_request spec)], s)"
    by (simp add: ensure_model_loaded_def names other none load_model_on_tamad_def spec on_load_error_def)
  then show "\<exists>e. ensure_model_loaded E build other s = (Some (Inl e), [LoadRpc h (ls_request spec)], s) \<and>
       load_error_status e = 500"
    by (simp add: load_error_status_def)
qed


section \<open>The theorems at work\<close>

definition demo_registry :: "(nat, unit) model_registry" where
  "demo_registry = \<lparr>rg_models = [(''a'', (demo_named ''llama'' ''x'')\<lparr>mc_gpu_device := Some ''g''\<rparr>),
       (''b'', (demo_named ''llama'' ''y'')\<lparr>mc_gpu_device := Some ''g''\<rparr>)],
     rg_aliases = [], rg_last_accessed = [(''a'', 5)], rg_inference_stats = []\<rparr>"

definition demo_row :: "string \<Rightarrow> string \<Rightarrow> unit model_row" where
  "demo_row key status = \<lparr>mr_key = key, mr_status = status, mr_alive = True, mr_endpoint = ''http://h'',
     mr_last_seen_ms = 7, mr_pid = 3, mr_desired = True, mr_restart_count = 0, mr_max_restarts = 3,
     mr_spec_accept_pct = None, mr_spec_decoding_active = False, mr_tps = None, mr_prompt_tps = None,
     mr_cache_hit_pct = None, mr_last_obs_ms = None\<rparr>"

definition demo_provider :: provider where
  "demo_provider = \<lparr>pv_id = 1, pv_name = ''local'', pv_type = Local, pv_engine = LlamaCpp,
     pv_tamad_id = Some ''t'', pv_base_url = None, pv_api_key = None, pv_created_at = 0\<rparr>"

definition demo_serve :: "string \<Rightarrow> nat \<Rightarrow> (nat \<times> row_status) list \<Rightarrow> unit serve_env" where
  "demo_serve status bound turns = (let rs = \<lparr>rw_ordered = [demo_row ''a'' status, demo_row ''b'' status],
       rw_by_key = [(''a'', 0), (''b'', 1)]\<rparr> in
     \<lparr>sv_cfg = demo_config, sv_providers = Some [demo_provider], sv_connected = (\<lambda>_. True),
      sv_rows_exhausted = rs, sv_rows_available = rs, sv_rows_evict = rs, sv_rows_unload = rs,
      sv_unload_answer = Unloaded, sv_gpus = None, sv_at_least_95 = (\<lambda>u t. 95 * t \<le> 100 * u),
      sv_rpc_ok = True, sv_turns = turns, sv_max_loaded = bound, sv_now = 0\<rparr>)"

definition demo_load_spec :: load_spec where
  "demo_load_spec = \<lparr>ls_backend_name = ''a'', ls_backend = ''llama'', ls_gpu_device = Some ''g'',
     ls_request = \<lparr>lr_provider_name = ''llama'', lr_model_path = [], lr_gpu_variant = ''cpu'', lr_params = [],
       lr_model_name = ''a'', lr_command = ''/opt/b'', lr_args = [], lr_env = [], lr_health_url = [],
       lr_health_timeout_ms = 1000, lr_gpu_device = ''g'', lr_docker_config_json = []\<rparr>\<rparr>"


lemmas demo_serving = demo_serve_def demo_registry_def demo_row_def demo_provider_def demo_load_spec_def
  rows_row_def hm_get_def Let_def

lemma demo_resolves: "resolve_provider_for_model (sv_providers (demo_serve st n ts)) demo_registry k = Inr demo_provider"
  by (auto simp: resolve_provider_for_model_def demo_serving demo_named_def model_default_def)

lemma demo_host: "provider_host (sv_connected (demo_serve st n ts)) demo_provider = Inr ''t''"
  by (simp add: provider_host_def demo_serving)

lemma demo_unload:
  "unload_model (demo_serve ''ready'' n ts) (sv_rows_unload (demo_serve ''ready'' n ts)) ''b'' demo_registry =
     (Inr (), [UnloadRpc ''t'' (canonical_model_key demo_config demo_registry ''b'')], demo_registry)"
proof -
  have "unload_model_on_tamad (demo_serve ''ready'' n ts) demo_registry ''b'' =
      (Inr True, [UnloadRpc ''t'' (canonical_model_key demo_config demo_registry ''b'')])"
    unfolding unload_model_on_tamad_def demo_resolves sum.case demo_host by (simp add: demo_serve_def Let_def)
  then show ?thesis
    by (simp add: unload_model_def demo_serve_def Let_def rows_row_def hm_get_def demo_row_def
      prune_last_accessed_def clear_inference_stats_def demo_registry_def hm_remove_def)
qed

lemma demo_evicts:
  "evict_lru_if_needed (demo_serve ''ready'' 2 ts) (Some ''g'') demo_registry =
     (Inr (Some ''b''), [UnloadRpc ''t'' (canonical_model_key demo_config demo_registry ''b'')], demo_registry)"
proof -
  let ?rs = "sv_rows_evict (demo_serve ''ready'' 2 ts)"
  have c: "filter (evict_candidate demo_registry (Some ''g'')) (rw_ordered ?rs) = [demo_row ''a'' ''ready'', demo_row ''b'' ''ready'']"
    by (simp add: demo_serving evict_candidate_def is_auxiliary_def demo_named_def starts_with_def)
  have "hd (sort_by (lru_before demo_registry) [demo_row ''a'' ''ready'', demo_row ''b'' ''ready'']) = demo_row ''b'' ''ready''"
    by (simp add: sort_by_def lru_before_def demo_serving)
  moreover have "sv_max_loaded (demo_serve ''ready'' 2 ts) = 2" "mr_key (demo_row ''b'' ''ready'') = ''b''"
    by (simp_all add: demo_serve_def demo_row_def Let_def)
  ultimately show ?thesis
    unfolding evict_lru_if_needed_def by (simp add: c demo_unload Let_def)
qed


lemma demo_load:
  "load_spec_on_tamad (demo_serve st 0 ((t, s) # ts)) demo_load_spec True demo_registry =
     (map_option (\<lambda>r. case r of Inl e \<Rightarrow> Inl e | Inr _ \<Rightarrow> Inr ''a'')
        (wait_for_terminal_row 21000 30 False 0 ((t, s) # ts)),
      [LoadRpc ''t'' (ls_request demo_load_spec)], demo_registry)"
  unfolding load_spec_on_tamad_def demo_resolves sum.case demo_host
  by (simp add: demo_serve_def demo_load_spec_def evict_lru_if_needed_def Let_def del: wait_for_terminal_row.simps)


definition demo_turns :: "nat \<Rightarrow> (nat \<times> row_status) list" where
  "demo_turns n = map (\<lambda>i. (500 * i, NoFrame)) [0..<n]"

lemma demo_turns: "length (demo_turns n) = n" "i < n \<Longrightarrow> fst (demo_turns n ! i) = 500 * i"
  by (simp_all add: demo_turns_def)

theorem load_settles_witness:
  "fst (load_spec_on_tamad (demo_serve ''starting'' 0 (demo_turns 43)) demo_load_spec True demo_registry) \<noteq> None"
proof (rule load_settles)
  have ts: "sv_turns (demo_serve ''starting'' 0 ts) = ts" for ts
    by (simp add: demo_serve_def Let_def)
  show "\<forall>i < length (sv_turns (demo_serve ''starting'' 0 (demo_turns 43))). 500 * i \<le> fst (sv_turns (demo_serve ''starting'' 0 (demo_turns 43)) ! i)"
    unfolding ts by (simp add: demo_turns)
  show "sv_turns (demo_serve ''starting'' 0 (demo_turns 43)) \<noteq> []"
    unfolding ts using demo_turns(1)[of 43] by fastforce
  show "nat (lr_health_timeout_ms (ls_request demo_load_spec)) + 20000 \<le> 500 * (length (sv_turns (demo_serve ''starting'' 0 (demo_turns 43))) - 1)"
    unfolding ts by (simp add: demo_turns demo_load_spec_def)
qed

theorem exhausted_by_other_name_witness:
  "ensure_model_loaded (demo_serve ''budget_exhausted'' 0 [(0, Present ''budget_exhausted'')]) (\<lambda>_. Inr demo_load_spec) ''a'' demo_registry
     = (Some (Inl BudgetExhausted), [], demo_registry) \<and>
   (\<exists>e. ensure_model_loaded (demo_serve ''budget_exhausted'' 0 [(0, Present ''budget_exhausted'')]) (\<lambda>_. Inr demo_load_spec) ''x'' demo_registry
     = (Some (Inl e), [LoadRpc ''t'' (ls_request demo_load_spec)], demo_registry) \<and> load_error_status e = 500)"
proof -
  let ?E = "demo_serve ''budget_exhausted'' 0 [(0, Present ''budget_exhausted'')]"
  have names: "resolve_alias demo_registry n = n" for n
    by (simp add: resolve_alias_def demo_registry_def hm_get_def unwrap_or_def)
  have row: "rows_row (sv_rows_exhausted ?E) ''a'' = Some (demo_row ''a'' ''budget_exhausted'')"
    "mr_status (demo_row ''a'' ''budget_exhausted'') = ''budget_exhausted''"
    "rows_row (sv_rows_exhausted ?E) ''x'' = None" "hm_get (rg_models demo_registry) ''x'' = None"
    by (simp_all add: demo_serving)
  have "\<exists>m. resolve_backends_for_model (sv_cfg ?E) (rg_models demo_registry) ''x'' = [(''a'', m)]"
    by (simp add: demo_serving load_target_demo)
  then obtain m where m: "resolve_backends_for_model (sv_cfg ?E) (rg_models demo_registry) ''x'' = [(''a'', m)]"
    by blast
  have rest: "sv_rows_available ?E = sv_rows_exhausted ?E" "ls_backend_name demo_load_spec = ''a''"
    "sv_max_loaded ?E = 0" "sv_gpus ?E = None" "sv_rpc_ok ?E" "sv_turns ?E = [(0, Present ''budget_exhausted'')]"
    by (simp_all add: demo_serve_def Let_def demo_load_spec_def)
  show ?thesis
    using exhausted_by_other_name[OF names names row(1,2,3,4) m rest(1) refl rest(2) demo_resolves demo_host rest(3,4,5,6)]
    by blast
qed

end
