(* ===== verification/ForwardFacts.thy ===== *)
theory ForwardFacts
  imports Forward
begin

text \<open>
  What the forwarding keeps and what it loses: the relay of an event stream in terms of the
  lines of the decoded pieces, the character a piece cuts, the values whose entry cannot be
  assigned, and the headers and entries of the request that reaches the server.
\<close>

section \<open>The relay, line by line\<close>

lemma relay_chars_cut:
  "newline \<notin> set buf \<Longrightarrow> relay_chars S m buf t =
     (snd (cut_lines (buf @ t)), map (\<lambda>l. process_sse_line S m (l @ [newline])) (fst (cut_lines (buf @ t))))"
proof (induction t arbitrary: buf)
  case (Cons c t)
  show ?case
  proof (cases "c = newline")
    case True
    then show ?thesis
      using Cons.IH[of "[]"] Cons.prems by (simp add: cut_lines_line Let_def)
  next
    case False
    then show ?thesis
      using Cons.IH[of "buf @ [c]"] Cons.prems by simp
  qed
qed (simp add: cut_lines_no_newline)

lemma run_lines_map: "run_lines (\<lambda>s l. (s, [g l])) s ls = (s, map g ls)"
  by (induction ls) simp_all

interpretation relay: line_reader
  "\<lambda>s buf t. ((s, fst (relay_chars S m buf t)), snd (relay_chars S m buf t))"
  "\<lambda>s l. (s, [process_sse_line S m (l @ [newline])])" for S m
  by unfold_locales (simp add: relay_chars_cut run_lines_map Let_def)

definition sent_text :: "relayed list \<Rightarrow> utext" where
  "sent_text rs = concat (map (\<lambda>r. case r of Sent t \<Rightarrow> t | _ \<Rightarrow> []) rs)"

lemma sent_text_simps [simp]:
  "sent_text [] = []" "sent_text (Sent t # rs) = t @ sent_text rs" "sent_text (Panicked # rs) = sent_text rs"
  "sent_text (Failed # rs) = sent_text rs"
  by (simp_all add: sent_text_def)

definition line_results :: "'n serde \<Rightarrow> string option \<Rightarrow> utext \<Rightarrow> utext option list" where
  "line_results S m t = map (\<lambda>l. process_sse_line S m (l @ [newline])) (fst (cut_lines t))"

lemma concat_somes: "None \<notin> set xs \<Longrightarrow> concat (List.map_filter id xs) = concat (map the xs)"
  by (induction xs) (auto simp: map_filter_simps split: option.splits)

lemma line_results_append:
  "line_results S m (a @ b) = line_results S m a @ line_results S m (snd (cut_lines a) @ b)"
  by (simp add: line_results_def cut_lines_append[of a b])

lemma relay_stream_lines:
  assumes "newline \<notin> set buf"
  shows "(Panicked \<in> set (relay_stream S m buf (map Some cs)) \<longleftrightarrow>
       None \<in> set (line_results S m (buf @ concat (map from_utf8_lossy cs)))) \<and>
    (None \<notin> set (line_results S m (buf @ concat (map from_utf8_lossy cs))) \<longrightarrow>
       sent_text (relay_stream S m buf (map Some cs)) =
         concat (map the (line_results S m (buf @ concat (map from_utf8_lossy cs)))))"
  using assms
proof (induction cs arbitrary: buf)
  case Nil
  then show ?case by (simp add: line_results_def cut_lines_no_newline)
next
  case (Cons c cs)
  let ?t = "buf @ from_utf8_lossy c" and ?rest = "concat (map from_utf8_lossy cs)"
  have r: "relay_chars S m buf (from_utf8_lossy c) = (snd (cut_lines ?t), line_results S m ?t)"
    using relay_chars_cut[OF Cons.prems] by (simp add: line_results_def)
  have split: "line_results S m (buf @ from_utf8_lossy c @ ?rest) =
      line_results S m ?t @ line_results S m (snd (cut_lines ?t) @ ?rest)"
    using line_results_append[of S m ?t ?rest] by simp
  note ih = Cons.IH[OF cut_lines_rest[of ?t]]
  show ?case
  proof (cases "None \<in> set (line_results S m ?t)")
    case True
    then show ?thesis by (simp add: r split Let_def)
  next
    case False
    then show ?thesis
      using ih by (simp add: r split Let_def concat_somes)
  qed
qed

text \<open>C4. An event stream is relayed as the complete lines of the decoded pieces, each handled as
  one line however it was cut; what follows the last line end is never sent. The relay is
  torn down exactly when one of these lines makes it panic.\<close>

theorem relay_by_lines:
  "let lines = map (\<lambda>l. process_sse_line S m (l @ [newline]))
         (fst (cut_lines (concat (map from_utf8_lossy chunks))))
   in (Panicked \<in> set (relay_stream S m [] (map Some chunks)) \<longleftrightarrow> None \<in> set lines) \<and>
      (None \<notin> set lines \<longrightarrow> sent_text (relay_stream S m [] (map Some chunks)) = concat (map the lines))"
  using relay_stream_lines[of "[]" S m chunks] by (simp add: line_results_def Let_def)

section \<open>A cut character\<close>

text \<open>Two pieces that cut a well-formed text inside a character decode to one of another length.\<close>

lemma cut_lossy:
  assumes whole: "from_utf8 (a @ b) = Some t" and bad: "from_utf8 a = None"
  shows "\<exists>p tp c vr n. t = tp @ c # vr \<and> from_utf8_lossy a @ from_utf8_lossy b = tp @ replicate n 0xFFFD @ vr \<and>
     2 \<le> n \<and> from_utf8 p = Some tp \<and> (\<exists>q. a = p @ q \<and> partial_char q)"
proof -
  obtain p q tp where pq: "a = p @ q" "from_utf8 p = Some tp" "q = [] \<or> partial_char q"
    using cut_point[OF whole] by blast
  then have q: "partial_char q" using bad by auto
  obtain v where v: "from_utf8 (q @ b) = Some v" "t = tp @ v"
    using from_utf8_suffix[OF pq(2)] whole pq(1) by fastforce
  obtain a0 cs es where a0: "q = a0 # cs" "es \<noteq> []" "utf8_width a0 = Suc (length (cs @ es))"
    using q by (auto simp: partial_char_def)
  obtain c r where head: "utf8_head a0 (cs @ b) = Scalar c r"
    using v a0 by (auto split: utf8_head.splits)
  then obtain ds where ds: "cs @ b = ds @ r" "utf8_width a0 = Suc (length ds)" "follow_len a0 ds = length ds"
    by (auto simp: utf8_head_Scalar_iff)
  have "length ds = length cs + length es" using ds(2) a0(3) by simp
  then obtain d2 where d: "ds = cs @ d2" "b = d2 @ r"
    using ds(1) by (auto simp: append_eq_append_conv2)
  with \<open>length ds = length cs + length es\<close> a0(2) have d2: "ds = cs @ d2" "b = d2 @ r" "d2 \<noteq> []"
    by auto
  have "list_all is_cont d2"
    using follow_len_full_cont[OF ds(3)] d2(1) by simp
  moreover obtain vr where vr: "from_utf8 r = Some vr" "v = c # vr"
    using v(1) a0(1) head by auto
  ultimately have "from_utf8_lossy b = replicate (length d2) 0xFFFD @ vr"
    using d2(2) lossy_cont from_utf8_lossy_valid by metis
  moreover have "from_utf8_lossy a = tp @ [0xFFFD]"
    using pq from_utf8_lossy_append[OF pq(2)] partial_char_lossy[OF q] by simp
  ultimately have "from_utf8_lossy a @ from_utf8_lossy b = tp @ replicate (Suc (length d2)) 0xFFFD @ vr"
    by simp
  moreover have "2 \<le> Suc (length d2)" using d2(3) by (cases d2) auto
  ultimately show ?thesis
    using pq q v(2) vr(2) by blast
qed

lemma comment_line [simp]: "process_sse_line S m (58 # l) = Some (58 # l)"
  by (simp add: process_sse_line_def lit_def)

text \<open>A comment line of an event stream that arrives in two pieces reaches the client as it is
  exactly when the cut lies between two characters: every piece is decoded on its own, and a
  character of several bytes that is cut becomes two or more replacement characters.\<close>

theorem cut_character_is_lost:
  assumes whole: "from_utf8 (0x3A # a @ b) = Some (58 # u @ [newline])" and u: "newline \<notin> set u"
  shows "sent_text (relay_stream S m [] [Some (0x3A # a), Some b]) = 58 # u @ [newline] \<longleftrightarrow>
     from_utf8 (0x3A # a) \<noteq> None"
proof -
  let ?a = "0x3A # a" and ?t' = "from_utf8_lossy (0x3A # a) @ from_utf8_lossy b"
  have lines: "line_results S m (58 # y @ [newline]) = [Some (58 # y @ [newline])]"
      "line_results S m (58 # y) = []" if "newline \<notin> set y" for y
    using cut_lines_line[of "58 # y" "[]"] cut_lines_no_newline[of "58 # y"] that
    by (simp_all add: line_results_def)
  have sent: "None \<notin> set (line_results S m ?t') \<Longrightarrow>
      sent_text (relay_stream S m [] [Some ?a, Some b]) = concat (map the (line_results S m ?t'))"
    using relay_stream_lines[of "[]" S m "[?a, b]"] by simp
  show ?thesis
  proof (cases "from_utf8 ?a")
    case (Some ta)
    then obtain tb where "from_utf8 b = Some tb" "58 # u @ [newline] = ta @ tb"
      using from_utf8_suffix[OF Some, of b] whole by auto
    then have "?t' = 58 # u @ [newline]"
      using from_utf8_lossy_valid[OF Some] from_utf8_lossy_valid[of b tb] by simp
    then show ?thesis using Some sent lines(1)[OF u] by simp
  next
    case None
    obtain p tp c vr n where cut: "58 # u @ [newline] = tp @ c # vr" "?t' = tp @ replicate n 0xFFFD @ vr" "2 \<le> n"
        "from_utf8 p = Some tp" "\<exists>q. ?a = p @ q \<and> partial_char q"
      using cut_lossy[of ?a b] whole None by auto
    have "p \<noteq> []"
      using cut(5) by (auto simp: partial_char_def utf8_width_def)
    then have "tp \<noteq> []"
      using cut(4) by (cases p) (auto split: utf8_head.splits)
    then obtain y where y: "tp = 58 # y" "u @ [newline] = y @ c # vr"
      using cut(1) by (cases tp) auto
    have "sent_text (relay_stream S m [] [Some ?a, Some b]) \<noteq> 58 # u @ [newline]"
    proof (cases vr rule: rev_cases)
      case Nil
      then have "newline \<notin> set (y @ replicate n 0xFFFD)" using y(2) u by auto
      then show ?thesis using sent cut(2) y(1) Nil lines(2)[of "y @ replicate n 0xFFFD"] by simp
    next
      case (snoc z l)
      then have uz: "u = y @ c # z" "l = newline" using y(2) by auto
      then have "newline \<notin> set (y @ replicate n 0xFFFD @ z)" using u by auto
      then have "sent_text (relay_stream S m [] [Some ?a, Some b]) = 58 # (y @ replicate n 0xFFFD @ z) @ [newline]"
        using sent cut(2) y(1) snoc uz(2) lines(1)[of "y @ replicate n 0xFFFD @ z"] by simp
      moreover have "length (y @ replicate n 0xFFFD @ z) > length u"
        using cut(3) uz(1) by simp
      ultimately show ?thesis by auto
    qed
    then show ?thesis using None by simp
  qed
qed


section \<open>Values without entries\<close>

lemma index_set_None: "index_set v k new = None \<longleftrightarrow> (\<forall>m. v \<noteq> JObj m) \<and> v \<noteq> JNull"
  by (cases v) (simp_all add: index_set_def)

text \<open>An answer of the server that is JSON but neither an object nor null, such as the list of
  an embedding or rerank endpoint, crashes the handler whenever the request named a model:
  the model's name is assigned to an entry that such a value does not have.\<close>

theorem list_reply_crashes:
  assumes "\<not> is_event_stream readable hs" "sj_from_slice S (concat pieces) = Some v" "name \<noteq> []"
  shows "cr_body (answer_reply S readable (Some name) status hs (map Some pieces)) = Crash \<longleftrightarrow>
    (\<forall>m. v \<noteq> JObj m) \<and> v \<noteq> JNull"
proof -
  have pieces: "None \<notin> set (map Some pieces)" "concat (List.map_filter id (map Some pieces)) = concat pieces"
    by (auto simp: concat_somes comp_def)
  have "reply_body S (Some name) (map Some pieces) =
      (case index_set v ''model'' (JStr (lit name)) of None \<Rightarrow> Crash | Some w \<Rightarrow> Whole (sj_to_vec S w))"
    using assms pieces by (simp add: reply_body_def rewrite_json_model_name_def Let_def)
  then show ?thesis
    using assms(1) index_set_None[of v "''model''" "JStr (lit name)"]
    by (auto simp: answer_reply_def split: option.splits)
qed

section \<open>The request that reaches the server\<close>

lemma update_mem: "(k', v') \<in> set (AList.update k v al) \<Longrightarrow> k' = k \<and> v' = v \<or> (k', v') \<in> set al"
  by (induction al) (auto split: if_splits)

lemma filtered_headers:
  "fold (\<lambda>(k, v) acc. if k \<notin> set REQUEST_SKIP_HEADERS \<and> readable v then hm_insert k v acc else acc) hs acc0 = acc \<Longrightarrow>
   distinct (map fst acc0) \<Longrightarrow>
   distinct (map fst acc) \<and>
   (\<forall>k v. (k, v) \<in> set acc \<longrightarrow> (k, v) \<in> set acc0 \<or> (k, v) \<in> set hs \<and> k \<notin> set REQUEST_SKIP_HEADERS \<and> readable v)"
proof (induction hs arbitrary: acc0)
  case (Cons h hs)
  obtain k v where h: "h = (k, v)" by (cases h)
  let ?acc1 = "if k \<notin> set REQUEST_SKIP_HEADERS \<and> readable v then hm_insert k v acc0 else acc0"
  have d: "distinct (map fst ?acc1)"
    using Cons.prems(2) by (auto simp: hm_insert_def distinct_update)
  have "(k', v') \<in> set ?acc1 \<Longrightarrow> (k', v') \<in> set acc0 \<or> (k' = k \<and> v' = v \<and> k \<notin> set REQUEST_SKIP_HEADERS \<and> readable v)" for k' v'
    by (auto simp: hm_insert_def dest: update_mem split: if_splits)
  moreover have "distinct (map fst acc) \<and> (\<forall>k' v'. (k', v') \<in> set acc \<longrightarrow>
      (k', v') \<in> set ?acc1 \<or> (k', v') \<in> set hs \<and> k' \<notin> set REQUEST_SKIP_HEADERS \<and> readable v')"
    using Cons.prems(1) h by (intro Cons.IH[OF _ d]) simp
  ultimately show ?case using h by auto
qed simp

definition rewritten_keys :: "utext set" where
  "rewritten_keys = {lit ''reasoning_effort'', lit ''model'', lit ''stream_options''}"

lemma lit_inj: "lit a = lit b \<longleftrightarrow> a = b"
  by (simp add: lit_def inj_map_eq_map inj_on_def)

lemma normalized_object:
  "\<exists>m1. snd (normalize_reasoning_effort_body (JObj m)) = JObj m1 \<and>
     (\<forall>k. k \<noteq> lit ''reasoning_effort'' \<longrightarrow> fmlookup m1 k = fmlookup m k) \<and>
     fmlookup m1 (lit ''reasoning_effort'') =
       (if fmlookup m (lit ''reasoning_effort'') = Some (JStr (lit ''off'')) then Some (JStr (lit ''none''))
        else fmlookup m (lit ''reasoning_effort''))"
proof -
  have "Option.bind (fmlookup m k) as_str = Some t \<longleftrightarrow> fmlookup m k = Some (JStr t)" for k t
    by (cases "fmlookup m k") (auto dest: as_str_SomeD)
  then show ?thesis
    by (auto simp: normalize_reasoning_effort_body_def index_set_def)
qed

lemma rewrite_request_object:
  "\<exists>m'. rewrite_request langfuse chat model_name (JObj m) = JObj m' \<and>
     (\<forall>k. k \<notin> rewritten_keys \<longrightarrow> fmlookup m' k = fmlookup m k) \<and>
     (fmlookup m (lit ''reasoning_effort'') = Some (JStr (lit ''off'')) \<longrightarrow>
        fmlookup m' (lit ''reasoning_effort'') = Some (JStr (lit ''none''))) \<and>
     (\<forall>name. model_name = Some name \<and> name \<noteq> [] \<longrightarrow> fmlookup m' (lit ''model'') = Some (JStr (lit name)))"
proof -
  obtain m1 where m1: "snd (normalize_reasoning_effort_body (JObj m)) = JObj m1"
    "\<forall>k. k \<noteq> lit ''reasoning_effort'' \<longrightarrow> fmlookup m1 k = fmlookup m k"
    "fmlookup m (lit ''reasoning_effort'') = Some (JStr (lit ''off'')) \<longrightarrow>
       fmlookup m1 (lit ''reasoning_effort'') = Some (JStr (lit ''none''))"
    using normalized_object[of m] by auto
  have ne: "lit ''model'' \<noteq> lit ''reasoning_effort''" "lit ''stream_options'' \<noteq> lit ''reasoning_effort''"
    "lit ''stream_options'' \<noteq> lit ''model''"
    by (simp_all only: lit_inj) simp_all
  show ?thesis
    using m1(2,3) ne by (auto simp: rewrite_request_def m1(1) rewritten_keys_def jput_def Let_def split: option.splits)
qed



section \<open>The theorems at work\<close>

definition demo_printer :: "nat serde" where
  "demo_printer = \<lparr>sj_from_str = (\<lambda>t. if t = lit ''{}'' then Some (JObj fmempty) else None),
     sj_from_slice = (\<lambda>b. if b = [] then Some (JArr []) else Some (JObj fmempty)),
     sj_to_string = (\<lambda>_. lit ''{m}''), sj_to_vec = (\<lambda>_. []), sj_as_i64 = (\<lambda>n. None), sj_from_i64 = unat\<rparr>"

theorem relay_by_lines_witness:
  "sent_text (relay_stream demo_printer (Some ''m'') []
      (map Some [utf8_encode (lit ''data: {''), utf8_encode (lit ''}'' @ [newline])])) = lit ''data: {m}'' @ [newline]"
proof -
  have parts: "from_utf8_lossy (utf8_encode (lit ''data: {'')) = lit ''data: {''"
    "from_utf8_lossy (utf8_encode (lit ''}'' @ [newline])) = lit ''}'' @ [newline]"
    by (rule from_utf8_lossy_valid[OF utf8_roundtrip], simp add: is_scalar_def)+
  have cut: "cut_lines (lit ''data: {}'' @ [newline]) = ([lit ''data: {}''], [])"
    using cut_lines_line[of "lit ''data: {}''" "[]"] by simp
  have line: "process_sse_line demo_printer (Some ''m'') (lit ''data: {}'' @ [newline]) = Some (lit ''data: {m}'' @ [newline])"
    by (simp add: process_sse_line_def demo_printer_def trim_end_u_def trim_end_matches_def white_space_def
        rewrite_json_model_name_def index_set_def)
  show ?thesis
    using relay_by_lines[of demo_printer "Some ''m''" "[utf8_encode (lit ''data: {''), utf8_encode (lit ''}'' @ [newline])]"]
      parts cut line by (simp add: Let_def)
qed

theorem cut_character_is_lost_witness:
  "sent_text (relay_stream demo_printer None [] [Some [0x3A, 0xC3], Some [0xA9, 0x0A]]) \<noteq> 58 # [0xE9] @ [newline] \<and>
   sent_text (relay_stream demo_printer None [] [Some [0x3A], Some [0xC3, 0xA9, 0x0A]]) = 58 # [0xE9] @ [newline]"
proof -
  have "utf8_encode [58, 0xE9, newline] = [0x3A, 0xC3, 0xA9, 0x0A]"
    by (simp add: utf8_encode_def encode_char_def)
  then have whole: "from_utf8 (0x3A # [0xC3] @ [0xA9, 0x0A]) = Some (58 # [0xE9] @ [newline])"
      "from_utf8 (0x3A # [] @ [0xC3, 0xA9, 0x0A]) = Some (58 # [0xE9] @ [newline])"
    using utf8_roundtrip[of "[58, 0xE9, newline]"] by (simp_all add: is_scalar_def)
  have "from_utf8 [0x3A, 0xC3] = None" "from_utf8 [0x3A] = Some [58]"
    by (simp_all add: utf8_head_def utf8_width_def scalar_of_def)
  then show ?thesis
    using cut_character_is_lost[OF whole(1), of demo_printer None] cut_character_is_lost[OF whole(2), of demo_printer None]
    by simp
qed

theorem list_reply_crashes_witness:
  "cr_body (answer_reply demo_printer (\<lambda>_. True) (Some ''m'') 200 [] (map Some [])) = Crash"
proof -
  have "\<not> is_event_stream (\<lambda>_. True) []" "sj_from_slice demo_printer (concat []) = Some (JArr [])" "''m'' \<noteq> []"
    by (simp_all add: is_event_stream_def demo_printer_def)
  from list_reply_crashes[OF this] show ?thesis by simp
qed

definition demo_forward_rows :: "unit rows" where
  "demo_forward_rows = \<lparr>rw_ordered = [\<lparr>mr_key = ''a'', mr_status = ''ready'', mr_alive = True, mr_endpoint = ''http://h'',
     mr_last_seen_ms = 7, mr_pid = 3, mr_desired = True, mr_restart_count = 0, mr_max_restarts = 3,
     mr_spec_accept_pct = None, mr_spec_decoding_active = False, mr_tps = None, mr_prompt_tps = None,
     mr_cache_hit_pct = None, mr_last_obs_ms = None\<rparr>], rw_by_key = [(''a'', 0)]\<rparr>"

definition demo_request :: "client_request" where
  "demo_request = \<lparr>rt_method = ''POST'', rt_path_and_query = Some ''/v1/x'',
     rt_headers = [(''host'', ''p''), (''accept'', ''a''), (''accept'', ''b'')], rt_body = [1]\<rparr>"


end
