(* ===== verification/SqlLike.thy ===== *)
theory SqlLike
  imports Json
begin

text \<open>
  \<^verbatim>\<open>LIKE\<close> of SQL with an escape character: % stands for any text, an underscore for any
  character, and the character after the escape for itself. SQLite (the log store) ignores
  the case of ASCII letters, PostgreSQL (everything else) does not. \<open>like_escape\<close> is the
  contract of an escape function: its result matches the escaped text and nothing else.
\<close>

datatype like_token = AnyText | AnyChar | Exactly nat | Never

fun like_tokens :: "nat \<Rightarrow> utext \<Rightarrow> like_token list" where
  "like_tokens esc [] = []"
| "like_tokens esc (c # cs) =
     (if c = esc then (case cs of [] \<Rightarrow> [Never] | d # ds \<Rightarrow> Exactly d # like_tokens esc ds)
      else if c = of_char (CHR ''%'') then AnyText # like_tokens esc cs
      else if c = of_char (CHR ''_'') then AnyChar # like_tokens esc cs
      else Exactly c # like_tokens esc cs)"

definition ascii_fold :: "nat \<Rightarrow> nat" where
  "ascii_fold c = (if 65 \<le> c \<and> c \<le> 90 then c + 32 else c)"

fun like_match :: "(nat \<Rightarrow> nat) \<Rightarrow> like_token list \<Rightarrow> utext \<Rightarrow> bool" where
  "like_match f [] s = (s = [])"
| "like_match f (Never # ts) s = False"
| "like_match f (AnyText # ts) [] = like_match f ts []"
| "like_match f (AnyText # ts) (c # s) = (like_match f ts (c # s) \<or> like_match f (AnyText # ts) s)"
| "like_match f (AnyChar # ts) [] = False"
| "like_match f (AnyChar # ts) (c # s) = like_match f ts s"
| "like_match f (Exactly d # ts) [] = False"
| "like_match f (Exactly d # ts) (c # s) = (f d = f c \<and> like_match f ts s)"

definition replace_char :: "char \<Rightarrow> string \<Rightarrow> utext \<Rightarrow> utext" where
  "replace_char c r s = concat (map (\<lambda>x. if x = of_char c then lit r else [x]) s)"

lemma replace_char_simps [simp]:
  "replace_char c r [] = []"
  "replace_char c r (x # s) = (if x = of_char c then lit r else [x]) @ replace_char c r s"
  "replace_char c r (s @ t) = replace_char c r s @ replace_char c r t"
  by (simp_all add: replace_char_def)

section \<open>Matching\<close>

lemma like_exact: "like_match f (map Exactly s @ ts) x \<longleftrightarrow>
    (\<exists>a b. x = a @ b \<and> map f a = map f s \<and> like_match f ts b)"
proof (induction s arbitrary: x)
  case (Cons c s)
  show ?case
  proof (cases x)
    case (Cons d y)
    have "like_match f (map Exactly (c # s) @ ts) x \<longleftrightarrow> f c = f d \<and>
        (\<exists>a b. y = a @ b \<and> map f a = map f s \<and> like_match f ts b)"
      using Cons.IH Cons by simp
    also have "\<dots> \<longleftrightarrow> (\<exists>a b. x = a @ b \<and> map f a = map f (c # s) \<and> like_match f ts b)"
      using Cons by (auto simp: map_eq_Cons_conv Cons_eq_append_conv) metis
    finally show ?thesis .
  qed auto
qed simp

lemma like_any: "like_match f (AnyText # ts) x \<longleftrightarrow> (\<exists>a b. x = a @ b \<and> like_match f ts b)"
proof (induction x)
  case (Cons c x)
  then show ?case by (auto simp: Cons_eq_append_conv)
qed simp

lemma like_any_end: "like_match f [AnyText] x"
  by (simp add: like_any)

section \<open>Escaping\<close>

locale like_escape =
  fixes esc :: nat and escape :: "utext \<Rightarrow> utext"
  assumes plain: "esc \<noteq> of_char (CHR ''%'')" "esc \<noteq> of_char (CHR ''_'')"
    and escape: "escape s = concat (map (\<lambda>x. if x = esc \<or> x = of_char (CHR ''%'') \<or> x = of_char (CHR ''_'')
      then [esc, x] else [x]) s)"
begin

lemma tokens_escape: "like_tokens esc (escape s @ t) = map Exactly s @ like_tokens esc t"
  by (induction s) (auto simp: escape)

lemma any_token [simp]: "like_tokens esc (of_char (CHR ''%'') # t) = AnyText # like_tokens esc t"
  using plain by auto

lemma prefix_pattern:
  assumes "c \<noteq> esc" "c \<noteq> of_char (CHR ''%'')" "c \<noteq> of_char (CHR ''_'')"
  shows "like_match f (like_tokens esc (escape s @ [c, of_char (CHR ''%'')])) x \<longleftrightarrow>
    (\<exists>a b. x = a @ b \<and> map f a = map f (s @ [c]))"
proof -
  have "like_tokens esc (escape s @ [c, of_char (CHR ''%'')]) = map Exactly (s @ [c]) @ [AnyText]"
    using assms plain by (simp add: tokens_escape)
  then show ?thesis by (simp only: like_exact like_any_end simp_thms)
qed

lemma inside_pattern:
  "like_match f (like_tokens esc (of_char (CHR ''%'') # escape s @ [of_char (CHR ''%'')])) x \<longleftrightarrow>
    (\<exists>a m b. x = a @ m @ b \<and> map f m = map f s)"
proof -
  have "like_tokens esc (of_char (CHR ''%'') # escape s @ [of_char (CHR ''%'')]) = AnyText # map Exactly s @ [AnyText]"
    using plain by (simp add: tokens_escape)
  then show ?thesis by (auto simp: like_exact like_any_end like_any)
qed

end

end
