(* ===== verification/LogDb.thy ===== *)
theory LogDb
  imports SqlLike Vocabulary
begin

text \<open>
  The log store (\<^verbatim>\<open>tama-core/src/logstore/db.rs\<close>, \<^verbatim>\<open>logstore/types.rs\<close>): batches in,
  filtered pages out, and the pruning of old rows. The table is the list of its rows in the
  order of their ids. Of SQLite the model uses what its documentation says: a new row of a
  table without AUTOINCREMENT gets the largest id in use plus one, LIKE ignores the case of
  ASCII letters and takes the character after the escape literally, a transaction happens or
  does not. Full-text search is a parameter: for a term, which rows match it, or an error.
  The ids, times and counts stay far below 64 bits and are integers.
\<close>

section \<open>Rows and queries\<close>

record 'n log_event =
  ev_ts :: int
  ev_level :: logstore_level
  ev_source :: utext
  ev_msg :: "'n json"

record log_row =
  lg_id :: int
  lg_ts :: int
  lg_level :: int
  lg_source :: utext
  lg_text :: utext

record 'n log_entry =
  en_id :: int
  en_ts :: int
  en_level :: logstore_level
  en_source :: utext
  en_msg :: "'n json"

datatype query_order = NewestFirst | OldestFirst

record log_query =
  lq_min_level :: "logstore_level option"
  lq_source :: "utext option"
  lq_q :: "utext option"
  lq_since :: "int option"
  lq_until :: "int option"
  lq_limit :: "int option"
  lq_cursor :: "int option"
  lq_order :: query_order

definition effective_limit :: "log_query \<Rightarrow> int" where
  "effective_limit qu = min 1000 (max 1 (case lq_limit qu of Some l \<Rightarrow> l | None \<Rightarrow> 200))"

record prune_bounds =
  pb_max_age_secs :: int
  pb_max_rows :: int
  pb_max_bytes :: int

section \<open>LIKE\<close>

definition sql_like :: "utext \<Rightarrow> utext \<Rightarrow> bool" where
  "sql_like pattern s = like_match ascii_fold (like_tokens (of_char (CHR ''!'')) pattern) s"

definition escape_like :: "utext \<Rightarrow> utext" where
  "escape_like s = replace_char (CHR ''_'') ''!_'' (replace_char (CHR ''%'') ''!%'' (replace_char (CHR ''!'') ''!!'' s))"

section \<open>Reading\<close>

definition source_clause :: "utext \<Rightarrow> utext \<Rightarrow> bool" where
  "source_clause term source \<longleftrightarrow> source = term \<or> sql_like (escape_like term @ lit '':'' @ lit ''%'') source"

definition base_clauses :: "log_query \<Rightarrow> log_row \<Rightarrow> bool" where
  "base_clauses qu r \<longleftrightarrow>
     (case lq_min_level qu of Some l \<Rightarrow> int (unat (level_as_u8 l)) \<le> lg_level r | None \<Rightarrow> True) \<and>
     (case lq_since qu of Some t \<Rightarrow> t \<le> lg_ts r | None \<Rightarrow> True) \<and>
     (case lq_until qu of Some t \<Rightarrow> lg_ts r < t | None \<Rightarrow> True) \<and>
     (case lq_source qu of Some s \<Rightarrow> source_clause s (lg_source r) | None \<Rightarrow> True)"

definition cursor_clause :: "log_query \<Rightarrow> log_row \<Rightarrow> bool" where
  "cursor_clause qu r \<longleftrightarrow> (case lq_cursor qu of
       None \<Rightarrow> True
     | Some c \<Rightarrow> (case lq_order qu of NewestFirst \<Rightarrow> lg_id r < c | OldestFirst \<Rightarrow> c < lg_id r))"

definition source_parse_u :: "utext \<Rightarrow> utext option" where
  "source_parse_u s = (let t = trim_u s in if t = [] then None else Some t)"

definition decode_row :: "'n serde \<Rightarrow> log_row \<Rightarrow> 'n log_entry option" where
  "decode_row S r =
     (case (level_from_u8 (word_of_int (lg_level r)), source_parse_u (lg_source r), sj_from_str S (lg_text r)) of
        (Some level, Some source, Some msg) \<Rightarrow>
          Some \<lparr>en_id = lg_id r, en_ts = lg_ts r, en_level = level, en_source = source, en_msg = msg\<rparr>
      | _ \<Rightarrow> None)"

text \<open>None is an error of the query; one row that cannot be decoded fails the page.\<close>

fun decode_rows :: "'n serde \<Rightarrow> log_row list \<Rightarrow> 'n log_entry list option" where
  "decode_rows S [] = Some []"
| "decode_rows S (r # rs) = (case decode_row S r of
       None \<Rightarrow> None
     | Some e \<Rightarrow> map_option ((#) e) (decode_rows S rs))"

definition run_query ::
  "'n serde \<Rightarrow> log_query \<Rightarrow> (log_row \<Rightarrow> bool) \<Rightarrow> log_row list \<Rightarrow> ('n log_entry list \<times> int option) option" where
  "run_query S qu P db =
     (let limit = nat (effective_limit qu);
          hits = filter (\<lambda>r. base_clauses qu r \<and> cursor_clause qu r \<and> P r) db;
          raws = take (limit + 1) (case lq_order qu of NewestFirst \<Rightarrow> rev hits | OldestFirst \<Rightarrow> hits)
      in case decode_rows S raws of
          None \<Rightarrow> None
        | Some entries \<Rightarrow>
            if limit < length entries then Some (take limit entries, Some (en_id (last (take limit entries))))
            else Some (entries, None))"

definition like_clause :: "utext \<Rightarrow> log_row \<Rightarrow> bool" where
  "like_clause term r = sql_like (lit ''%'' @ escape_like term @ lit ''%'') (lg_text r)"

definition search_term :: "log_query \<Rightarrow> utext option" where
  "search_term qu = (case lq_q qu of Some t \<Rightarrow> if trim_u t = [] then None else Some t | None \<Rightarrow> None)"

definition query ::
  "'n serde \<Rightarrow> (utext \<Rightarrow> (log_row \<Rightarrow> bool) option) \<Rightarrow> log_query \<Rightarrow> log_row list
     \<Rightarrow> ('n log_entry list \<times> int option) option" where
  "query S fts qu db =
     (case search_term qu of
        Some term \<Rightarrow>
          (case Option.bind (fts term) (\<lambda>P. run_query S qu P db) of
             Some (e # es, next_cursor) \<Rightarrow> Some (e # es, next_cursor)
           | _ \<Rightarrow> run_query S qu (like_clause term) db)
      | None \<Rightarrow> run_query S qu (\<lambda>_. True) db)"

definition count_rows ::
  "(utext \<Rightarrow> (log_row \<Rightarrow> bool) option) \<Rightarrow> log_query \<Rightarrow> log_row list \<Rightarrow> nat" where
  "count_rows fts qu db =
     (let n = (\<lambda>P. length (filter (\<lambda>r. base_clauses qu r \<and> P r) db)) in
      case search_term qu of
        Some term \<Rightarrow>
          (case fts term of
             Some P \<Rightarrow> if n P > 0 then n P else n (like_clause term)
           | None \<Rightarrow> n (like_clause term))
      | None \<Rightarrow> n (\<lambda>_. True))"

definition max_ts :: "utext \<Rightarrow> log_row list \<Rightarrow> int" where
  "max_ts source db = Max (set (map lg_ts (filter (\<lambda>r. lg_source r = source) db)))"

definition distinct_sources :: "log_row list \<Rightarrow> (utext \<times> int) list option" where
  "distinct_sources db =
     (let groups = sort_key (\<lambda>(s, t). - t) (map (\<lambda>s. (s, max_ts s db)) (remdups (map lg_source db)))
      in if list_all (\<lambda>(s, t). source_parse_u s \<noteq> None) groups
         then Some (map (\<lambda>(s, t). (the (source_parse_u s), t)) groups) else None)"

definition level_counts_since :: "int \<Rightarrow> log_row list \<Rightarrow> (logstore_level \<times> nat) list option" where
  "level_counts_since since db =
     (let hits = filter (\<lambda>r. since \<le> lg_ts r) db;
          levels = sort (remdups (map lg_level hits))
      in if list_all (\<lambda>l. level_from_u8 (word_of_int l) \<noteq> None) levels
         then Some (map (\<lambda>l. (the (level_from_u8 (word_of_int l)), length (filter (\<lambda>r. lg_level r = l) hits))) levels) else None)"

definition last_id :: "log_row list \<Rightarrow> int option" where
  "last_id db = (if db = [] then None else Some (Max (set (map lg_id db))))"

section \<open>Writing\<close>

definition next_id :: "log_row list \<Rightarrow> int" where
  "next_id db = (case last_id db of Some i \<Rightarrow> i + 1 | None \<Rightarrow> 1)"

definition row_of :: "'n serde \<Rightarrow> int \<Rightarrow> 'n log_event \<Rightarrow> log_row" where
  "row_of S i e = \<lparr>lg_id = i, lg_ts = ev_ts e, lg_level = int (unat (level_as_u8 (ev_level e))), lg_source = ev_source e,
     lg_text = sj_to_string S (ev_msg e)\<rparr>"

fun insert_each :: "'n serde \<Rightarrow> 'n log_event list \<Rightarrow> log_row list \<Rightarrow> int list \<times> log_row list" where
  "insert_each S [] db = ([], db)"
| "insert_each S (e # es) db =
     (let i = next_id db; r = insert_each S es (db @ [row_of S i e]) in (i # fst r, snd r))"

text \<open>One transaction; a fault leaves the table as it was.\<close>

definition insert_batch :: "'n serde \<Rightarrow> bool \<Rightarrow> 'n log_event list \<Rightarrow> log_row list \<Rightarrow> int list option \<times> log_row list" where
  "insert_batch S fault es db =
     (if fault then (None, db) else (Some (fst (insert_each S es db)), snd (insert_each S es db)))"

section \<open>Pruning\<close>

definition DELETE_CHUNK_ROWS :: int where
  "DELETE_CHUNK_ROWS = 10000"

definition BYTE_SCAN_CHUNK_ROWS :: nat where
  "BYTE_SCAN_CHUNK_ROWS = 10000"

definition row_bytes :: "log_row \<Rightarrow> int" where
  "row_bytes r = int (length (lg_text r)) + int (length (lg_source r))"

definition min_id :: "log_row list \<Rightarrow> int" where
  "min_id db = Min (set (map lg_id db))"

definition age_watermark :: "int \<Rightarrow> log_row list \<Rightarrow> int" where
  "age_watermark cutoff db =
     (case filter (\<lambda>r. cutoff \<le> lg_ts r) db of [] \<Rightarrow> Max (set (map lg_id db)) + 1 | hits \<Rightarrow> min_id hits)"

text \<open>None: a negative bound asks for a row that is not there, which is an error.\<close>

definition rows_watermark :: "int \<Rightarrow> log_row list \<Rightarrow> int option" where
  "rows_watermark max_rows db =
     (if int (length db) > max_rows
      then (let offset = nat (int (length db) - max_rows)
            in if offset < length db then Some (lg_id (db ! offset)) else None)
      else Some (min_id db))"

fun chunk_watermark :: "int \<Rightarrow> int \<Rightarrow> log_row list \<Rightarrow> int option" where
  "chunk_watermark budget accounted [] = None"
| "chunk_watermark budget accounted (r # rs) =
     (if accounted + row_bytes r \<ge> budget then Some (lg_id r + 1)
      else chunk_watermark budget (accounted + row_bytes r) rs)"

text \<open>The walk over the oldest rows, a chunk at a time.\<close>

function byte_scan :: "nat \<Rightarrow> int \<Rightarrow> int \<Rightarrow> log_row list \<Rightarrow> int option" where
  "byte_scan chunk_rows budget accounted rows =
     (let chunk = take (Suc chunk_rows) rows; chunk_sum = sum_list (map row_bytes chunk)
      in if chunk = [] then None
         else if accounted + chunk_sum \<le> budget
           then byte_scan chunk_rows budget (accounted + chunk_sum) (drop (Suc chunk_rows) rows)
         else case chunk_watermark budget accounted chunk of
             Some w \<Rightarrow> Some w
           | None \<Rightarrow> byte_scan chunk_rows budget (accounted + chunk_sum) (drop (Suc chunk_rows) rows))"
  by pat_completeness auto
termination
  by (relation "measure (\<lambda>(c, b, a, rows). length rows)") auto

declare byte_scan.simps [simp del]

definition bytes_watermark :: "nat \<Rightarrow> int \<Rightarrow> log_row list \<Rightarrow> int" where
  "bytes_watermark chunk_rows max_bytes db =
     (let budget = sum_list (map row_bytes db) - max_bytes
      in if budget \<le> 0 then min_id db
         else case byte_scan chunk_rows budget 0 db of Some w \<Rightarrow> w | None \<Rightarrow> min_id db)"

text \<open>The deletion of everything below an id, in ranges that start at the smallest id left.\<close>

definition id_range :: "int \<Rightarrow> int \<Rightarrow> log_row \<Rightarrow> bool" where
  "id_range lo hi r \<longleftrightarrow> lo \<le> lg_id r \<and> lg_id r < hi"

lemma min_id_in:
  assumes "db \<noteq> []"
  shows "\<exists>r \<in> set db. lg_id r = min_id db" and "r \<in> set db \<Longrightarrow> min_id db \<le> lg_id r"
proof -
  have "min_id db \<in> set (map lg_id db)" unfolding min_id_def using assms by (intro Min_in) auto
  then show "\<exists>r \<in> set db. lg_id r = min_id db" by auto
  show "r \<in> set db \<Longrightarrow> min_id db \<le> lg_id r" unfolding min_id_def by (intro Min_le) auto
qed

lemma first_chunk_shrinks:
  assumes "filter (\<lambda>r. lg_id r < w) db \<noteq> []" "n > 0"
  shows "length (filter (\<lambda>r. \<not> id_range (min_id (filter (\<lambda>r. lg_id r < w) db))
    (min (min_id (filter (\<lambda>r. lg_id r < w) db) + n) w) r) db) < length db"
proof -
  obtain r where r: "r \<in> set db" "lg_id r < w" "lg_id r = min_id (filter (\<lambda>r. lg_id r < w) db)"
    using min_id_in(1)[OF assms(1)] by auto
  then have "id_range (min_id (filter (\<lambda>r. lg_id r < w) db)) (min (min_id (filter (\<lambda>r. lg_id r < w) db) + n) w) r"
    using assms(2) by (simp add: id_range_def)
  then show ?thesis using r(1) by (intro length_filter_less) auto
qed

function delete_ids_below :: "int \<Rightarrow> log_row list \<Rightarrow> nat \<times> log_row list" where
  "delete_ids_below watermark db =
     (if filter (\<lambda>r. lg_id r < watermark) db = [] then (0, db)
      else (let lo = min_id (filter (\<lambda>r. lg_id r < watermark) db);
                hi = min (lo + DELETE_CHUNK_ROWS) watermark;
                rest = delete_ids_below watermark (filter (\<lambda>r. \<not> id_range lo hi r) db)
            in (length (filter (id_range lo hi) db) + fst rest, snd rest)))"
  by pat_completeness auto
termination
  by (relation "measure (\<lambda>(w, db). length db)") (auto simp: DELETE_CHUNK_ROWS_def first_chunk_shrinks)

declare delete_ids_below.simps [simp del]

definition prune :: "nat \<Rightarrow> int \<Rightarrow> prune_bounds \<Rightarrow> log_row list \<Rightarrow> nat option \<times> log_row list" where
  "prune chunk_rows now_ms b db =
     (if db = [] then (Some 0, db)
      else case rows_watermark (pb_max_rows b) db of
          None \<Rightarrow> (None, db)
        | Some rows_w \<Rightarrow>
           (let age_w = age_watermark (now_ms - pb_max_age_secs b * 1000) db;
                bytes_w = bytes_watermark chunk_rows (pb_max_bytes b) db;
                watermark = max (max age_w rows_w) bytes_w
            in if watermark \<le> min_id db then (Some 0, db)
               else (Some (fst (delete_ids_below watermark db)), snd (delete_ids_below watermark db))))"

lemma filter_out_shrinks: "filter P db \<noteq> [] \<Longrightarrow> length (filter (\<lambda>r. \<not> P r) db) < length db"
  using sum_length_filter_compl[of P db] length_greater_0_conv[of "filter P db"] by linarith

text \<open>Everything, in ranges from the smallest id left.\<close>

function delete_all :: "log_row list \<Rightarrow> nat \<times> log_row list" where
  "delete_all db =
     (if db = [] then (0, db)
      else (let lo = min_id db; hi = lo + DELETE_CHUNK_ROWS; n = length (filter (id_range lo hi) db);
                db' = filter (\<lambda>r. \<not> id_range lo hi r) db
            in if n = 0 then (0, db') else (n + fst (delete_all db'), snd (delete_all db'))))"
  by pat_completeness auto
termination
  by (relation "measure length") (auto simp: filter_out_shrinks)

declare delete_all.simps [simp del]

end
