(* ===== verification/LogApi.thy ===== *)
theory LogApi
  imports LogDb
begin

text \<open>
  The read side of the log store over HTTP (\<^verbatim>\<open>tama-core/src/proxy/tama_handlers/logs_api.rs\<close>):
  the parameters of a request and their validation, the rows as clients see them, the query
  with its tail of engine logs, the summary, the export and the live stream. The decoded pairs
  of the query string come from the url crate and are the input; what the store holds at each
  access is an argument of its own, so other requests may run in between. The store's own
  faults other than a row that cannot be decoded are left out.
\<close>

definition EXPORT_CAP_ROWS :: nat where
  "EXPORT_CAP_ROWS = 50000"

definition MAX_Q_CHARS :: nat where
  "MAX_Q_CHARS = 512"

definition TAIL_LINES :: nat where
  "TAIL_LINES = 200"

definition STREAM_PAGE :: int where
  "STREAM_PAGE = 200"

definition TAIL_CACHE_TTL :: int where
  "TAIL_CACHE_TTL = 5000"

section \<open>Rows on the wire\<close>

record 'n log_dto =
  dt_id :: int
  dt_ts :: int
  dt_level :: utext
  dt_source :: utext
  dt_message :: utext
  dt_fields :: "(utext, 'n json) fmap"
  dt_dropped :: "bool option"
  dt_dropped_count :: "64 word option"
  dt_level_known :: bool
  dt_legacy :: "bool option"

definition DOC_KNOWN_KEYS :: "utext list" where
  "DOC_KNOWN_KEYS = map lit [''message'', ''dropped'', ''dropped_count'', ''dropped_since_ts'', ''level_known'']"

definition as_i64 :: "'n serde \<Rightarrow> 'n json \<Rightarrow> 64 word option" where
  "as_i64 S v = (case v of JNum x \<Rightarrow> sj_as_i64 S x | _ \<Rightarrow> None)"

definition from_entry :: "'n serde \<Rightarrow> 'n log_entry \<Rightarrow> 'n log_dto" where
  "from_entry S e =
     \<lparr>dt_id = en_id e, dt_ts = en_ts e, dt_level = lit (level_as_str (en_level e)), dt_source = en_source e,
      dt_message = (case Option.bind (jget (en_msg e) ''message'') as_str of Some s \<Rightarrow> s | None \<Rightarrow> []),
      dt_fields = (case en_msg e of JObj m \<Rightarrow> fmfilter (\<lambda>k. k \<notin> set DOC_KNOWN_KEYS) m | _ \<Rightarrow> fmempty),
      dt_dropped = Option.bind (jget (en_msg e) ''dropped'') as_bool,
      dt_dropped_count = Option.bind (jget (en_msg e) ''dropped_count'') (as_i64 S),
      dt_level_known = True, dt_legacy = None\<rparr>"

definition from_tail_line :: "utext \<Rightarrow> int \<Rightarrow> nat \<Rightarrow> utext \<Rightarrow> 'n log_dto" where
  "from_tail_line source fetch_ts ordinal line =
     \<lparr>dt_id = - (fetch_ts * 1000 + int ordinal), dt_ts = fetch_ts, dt_level = lit (level_as_str (LogstoreLevel 2)),
      dt_source = source, dt_message = line, dt_fields = fmempty, dt_dropped = None, dt_dropped_count = None,
      dt_level_known = False, dt_legacy = Some True\<rparr>"

section \<open>Parameters\<close>

datatype log_param_error =
    InvalidLevel utext
  | InvalidOrder utext
  | InvalidNumber string
  | QTooLong
  | RepeatedSource
  | UnsupportedFormat utext

datatype log_api_error = Param log_param_error | StoreFailed | Unavailable | ExportCap

definition error_status :: "log_api_error \<Rightarrow> nat" where
  "error_status e = (case e of Param _ \<Rightarrow> 400 | StoreFailed \<Rightarrow> 500 | Unavailable \<Rightarrow> 503 | ExportCap \<Rightarrow> 413)"

type_synonym query_params = "(utext \<times> utext) list"

definition first_of :: "query_params \<Rightarrow> string \<Rightarrow> utext option" where
  "first_of pairs key = map_option snd (find (\<lambda>(k, _). k = lit key) pairs)"

definition digit_u :: "nat \<Rightarrow> bool" where
  "digit_u c \<longleftrightarrow> 48 \<le> c \<and> c \<le> 57"

definition parse_i64_u :: "utext \<Rightarrow> int option" where
  "parse_i64_u s =
     (let neg = (case s of c # _ \<Rightarrow> c = of_char (CHR ''-'') | [] \<Rightarrow> False);
          ds = (case s of c # cs \<Rightarrow> if c = of_char (CHR ''-'') \<or> c = of_char (CHR ''+'') then cs else s | [] \<Rightarrow> []);
          n = foldl (\<lambda>a c. 10 * a + (int c - 48)) 0 ds;
          v = (if neg then - n else n)
      in if ds = [] \<or> \<not> list_all digit_u ds \<or> v < - (2 ^ 63) \<or> 2 ^ 63 \<le> v then None else Some v)"

definition opt_i64 :: "query_params \<Rightarrow> string \<Rightarrow> log_param_error + int option" where
  "opt_i64 pairs key = (case first_of pairs key of
       None \<Rightarrow> Inr None
     | Some v \<Rightarrow> (case parse_i64_u v of Some i \<Rightarrow> Inr (Some i) | None \<Rightarrow> Inl (InvalidNumber key)))"

definition sources_of :: "query_params \<Rightarrow> utext list option" where
  "sources_of pairs = (let vs = map snd (filter (\<lambda>(k, _). k = lit ''source'') pairs)
     in if vs = [] then None else Some vs)"

definition parse_level :: "utext \<Rightarrow> logstore_level option" where
  "parse_level s =
     (if s = lit ''trace'' then Some (LogstoreLevel 0) else if s = lit ''debug'' then Some (LogstoreLevel 1)
      else if s = lit ''info'' then Some (LogstoreLevel 2) else if s = lit ''warn'' then Some (LogstoreLevel 3)
      else if s = lit ''error'' then Some (LogstoreLevel 4) else None)"

definition parse_order :: "utext \<Rightarrow> query_order option" where
  "parse_order s = (if s = lit ''desc'' then Some NewestFirst else if s = lit ''asc'' then Some OldestFirst else None)"

fun bind_r :: "'e + 'a \<Rightarrow> ('a \<Rightarrow> 'e + 'b) \<Rightarrow> 'e + 'b" where
  "bind_r (Inl e) f = Inl e"
| "bind_r (Inr a) f = f a"

definition validate_common ::
  "utext option \<Rightarrow> utext list option \<Rightarrow> utext option
     \<Rightarrow> log_param_error + (logstore_level option \<times> utext option \<times> utext option)" where
  "validate_common level source q =
     bind_r (case level of
         None \<Rightarrow> Inr None
       | Some v \<Rightarrow> (case parse_level v of Some l \<Rightarrow> Inr (Some l) | None \<Rightarrow> Inl (InvalidLevel v)))
     (\<lambda>l. bind_r (case source of
         None \<Rightarrow> Inr None
       | Some v \<Rightarrow> if length v > 1 then Inl RepeatedSource
           else (case v of
               s # _ \<Rightarrow> if trim_u s \<noteq> [] then Inr (source_parse_u s) else Inr (Some [])
             | [] \<Rightarrow> Inr (Some [])))
     (\<lambda>s. case q of
         Some t \<Rightarrow> if length t > MAX_Q_CHARS then Inl QTooLong else Inr (l, s, q)
       | None \<Rightarrow> Inr (l, s, q)))"

record log_query_params =
  qp_level :: "utext option"
  qp_source :: "utext list option"
  qp_q :: "utext option"
  qp_since :: "int option"
  qp_until :: "int option"
  qp_limit :: "int option"
  qp_cursor :: "int option"
  qp_order :: "utext option"

definition query_from_request :: "query_params \<Rightarrow> log_param_error + log_query_params" where
  "query_from_request pairs =
     bind_r (opt_i64 pairs ''since'') (\<lambda>since.
     bind_r (opt_i64 pairs ''until'') (\<lambda>until.
     bind_r (opt_i64 pairs ''limit'') (\<lambda>limit.
     bind_r (opt_i64 pairs ''cursor'') (\<lambda>cursor.
       Inr \<lparr>qp_level = first_of pairs ''level'', qp_source = sources_of pairs, qp_q = first_of pairs ''q'',
            qp_since = since, qp_until = until, qp_limit = limit, qp_cursor = cursor,
            qp_order = first_of pairs ''order''\<rparr>))))"

definition query_validated :: "log_query_params \<Rightarrow> log_param_error + log_query" where
  "query_validated p =
     bind_r (case qp_order p of
         None \<Rightarrow> Inr NewestFirst
       | Some v \<Rightarrow> (case parse_order v of Some d \<Rightarrow> Inr d | None \<Rightarrow> Inl (InvalidOrder v)))
     (\<lambda>d. bind_r (validate_common (qp_level p) (qp_source p) (qp_q p))
     (\<lambda>(level, source, q). Inr \<lparr>lq_min_level = level, lq_source = source, lq_q = q, lq_since = qp_since p,
        lq_until = qp_until p, lq_limit = qp_limit p, lq_cursor = qp_cursor p, lq_order = d\<rparr>))"

definition window_query ::
  "logstore_level option \<times> utext option \<times> utext option \<Rightarrow> int option \<Rightarrow> int option \<Rightarrow> log_query" where
  "window_query f since until =
     \<lparr>lq_min_level = fst f, lq_source = fst (snd f), lq_q = snd (snd f), lq_since = since, lq_until = until,
      lq_limit = None, lq_cursor = None, lq_order = NewestFirst\<rparr>"

record log_stream_params =
  sp_level :: "utext option"
  sp_source :: "utext list option"
  sp_q :: "utext option"
  sp_since :: "int option"
  sp_until :: "int option"
  sp_after :: "int option"

definition stream_from_request :: "query_params \<Rightarrow> log_param_error + log_stream_params" where
  "stream_from_request pairs =
     bind_r (opt_i64 pairs ''since'') (\<lambda>since.
     bind_r (opt_i64 pairs ''until'') (\<lambda>until.
     bind_r (opt_i64 pairs ''after'') (\<lambda>after.
       Inr \<lparr>sp_level = first_of pairs ''level'', sp_source = sources_of pairs, sp_q = first_of pairs ''q'',
            sp_since = since, sp_until = until, sp_after = after\<rparr>)))"

definition stream_validated :: "log_stream_params \<Rightarrow> log_param_error + (log_query \<times> int)" where
  "stream_validated p =
     bind_r (validate_common (sp_level p) (sp_source p) (sp_q p))
     (\<lambda>f. Inr (window_query f (sp_since p) (sp_until p), case sp_after p of Some a \<Rightarrow> a | None \<Rightarrow> 0))"

record export_params =
  ep_level :: "utext option"
  ep_source :: "utext list option"
  ep_q :: "utext option"
  ep_since :: "int option"
  ep_until :: "int option"
  ep_format :: "utext option"

definition export_from_request :: "query_params \<Rightarrow> log_param_error + export_params" where
  "export_from_request pairs =
     bind_r (opt_i64 pairs ''since'') (\<lambda>since.
     bind_r (opt_i64 pairs ''until'') (\<lambda>until.
       Inr \<lparr>ep_level = first_of pairs ''level'', ep_source = sources_of pairs, ep_q = first_of pairs ''q'',
            ep_since = since, ep_until = until, ep_format = first_of pairs ''format''\<rparr>))"

definition export_validated :: "export_params \<Rightarrow> log_param_error + log_query" where
  "export_validated p =
     bind_r (case ep_format p of
         Some f \<Rightarrow> if f \<noteq> lit ''csv'' then Inl (UnsupportedFormat f) else Inr ()
       | None \<Rightarrow> Inr ())
     (\<lambda>_. bind_r (validate_common (ep_level p) (ep_source p) (ep_q p))
     (\<lambda>f. Inr (window_query f (ep_since p) (ep_until p))))"

section \<open>Tails of engine logs\<close>

definition is_tamad :: "utext \<Rightarrow> bool" where
  "is_tamad label \<longleftrightarrow> (case strip_prefix (lit ''tamad:'') label of Some rest \<Rightarrow> rest \<noteq> [] | None \<Rightarrow> False)"

text \<open>\<^verbatim>\<open>str::split_once\<close>: at the first occurrence.\<close>

fun split_once :: "'a list \<Rightarrow> 'a list \<Rightarrow> ('a list \<times> 'a list) option" where
  "split_once p [] = (if p = [] then Some ([], []) else None)"
| "split_once p (c # s) = (case strip_prefix p (c # s) of
       Some rest \<Rightarrow> Some ([], rest)
     | None \<Rightarrow> map_option (\<lambda>(a, b). (c # a, b)) (split_once p s))"

datatype tail_place = TamadTail utext "utext option" | LocalFile utext | NoTail

definition tail_place :: "bool \<Rightarrow> utext \<Rightarrow> tail_place" where
  "tail_place has_dir label =
     (if is_tamad label
      then (let rest = (case strip_prefix (lit ''tamad:'') label of Some r \<Rightarrow> r | None \<Rightarrow> []);
                hm = (case split_once (lit '':model:'') rest of
                    Some (h, m) \<Rightarrow> (h, Some (case strip_suffix (lit '':tail'') m of Some x \<Rightarrow> x | None \<Rightarrow> m))
                  | None \<Rightarrow> (rest, None))
            in if fst hm = [] then NoTail else TamadTail (fst hm) (snd hm))
      else if \<not> has_dir then NoTail
      else LocalFile (if label = lit ''proxy'' then lit ''tama.log''
        else case strip_prefix (lit ''backend:'') label of Some name \<Rightarrow> name @ lit ''.log'' | None \<Rightarrow> label @ lit ''.log''))"

text \<open>A cached tail is reused until it is as old as the time to live; a failed fetch is not kept.\<close>

definition cached_tail ::
  "int \<Rightarrow> int \<Rightarrow> int \<Rightarrow> utext \<Rightarrow> 'r option \<Rightarrow> (utext, int \<times> 'r) hmap \<Rightarrow> 'r option \<times> (utext, int \<times> 'r) hmap" where
  "cached_tail ttl now stored_at label fetched cache =
     (case hm_get cache label of
        Some (at, rows) \<Rightarrow>
          if now - at < ttl then (Some rows, cache)
          else (fetched, case fetched of Some r \<Rightarrow> hm_insert label (stored_at, r) cache | None \<Rightarrow> cache)
      | None \<Rightarrow> (fetched, case fetched of Some r \<Rightarrow> hm_insert label (stored_at, r) cache | None \<Rightarrow> cache))"

section \<open>The query and its summary\<close>

text \<open>The store and the tail provider are there or not; a tail that fails gives no lines.\<close>

definition run_log_query ::
  "'n serde \<Rightarrow> (utext \<Rightarrow> (log_row \<Rightarrow> bool) option) \<Rightarrow> log_row list option
     \<Rightarrow> (utext \<Rightarrow> (int \<times> utext) list option) option \<Rightarrow> log_query_params
     \<Rightarrow> log_api_error + ('n log_dto list \<times> int option)" where
  "run_log_query S fts log_read log_tail p =
     (case query_validated p of
        Inl e \<Rightarrow> Inl (Param e)
      | Inr qu \<Rightarrow>
          (case (case log_read of None \<Rightarrow> Some ([], None) | Some db \<Rightarrow> query S fts qu db) of
             None \<Rightarrow> Inl StoreFailed
           | Some (rows, next_cursor) \<Rightarrow>
               (let entries = map (from_entry S) rows;
                    tailed = (case (lq_source qu, log_tail) of
                        (Some label, Some tail) \<Rightarrow>
                          if is_tamad label \<and> entries = []
                          then map (\<lambda>(i, t, line). from_tail_line label t i line)
                                 (enumerate 0 (case tail label of Some ls \<Rightarrow> ls | None \<Rightarrow> []))
                          else entries
                      | _ \<Rightarrow> entries)
                in Inr (tailed, next_cursor))))"

definition handle_log_query ::
  "'n serde \<Rightarrow> (utext \<Rightarrow> (log_row \<Rightarrow> bool) option) \<Rightarrow> log_row list option
     \<Rightarrow> (utext \<Rightarrow> (int \<times> utext) list option) option \<Rightarrow> query_params
     \<Rightarrow> log_api_error + ('n log_dto list \<times> int option)" where
  "handle_log_query S fts log_read log_tail pairs =
     (case query_from_request pairs of
        Inl e \<Rightarrow> Inl (Param e)
      | Inr p \<Rightarrow> run_log_query S fts log_read log_tail p)"

definition handle_log_sources :: "log_row list option \<Rightarrow> log_api_error + (utext \<times> int) list" where
  "handle_log_sources log_read =
     (case log_read of
        None \<Rightarrow> Inl Unavailable
      | Some db \<Rightarrow> (case distinct_sources db of Some ss \<Rightarrow> Inr ss | None \<Rightarrow> Inl StoreFailed))"

text \<open>The counts by level; trace rows are part of the total only.\<close>

definition count_level ::
  "'n serde \<Rightarrow> (utext, 'n json) fmap \<times> nat \<Rightarrow> logstore_level \<times> nat \<Rightarrow> (utext, 'n json) fmap \<times> nat" where
  "count_level S acc x =
     (let key = level_as_str (fst x) in
      (if key \<in> {''debug'', ''info'', ''warn'', ''error''}
       then jput key (JNum (sj_from_i64 S (of_nat (snd x)))) (fst acc) else fst acc,
       snd acc + snd x))"

definition handle_log_summary ::
  "'n serde \<Rightarrow> log_row list option \<Rightarrow> int option \<Rightarrow> log_api_error + (utext, 'n json) fmap" where
  "handle_log_summary S log_read since =
     (case log_read of
        None \<Rightarrow> Inl Unavailable
      | Some db \<Rightarrow>
          (case level_counts_since (case since of Some t \<Rightarrow> t | None \<Rightarrow> 0) db of
             None \<Rightarrow> Inl StoreFailed
           | Some counts \<Rightarrow>
               (let zero = JNum (sj_from_i64 S 0);
                    c = jput ''error'' zero (jput ''warn'' zero (jput ''info'' zero (jput ''debug'' zero fmempty)));
                    r = foldl (count_level S) (c, 0) counts
                in Inr (jput ''total'' (JNum (sj_from_i64 S (of_nat (snd r)))) (fst r)))))"

definition handle_delete_logs :: "log_row list option \<Rightarrow> (log_api_error + nat) \<times> log_row list option" where
  "handle_delete_logs log_read =
     (case log_read of
        None \<Rightarrow> (Inl Unavailable, None)
      | Some db \<Rightarrow> (Inr (fst (delete_all db)), Some (snd (delete_all db))))"

section \<open>The export\<close>

abbreviation quote_u :: nat where
  "quote_u \<equiv> 34"

abbreviation comma_u :: nat where
  "comma_u \<equiv> 44"

definition csv_field :: "utext \<Rightarrow> utext" where
  "csv_field s =
     (if \<exists>c \<in> set s. c = comma_u \<or> c = quote_u \<or> c = newline \<or> c = 13
      then [quote_u] @ replace_char (CHR 0x22) [CHR 0x22, CHR 0x22] s @ [quote_u] else s)"

definition show_int_u :: "int \<Rightarrow> utext" where
  "show_int_u i = lit (if i < 0 then ''-'' @ show_nat (nat (- i)) else show_nat (nat i))"

definition csv_line :: "'n serde \<Rightarrow> 'n log_entry \<Rightarrow> utext" where
  "csv_line S e =
     (let dto = from_entry S e in
      show_int_u (en_id e) @ [comma_u] @ show_int_u (en_ts e) @ [comma_u] @ csv_field (dt_level dto) @ [comma_u] @
      csv_field (dt_source dto) @ [comma_u] @ csv_field (dt_message dto) @ [newline])"

definition csv_header :: utext where
  "csv_header = lit ''id,ts,level,source,message'' @ [newline]"

text \<open>The walk over the pages; the \<open>i\<close>th access sees \<open>dbs i\<close>. None: it never ends.\<close>

partial_function (option) export_walk ::
  "'n serde \<Rightarrow> (utext \<Rightarrow> (log_row \<Rightarrow> bool) option) \<Rightarrow> log_query \<Rightarrow> (nat \<Rightarrow> log_row list) \<Rightarrow> nat \<Rightarrow> int option
     \<Rightarrow> 'n log_entry list \<Rightarrow> (log_api_error + 'n log_entry list) option" where
  "export_walk S fts qu dbs i next_cursor entries =
     (case query S fts (qu\<lparr>lq_cursor := next_cursor\<rparr>) (dbs i) of
        None \<Rightarrow> Some (Inl StoreFailed)
      | Some page \<Rightarrow>
          (case snd page of
             None \<Rightarrow> Some (Inr (entries @ fst page))
           | Some c \<Rightarrow> export_walk S fts qu dbs (Suc i) (Some c) (entries @ fst page)))"

definition handle_log_export ::
  "'n serde \<Rightarrow> (utext \<Rightarrow> (log_row \<Rightarrow> bool) option) \<Rightarrow> (nat \<Rightarrow> log_row list) option \<Rightarrow> query_params
     \<Rightarrow> (log_api_error + utext) option" where
  "handle_log_export S fts log_read pairs =
     (case bind_r (export_from_request pairs) export_validated of
        Inl e \<Rightarrow> Some (Inl (Param e))
      | Inr qu \<Rightarrow>
          (case log_read of
             None \<Rightarrow> Some (Inl Unavailable)
           | Some dbs \<Rightarrow>
               if count_rows fts qu (dbs 0) > EXPORT_CAP_ROWS then Some (Inl ExportCap)
               else map_option (\<lambda>r. case r of
                      Inl e \<Rightarrow> Inl e
                    | Inr entries \<Rightarrow> Inr (csv_header @ concat (map (csv_line S) entries)))
                    (export_walk S fts (qu\<lparr>lq_order := NewestFirst\<rparr>) dbs 1 None [])))"

section \<open>The live stream\<close>

text \<open>The text of a row is what serde\_json prints for it.\<close>

definition entry_frame :: "('n log_dto \<Rightarrow> utext) \<Rightarrow> 'n log_dto \<Rightarrow> utext" where
  "entry_frame dto_json dto = lit ''event: entry'' @ [newline] @ lit ''data: '' @ dto_json dto @ [newline, newline]"

definition keepalive_frame :: utext where
  "keepalive_frame = lit ''event: keepalive'' @ [newline] @ lit ''data: {'' @ [quote_u] @ lit ''keepalive'' @
     [quote_u] @ lit '': true}'' @ [newline, newline]"

text \<open>\<^verbatim>\<open>trim_start_matches\<close> with a string takes it off as often as it is there.\<close>

function trim_start_str :: "utext \<Rightarrow> utext \<Rightarrow> utext" where
  "trim_start_str p s = (case strip_prefix p s of
       Some rest \<Rightarrow> if p = [] then s else trim_start_str p rest
     | None \<Rightarrow> s)"
  by pat_completeness auto
termination
  by (relation "measure (\<lambda>(p, s). length s)") (auto simp: strip_prefix_Some_iff)

declare trim_start_str.simps [simp del]

definition sse_event_parts :: "utext \<Rightarrow> utext \<times> utext" where
  "sse_event_parts frame =
     (let (first, rest) = (case split_once [newline] frame of Some ab \<Rightarrow> ab | None \<Rightarrow> ([], []));
          name = (case strip_prefix (lit ''event: '') first of Some n \<Rightarrow> n | None \<Rightarrow> lit ''message'');
          data = trim_end_u (trim_end_matches (\<lambda>c. c = newline) (trim_start_str (lit ''data: '') rest))
      in (name, data))"

record stream_loop =
  sl_after :: int
  sl_pending :: "utext list"

text \<open>What one wait ends with: the stop signal, or a look at the store, which may fail.\<close>

datatype stream_poll = Cancelled | PollFailed | Seen "log_row list"

definition stream_next ::
  "'n serde \<Rightarrow> ('n log_dto \<Rightarrow> utext) \<Rightarrow> (utext \<Rightarrow> (log_row \<Rightarrow> bool) option) \<Rightarrow> log_query \<Rightarrow> stream_poll
     \<Rightarrow> stream_loop \<Rightarrow> (utext \<times> stream_loop) option" where
  "stream_next S dto_json fts filters poll st =
     (case sl_pending st of
        f # fs \<Rightarrow> Some (f, st\<lparr>sl_pending := fs\<rparr>)
      | [] \<Rightarrow>
          (case poll of
             Cancelled \<Rightarrow> None
           | PollFailed \<Rightarrow> Some (keepalive_frame, st)
           | Seen db \<Rightarrow>
               (let qu = filters\<lparr>lq_order := OldestFirst, lq_cursor := Some (sl_after st), lq_limit := Some STREAM_PAGE\<rparr> in
                case query S fts qu db of
                  None \<Rightarrow> Some (keepalive_frame, st)
                | Some (entries, _) \<Rightarrow>
                    (case map (\<lambda>e. entry_frame dto_json (from_entry S e)) entries of
                       [] \<Rightarrow> Some (keepalive_frame, st)
                     | f # fs \<Rightarrow> Some (f, st\<lparr>sl_after := en_id (last entries), sl_pending := fs\<rparr>)))))"

text \<open>The frames a client reads until the stream ends or the polls are used up.\<close>

fun stream_frames ::
  "'n serde \<Rightarrow> ('n log_dto \<Rightarrow> utext) \<Rightarrow> (utext \<Rightarrow> (log_row \<Rightarrow> bool) option) \<Rightarrow> log_query \<Rightarrow> stream_poll list
     \<Rightarrow> stream_loop \<Rightarrow> utext list \<times> stream_loop" where
  "stream_frames S dto_json fts filters [] st = ([], st)"
| "stream_frames S dto_json fts filters (p # ps) st =
     (case stream_next S dto_json fts filters p st of
        None \<Rightarrow> ([], st)
      | Some (f, st') \<Rightarrow>
          (f # fst (stream_frames S dto_json fts filters ps st'), snd (stream_frames S dto_json fts filters ps st')))"

definition handle_log_stream ::
  "log_row list option \<Rightarrow> query_params \<Rightarrow> log_api_error + (log_query \<times> stream_loop)" where
  "handle_log_stream log_read pairs =
     (case bind_r (stream_from_request pairs) stream_validated of
        Inl e \<Rightarrow> Inl (Param e)
      | Inr (filters, after) \<Rightarrow>
          (case log_read of
             None \<Rightarrow> Inl Unavailable
           | Some _ \<Rightarrow> Inr (filters, \<lparr>sl_after = after, sl_pending = []\<rparr>)))"

end
