(* ===== verification/LogDbFacts.thy ===== *)
theory LogDbFacts
  imports LogDb "HOL-Library.Sublist"
begin

text \<open>
  What the log store guarantees: ids grow and orders are kept, what a filter text matches, what
  a prune leaves, and that the pages of a query are all of its rows.
\<close>

section \<open>The table\<close>

definition log_inv :: "log_row list \<Rightarrow> bool" where
  "log_inv db \<longleftrightarrow> sorted_wrt (<) (map lg_id db)"

lemma sorted_wrt_filter': "sorted_wrt R (map f xs) \<Longrightarrow> sorted_wrt R (map f (filter P xs))"
  by (induction xs) auto

lemma log_inv_filter: "log_inv db \<Longrightarrow> log_inv (filter P db)"
  by (simp add: log_inv_def sorted_wrt_filter')

lemma next_id_above: "r \<in> set db \<Longrightarrow> lg_id r < next_id db"
  using Max_ge[of "set (map lg_id db)" "lg_id r"] by (auto simp: next_id_def last_id_def)

lemma next_id_snoc: "(\<forall>r \<in> set db. lg_id r < i) \<Longrightarrow> next_id (db @ [row_of S i e]) = i + 1"
  by (auto simp: next_id_def last_id_def row_of_def intro!: Max_eqI)

lemma insert_each_rows:
  "snd (insert_each S es db) = db @ map (\<lambda>(i, e). row_of S (next_id db + int i) e) (enumerate 0 es)"
proof (induction es arbitrary: db)
  case (Cons e es)
  have n: "next_id (db @ [row_of S (next_id db) e]) = next_id db + 1"
    using next_id_above by (intro next_id_snoc) blast
  have "map (\<lambda>(i, e). row_of S (next_id db + 1 + int i) e) (enumerate 0 es) =
      map (\<lambda>(i, e). row_of S (next_id db + int i) e) (enumerate (Suc 0) es)"
    by (simp add: enumerate_Suc_eq[of 0] comp_def case_prod_beta algebra_simps)
  then show ?case by (simp add: Cons.IH n Let_def)
qed simp

lemma insert_each_inv: "log_inv db \<Longrightarrow> log_inv (snd (insert_each S es db))"
proof (induction es arbitrary: db)
  case (Cons e es)
  have "log_inv (db @ [row_of S (next_id db) e])"
    using Cons.prems next_id_above by (auto simp: log_inv_def sorted_wrt_append row_of_def)
  then show ?case using Cons.IH by (simp add: Let_def)
qed simp

lemma insert_each_ids: "fst (insert_each S es db) = map (\<lambda>i. next_id db + int i) [0..<length es]"
proof (induction es arbitrary: db)
  case (Cons e es)
  have "next_id (db @ [row_of S (next_id db) e]) = next_id db + 1"
    using next_id_above by (intro next_id_snoc) blast
  then show ?case
    by (simp add: Cons.IH Let_def upt_conv_Cons map_Suc_upt[symmetric] comp_def algebra_simps del: upt_Suc)
qed simp

lemma delete_ids_below_filter:
  "delete_ids_below w db = (length (filter (\<lambda>r. lg_id r < w) db), filter (\<lambda>r. w \<le> lg_id r) db)"
proof (induction w db rule: delete_ids_below.induct)
  case (1 w db)
  show ?case
  proof (cases "filter (\<lambda>r. lg_id r < w) db = []")
    case True
    then have "filter (\<lambda>r. w \<le> lg_id r) db = db" by (auto simp: filter_empty_conv filter_id_conv)
    then show ?thesis using True by (subst delete_ids_below.simps) simp
  next
    case False
    let ?lo = "min_id (filter (\<lambda>r. lg_id r < w) db)" let ?hi = "min (?lo + DELETE_CHUNK_ROWS) w"
    let ?rest = "filter (\<lambda>r. \<not> id_range ?lo ?hi r) db"
    have "filter (\<lambda>r. w \<le> lg_id r) ?rest = filter (\<lambda>r. w \<le> lg_id r) db"
      by (auto simp: id_range_def intro!: filter_cong)
    moreover have "length (filter (id_range ?lo ?hi) db) + length (filter (\<lambda>r. lg_id r < w) ?rest) =
        length (filter (\<lambda>r. lg_id r < w) db)"
    proof -
      have "filter (id_range ?lo ?hi) db = filter (id_range ?lo ?hi) (filter (\<lambda>r. lg_id r < w) db)"
        by (auto simp: id_range_def intro!: filter_cong)
      moreover have "filter (\<lambda>r. lg_id r < w) ?rest = filter (\<lambda>r. \<not> id_range ?lo ?hi r) (filter (\<lambda>r. lg_id r < w) db)"
        by (auto intro!: filter_cong)
      ultimately show ?thesis using sum_length_filter_compl by metis
    qed
    moreover have "delete_ids_below w db =
        (length (filter (id_range ?lo ?hi) db) + fst (delete_ids_below w ?rest), snd (delete_ids_below w ?rest))"
      using False by (subst delete_ids_below.simps) (simp only: if_False Let_def)
    ultimately show ?thesis
      using "1.IH"[OF False refl refl] by simp
  qed
qed

lemma delete_all_empty: "delete_all db = (length db, [])"
proof (induction db rule: delete_all.induct)
  case (1 db)
  show ?case
  proof (cases "db = []")
    case False
    let ?P = "id_range (min_id db) (min_id db + DELETE_CHUNK_ROWS)"
    obtain r where "r \<in> set db" "lg_id r = min_id db"
      using min_id_in(1)[OF False] by auto
    then have "?P r" by (simp add: id_range_def DELETE_CHUNK_ROWS_def)
    with \<open>r \<in> set db\<close> have n: "length (filter ?P db) \<noteq> 0"
      by (auto simp: filter_empty_conv)
    have "delete_all db = (length (filter ?P db) + fst (delete_all (filter (\<lambda>r. \<not> ?P r) db)), snd (delete_all (filter (\<lambda>r. \<not> ?P r) db)))"
      using False n by (subst delete_all.simps) (simp only: if_False Let_def)
    then show ?thesis
      using "1.IH"[OF False refl refl refl refl n] sum_length_filter_compl[of ?P db] by simp
  qed (subst delete_all.simps, simp)
qed

section \<open>What a filter text matches\<close>

interpretation sqlite: like_escape "of_char (CHR ''!'')" escape_like
proof
  show "escape_like s = concat (map (\<lambda>x. if x = of_char (CHR ''!'') \<or> x = of_char (CHR ''%'') \<or> x = of_char (CHR ''_'')
     then [of_char (CHR ''!''), x] else [x]) s)" for s
    by (induction s) (auto simp: escape_like_def)
qed simp_all

text \<open>The texts of a filter are taken literally, whatever wildcards and escapes they hold: a
  source matches when it is the term itself or goes on after the term and a colon, a message
  when the term occurs in it, both up to the case of ASCII letters.\<close>

theorem filter_text_literal:
  "(source_clause term source \<longleftrightarrow> source = term \<or>
      (\<exists>a b. source = a @ b \<and> map ascii_fold a = map ascii_fold (term @ lit '':''))) \<and>
   (like_clause term r \<longleftrightarrow>
      (\<exists>a m b. lg_text r = a @ m @ b \<and> map ascii_fold m = map ascii_fold term))"
proof
  show "source_clause term source \<longleftrightarrow> source = term \<or>
     (\<exists>a b. source = a @ b \<and> map ascii_fold a = map ascii_fold (term @ lit '':''))"
    using sqlite.prefix_pattern[of "of_char (CHR '':'')" ascii_fold "term" source]
    by (simp add: source_clause_def sql_like_def)
  show "like_clause term r \<longleftrightarrow>
     (\<exists>a m b. lg_text r = a @ m @ b \<and> map ascii_fold m = map ascii_fold term)"
    using sqlite.inside_pattern[of ascii_fold "term" "lg_text r"]
    by (simp add: like_clause_def sql_like_def)
qed

section \<open>What a prune leaves\<close>

lemma filter_from_nth:
  assumes "log_inv db" "k < length db"
  shows "filter (\<lambda>r. lg_id (db ! k) \<le> lg_id r) db = drop k db"
    and "filter (\<lambda>r. lg_id (db ! k) + 1 \<le> lg_id r) db = drop (Suc k) db"
proof -
  have less: "i < j \<Longrightarrow> j < length db \<Longrightarrow> lg_id (db ! i) < lg_id (db ! j)" for i j
    using assms(1) by (simp add: log_inv_def sorted_wrt_iff_nth_less)
  have split: "db = take k db @ db ! k # drop (Suc k) db"
    using assms(2) by (rule id_take_nth_drop)
  have below: "\<forall>r \<in> set (take k db). lg_id r < lg_id (db ! k)"
    using less assms(2) by (auto simp: in_set_conv_nth)
  have above: "\<forall>r \<in> set (drop (Suc k) db). lg_id (db ! k) < lg_id r"
    using less[of k "Suc k + _"] by (auto simp: in_set_conv_nth)
  have none: "filter (\<lambda>r. lg_id (db ! k) \<le> lg_id r) (take k db) = []"
      "filter (\<lambda>r. lg_id (db ! k) + 1 \<le> lg_id r) (take k db) = []"
    using below by (auto simp: filter_empty_conv)
  have all: "filter (\<lambda>r. lg_id (db ! k) \<le> lg_id r) (drop (Suc k) db) = drop (Suc k) db"
      "filter (\<lambda>r. lg_id (db ! k) + 1 \<le> lg_id r) (drop (Suc k) db) = drop (Suc k) db"
    using above by (auto intro!: filter_True)
  have "filter (\<lambda>r. lg_id (db ! k) \<le> lg_id r) (take k db @ db ! k # drop (Suc k) db) = db ! k # drop (Suc k) db"
    using none(1) all(1) by (simp only: filter_append filter.simps order_refl if_True append_Nil)
  then show "filter (\<lambda>r. lg_id (db ! k) \<le> lg_id r) db = drop k db"
    using split assms(2) by (metis Cons_nth_drop_Suc)
  have "filter (\<lambda>r. lg_id (db ! k) + 1 \<le> lg_id r) (take k db @ db ! k # drop (Suc k) db) = drop (Suc k) db"
    using none(2) all(2) by simp
  then show "filter (\<lambda>r. lg_id (db ! k) + 1 \<le> lg_id r) db = drop (Suc k) db"
    using split by metis
qed

lemma row_bytes_nonneg: "0 \<le> row_bytes r"
  by (simp add: row_bytes_def)

lemma sum_bytes_filter: "sum_list (map row_bytes (filter P db)) \<le> sum_list (map row_bytes db)"
  by (induction db) (auto simp: row_bytes_nonneg add_increasing)

lemma chunk_watermark_Some:
  "chunk_watermark budget acc rows = Some w \<Longrightarrow> \<exists>k < length rows. w = lg_id (rows ! k) + 1 \<and>
     budget \<le> acc + sum_list (map row_bytes (take (Suc k) rows))"
proof (induction budget acc rows rule: chunk_watermark.induct)
  case (2 budget acc r rs)
  show ?case
  proof (cases "acc + row_bytes r \<ge> budget")
    case True
    then show ?thesis using 2 by (intro exI[of _ 0]) simp
  next
    case False
    then obtain k where "k < length rs" "w = lg_id (rs ! k) + 1"
        "budget \<le> acc + row_bytes r + sum_list (map row_bytes (take (Suc k) rs))"
      using 2 by auto
    then show ?thesis by (intro exI[of _ "Suc k"]) simp
  qed
qed simp

lemma chunk_watermark_None:
  "chunk_watermark budget acc rows = None \<Longrightarrow> rows = [] \<or> acc + sum_list (map row_bytes rows) < budget"
  by (induction budget acc rows rule: chunk_watermark.induct) (auto split: if_splits)

lemma byte_scan_Some:
  "byte_scan c budget acc rows = Some w \<Longrightarrow> \<exists>k < length rows. w = lg_id (rows ! k) + 1 \<and>
     budget \<le> acc + sum_list (map row_bytes (take (Suc k) rows))"
proof (induction c budget acc rows rule: byte_scan.induct)
  case (1 c budget acc rows)
  let ?chunk = "take (Suc c) rows" and ?rest = "drop (Suc c) rows"
  let ?acc = "acc + sum_list (map row_bytes ?chunk)"
  have ne: "?chunk \<noteq> []" using "1.prems" by (subst (asm) byte_scan.simps) (auto simp: Let_def split: if_splits)
  have rec: "\<exists>k < length rows. w = lg_id (rows ! k) + 1 \<and> budget \<le> acc + sum_list (map row_bytes (take (Suc k) rows))"
    if ih: "\<exists>k < length ?rest. w = lg_id (?rest ! k) + 1 \<and> budget \<le> ?acc + sum_list (map row_bytes (take (Suc k) ?rest))"
  proof -
    obtain k where k: "k < length ?rest" "w = lg_id (?rest ! k) + 1" "budget \<le> ?acc + sum_list (map row_bytes (take (Suc k) ?rest))"
      using ih by blast
    have "take (Suc (Suc c + k)) rows = ?chunk @ take (Suc k) ?rest"
      using take_add[of "Suc c" "Suc k" rows] by simp
    then show ?thesis using k by (intro exI[of _ "Suc c + k"]) (simp add: add.assoc)
  qed
  show ?case
  proof (cases "?acc \<le> budget")
    case True
    then have "byte_scan c budget ?acc ?rest = Some w"
      using "1.prems" ne by (subst (asm) byte_scan.simps) (simp add: Let_def)
    then show ?thesis using "1.IH"(1)[OF refl refl ne True] rec by blast
  next
    case False
    show ?thesis
    proof (cases "chunk_watermark budget acc ?chunk")
      case None
      then have "byte_scan c budget ?acc ?rest = Some w"
        using "1.prems" ne False by (subst (asm) byte_scan.simps) (simp add: Let_def)
      then show ?thesis using "1.IH"(2)[OF refl refl ne False None] rec by blast
    next
      case (Some v)
      then have "v = w" using "1.prems" ne False by (subst (asm) byte_scan.simps) (simp add: Let_def)
      then obtain k where k: "k < length ?chunk" "w = lg_id (?chunk ! k) + 1"
          "budget \<le> acc + sum_list (map row_bytes (take (Suc k) ?chunk))"
        using chunk_watermark_Some[OF Some] by blast
      have kc: "k < length rows" "k < Suc c" using k(1) by (simp_all only: length_take min_less_iff_conj)
      have t: "take (Suc k) ?chunk = take (Suc k) rows"
        unfolding take_take using kc(2) by (simp only: min.absorb1 Suc_leI)
      have w: "w = lg_id (rows ! k) + 1" using k(2) unfolding nth_take[OF kc(2)] .
      show ?thesis using kc(1) w k(3) unfolding t by (intro exI[of _ k] conjI)
    qed
  qed
qed

lemma byte_scan_None:
  "byte_scan c budget acc rows = None \<Longrightarrow> acc \<le> budget \<Longrightarrow> acc + sum_list (map row_bytes rows) \<le> budget"
proof (induction c budget acc rows rule: byte_scan.induct)
  case (1 c budget acc rows)
  let ?chunk = "take (Suc c) rows" and ?rest = "drop (Suc c) rows"
  let ?acc = "acc + sum_list (map row_bytes ?chunk)"
  have "sum_list (map row_bytes (?chunk @ ?rest)) = sum_list (map row_bytes ?chunk) + sum_list (map row_bytes ?rest)"
    by (simp only: map_append sum_list_append)
  then have sum: "acc + sum_list (map row_bytes rows) = ?acc + sum_list (map row_bytes ?rest)"
    by (simp only: append_take_drop_id add.assoc)
  show ?case
  proof (cases "?chunk = []")
    case True
    then show ?thesis using "1.prems"(2) by simp
  next
    case False
    show ?thesis
    proof (cases "?acc \<le> budget")
      case True
      then have "byte_scan c budget ?acc ?rest = None"
        using "1.prems"(1) False by (subst (asm) byte_scan.simps) (simp add: Let_def)
      then show ?thesis using "1.IH"(1)[OF refl refl False True] True unfolding sum by blast
    next
      case over: False
      have "chunk_watermark budget acc ?chunk = None"
        using "1.prems"(1) False over
        by (subst (asm) byte_scan.simps) (simp add: Let_def split: option.splits)
      then have False using chunk_watermark_None[of budget acc ?chunk] over False by linarith
      then show ?thesis ..
    qed
  qed
qed

text \<open>Everything above a watermark: the suffix of the table, so each bound can be met alone.\<close>

lemma kept_antimono: "v \<le> w \<Longrightarrow> filter (\<lambda>r. w \<le> lg_id r) db = filter (\<lambda>r. w \<le> lg_id r) (filter (\<lambda>r. v \<le> lg_id r) db)"
  by (auto intro!: filter_cong)

lemma kept_fewer: "v \<le> w \<Longrightarrow> length (filter (\<lambda>r. w \<le> lg_id r) db) \<le> length (filter (\<lambda>r. v \<le> lg_id r) db)"
  using kept_antimono[of v w db] length_filter_le by metis

lemma kept_lighter: "v \<le> w \<Longrightarrow>
    sum_list (map row_bytes (filter (\<lambda>r. w \<le> lg_id r) db)) \<le> sum_list (map row_bytes (filter (\<lambda>r. v \<le> lg_id r) db))"
  using kept_antimono[of v w db] sum_bytes_filter by metis

lemma kept_from_min: "w \<le> min_id db \<Longrightarrow> filter (\<lambda>r. w \<le> lg_id r) db = db"
  using min_id_in(2) by (intro filter_True) (metis all_not_in_conv order_trans set_empty)

lemma kept_is_suffix: "log_inv db \<Longrightarrow> filter (\<lambda>r. w \<le> lg_id r) db = drop (length db - length (filter (\<lambda>r. w \<le> lg_id r) db)) db"
proof (induction db)
  case (Cons r db)
  have inv: "log_inv db" and above: "\<forall>q \<in> set db. lg_id r < lg_id q"
    using Cons.prems by (auto simp: log_inv_def)
  show ?case
  proof (cases "w \<le> lg_id r")
    case True
    then have "filter (\<lambda>r. w \<le> lg_id r) db = db" using above by (intro filter_True) force
    then show ?thesis using True by simp
  next
    case False
    have "length (filter (\<lambda>r. w \<le> lg_id r) db) \<le> length db" by simp
    then show ?thesis using False Cons.IH[OF inv] by (simp add: Suc_diff_le)
  qed
qed simp

lemma rows_watermark_bound:
  assumes "log_inv db" "rows_watermark m db = Some w"
  shows "int (length (filter (\<lambda>r. w \<le> lg_id r) db)) \<le> m"
proof (cases "int (length db) > m")
  case True
  let ?k = "nat (int (length db) - m)"
  have k: "?k < length db" "w = lg_id (db ! ?k)"
    using assms(2) True by (simp_all add: rows_watermark_def Let_def split: if_splits)
  show ?thesis using k True by (simp add: filter_from_nth(1)[OF assms(1) k(1)])
next
  case False
  then show ?thesis using length_filter_le[of "\<lambda>r. w \<le> lg_id r" db] by linarith
qed

lemma rows_watermark_total: "0 < m \<Longrightarrow> \<exists>w. rows_watermark m db = Some w"
  by (auto simp: rows_watermark_def Let_def)

lemma bytes_watermark_bound:
  assumes "log_inv db" "0 < m"
  shows "sum_list (map row_bytes (filter (\<lambda>r. bytes_watermark c m db \<le> lg_id r) db)) \<le> m"
proof -
  let ?total = "sum_list (map row_bytes db)"
  let ?kept = "filter (\<lambda>r. bytes_watermark c m db \<le> lg_id r) db"
  show ?thesis
  proof (cases "?total - m \<le> 0")
    case True
    then show ?thesis using sum_bytes_filter[of "\<lambda>r. bytes_watermark c m db \<le> lg_id r" db] by linarith
  next
    case False
    show ?thesis
    proof (cases "byte_scan c (?total - m) 0 db")
      case None
      then show ?thesis using byte_scan_None[OF None] False assms(2) by simp
    next
      case (Some w)
      obtain k where k: "k < length db" "w = lg_id (db ! k) + 1" "?total - m \<le> sum_list (map row_bytes (take (Suc k) db))"
        using byte_scan_Some[OF Some] by auto
      have "?kept = drop (Suc k) db"
        using filter_from_nth(2)[OF assms(1) k(1)] False Some k(2) by (simp add: bytes_watermark_def Let_def)
      moreover have "?total = sum_list (map row_bytes (take (Suc k) db)) + sum_list (map row_bytes (drop (Suc k) db))"
        unfolding sum_list_append[symmetric] map_append[symmetric] append_take_drop_id ..
      ultimately show ?thesis using k(3) by simp
    qed
  qed
qed

lemma age_watermark_bound:
  assumes "log_inv db" "sorted (map lg_ts db)" "r \<in> set db" "age_watermark cutoff db \<le> lg_id r"
  shows "cutoff \<le> lg_ts r"
proof (rule ccontr)
  assume late: "\<not> cutoff \<le> lg_ts r"
  show False
  proof (cases "filter (\<lambda>r. cutoff \<le> lg_ts r) db")
    case Nil
    then have "Max (set (map lg_id db)) + 1 \<le> lg_id r" using assms(4) by (simp add: age_watermark_def)
    moreover have "lg_id r \<le> Max (set (map lg_id db))" using assms(3) by (intro Max_ge) auto
    ultimately show False by simp
  next
    case (Cons h hs)
    then have "min_id (filter (\<lambda>r. cutoff \<le> lg_ts r) db) \<le> lg_id r" using assms(4) by (simp add: age_watermark_def)
    moreover obtain q where "q \<in> set (filter (\<lambda>r. cutoff \<le> lg_ts r) db)"
        "lg_id q = min_id (filter (\<lambda>r. cutoff \<le> lg_ts r) db)"
      using min_id_in(1)[of "filter (\<lambda>r. cutoff \<le> lg_ts r) db"] list.distinct(2)[of h hs] unfolding Cons by blast
    ultimately have q: "q \<in> set db" "cutoff \<le> lg_ts q" "lg_id q \<le> lg_id r"
      by simp_all
    obtain i j where ij: "i < length db" "r = db ! i" "j < length db" "q = db ! j"
      using assms(3) q(1) by (auto simp: in_set_conv_nth)
    show False
    proof (cases "i < j")
      case True
      then have "lg_id r < lg_id q" using assms(1) ij by (simp add: log_inv_def sorted_wrt_iff_nth_less)
      then show False using q(3) by simp
    next
      case False
      then have "lg_ts q \<le> lg_ts r" using assms(2) ij sorted_nth_mono[of "map lg_ts db" j i] by simp
      then show False using q(2) late by simp
    qed
  qed
qed

lemma prune_keeps:
  assumes "prune c now b db = (Some n, db')" "db \<noteq> []"
  obtains rows_w w where "rows_watermark (pb_max_rows b) db = Some rows_w"
    "rows_w \<le> w" "age_watermark (now - pb_max_age_secs b * 1000) db \<le> w" "bytes_watermark c (pb_max_bytes b) db \<le> w"
    "db' = filter (\<lambda>r. w \<le> lg_id r) db" "n + length db' = length db"
proof -
  obtain rows_w where r: "rows_watermark (pb_max_rows b) db = Some rows_w"
    using assms by (auto simp: prune_def split: option.splits)
  let ?w = "max (max (age_watermark (now - pb_max_age_secs b * 1000) db) rows_w) (bytes_watermark c (pb_max_bytes b) db)"
  have p: "prune c now b db = (if ?w \<le> min_id db then (Some 0, db)
      else (Some (fst (delete_ids_below ?w db)), snd (delete_ids_below ?w db)))"
    unfolding prune_def Let_def r using assms(2) by (simp only: if_False option.case)
  have "db' = filter (\<lambda>r. ?w \<le> lg_id r) db \<and> n + length db' = length db"
  proof (cases "?w \<le> min_id db")
    case True
    then have "db' = db \<and> n = 0" using assms(1) unfolding p by simp
    then show ?thesis using kept_from_min[OF True] by simp
  next
    case False
    then have "n = length (filter (\<lambda>r. lg_id r < ?w) db) \<and> db' = filter (\<lambda>r. ?w \<le> lg_id r) db"
      using assms(1) unfolding p delete_ids_below_filter by (simp only: if_False fst_conv snd_conv prod.inject option.inject)
    then show ?thesis
      using sum_length_filter_compl[of "\<lambda>r. lg_id r < ?w" db] by (simp add: not_less)
  qed
  then show thesis using r by (intro that[of rows_w ?w]) auto
qed

text \<open>C8. A prune meets every bound at once: with positive row and byte limits, and times that grow
  with the ids, it succeeds, removes an initial part of the table and says how many rows that
  was, and what it leaves has no row past the age limit, no more rows than the row limit and
  no more bytes than the byte limit, whatever the size of the chunks the bytes are scanned in.\<close>

theorem prune_meets_bounds:
  assumes "log_inv db" "sorted (map lg_ts db)" "0 < pb_max_rows b" "0 < pb_max_bytes b"
  shows "\<exists>n db'. prune chunk now b db = (Some n, db') \<and> db' = drop n db \<and> n \<le> length db \<and>
     int (length db') \<le> pb_max_rows b \<and> sum_list (map row_bytes db') \<le> pb_max_bytes b \<and>
     (\<forall>r \<in> set db'. now - pb_max_age_secs b * 1000 \<le> lg_ts r)"
proof (cases "db = []")
  case True
  then show ?thesis using assms(3,4) by (simp add: prune_def)
next
  case False
  obtain w0 where "rows_watermark (pb_max_rows b) db = Some w0"
    using rows_watermark_total[OF assms(3)] by blast
  then obtain n db' where p: "prune chunk now b db = (Some n, db')"
    using False by (simp add: prune_def Let_def split: if_splits) (metis surj_pair)
  obtain rows_w w where w: "rows_watermark (pb_max_rows b) db = Some rows_w" "rows_w \<le> w"
      "age_watermark (now - pb_max_age_secs b * 1000) db \<le> w" "bytes_watermark chunk (pb_max_bytes b) db \<le> w"
      "db' = filter (\<lambda>r. w \<le> lg_id r) db" "n + length db' = length db"
    using prune_keeps[OF p False] by blast
  have suffix: "db' = drop n db"
    using kept_is_suffix[OF assms(1), of w] w(5,6) by (metis add_diff_cancel_right')
  have rows: "int (length db') \<le> pb_max_rows b"
    using rows_watermark_bound[OF assms(1) w(1)] kept_fewer[OF w(2), of db] unfolding w(5) by linarith
  have bytes: "sum_list (map row_bytes db') \<le> pb_max_bytes b"
    using bytes_watermark_bound[OF assms(1,4), of chunk] kept_lighter[OF w(4), of db] unfolding w(5) by linarith
  have age: "\<forall>r \<in> set db'. now - pb_max_age_secs b * 1000 \<le> lg_ts r"
    using age_watermark_bound[OF assms(1,2)] w(3) unfolding w(5) by force
  show ?thesis using p suffix w(6) rows bytes age by (intro exI[of _ n] exI[of _ db']) simp
qed

definition demo_rows :: "log_row list" where
  "demo_rows = [\<lparr>lg_id = 1, lg_ts = 10, lg_level = 2, lg_source = lit ''proxy'', lg_text = lit ''{}''\<rparr>,
     \<lparr>lg_id = 2, lg_ts = 20, lg_level = 2, lg_source = lit ''proxy'', lg_text = lit ''{}''\<rparr>]"

lemma demo_rows_inv: "log_inv demo_rows" "sorted (map lg_ts demo_rows)"
  by (simp_all add: demo_rows_def log_inv_def)

theorem prune_meets_bounds_witness:
  "\<exists>n db'. prune 9999 30 \<lparr>pb_max_age_secs = 60, pb_max_rows = 1, pb_max_bytes = 100\<rparr> demo_rows = (Some n, db') \<and>
     db' = drop n demo_rows \<and> n \<le> length demo_rows \<and> int (length db') \<le> 1 \<and>
     sum_list (map row_bytes db') \<le> 100 \<and> (\<forall>r \<in> set db'. 30 - 60 * 1000 \<le> lg_ts r)"
  using prune_meets_bounds[OF demo_rows_inv, of "\<lparr>pb_max_age_secs = 60, pb_max_rows = 1, pb_max_bytes = 100\<rparr>" 9999 30]
  by simp

text \<open>A row limit of zero stops all pruning: on a table with rows every prune then fails and
  removes nothing, however old and however large the table is.\<close>

theorem zero_row_limit_stops_pruning:
  assumes "db \<noteq> []" "pb_max_rows b \<le> 0"
  shows "prune chunk now b db = (None, db)"
proof -
  have "int (length db) > pb_max_rows b" using assms by (cases db) auto
  moreover have "\<not> nat (int (length db) - pb_max_rows b) < length db" using assms(2) by linarith
  ultimately have "rows_watermark (pb_max_rows b) db = None" by (simp add: rows_watermark_def Let_def)
  then show ?thesis using assms(1) by (simp add: prune_def)
qed

theorem zero_row_limit_stops_pruning_witness:
  "prune 9999 (10 ^ 12) \<lparr>pb_max_age_secs = 60, pb_max_rows = 0, pb_max_bytes = 1\<rparr> demo_rows = (None, demo_rows)"
  by (rule zero_row_limit_stops_pruning) (simp_all add: demo_rows_def)

section \<open>A page of a query\<close>

text \<open>Which rows a query is about: the full-text hits when there are any, else the substring hits.\<close>

definition page_rows :: "(utext \<Rightarrow> (log_row \<Rightarrow> bool) option) \<Rightarrow> log_query \<Rightarrow> log_row list \<Rightarrow> log_row list" where
  "page_rows fts qu db =
     (let hits = (\<lambda>P. filter (\<lambda>r. base_clauses qu r \<and> cursor_clause qu r \<and> P r) db) in
      case search_term qu of
        None \<Rightarrow> hits (\<lambda>_. True)
      | Some term \<Rightarrow> (case fts term of
            Some P \<Rightarrow> if hits P = [] then hits (like_clause term) else hits P
          | None \<Rightarrow> hits (like_clause term)))"

definition in_order :: "query_order \<Rightarrow> 'a list \<Rightarrow> 'a list" where
  "in_order d xs = (case d of NewestFirst \<Rightarrow> rev xs | OldestFirst \<Rightarrow> xs)"

definition all_decode :: "'n serde \<Rightarrow> log_row list \<Rightarrow> bool" where
  "all_decode S db \<longleftrightarrow> (\<forall>r \<in> set db. decode_row S r \<noteq> None)"

definition decoded :: "'n serde \<Rightarrow> log_row \<Rightarrow> 'n log_entry" where
  "decoded S r = the (decode_row S r)"

lemma decode_rows_all: "(\<forall>r \<in> set rs. decode_row S r \<noteq> None) \<Longrightarrow> decode_rows S rs = Some (map (decoded S) rs)"
  by (induction rs) (auto simp: decoded_def)

lemma decoded_id: "decode_row S r \<noteq> None \<Longrightarrow> en_id (decoded S r) = lg_id r"
  by (auto simp: decoded_def decode_row_def split: option.splits)

lemma limit_pos: "0 < nat (effective_limit qu)"
  by (auto simp: effective_limit_def)

text \<open>The first entries of a list of rows, and where the next page starts.\<close>

definition page_of :: "'n serde \<Rightarrow> nat \<Rightarrow> log_row list \<Rightarrow> 'n log_entry list \<times> int option" where
  "page_of S limit rows =
     (map (decoded S) (take limit rows),
      if limit < length rows then Some (lg_id (rows ! (limit - 1))) else None)"

lemma page_of_rows:
  assumes "\<forall>r \<in> set rows. decode_row S r \<noteq> None" "0 < n"
  shows "(case decode_rows S (take (n + 1) rows) of
       None \<Rightarrow> None
     | Some entries \<Rightarrow>
         if n < length entries then Some (take n entries, Some (en_id (last (take n entries))))
         else Some (entries, None)) = Some (page_of S n rows)"
proof -
  have dec: "decode_rows S (take (n + 1) rows) = Some (map (decoded S) (take (n + 1) rows))"
    using assms(1) by (intro decode_rows_all) (auto dest: in_set_takeD)
  show ?thesis
  proof (cases "n < length rows")
    case True
    have t: "take n (map (decoded S) (take (n + 1) rows)) = map (decoded S) (take n rows)"
      by (simp add: take_map[symmetric] min_def)
    have "last (map (decoded S) (take n rows)) = decoded S (rows ! (n - 1))"
    proof -
      have ne: "take n rows \<noteq> []" using True assms(2) by auto
      show ?thesis unfolding last_map[OF ne] last_conv_nth[OF ne] using True assms(2) by simp
    qed
    moreover have "en_id (decoded S (rows ! (n - 1))) = lg_id (rows ! (n - 1))"
      using True assms by (intro decoded_id) simp
    ultimately show ?thesis unfolding dec option.case t using True by (simp add: page_of_def)
  next
    case False
    then have t: "take (n + 1) rows = rows" "take n rows = rows" by simp_all
    show ?thesis using False dec unfolding t by (simp add: page_of_def t)
  qed
qed

lemma run_query_page:
  assumes "all_decode S db"
  shows "run_query S qu P db = Some (page_of S (nat (effective_limit qu))
     (in_order (lq_order qu) (filter (\<lambda>r. base_clauses qu r \<and> cursor_clause qu r \<and> P r) db)))"
proof -
  let ?rows = "in_order (lq_order qu) (filter (\<lambda>r. base_clauses qu r \<and> cursor_clause qu r \<and> P r) db)"
  have "\<forall>r \<in> set ?rows. decode_row S r \<noteq> None"
    using assms by (auto simp: in_order_def all_decode_def split: query_order.splits)
  from page_of_rows[OF this limit_pos] show ?thesis
    unfolding run_query_def Let_def in_order_def .
qed

lemma page_of_empty: "0 < n \<Longrightarrow> fst (page_of S n rows) = [] \<longleftrightarrow> rows = []"
  by (auto simp: page_of_def)

lemma in_order_empty: "in_order d xs = [] \<longleftrightarrow> xs = []"
  by (simp add: in_order_def split: query_order.splits)

lemma nonempty_page_first:
  assumes "0 < n"
  shows "(case Some (page_of S n (in_order d hits)) of Some (e # es, c) \<Rightarrow> Some (e # es, c) | _ \<Rightarrow> other) =
    (if hits = [] then other else Some (page_of S n (in_order d hits)))"
proof (cases "hits = []")
  case True
  then show ?thesis by (simp add: page_of_def in_order_def split: query_order.splits)
next
  case False
  then have "fst (page_of S n (in_order d hits)) \<noteq> []" using assms by (simp add: page_of_empty in_order_empty)
  then obtain e es c where "page_of S n (in_order d hits) = (e # es, c)"
    by (metis list.exhaust prod.collapse)
  then show ?thesis using False by simp
qed

lemma query_page:
  assumes "all_decode S db"
  shows "query S fts qu db = Some (page_of S (nat (effective_limit qu)) (in_order (lq_order qu) (page_rows fts qu db)))"
proof (cases "search_term qu")
  case None
  then show ?thesis unfolding query_def page_rows_def Let_def run_query_page[OF assms] by simp
next
  case (Some t)
  show ?thesis
  proof (cases "fts t")
    case None
    then show ?thesis using Some unfolding query_def page_rows_def Let_def run_query_page[OF assms] by simp
  next
    case fts: (Some P)
    show ?thesis
      unfolding query_def page_rows_def Let_def run_query_page[OF assms] Some fts option.case bind.bind_lunit
        nonempty_page_first[OF limit_pos, unfolded option.case]
      by simp
  qed
qed

lemma count_page:
  "count_rows fts qu db = length (page_rows fts (qu\<lparr>lq_cursor := None\<rparr>) db)"
proof -
  have b: "base_clauses (qu\<lparr>lq_cursor := None\<rparr>) r = base_clauses qu r" for r by (simp add: base_clauses_def)
  have c: "cursor_clause (qu\<lparr>lq_cursor := None\<rparr>) r" for r by (simp add: cursor_clause_def)
  have s: "search_term (qu\<lparr>lq_cursor := None\<rparr>) = search_term qu" by (simp add: search_term_def)
  show ?thesis unfolding count_rows_def page_rows_def Let_def b s by (auto simp: c split: option.splits)
qed

end
