(* ===== verification/LogApiFacts.thy ===== *)
theory LogApiFacts
  imports LogApi LogDbFacts
begin

text \<open>
  What the log endpoints guarantee: an export holds every matching row once and a reader of
  comma-separated values gets them back, the live stream neither skips nor repeats a row, and
  a frame arrives as the document it was built from.
\<close>

section \<open>Comma-separated values\<close>

text \<open>A reader after RFC 4180: inside quotes a doubled quote is one, and nothing else counts.\<close>

fun csv_read :: "bool \<Rightarrow> utext \<Rightarrow> utext list \<Rightarrow> utext \<Rightarrow> utext list list" where
  "csv_read False f r [] = (if f = [] \<and> r = [] then [] else [r @ [f]])"
| "csv_read True f r [] = [r @ [f]]"
| "csv_read True f r (c # s) =
     (if c \<noteq> quote_u then csv_read True (f @ [c]) r s
      else case s of
          d # s' \<Rightarrow> if d = quote_u then csv_read True (f @ [c]) r s' else csv_read False f r s
        | [] \<Rightarrow> [r @ [f]])"
| "csv_read False f r (c # s) =
     (if c = quote_u then csv_read True f r s
      else if c = comma_u then csv_read False [] (r @ [f]) s
      else if c = newline then (r @ [f]) # csv_read False [] [] s
      else csv_read False (f @ [c]) r s)"

abbreviation csv_records :: "utext \<Rightarrow> utext list list" where
  "csv_records s \<equiv> csv_read False [] [] s"

definition csv_plain :: "utext \<Rightarrow> bool" where
  "csv_plain x \<longleftrightarrow> (\<forall>c \<in> set x. c \<noteq> comma_u \<and> c \<noteq> quote_u \<and> c \<noteq> newline)"

lemma csv_read_plain: "csv_plain x \<Longrightarrow> csv_read False f r (x @ s) = csv_read False (f @ x) r s"
  by (induction x arbitrary: f) (auto simp: csv_plain_def)

lemma csv_read_quoted:
  "s \<noteq> [] \<Longrightarrow> hd s \<noteq> quote_u \<Longrightarrow>
     csv_read True f r (replace_char (CHR 0x22) [CHR 0x22, CHR 0x22] x @ [quote_u] @ s) = csv_read False (f @ x) r s"
  by (induction x arbitrary: f) (auto simp: replace_char_def neq_Nil_conv)

lemma csv_read_field:
  "s \<noteq> [] \<Longrightarrow> hd s \<noteq> quote_u \<Longrightarrow> csv_read False [] r (csv_field x @ s) = csv_read False x r s"
  using csv_read_quoted[of s "[]" r x] csv_read_plain[of x "[]" r s]
  by (auto simp: csv_field_def csv_plain_def)

lemma show_nat_plain: "csv_plain (lit (show_nat n))"
  using show_nat_digits[of n] by (auto simp: csv_plain_def lit_def is_digit_def list_all_iff)

lemma show_int_plain: "csv_plain (show_int_u i)"
  using show_nat_plain[of "nat (- i)"] show_nat_plain[of "nat i"] by (simp add: show_int_u_def csv_plain_def)

text \<open>The five fields a row stands for.\<close>

definition csv_fields :: "'n serde \<Rightarrow> 'n log_entry \<Rightarrow> utext list" where
  "csv_fields S e =
     [show_int_u (en_id e), show_int_u (en_ts e), dt_level (from_entry S e), dt_source (from_entry S e),
      dt_message (from_entry S e)]"

lemma csv_read_line: "csv_records (csv_line S e @ s) = csv_fields S e # csv_records s"
  by (simp add: csv_line_def Let_def csv_fields_def csv_read_plain[OF show_int_plain] csv_read_field)

lemma csv_read_lines: "csv_records (concat (map (csv_line S) es)) = map (csv_fields S) es"
  by (induction es) (simp_all add: csv_read_line)

lemma csv_read_header:
  "csv_records (csv_header @ s) = map lit [''id'', ''ts'', ''level'', ''source'', ''message''] # csv_records s"
  by (simp add: csv_header_def)

section \<open>The export\<close>

lemma bind_r_Inr: "bind_r x f = Inr y \<Longrightarrow> (\<And>a. x = Inr a \<Longrightarrow> f a = Inr y \<Longrightarrow> thesis) \<Longrightarrow> thesis"
  by (cases x) auto

abbreviation uncursored :: "log_query \<Rightarrow> log_query" where
  "uncursored qu \<equiv> qu\<lparr>lq_cursor := None\<rparr>"

lemma page_rows_cursor:
  assumes "\<forall>r \<in> set ext. c \<le> lg_id r" "lq_order qu = NewestFirst"
    "filter (\<lambda>r. lg_id r < c) (page_rows fts (uncursored qu) db) \<noteq> []"
  shows "page_rows fts (qu\<lparr>lq_cursor := Some c\<rparr>) (db @ ext) = filter (\<lambda>r. lg_id r < c) (page_rows fts (uncursored qu) db)"
proof -
  let ?H = "\<lambda>P. filter (\<lambda>r. base_clauses qu r \<and> P r) db"
  have base: "base_clauses (qu\<lparr>lq_cursor := k\<rparr>) r = base_clauses qu r" for k r by (simp add: base_clauses_def)
  have search: "search_term (qu\<lparr>lq_cursor := k\<rparr>) = search_term qu" for k by (simp add: search_term_def)
  have none: "cursor_clause (uncursored qu) r = True" for r by (simp add: cursor_clause_def)
  have some: "cursor_clause (qu\<lparr>lq_cursor := Some c\<rparr>) r \<longleftrightarrow> lg_id r < c" for r
    using assms(2) by (simp add: cursor_clause_def)
  have H: "filter (\<lambda>r. base_clauses qu r \<and> lg_id r < c \<and> P r) (db @ ext) = filter (\<lambda>r. lg_id r < c) (?H P)" for P
  proof -
    have "filter (\<lambda>r. base_clauses qu r \<and> lg_id r < c \<and> P r) ext = []"
      using assms(1) by (auto simp: filter_empty_conv)
    then show ?thesis by (auto intro!: filter_cong)
  qed
  have ne: "filter (\<lambda>r. lg_id r < c) xs \<noteq> [] \<Longrightarrow> xs \<noteq> []" for xs by auto
  show ?thesis
    using assms(3) unfolding page_rows_def Let_def base search none some H simp_thms
    by (auto simp del: filter_filter split: option.splits if_splits)
qed

text \<open>The rows an export is about, newest first, and how their ids fall.\<close>

abbreviation export_rows :: "(utext \<Rightarrow> (log_row \<Rightarrow> bool) option) \<Rightarrow> log_query \<Rightarrow> log_row list \<Rightarrow> log_row list" where
  "export_rows fts qu db \<equiv> rev (page_rows fts (uncursored qu) db)"

lemma page_rows_subset: "set (page_rows fts qu db) \<subseteq> set db"
  by (auto simp: page_rows_def Let_def split: option.splits if_splits)

lemma page_rows_inv: "log_inv db \<Longrightarrow> log_inv (page_rows fts qu db)"
  by (auto simp: page_rows_def Let_def log_inv_filter split: option.splits)

lemma filter_below_rev:
  assumes "log_inv xs" "0 < k" "k \<le> length xs"
  shows "filter (\<lambda>r. lg_id r < lg_id (rev xs ! (k - 1))) xs = rev (drop k (rev xs))"
proof -
  let ?n = "length xs - k"
  have n: "?n < length xs" using assms(2,3) by simp
  have "rev xs ! (k - 1) = xs ! ?n" using assms(2,3) by (simp add: rev_nth)
  moreover have "filter (\<lambda>r. lg_id r < lg_id (xs ! ?n)) xs = take ?n xs"
  proof -
    have less: "i < j \<Longrightarrow> j < length xs \<Longrightarrow> lg_id (xs ! i) < lg_id (xs ! j)" for i j
      using assms(1) by (simp add: log_inv_def sorted_wrt_iff_nth_less)
    have le: "i \<le> j \<Longrightarrow> j < length xs \<Longrightarrow> lg_id (xs ! i) \<le> lg_id (xs ! j)" for i j
      using less[of i j] by (cases "i = j") auto
    have "filter (\<lambda>r. lg_id r < lg_id (xs ! ?n)) (take ?n xs) = take ?n xs"
      using less n by (intro filter_True) (auto simp: in_set_conv_nth)
    moreover have "filter (\<lambda>r. lg_id r < lg_id (xs ! ?n)) (drop ?n xs) = []"
      using le[of ?n] n by (auto simp: filter_empty_conv in_set_conv_nth not_less)
    moreover have "filter Q xs = filter Q (take ?n xs) @ filter Q (drop ?n xs)" for Q
      using filter_append[of Q "take ?n xs" "drop ?n xs"] by simp
    ultimately show ?thesis by simp
  qed
  ultimately show ?thesis using assms(3) by (simp add: drop_rev)
qed

lemma export_walk_from:
  assumes grow: "\<forall>j \<ge> i. \<exists>ext. dbs j = dbs i @ ext" and inv: "\<forall>j. log_inv (dbs j)"
    and dec: "\<forall>j. all_decode S (dbs j)" and newest: "lq_order qu = NewestFirst"
    and j: "i \<le> j" and k: "0 < k" "k < length (export_rows fts qu (dbs i))"
  shows "export_walk S fts qu dbs j (Some (lg_id (export_rows fts qu (dbs i) ! (k - 1)))) acc =
     Some (Inr (acc @ map (decoded S) (drop k (export_rows fts qu (dbs i)))))"
  using j k
proof (induction "length (export_rows fts qu (dbs i)) - k" arbitrary: j k acc rule: less_induct)
  case less
  let ?R = "export_rows fts qu (dbs i)" and ?n = "nat (effective_limit qu)"
  let ?c = "lg_id (?R ! (k - 1))"
  obtain ext where ext: "dbs j = dbs i @ ext" using grow less.prems(1) by blast
  have A: "log_inv (page_rows fts (uncursored qu) (dbs i))" using inv by (simp add: page_rows_inv)
  have rows: "filter (\<lambda>r. lg_id r < ?c) (page_rows fts (uncursored qu) (dbs i)) = rev (drop k ?R)"
    using filter_below_rev[OF A less.prems(2)] less.prems(3) by simp
  have "?R ! (k - 1) \<in> set ?R" using less.prems(3) by (intro nth_mem) linarith
  then have "?R ! (k - 1) \<in> set (dbs i)" using page_rows_subset by fastforce
  then have "\<forall>r \<in> set ext. ?c \<le> lg_id r"
    using inv[rule_format, of j] unfolding ext by (auto simp: log_inv_def sorted_wrt_append less_imp_le)
  then have page: "page_rows fts (qu\<lparr>lq_cursor := Some ?c\<rparr>) (dbs j) = rev (drop k ?R)"
    using page_rows_cursor[of ext ?c qu fts "dbs i"] newest less.prems(3) unfolding ext rows by simp
  have lim: "effective_limit (qu\<lparr>lq_cursor := x\<rparr>) = effective_limit qu" for x by (simp add: effective_limit_def)
  have q: "query S fts (qu\<lparr>lq_cursor := Some ?c\<rparr>) (dbs j) = Some (page_of S ?n (drop k ?R))"
    using query_page[OF dec[rule_format, of j], of fts "qu\<lparr>lq_cursor := Some ?c\<rparr>"] newest
    unfolding page lim by (simp add: in_order_def)
  have pos: "0 < ?n" by (rule limit_pos)
  show ?case
  proof (cases "?n < length (drop k ?R)")
    case True
    have next_id: "drop k ?R ! (?n - 1) = ?R ! (k + ?n - 1)" using pos True by simp
    have IH: "export_walk S fts qu dbs (Suc j) (Some (lg_id (?R ! (k + ?n - 1)))) (acc @ map (decoded S) (take ?n (drop k ?R))) =
        Some (Inr ((acc @ map (decoded S) (take ?n (drop k ?R))) @ map (decoded S) (drop (k + ?n) ?R)))"
      using True pos less.prems by (intro less.hyps) simp_all
    have "drop k ?R = take ?n (drop k ?R) @ drop (k + ?n) ?R"
      using append_take_drop_id[of ?n "drop k ?R"] by (simp add: add.commute)
    then have split: "map (decoded S) (drop k ?R) = map (decoded S) (take ?n (drop k ?R)) @ map (decoded S) (drop (k + ?n) ?R)"
      by (metis map_append)
    show ?thesis
      by (subst export_walk.simps)
        (simp only: q option.case page_of_def fst_conv snd_conv if_P[OF True] next_id IH split append_assoc)
  next
    case False
    then show ?thesis by (subst export_walk.simps, simp only: q option.case) (simp add: page_of_def)
  qed
qed

lemma export_walk_all:
  assumes grow: "\<forall>j \<ge> i. \<exists>ext. dbs j = dbs i @ ext" and inv: "\<forall>j. log_inv (dbs j)"
    and dec: "\<forall>j. all_decode S (dbs j)" and newest: "lq_order qu = NewestFirst"
  shows "export_walk S fts qu dbs i None [] = Some (Inr (map (decoded S) (export_rows fts qu (dbs i))))"
proof -
  let ?R = "export_rows fts qu (dbs i)" and ?n = "nat (effective_limit qu)"
  have lim: "effective_limit (uncursored qu) = effective_limit qu" by (simp add: effective_limit_def)
  have q: "query S fts (uncursored qu) (dbs i) = Some (page_of S ?n ?R)"
    using query_page[OF dec[rule_format, of i], of fts "uncursored qu"] newest
    unfolding lim by (simp add: in_order_def)
  have pos: "0 < ?n" by (rule limit_pos)
  show ?thesis
  proof (cases "?n < length ?R")
    case True
    have IH: "export_walk S fts qu dbs (Suc i) (Some (lg_id (?R ! (?n - 1)))) (map (decoded S) (take ?n ?R)) =
        Some (Inr (map (decoded S) (take ?n ?R) @ map (decoded S) (drop ?n ?R)))"
      by (rule export_walk_from[OF grow inv dec newest _ pos True]) simp
    have split: "map (decoded S) ?R = map (decoded S) (take ?n ?R) @ map (decoded S) (drop ?n ?R)"
      by (metis append_take_drop_id map_append)
    show ?thesis
      by (subst export_walk.simps)
        (simp only: q option.case page_of_def fst_conv snd_conv if_P[OF True] IH split append_assoc append_Nil)
  next
    case False
    then show ?thesis by (subst export_walk.simps, simp only: q option.case) (simp add: page_of_def)
  qed
qed

text \<open>C9. An export is complete: while other requests only add rows, an accepted export ends, and a
  reader of comma-separated values gets from its body the column names and then, newest first
  and each once, exactly the rows the filters match, with their fields as they are whatever
  commas, quotes and line ends they hold, however many pages it takes.\<close>

theorem export_complete:
  assumes "bind_r (export_from_request pairs) export_validated = Inr qu"
    "count_rows fts qu (dbs 0) \<le> EXPORT_CAP_ROWS"
    "\<forall>j. log_inv (dbs j) \<and> all_decode S (dbs j)" "\<forall>j \<ge> 1. \<exists>ext. dbs j = dbs 1 @ ext"
  shows "\<exists>body. handle_log_export S fts (Some dbs) pairs = Some (Inr body) \<and>
     csv_records body = map lit [''id'', ''ts'', ''level'', ''source'', ''message''] #
       map (\<lambda>r. csv_fields S (decoded S r)) (rev (page_rows fts qu (dbs 1)))"
proof -
  have qu: "qu\<lparr>lq_order := NewestFirst\<rparr> = qu" "uncursored qu = qu" "lq_order qu = NewestFirst"
    using assms(1) by (cases "export_from_request pairs";
      auto simp: export_validated_def window_query_def elim!: bind_r_Inr split: option.splits if_splits)+
  let ?es = "map (decoded S) (export_rows fts qu (dbs 1))"
  have "export_walk S fts (qu\<lparr>lq_order := NewestFirst\<rparr>) dbs 1 None [] = Some (Inr ?es)"
    using assms(3) unfolding qu(1) by (intro export_walk_all[OF assms(4) _ _ qu(3)]) simp_all
  then have "handle_log_export S fts (Some dbs) pairs = Some (Inr (csv_header @ concat (map (csv_line S) ?es)))"
    using assms(1,2) by (simp add: handle_log_export_def)
  moreover have "csv_records (csv_header @ concat (map (csv_line S) ?es)) =
      map lit [''id'', ''ts'', ''level'', ''source'', ''message''] # map (csv_fields S) ?es"
    unfolding csv_read_header csv_read_lines ..
  ultimately show ?thesis unfolding qu by (simp add: comp_def rev_map[symmetric])
qed

section \<open>The live stream\<close>

text \<open>The rows a stream is about, full-text search aside, and the frames of rows.\<close>

definition stream_match :: "log_query \<Rightarrow> log_row \<Rightarrow> bool" where
  "stream_match qu r \<longleftrightarrow> base_clauses qu r \<and> (case search_term qu of None \<Rightarrow> True | Some t \<Rightarrow> like_clause t r)"

definition row_frame :: "'n serde \<Rightarrow> ('n log_dto \<Rightarrow> utext) \<Rightarrow> log_row \<Rightarrow> utext" where
  "row_frame S dto_json r = entry_frame dto_json (from_entry S (decoded S r))"

abbreviation row_frames :: "utext list \<Rightarrow> utext list" where
  "row_frames fs \<equiv> filter (\<lambda>f. f \<noteq> keepalive_frame) fs"

lemma entry_not_keepalive [simp]:
  "entry_frame dto_json dto \<noteq> keepalive_frame" "keepalive_frame \<noteq> entry_frame dto_json dto"
  by (simp_all add: entry_frame_def keepalive_frame_def)

definition still_to_send ::
  "'n serde \<Rightarrow> ('n log_dto \<Rightarrow> utext) \<Rightarrow> log_query \<Rightarrow> log_row list \<Rightarrow> stream_loop \<Rightarrow> utext list" where
  "still_to_send S dto_json qu db st =
     sl_pending st @ map (row_frame S dto_json) (filter (\<lambda>r. sl_after st < lg_id r \<and> stream_match qu r) db)"

abbreviation no_fts :: "utext \<Rightarrow> (log_row \<Rightarrow> bool) option" where
  "no_fts \<equiv> \<lambda>_. None"

lemma stream_page_rows:
  "page_rows no_fts (qu\<lparr>lq_order := OldestFirst, lq_cursor := Some a, lq_limit := l\<rparr>) db =
     filter (\<lambda>r. a < lg_id r \<and> stream_match qu r) db"
proof -
  let ?qu = "qu\<lparr>lq_order := OldestFirst, lq_cursor := Some a, lq_limit := l\<rparr>"
  have "base_clauses ?qu r = base_clauses qu r" "search_term ?qu = search_term qu" "cursor_clause ?qu r \<longleftrightarrow> a < lg_id r" for r
    by (simp_all add: base_clauses_def search_term_def cursor_clause_def)
  then show ?thesis
    by (auto simp: page_rows_def Let_def stream_match_def split: option.splits intro!: filter_cong)
qed

lemma all_decode_append: "all_decode S (db @ ext) \<longleftrightarrow> all_decode S db \<and> all_decode S ext"
  by (auto simp: all_decode_def)

text \<open>A page takes the next rows in order, and what is left is what comes after its last row.\<close>

lemma page_then_rest:
  assumes inv: "log_inv (db @ ext)" and rows: "filter P db = page @ rest" and ne: "page \<noteq> []"
  shows "filter P (db @ ext) = page @ filter (\<lambda>r. lg_id (last page) < lg_id r \<and> P r) (db @ ext)"
proof -
  let ?all = "filter P (db @ ext)" and ?l = "lg_id (last page)"
  have all: "?all = page @ (rest @ filter P ext)" using rows by simp
  have sorted: "log_inv ?all" by (rule log_inv_filter[OF inv])
  have "\<forall>r \<in> set page. lg_id r \<le> ?l"
    using sorted ne unfolding all by (cases page rule: rev_cases) (auto simp: log_inv_def sorted_wrt_append less_imp_le)
  moreover have "\<forall>r \<in> set (rest @ filter P ext). ?l < lg_id r"
    using sorted ne unfolding all log_inv_def map_append sorted_wrt_append[of _ "map lg_id page"] by force
  moreover have "filter (\<lambda>r. ?l < lg_id r \<and> P r) (db @ ext) = filter (\<lambda>r. ?l < lg_id r) ?all"
    by (simp add: conj_commute)
  moreover have "filter (\<lambda>r. ?l < lg_id r) (page @ (rest @ filter P ext)) = rest @ filter P ext"
    if "\<forall>r \<in> set page. lg_id r \<le> ?l" "\<forall>r \<in> set (rest @ filter P ext). ?l < lg_id r"
  proof -
    have "filter (\<lambda>r. ?l < lg_id r) page = []" using that(1) by (simp add: filter_empty_conv not_less)
    moreover have "filter (\<lambda>r. ?l < lg_id r) (rest @ filter P ext) = rest @ filter P ext" using that(2) by (rule filter_True)
    ultimately show ?thesis by (simp only: filter_append[of _ page] append_Nil)
  qed
  ultimately show ?thesis unfolding all by simp
qed

lemma stream_query:
  assumes "all_decode S db"
  shows "query S no_fts (qu\<lparr>lq_order := OldestFirst, lq_cursor := Some a, lq_limit := Some STREAM_PAGE\<rparr>) db =
     Some (page_of S 200 (filter (\<lambda>r. a < lg_id r \<and> stream_match qu r) db))"
proof -
  let ?qu = "qu\<lparr>lq_order := OldestFirst, lq_cursor := Some a, lq_limit := Some STREAM_PAGE\<rparr>"
  have "nat (effective_limit ?qu) = 200" by (simp add: effective_limit_def STREAM_PAGE_def)
  then show ?thesis using query_page[OF assms, of no_fts ?qu] by (simp add: stream_page_rows in_order_def)
qed

lemma stream_next_sends:
  assumes "log_inv (db @ ext)" "all_decode S db"
    "stream_next S dto_json no_fts qu (Seen db) st = Some (f, st')" "f \<noteq> keepalive_frame"
  shows "still_to_send S dto_json qu (db @ ext) st = f # still_to_send S dto_json qu (db @ ext) st'"
proof (cases "sl_pending st")
  case (Cons g gs)
  then show ?thesis using assms(3) by (auto simp: stream_next_def still_to_send_def)
next
  case Nil
  let ?P = "\<lambda>r. sl_after st < lg_id r \<and> stream_match qu r"
  let ?rows = "filter ?P db" let ?page = "take 200 ?rows"
  have q: "query S no_fts (qu\<lparr>lq_order := OldestFirst, lq_cursor := Some (sl_after st), lq_limit := Some STREAM_PAGE\<rparr>) db =
      Some (page_of S 200 ?rows)" by (rule stream_query[OF assms(2)])
  have frames: "map (\<lambda>e. entry_frame dto_json (from_entry S e)) (map (decoded S) ?page) = map (row_frame S dto_json) ?page"
    by (simp add: row_frame_def)
  have ne: "?page \<noteq> []"
  proof
    assume "?page = []"
    then have "stream_next S dto_json no_fts qu (Seen db) st = Some (keepalive_frame, st)"
      using Nil by (simp add: stream_next_def q page_of_def)
    then show False using assms(3,4) by simp
  qed
  then obtain r rs where page: "?page = r # rs" by (cases ?page) auto
  have last: "en_id (last (map (decoded S) ?page)) = lg_id (last ?page)"
  proof -
    have "last ?page \<in> set db" using last_in_set[OF ne] by (auto dest: in_set_takeD)
    then show ?thesis using assms(2) unfolding last_map[OF ne] by (intro decoded_id) (simp add: all_decode_def)
  qed
  have st': "f = row_frame S dto_json r" "st' = st\<lparr>sl_after := lg_id (last ?page), sl_pending := map (row_frame S dto_json) rs\<rparr>"
  proof -
    have "stream_next S dto_json no_fts qu (Seen db) st = (case map (row_frame S dto_json) ?page of
        [] \<Rightarrow> Some (keepalive_frame, st)
      | f # fs \<Rightarrow> Some (f, st\<lparr>sl_after := lg_id (last ?page), sl_pending := fs\<rparr>))"
      unfolding stream_next_def Let_def Nil stream_poll.case list.case q option.case page_of_def prod.case frames last ..
    then show "f = row_frame S dto_json r" "st' = st\<lparr>sl_after := lg_id (last ?page), sl_pending := map (row_frame S dto_json) rs\<rparr>"
      using assms(3) unfolding page list.map list.case by simp_all
  qed
  have "filter ?P (db @ ext) = ?page @ filter (\<lambda>r. lg_id (last ?page) < lg_id r \<and> ?P r) (db @ ext)"
    using append_take_drop_id[of 200 ?rows] by (intro page_then_rest[OF assms(1) _ ne, of _ "drop 200 ?rows"]) simp
  moreover have "sl_after st < lg_id (last ?page)" using last_in_set[OF ne] by (auto dest: in_set_takeD)
  then have "filter (\<lambda>r. lg_id (last ?page) < lg_id r \<and> ?P r) (db @ ext) =
      filter (\<lambda>r. lg_id (last ?page) < lg_id r \<and> stream_match qu r) (db @ ext)" by (intro filter_cong refl) auto
  ultimately show ?thesis unfolding still_to_send_def Nil st' page by simp
qed

lemma stream_next_idle:
  assumes "all_decode S db" "stream_next S dto_json no_fts qu (Seen db) st = Some (keepalive_frame, st')"
    "keepalive_frame \<notin> set (sl_pending st)"
  shows "st' = st \<and> still_to_send S dto_json qu db st = []"
proof (cases "sl_pending st")
  case (Cons g gs)
  then show ?thesis using assms(2,3) by (auto simp: stream_next_def)
next
  case Nil
  let ?rows = "filter (\<lambda>r. sl_after st < lg_id r \<and> stream_match qu r) db"
  have q: "query S no_fts (qu\<lparr>lq_order := OldestFirst, lq_cursor := Some (sl_after st), lq_limit := Some STREAM_PAGE\<rparr>) db =
      Some (page_of S 200 ?rows)" by (rule stream_query[OF assms(1)])
  show ?thesis
  proof (cases "?rows")
    case Nil': Nil
    then show ?thesis using assms(2) Nil by (simp add: stream_next_def q page_of_def still_to_send_def)
  next
    case (Cons r rs)
    then obtain f fs where "map (\<lambda>e. entry_frame dto_json (from_entry S e)) (map (decoded S) (take 200 ?rows)) = f # fs"
        "f = entry_frame dto_json (from_entry S (decoded S r))"
      by (cases "take 200 ?rows") simp_all
    then show ?thesis using assms(2) Nil entry_not_keepalive by (simp add: stream_next_def q page_of_def)
  qed
qed

lemma stream_next_kept:
  assumes "all_decode S db" "stream_next S dto_json no_fts qu p st = Some (f, st')" "keepalive_frame \<notin> set (sl_pending st)"
    "p = Seen db \<or> p = PollFailed"
  shows "keepalive_frame \<notin> set (sl_pending st')"
proof (cases "sl_pending st")
  case (Cons g gs)
  then show ?thesis using assms(2,3) by (auto simp: stream_next_def)
next
  case Nil
  show ?thesis
  proof (cases "p = PollFailed")
    case True
    then show ?thesis using assms(2) Nil by (simp add: stream_next_def)
  next
    case False
    then have p: "p = Seen db" using assms(4) by simp
    show ?thesis
      using assms(2) Nil entry_not_keepalive unfolding p
      by (auto simp: stream_next_def stream_query[OF assms(1)] page_of_def Let_def map_eq_Cons_conv
          simp del: map_map split: list.splits)
  qed
qed

text \<open>The live stream neither skips nor repeats: while rows are only added, the rows it has sent,
  the rows it holds and the matching rows behind its anchor are together exactly the matching
  rows above the id it started from, each once and in the order of their ids, whatever looks
  at the store fail in between.\<close>

theorem stream_sends_each_row_once:
  assumes "log_inv db" "all_decode S db" "\<forall>p \<in> set polls. p = PollFailed \<or> (\<exists>seen rest. p = Seen seen \<and> db = seen @ rest)"
    "stream_frames S dto_json no_fts qu polls \<lparr>sl_after = a, sl_pending = []\<rparr> = (frames, st)"
  shows "row_frames frames @ sl_pending st @
       map (row_frame S dto_json) (filter (\<lambda>r. sl_after st < lg_id r \<and> stream_match qu r) db) =
     map (row_frame S dto_json) (filter (\<lambda>r. a < lg_id r \<and> stream_match qu r) db)"
proof -
  have "keepalive_frame \<notin> set (sl_pending st0) \<Longrightarrow>
      row_frames (fst (stream_frames S dto_json no_fts qu polls st0)) @
        still_to_send S dto_json qu db (snd (stream_frames S dto_json no_fts qu polls st0)) = still_to_send S dto_json qu db st0" for st0
    using assms(3)
  proof (induction polls arbitrary: st0)
    case (Cons p ps)
    show ?case
    proof (cases "stream_next S dto_json no_fts qu p st0")
      case (Some fs)
      obtain f st1 where n: "stream_next S dto_json no_fts qu p st0 = Some (f, st1)" using Some by (cases fs) simp
      obtain seen rest where p: "p = PollFailed \<or> p = Seen seen" "db = seen @ rest"
        using Cons.prems(2) by fastforce
      have dec: "all_decode S seen" using assms(2) p(2) by (simp add: all_decode_append)
      have kept: "keepalive_frame \<notin> set (sl_pending st1)"
        using stream_next_kept[OF dec n Cons.prems(1)] p(1) by blast
      have IH: "row_frames (fst (stream_frames S dto_json no_fts qu ps st1)) @
          still_to_send S dto_json qu db (snd (stream_frames S dto_json no_fts qu ps st1)) = still_to_send S dto_json qu db st1"
        using Cons.IH[OF kept] Cons.prems(2) by simp
      have step: "(if f = keepalive_frame then [] else [f]) @ still_to_send S dto_json qu db st1 = still_to_send S dto_json qu db st0"
      proof (cases "sl_pending st0")
        case (Cons g gs)
        then show ?thesis using n \<open>keepalive_frame \<notin> set (sl_pending st0)\<close> by (auto simp: stream_next_def still_to_send_def)
      next
        case Nil
        show ?thesis
        proof (cases "p = PollFailed")
          case True
          then show ?thesis using n Nil by (auto simp: stream_next_def)
        next
          case False
          then have p': "stream_next S dto_json no_fts qu (Seen seen) st0 = Some (f, st1)" using n p(1) by simp
          show ?thesis
          proof (cases "f = keepalive_frame")
            case True
            then show ?thesis using stream_next_idle[OF dec p'[unfolded True] Cons.prems(1)] by simp
          next
            case False
            then show ?thesis using stream_next_sends[OF assms(1)[unfolded p(2)] dec p'] by (simp add: p(2))
          qed
        qed
      qed
      show ?thesis using IH step by (cases "f = keepalive_frame") (simp_all add: n)
    qed simp
  qed simp
  from this[of "\<lparr>sl_after = a, sl_pending = []\<rparr>"] show ?thesis
    unfolding assms(4) by (simp add: still_to_send_def)
qed

lemma stream_next_total: "\<exists>f st'. stream_next S dto_json fts qu (Seen db) st = Some (f, st')"
  by (auto simp: stream_next_def Let_def split: list.splits option.splits)

text \<open>The live stream catches up: as many looks at an unchanged store as it has matching rows above
  the anchor are enough for every one of them to have been sent, in the order of their ids.\<close>

theorem stream_catches_up:
  assumes "log_inv db" "all_decode S db"
    "length (filter (\<lambda>r. a < lg_id r \<and> stream_match qu r) db) \<le> n"
  shows "row_frames (fst (stream_frames S dto_json no_fts qu (replicate n (Seen db)) \<lparr>sl_after = a, sl_pending = []\<rparr>)) =
    map (row_frame S dto_json) (filter (\<lambda>r. a < lg_id r \<and> stream_match qu r) db)"
proof -
  have "keepalive_frame \<notin> set (sl_pending st) \<Longrightarrow>
      row_frames (fst (stream_frames S dto_json no_fts qu (replicate n (Seen db)) st)) = take n (still_to_send S dto_json qu db st)" for st n
  proof (induction n arbitrary: st)
    case (Suc n)
    obtain f st1 where n: "stream_next S dto_json no_fts qu (Seen db) st = Some (f, st1)"
      using stream_next_total by blast
    have kept: "keepalive_frame \<notin> set (sl_pending st1)"
      using stream_next_kept[OF assms(2) n Suc.prems] by simp
    show ?case
    proof (cases "f = keepalive_frame")
      case True
      then show ?thesis using stream_next_idle[OF assms(2) n[unfolded True] Suc.prems] Suc.IH[OF kept] by (simp add: n)
    next
      case False
      then have "still_to_send S dto_json qu db st = f # still_to_send S dto_json qu db st1"
        using stream_next_sends[of db "[]" S dto_json qu st f st1] assms(1,2) n by simp
      then show ?thesis using Suc.IH[OF kept] False by (simp add: n)
    qed
  qed simp
  from this[of "\<lparr>sl_after = a, sl_pending = []\<rparr>" n] show ?thesis
    using assms(3) by (simp add: still_to_send_def)
qed

section \<open>Deleting everything\<close>

lemma query_no_rows:
  assumes "\<forall>r \<in> set db. \<not> cursor_clause qu r"
  shows "query S fts qu db = Some ([], None)"
proof -
  have "filter (\<lambda>r. base_clauses qu r \<and> cursor_clause qu r \<and> P r) db = []" for P
    using assms by (auto simp: filter_empty_conv)
  then have "run_query S qu P db = Some ([], None)" for P
    by (simp add: run_query_def Let_def split: query_order.splits)
  then show ?thesis by (auto simp: query_def split: option.splits bind_splits)
qed

text \<open>Deleting all rows lets the ids start over: after it, the next rows get ids from one, and a
  stream that has already sent more rows than that sends none of them.\<close>

theorem delete_all_restarts_ids:
  assumes "int (length es) \<le> a"
  shows "fst (insert_batch S False es (snd (delete_all db))) = Some (map (\<lambda>i. int i + 1) [0..<length es]) \<and>
    stream_next S dto_json fts qu (Seen (snd (insert_batch S False es (snd (delete_all db)))))
      \<lparr>sl_after = a, sl_pending = []\<rparr> = Some (keepalive_frame, \<lparr>sl_after = a, sl_pending = []\<rparr>)"
proof
  have first: "next_id [] = 1" by (simp add: next_id_def last_id_def)
  show "fst (insert_batch S False es (snd (delete_all db))) = Some (map (\<lambda>i. int i + 1) [0..<length es])"
    by (simp add: insert_batch_def delete_all_empty insert_each_ids first add.commute)
  let ?db = "snd (insert_batch S False es (snd (delete_all db)))"
  let ?qu = "qu\<lparr>lq_order := OldestFirst, lq_cursor := Some a, lq_limit := Some STREAM_PAGE\<rparr>"
  have "\<forall>r \<in> set ?db. lg_id r \<le> int (length es)"
    by (auto simp: insert_batch_def delete_all_empty insert_each_rows first row_of_def in_set_enumerate_eq)
  then have "\<forall>r \<in> set ?db. \<not> cursor_clause ?qu r" using assms by (fastforce simp: cursor_clause_def)
  from query_no_rows[OF this, of S fts] show "stream_next S dto_json fts qu (Seen ?db) \<lparr>sl_after = a, sl_pending = []\<rparr> =
      Some (keepalive_frame, \<lparr>sl_after = a, sl_pending = []\<rparr>)"
    by (simp add: stream_next_def)
qed

section \<open>Frames\<close>

lemma split_once_newline: "newline \<notin> set a \<Longrightarrow> split_once [newline] (a @ newline # b) = Some (a, b)"
  by (induction a) auto

lemma trim_start_str_once:
  "p \<noteq> [] \<Longrightarrow> strip_prefix p s = None \<Longrightarrow> trim_start_str p (p @ s) = s"
  by (subst trim_start_str.simps, simp) (subst trim_start_str.simps, simp)

text \<open>What the client's event source hands on is the document itself: from the frame of a row,
  whose text is one line that begins and ends with a brace, the event gets the name and exactly
  that text, without the prefix and the blank line of the frame.\<close>

theorem frame_payload_exact:
  assumes "newline \<notin> set (dto_json dto)" "dto_json dto = lit ''{'' @ rest" "last (dto_json dto) = 125"
  shows "sse_event_parts (entry_frame dto_json dto) = (lit ''entry'', dto_json dto)"
proof -
  let ?d = "dto_json dto"
  have split: "split_once [newline] (entry_frame dto_json dto) = Some (lit ''event: entry'', lit ''data: '' @ ?d @ [newline, newline])"
    unfolding entry_frame_def using split_once_newline[of "lit ''event: entry''" "lit ''data: '' @ ?d @ [newline, newline]"]
    by simp
  have name: "strip_prefix (lit ''event: '') (lit ''event: entry'') = Some (lit ''entry'')" by simp
  have "strip_prefix (lit ''data: '') (?d @ [newline, newline]) = None" unfolding assms(2) by simp
  then have start: "trim_start_str (lit ''data: '') (lit ''data: '' @ ?d @ [newline, newline]) = ?d @ [newline, newline]"
    by (intro trim_start_str_once) simp_all
  have ne: "?d \<noteq> []" using assms(2) by simp
  then have "last ?d \<noteq> newline" using assms(3) by simp
  then have "trim_end_matches (\<lambda>c. c = newline) (?d @ [newline, newline]) = ?d"
    using trim_end_matches_last[of ?d "\<lambda>c. c = newline"] by (simp add: trim_end_matches_def)
  moreover have "trim_end_u ?d = ?d"
    unfolding trim_end_u_def using assms(3) by (intro trim_end_matches_last) (simp add: white_space_def)
  ultimately show ?thesis by (simp only: sse_event_parts_def split option.case prod.case Let_def name start)
qed

section \<open>The theorems at work\<close>

definition demo_log_serde :: "nat serde" where
  "demo_log_serde = \<lparr>sj_from_str = (\<lambda>t. if t = lit ''{}'' then Some (JObj fmempty) else None),
     sj_from_slice = (\<lambda>_. None), sj_to_string = (\<lambda>_. lit ''{}''), sj_to_vec = (\<lambda>_. []), sj_as_i64 = (\<lambda>_. None),
     sj_from_i64 = unat\<rparr>"

lemma demo_rows_decode: "all_decode demo_log_serde demo_rows"
  by (simp add: all_decode_def demo_rows_def decode_row_def demo_log_serde_def level_from_u8_def source_parse_u_def
      trim_u_def trim_end_u_def trim_end_matches_def white_space_def Let_def)

lemma count_rows_le: "count_rows fts qu db \<le> length db"
  by (simp add: count_rows_def Let_def le_trans[OF length_filter_le] split: option.splits)

theorem export_complete_witness:
  "\<exists>body. handle_log_export demo_log_serde no_fts (Some (\<lambda>_. demo_rows)) [] = Some (Inr body) \<and>
     csv_records body = map lit [''id'', ''ts'', ''level'', ''source'', ''message''] #
       map (\<lambda>r. csv_fields demo_log_serde (decoded demo_log_serde r))
         (rev (page_rows no_fts (window_query (None, None, None) None None) demo_rows))"
proof -
  have q: "bind_r (export_from_request []) export_validated = Inr (window_query (None, None, None) None None)"
    by (simp add: export_from_request_def opt_i64_def first_of_def sources_of_def export_validated_def validate_common_def)
  have n: "count_rows no_fts (window_query (None, None, None) None None) demo_rows \<le> EXPORT_CAP_ROWS"
    using le_trans[OF count_rows_le[of no_fts "window_query (None, None, None) None None" demo_rows], of EXPORT_CAP_ROWS]
    by (simp add: demo_rows_def EXPORT_CAP_ROWS_def)
  show ?thesis
    using export_complete[of "[]" "window_query (None, None, None) None None" no_fts "\<lambda>_. demo_rows" demo_log_serde]
      q n demo_rows_inv(1) demo_rows_decode by simp
qed

definition demo_stream :: "utext list \<times> stream_loop" where
  "demo_stream = stream_frames demo_log_serde (\<lambda>_. lit ''{}'') no_fts (window_query (None, None, None) None None)
     [Seen (take 1 demo_rows), PollFailed, Seen demo_rows] \<lparr>sl_after = 0, sl_pending = []\<rparr>"

theorem stream_sends_each_row_once_witness:
  "row_frames (fst demo_stream) @ sl_pending (snd demo_stream) @ map (row_frame demo_log_serde (\<lambda>_. lit ''{}''))
       (filter (\<lambda>r. sl_after (snd demo_stream) < lg_id r \<and>
          stream_match (window_query (None, None, None) None None) r) demo_rows) =
     map (row_frame demo_log_serde (\<lambda>_. lit ''{}''))
       (filter (\<lambda>r. 0 < lg_id r \<and> stream_match (window_query (None, None, None) None None) r) demo_rows)"
proof (rule stream_sends_each_row_once[OF demo_rows_inv(1) demo_rows_decode])
  have "\<exists>rest. demo_rows = take 1 demo_rows @ rest" by (metis append_take_drop_id)
  then show "\<forall>p \<in> set [Seen (take 1 demo_rows), PollFailed, Seen demo_rows].
      p = PollFailed \<or> (\<exists>seen rest. p = Seen seen \<and> demo_rows = seen @ rest)" by auto
  show "stream_frames demo_log_serde (\<lambda>_. lit ''{}'') no_fts (window_query (None, None, None) None None)
      [Seen (take 1 demo_rows), PollFailed, Seen demo_rows] \<lparr>sl_after = 0, sl_pending = []\<rparr> =
      (fst demo_stream, snd demo_stream)" by (simp add: demo_stream_def)
qed

theorem stream_catches_up_witness:
  "row_frames (fst (stream_frames demo_log_serde (\<lambda>_. lit ''{}'') no_fts (window_query (None, None, None) None None)
      (replicate 2 (Seen demo_rows)) \<lparr>sl_after = 0, sl_pending = []\<rparr>)) =
    map (row_frame demo_log_serde (\<lambda>_. lit ''{}''))
      (filter (\<lambda>r. 0 < lg_id r \<and> stream_match (window_query (None, None, None) None None) r) demo_rows)"
  by (rule stream_catches_up[OF demo_rows_inv(1) demo_rows_decode])
    (simp add: demo_rows_def le_trans[OF length_filter_le])

theorem delete_all_restarts_ids_witness:
  "stream_next demo_log_serde (\<lambda>_. lit ''{}'') no_fts (window_query (None, None, None) None None)
     (Seen (snd (insert_batch demo_log_serde False
        [\<lparr>ev_ts = 30, ev_level = LogstoreLevel 2, ev_source = lit ''proxy'', ev_msg = JObj fmempty\<rparr>] (snd (delete_all demo_rows)))))
     \<lparr>sl_after = 2, sl_pending = []\<rparr> = Some (keepalive_frame, \<lparr>sl_after = 2, sl_pending = []\<rparr>)"
  by (rule delete_all_restarts_ids[THEN conjunct2]) simp

theorem frame_payload_exact_witness:
  "sse_event_parts (entry_frame (\<lambda>_. lit ''{}'') (from_tail_line [] 0 0 [] :: nat log_dto)) = (lit ''entry'', lit ''{}'')"
  by (rule frame_payload_exact[where rest = "lit ''}''"]) simp_all

end
