(* ===== verification/LogWriter.thy ===== *)
theory LogWriter
  imports LogDb
begin

text \<open>
  The writer of the log store (\<^verbatim>\<open>tama-core/src/logstore/writer.rs\<close>) and the sending side in
  front of it (\<^verbatim>\<open>logstore/layer.rs\<close>): a bounded channel that drops the newest record when it is
  full, batches, the retry of a failed batch with a ring for what arrives meanwhile, drop
  markers, pruning and the shutdown. One turn is one pass of the writer's loop. What a turn
  finds outside is its input: the times it reads, which inserts fail, whether the stop signal
  is there. Waiting changes nothing, so a turn that waits is the turn that runs when the wait
  is over. \<open>wr_accepted\<close>, \<open>wr_written\<close> and \<open>wr_lossy\<close> are history: what the channel took, what
  inserts added, and whether the ring or its drain threw records away.
\<close>

section \<open>State\<close>

record log_store_status =
  ls_degraded :: bool
  ls_degraded_since :: "int option"
  ls_channel_len :: nat
  ls_ring_len :: nat
  ls_dropped_count :: nat
  ls_retries_seen :: nat
  ls_last_prune_deleted :: "nat option"

definition status_ok :: log_store_status where
  "status_ok = \<lparr>ls_degraded = False, ls_degraded_since = None, ls_channel_len = 0, ls_ring_len = 0,
     ls_dropped_count = 0, ls_retries_seen = 0, ls_last_prune_deleted = None\<rparr>"

record writer_config =
  wc_batch_max_rows :: nat
  wc_byte_guard :: nat
  wc_ring_max_entries :: nat
  wc_ring_max_bytes :: nat
  wc_retry_interval :: int
  wc_drop_marker_window :: int
  wc_retention :: "prune_bounds option"
  wc_prune_interval :: int

definition writer_config_default :: writer_config where
  "writer_config_default = \<lparr>wc_batch_max_rows = 200, wc_byte_guard = 256 * 1024, wc_ring_max_entries = 1024,
     wc_ring_max_bytes = 4 * 1024 * 1024, wc_retry_interval = 1000, wc_drop_marker_window = 5000,
     wc_retention = None, wc_prune_interval = 3600 * 1000\<rparr>"

record 'n writer =
  wr_status :: log_store_status
  wr_published :: log_store_status
  wr_pending :: "'n log_event list"
  wr_degraded :: bool
  wr_ring :: "'n log_event list"
  wr_retry_at :: "int option"
  wr_drop_since :: "(int \<times> int) option"
  wr_last_prune :: "int option"
  wr_last_sent :: "int option"
  wr_starter :: "'n log_event option"
  wr_queue :: "'n log_event list"
  wr_closed :: bool
  wr_dropped :: nat
  wr_db :: "log_row list"
  wr_accepted :: "'n log_event list"
  wr_written :: "'n log_event list"
  wr_lossy :: bool

definition writer_start :: "log_row list \<Rightarrow> 'n writer" where
  "writer_start db = \<lparr>wr_status = status_ok, wr_published = status_ok, wr_pending = [], wr_degraded = False,
     wr_ring = [], wr_retry_at = None, wr_drop_since = None, wr_last_prune = None, wr_last_sent = None,
     wr_starter = None, wr_queue = [], wr_closed = False, wr_dropped = 0, wr_db = db, wr_accepted = [],
     wr_written = [], wr_lossy = False\<rparr>"

text \<open>The input of a turn; \<open>tn_arrivals\<close> are records the channel took while a batch was collected.\<close>

record 'n turn =
  tn_now :: int
  tn_wall :: int
  tn_cancelled :: bool
  tn_slept :: bool
  tn_fault :: "nat \<Rightarrow> bool"
  tn_late :: "nat \<Rightarrow> bool"
  tn_arrivals :: "'n log_event list"
  tn_end :: int

section \<open>The sending side\<close>

text \<open>
  A value as tracing hands it over: the text of its Debug form, a string, bytes, the text of an
  error, a number that JSON has, the Debug text of one that it has not, or a boolean.
\<close>

datatype 'n field_value =
    FDebug utext
  | FStr utext
  | FBytes bytes
  | FError utext
  | FNum 'n
  | FNonFinite utext
  | FBool bool

type_synonym 'n visitor = "utext \<times> (utext, 'n json) fmap"

definition visitor_new :: "'n visitor" where
  "visitor_new = ([], fmempty)"

definition record_debug :: "'n serde \<Rightarrow> utext \<Rightarrow> utext \<Rightarrow> 'n visitor \<Rightarrow> 'n visitor" where
  "record_debug S name shown v =
     (if name = lit ''message'' then (fst v @ shown, snd v)
      else (fst v, fmupd name (case sj_from_str S shown of Some j \<Rightarrow> j | None \<Rightarrow> JStr shown) (snd v)))"

definition record_text :: "utext \<Rightarrow> utext \<Rightarrow> 'n visitor \<Rightarrow> 'n visitor" where
  "record_text name s v =
     (if name = lit ''message'' then (s, snd v) else (fst v, fmupd name (JStr s) (snd v)))"

fun record_value :: "'n serde \<Rightarrow> utext \<Rightarrow> 'n field_value \<Rightarrow> 'n visitor \<Rightarrow> 'n visitor" where
  "record_value S name (FDebug shown) v = record_debug S name shown v"
| "record_value S name (FStr s) v = record_text name s v"
| "record_value S name (FBytes b) v = record_text name (from_utf8_lossy b) v"
| "record_value S name (FError s) v = record_text name s v"
| "record_value S name (FNum n) v = (fst v, fmupd name (JNum n) (snd v))"
| "record_value S name (FNonFinite shown) v = (fst v, fmupd name (JStr shown) (snd v))"
| "record_value S name (FBool b) v = (fst v, fmupd name (JBool b) (snd v))"

definition on_event ::
  "'n serde \<Rightarrow> int \<Rightarrow> logstore_level \<Rightarrow> utext \<Rightarrow> utext \<Rightarrow> (utext \<times> 'n field_value) list \<Rightarrow> 'n log_event" where
  "on_event S ts level source target fs =
     (let v = foldl (\<lambda>v (name, x). record_value S name x v) visitor_new fs
      in \<lparr>ev_ts = ts, ev_level = level, ev_source = source,
          ev_msg = JObj (jput ''target'' (JStr target) (jput ''message'' (JStr (fst v)) (snd v)))\<rparr>)"

definition layer_send :: "nat \<Rightarrow> 'n log_event \<Rightarrow> 'n writer \<Rightarrow> 'n writer" where
  "layer_send capacity r st =
     (if length (wr_queue st) < capacity
      then st\<lparr>wr_queue := wr_queue st @ [r], wr_accepted := wr_accepted st @ [r]\<rparr>
      else st\<lparr>wr_dropped := wr_dropped st + 1\<rparr>)"

definition close_channel :: "'n writer \<Rightarrow> 'n writer" where
  "close_channel st = st\<lparr>wr_closed := True\<rparr>"

section \<open>Inserts and the ring\<close>

definition insert_batch_blocked :: "'n serde \<Rightarrow> bool \<Rightarrow> 'n log_event list \<Rightarrow> 'n writer \<Rightarrow> bool \<times> 'n writer" where
  "insert_batch_blocked S fault batch st =
     (if batch = [] then (True, st)
      else case insert_batch S fault batch (wr_db st) of
          (None, db) \<Rightarrow> (False, st\<lparr>wr_db := db\<rparr>)
        | (Some ids, db) \<Rightarrow> (True, st\<lparr>wr_db := db, wr_written := wr_written st @ batch\<rparr>))"

definition est :: "'n serde \<Rightarrow> 'n log_event \<Rightarrow> nat" where
  "est S r = length (utf8_encode (sj_to_string S (ev_msg r))) + length (utf8_encode (ev_source r))"

definition estimated_bytes :: "'n serde \<Rightarrow> 'n log_event list \<Rightarrow> nat" where
  "estimated_bytes S ring = sum_list (map (est S) ring)"

definition admitted :: "'n log_event \<Rightarrow> bool" where
  "admitted r \<longleftrightarrow> level_as_u8 (ev_level r) \<ge> 3 \<or> jget (ev_msg r) ''dropped'' = Some (JBool True)"

definition wring_fits :: "'n serde \<Rightarrow> nat \<Rightarrow> nat \<Rightarrow> 'n log_event list \<Rightarrow> bool" where
  "wring_fits S max_entries max_bytes ring \<longleftrightarrow>
     \<not> (length ring > max_entries \<or> estimated_bytes S ring > max_bytes)"

definition admit_to_ring ::
  "'n serde \<Rightarrow> 'n log_event \<Rightarrow> nat \<Rightarrow> nat \<Rightarrow> 'n log_event list \<Rightarrow> 'n log_event list" where
  "admit_to_ring S r max_entries max_bytes ring =
     (if \<not> admitted r then ring else evict (wring_fits S max_entries max_bytes) (ring @ [r]))"

definition ring_arrival :: "'n serde \<Rightarrow> writer_config \<Rightarrow> 'n log_event \<Rightarrow> 'n writer \<Rightarrow> 'n writer" where
  "ring_arrival S cfg r st =
     (let ring = admit_to_ring S r (wc_ring_max_entries cfg) (wc_ring_max_bytes cfg) (wr_ring st)
      in st\<lparr>wr_ring := ring,
            wr_lossy := (wr_lossy st \<or> (admitted r \<and> length ring \<noteq> length (wr_ring st) + 1))\<rparr>)"

definition MARKER_SOURCE :: utext where
  "MARKER_SOURCE = lit ''log-store''"

text \<open>The text of a time is chrono's.\<close>

definition drop_marker_record :: "'n serde \<Rightarrow> (int \<Rightarrow> utext) \<Rightarrow> nat \<Rightarrow> int \<Rightarrow> int \<Rightarrow> 'n log_event" where
  "drop_marker_record S rfc3339 count since wall =
     \<lparr>ev_ts = wall, ev_level = LogstoreLevel 3, ev_source = MARKER_SOURCE,
      ev_msg = JObj (jput ''message'' (JStr (lit ''log store: dropped '' @ lit (show_nat count) @ lit '' events since '' @ rfc3339 since))
        (jput ''dropped_since_ts'' (JStr (rfc3339 since))
        (jput ''dropped_count'' (JNum (sj_from_i64 S (of_nat count)))
        (jput ''dropped'' (JBool True) fmempty))))\<rparr>"

section \<open>The broadcast of the status\<close>

definition publish_status :: "int \<Rightarrow> nat \<Rightarrow> 'n writer \<Rightarrow> 'n writer" where
  "publish_status now dropped st =
     (let s = (wr_status st)\<lparr>ls_channel_len := length (wr_queue st), ls_ring_len := length (wr_ring st),
               ls_dropped_count := dropped\<rparr>
      in st\<lparr>wr_status := s, wr_published := s, wr_last_sent := Some now\<rparr>)"

definition heartbeat :: "bool \<Rightarrow> int \<Rightarrow> 'n writer \<Rightarrow> 'n writer" where
  "heartbeat was_degraded now st =
     (let event = (ls_degraded (wr_status st) \<noteq> was_degraded \<or> wr_dropped st \<noteq> ls_dropped_count (wr_status st));
          cadence = (case wr_last_sent st of None \<Rightarrow> True | Some t \<Rightarrow> now - t \<ge> 1000)
      in if event \<or> cadence then publish_status now (wr_dropped st) st else st)"

definition degrade :: "writer_config \<Rightarrow> int \<Rightarrow> int \<Rightarrow> 'n log_event list \<Rightarrow> 'n writer \<Rightarrow> 'n writer" where
  "degrade cfg now wall batch st =
     st\<lparr>wr_degraded := True,
        wr_status := (wr_status st)\<lparr>ls_degraded := True, ls_degraded_since := Some wall\<rparr>,
        wr_pending := batch, wr_retry_at := Some (now + wc_retry_interval cfg)\<rparr>"

section \<open>Shutdown\<close>

text \<open>
  The drain of the channel ends when every sender is gone. When one is left, the time limit
  ends it instead, and what the drain had taken goes with it.
\<close>

definition finish_shutdown :: "'n serde \<Rightarrow> 'n turn \<Rightarrow> 'n log_event list \<Rightarrow> 'n writer \<Rightarrow> 'n writer" where
  "finish_shutdown S t pending st =
     (let remaining = (if wr_closed st then wr_queue st else []);
          st1 = st\<lparr>wr_queue := []\<rparr>;
          st2 = snd (insert_batch_blocked S (tn_fault t 0) pending st1);
          st3 = snd (insert_batch_blocked S (tn_fault t 1) remaining st2)
      in st3\<lparr>wr_status := (wr_status st3)\<lparr>ls_channel_len := 0, ls_ring_len := 0\<rparr>\<rparr>)"

section \<open>The degraded mode\<close>

text \<open>
  The drain of the ring after a recovery; the \<open>i\<close>th chunk may be the last in time. With a batch
  size of zero only the time limit ends it, and the ring is thrown away.
\<close>

function drain_ring :: "'n serde \<Rightarrow> writer_config \<Rightarrow> 'n turn \<Rightarrow> nat \<Rightarrow> 'n writer \<Rightarrow> 'n writer" where
  "drain_ring S cfg t i st =
     (if wr_ring st = [] then st
      else if wc_batch_max_rows cfg = 0 then st\<lparr>wr_ring := [], wr_lossy := True\<rparr>
      else (let n = min (wc_batch_max_rows cfg) (length (wr_ring st));
                chunk = take n (wr_ring st);
                r = insert_batch_blocked S (tn_fault t (Suc i)) chunk (st\<lparr>wr_ring := drop n (wr_ring st)\<rparr>)
            in if \<not> fst r then (snd r)\<lparr>wr_degraded := True, wr_pending := chunk\<rparr>
               else if tn_late t i
                 then (snd r)\<lparr>wr_ring := [], wr_lossy := (wr_lossy (snd r) \<or> wr_ring (snd r) \<noteq> [])\<rparr>
               else drain_ring S cfg t (Suc i) (snd r)))"
  by pat_completeness auto
termination
  by (relation "measure (\<lambda>(S, cfg, t, i, st). length (wr_ring st))")
    (auto simp: insert_batch_blocked_def insert_batch_def split: if_splits)

declare drain_ring.simps [simp del]

definition retry :: "'n serde \<Rightarrow> writer_config \<Rightarrow> 'n turn \<Rightarrow> 'n writer \<Rightarrow> 'n writer" where
  "retry S cfg t st =
     (let r = insert_batch_blocked S (tn_fault t 0) (wr_pending st) st;
          seen = (\<lambda>s. s\<lparr>wr_status := (wr_status s)\<lparr>ls_retries_seen := ls_retries_seen (wr_status s) + 1\<rparr>\<rparr>);
          st1 = (if \<not> fst r then seen (snd r)
                 else drain_ring S cfg t 0 ((seen (snd r))\<lparr>wr_pending := [], wr_degraded := False\<rparr>));
          st2 = st1\<lparr>wr_retry_at := (if wr_degraded st1 then Some (tn_end t + wc_retry_interval cfg) else None)\<rparr>
      in if wr_degraded st2 then st2
         else st2\<lparr>wr_status := (wr_status st2)\<lparr>ls_degraded := False, ls_degraded_since := None\<rparr>\<rparr>)"

text \<open>A turn ends with the writer running on (Inr) or stopped (Inl).\<close>

definition degraded_turn :: "'n serde \<Rightarrow> writer_config \<Rightarrow> 'n turn \<Rightarrow> 'n writer \<Rightarrow> 'n writer + 'n writer" where
  "degraded_turn S cfg t st =
     (case wr_starter st of
        Some r \<Rightarrow> (let st1 = ring_arrival S cfg r (st\<lparr>wr_starter := None\<rparr>) in Inr (publish_status (tn_end t) (wr_dropped st1) st1))
      | None \<Rightarrow>
          if (case wr_retry_at st of None \<Rightarrow> True | Some at \<Rightarrow> tn_now t \<ge> at)
          then (let st1 = retry S cfg t st in Inr (publish_status (tn_end t) (wr_dropped st1) st1))
          else if tn_cancelled t then Inl (finish_shutdown S t (wr_pending st) st)
          else if tn_slept t then Inr (publish_status (tn_end t) (wr_dropped st) st)
          else case wr_queue st of
              r # rest \<Rightarrow> (let st1 = ring_arrival S cfg r (st\<lparr>wr_queue := rest\<rparr>) in Inr (publish_status (tn_end t) (wr_dropped st1) st1))
            | [] \<Rightarrow>
                if wr_closed st then Inl (finish_shutdown S t (wr_pending st) st)
                else Inr (publish_status (tn_end t) (wr_dropped st) st))"

section \<open>The normal mode\<close>

text \<open>The batch, the record that did not fit in it, and what stays in the channel.\<close>

fun collect ::
  "'n serde \<Rightarrow> writer_config \<Rightarrow> nat \<Rightarrow> 'n log_event list \<Rightarrow> 'n log_event list
     \<Rightarrow> 'n log_event list \<times> 'n log_event option \<times> 'n log_event list" where
  "collect S cfg bytes batch [] = (batch, None, [])"
| "collect S cfg bytes batch (r # rs) =
     (if bytes + est S r > wc_byte_guard cfg then (batch, Some r, rs)
      else if length (batch @ [r]) \<ge> wc_batch_max_rows cfg then (batch @ [r], None, rs)
      else collect S cfg (bytes + est S r) (batch @ [r]) rs)"

definition flush_batch :: "'n serde \<Rightarrow> writer_config \<Rightarrow> 'n turn \<Rightarrow> 'n log_event \<Rightarrow> 'n writer \<Rightarrow> 'n writer" where
  "flush_batch S cfg t first st =
     (let c = collect S cfg (est S first) [first] (wr_queue st @ tn_arrivals t);
          st1 = st\<lparr>wr_starter := fst (snd c), wr_queue := snd (snd c),
                   wr_accepted := wr_accepted st @ tn_arrivals t\<rparr>;
          r = insert_batch_blocked S (tn_fault t 0) (fst c) st1
      in if fst r then snd r else degrade cfg (tn_end t) (tn_wall t) (fst c) (snd r))"

definition marker_due :: "writer_config \<Rightarrow> 'n turn \<Rightarrow> 'n writer \<Rightarrow> (nat \<times> int) option \<times> (int \<times> int) option" where
  "marker_due cfg t st =
     (if wr_dropped st = 0 then (None, None)
      else case wr_drop_since st of
          None \<Rightarrow> (None, Some (tn_now t, tn_wall t))
        | Some (start, wall) \<Rightarrow>
            if tn_now t - start \<ge> wc_drop_marker_window cfg then (Some (wr_dropped st, wall), Some (start, wall))
            else (None, Some (start, wall)))"

definition tick_markers :: "'n serde \<Rightarrow> (int \<Rightarrow> utext) \<Rightarrow> writer_config \<Rightarrow> 'n turn \<Rightarrow> 'n writer \<Rightarrow> 'n writer" where
  "tick_markers S rfc3339 cfg t st =
     (case marker_due cfg t st of
        (None, since) \<Rightarrow> st\<lparr>wr_drop_since := since\<rparr>
      | (Some (count, since), _) \<Rightarrow>
          (let record = drop_marker_record S rfc3339 count since (tn_wall t);
               r = insert_batch_blocked S (tn_fault t 0) [record] (st\<lparr>wr_drop_since := None, wr_dropped := 0\<rparr>)
           in if fst r then snd r else degrade cfg (tn_end t) (tn_wall t) [record] (snd r)))"

definition tick_prune :: "writer_config \<Rightarrow> 'n turn \<Rightarrow> 'n writer \<Rightarrow> 'n writer" where
  "tick_prune cfg t st =
     (case wc_retention cfg of
        None \<Rightarrow> st
      | Some bounds \<Rightarrow>
          if (case wr_last_prune st of None \<Rightarrow> True | Some p \<Rightarrow> tn_now t \<ge> p + wc_prune_interval cfg)
          then (case prune (BYTE_SCAN_CHUNK_ROWS - 1) (tn_wall t) bounds (wr_db st) of
                  (Some n, db) \<Rightarrow> st\<lparr>wr_last_prune := Some (tn_now t), wr_db := db,
                     wr_status := (wr_status st)\<lparr>ls_last_prune_deleted := Some n\<rparr>\<rparr>
                | (None, db) \<Rightarrow> st\<lparr>wr_last_prune := Some (tn_now t), wr_db := db\<rparr>)
          else st)"

definition normal_turn ::
  "'n serde \<Rightarrow> (int \<Rightarrow> utext) \<Rightarrow> writer_config \<Rightarrow> 'n turn \<Rightarrow> 'n writer \<Rightarrow> 'n writer + 'n writer" where
  "normal_turn S rfc3339 cfg t st =
     (let was_degraded = ls_degraded (wr_status st);
          go_on = (\<lambda>s. Inr (heartbeat was_degraded (tn_end t) s)) in
      case wr_starter st of
        Some r \<Rightarrow> go_on (flush_batch S cfg t r (st\<lparr>wr_starter := None\<rparr>))
      | None \<Rightarrow>
          if tn_cancelled t then Inl (finish_shutdown S t [] st)
          else case wr_queue st of
              r # rest \<Rightarrow> go_on (flush_batch S cfg t r (st\<lparr>wr_queue := rest\<rparr>))
            | [] \<Rightarrow>
                if wr_closed st then Inl (finish_shutdown S t [] st)
                else go_on (tick_prune cfg t (tick_markers S rfc3339 cfg t st)))"

definition writer_turn ::
  "'n serde \<Rightarrow> (int \<Rightarrow> utext) \<Rightarrow> writer_config \<Rightarrow> 'n turn \<Rightarrow> 'n writer \<Rightarrow> 'n writer + 'n writer" where
  "writer_turn S rfc3339 cfg t st =
     (if wr_degraded st then degraded_turn S cfg t st else normal_turn S rfc3339 cfg t st)"

section \<open>Runs\<close>

datatype 'n wstep = Send "'n log_event" | SendersGone | Turn "'n turn"

text \<open>A run up to the end of the steps or of the writer; the flag says that it still runs.\<close>

fun run_writer ::
  "'n serde \<Rightarrow> (int \<Rightarrow> utext) \<Rightarrow> writer_config \<Rightarrow> nat \<Rightarrow> 'n wstep list \<Rightarrow> 'n writer \<Rightarrow> bool \<times> 'n writer" where
  "run_writer S rfc3339 cfg capacity [] st = (True, st)"
| "run_writer S rfc3339 cfg capacity (Send r # es) st =
     run_writer S rfc3339 cfg capacity es (layer_send capacity r st)"
| "run_writer S rfc3339 cfg capacity (SendersGone # es) st =
     run_writer S rfc3339 cfg capacity es (close_channel st)"
| "run_writer S rfc3339 cfg capacity (Turn t # es) st =
     (case writer_turn S rfc3339 cfg t st of
        Inl st' \<Rightarrow> (False, st')
      | Inr st' \<Rightarrow> run_writer S rfc3339 cfg capacity es st')"

end
