(* ===== verification/LogWriterFacts.thy ===== *)
theory LogWriterFacts
  imports LogWriter Containers "HOL-Library.Sublist"
begin

text \<open>
  What the writer of the log store guarantees. Every record is in one place: written, in the
  failed batch, in the ring, set aside for the next batch, or in the channel, and these places
  in this order keep the order in which the channel took the records.
\<close>

definition genuine :: "'n log_event \<Rightarrow> bool" where
  "genuine r \<longleftrightarrow> ev_source r \<noteq> MARKER_SOURCE"

definition keepable :: "'n log_event \<Rightarrow> bool" where
  "keepable r \<longleftrightarrow> genuine r \<and> admitted r"

definition opt_list :: "'a option \<Rightarrow> 'a list" where
  "opt_list x = (case x of Some a \<Rightarrow> [a] | None \<Rightarrow> [])"

lemma opt_list_simps [simp]: "opt_list None = []" "opt_list (Some a) = [a]"
  by (simp_all add: opt_list_def)

definition hist :: "'n writer \<Rightarrow> 'n log_event list" where
  "hist st = wr_written st @ wr_pending st @ wr_ring st @ opt_list (wr_starter st) @ wr_queue st"

text \<open>One part of a turn: \<open>new\<close> is what the channel took, nothing is reordered or doubled, and what
  the ring would keep is only lost where the history says so.\<close>

definition flow :: "'n log_event list \<Rightarrow> 'n writer \<Rightarrow> 'n writer \<Rightarrow> bool" where
  "flow new st st' \<longleftrightarrow> wr_accepted st' = wr_accepted st @ new \<and>
     subseq (filter genuine (hist st')) (filter genuine (hist st @ new)) \<and> (wr_lossy st \<longrightarrow> wr_lossy st') \<and>
     (\<not> wr_lossy st' \<longrightarrow> filter keepable (hist st') = filter keepable (hist st @ new))"

lemma flow_trans:
  assumes "flow new st st'" "flow new' st' st''"
  shows "flow (new @ new') st st''"
proof -
  have "subseq (filter genuine (hist st') @ filter genuine new') (filter genuine (hist st @ new) @ filter genuine new')"
    using assms(1) by (intro list_emb_append_mono) (simp_all add: flow_def)
  then have "subseq (filter genuine (hist st' @ new')) (filter genuine (hist st @ new @ new'))" by simp
  then show ?thesis using assms unfolding flow_def by (auto intro: subseq_order.trans)
qed

lemma flow_refl [simp]: "flow [] st st"
  by (simp add: flow_def)

lemma flow_same:
  assumes "wr_accepted st' = wr_accepted st @ new" "wr_lossy st' = wr_lossy st"
    "filter genuine (hist st') = filter genuine (hist st @ new)"
  shows "flow new st st'"
proof -
  have k: "filter keepable xs = filter admitted (filter genuine xs)" for xs :: "'a log_event list"
    unfolding filter_filter by (rule filter_cong) (auto simp: keepable_def)
  show ?thesis unfolding flow_def k assms(3) using assms(1,2) by blast
qed

section \<open>The parts of a turn\<close>

lemma insert_blocked_state:
  "insert_batch_blocked S fault batch st = (ok, st') \<Longrightarrow>
    st' = st\<lparr>wr_db := wr_db st', wr_written := wr_written st @ (if ok then batch else [])\<rparr>"
  by (auto simp: insert_batch_blocked_def insert_batch_def split: if_splits)

lemma insert_blocked_no_fault: "\<not> fault \<Longrightarrow> fst (insert_batch_blocked S fault batch st)"
  by (simp add: insert_batch_blocked_def insert_batch_def)

interpretation wring: evicting_fifo "wring_fits S max_entries max_bytes" for S max_entries max_bytes
  by unfold_locales (simp add: wring_fits_def estimated_bytes_def)

text \<open>The ring never holds more than its limits.\<close>

lemma admit_to_ring_fits:
  "wring_fits S e b ring \<Longrightarrow> wring_fits S e b (admit_to_ring S r e b ring)"
  using wring.evict_fits[of S e b "ring @ [r]"] by (auto simp: admit_to_ring_def wring_fits_def estimated_bytes_def)

lemma ring_arrival_flow:
  assumes h: "hist st = wr_written st0 @ wr_pending st0 @ wr_ring st0 @ r # opt_list (wr_starter st0) @ wr_queue st0"
    and same: "wr_accepted st0 = wr_accepted st" "wr_lossy st0 = wr_lossy st"
  shows "flow [] st (ring_arrival S cfg r st0)"
proof -
  define pre where "pre = wr_written st0 @ wr_pending st0"
  define post where "post = opt_list (wr_starter st0) @ wr_queue st0"
  define ring where "ring = admit_to_ring S r (wc_ring_max_entries cfg) (wc_ring_max_bytes cfg) (wr_ring st0)"
  let ?st' = "ring_arrival S cfg r st0"
  have st': "wr_accepted ?st' = wr_accepted st" "hist ?st' = pre @ ring @ post"
      "wr_lossy ?st' \<longleftrightarrow> wr_lossy st \<or> admitted r \<and> length ring \<noteq> length (wr_ring st0) + 1"
    by (simp_all add: ring_arrival_def hist_def Let_def pre_def post_def ring_def same)
  have st: "hist st = pre @ (wr_ring st0 @ [r]) @ post" by (simp add: h pre_def post_def)
  have suf: "suffix ring (wr_ring st0 @ [r])" if "admitted r"
    using that unfolding ring_def admit_to_ring_def by (simp only: simp_thms if_False suffix_evict)
  have same_ring: "ring = wr_ring st0" if "\<not> admitted r"
    using that by (simp add: ring_def admit_to_ring_def)
  have "subseq ring (wr_ring st0 @ [r])"
    using suf same_ring by (cases "admitted r") auto
  then have "subseq (pre @ ring @ post) (pre @ (wr_ring st0 @ [r]) @ post)"
    by (intro list_emb_append_mono) simp_all
  then have sub: "subseq (filter genuine (hist ?st')) (filter genuine (hist st))"
    unfolding st' st by (rule subseq_filter)
  have "filter keepable (hist ?st') = filter keepable (hist st)" if "\<not> wr_lossy ?st'"
  proof (cases "admitted r")
    case True
    then obtain zs where zs: "wr_ring st0 @ [r] = zs @ ring" using suf by (auto simp: suffix_def)
    then have "length (wr_ring st0 @ [r]) = length (zs @ ring)" by simp
    then have "zs = []" using True that by (simp add: st')
    then have "ring = wr_ring st0 @ [r]" using zs by simp
    then show ?thesis by (simp add: st' st)
  qed (simp add: st' st same_ring keepable_def)
  then show ?thesis using sub unfolding flow_def by (simp add: st')
qed

lemma collect_exact:
  "fst (collect S cfg b batch q) @ opt_list (fst (snd (collect S cfg b batch q))) @ snd (snd (collect S cfg b batch q)) =
    batch @ q"
  by (induction S cfg b batch q rule: collect.induct) auto

text \<open>Out of trouble nothing waits for a retry, and the broadcast status says which mode it is.\<close>

definition mode_inv :: "'n writer \<Rightarrow> bool" where
  "mode_inv st \<longleftrightarrow> (\<not> wr_degraded st \<longrightarrow> wr_pending st = [] \<and> wr_ring st = []) \<and>
     ls_degraded (wr_status st) = wr_degraded st"

lemma degrade_simps [simp]:
  "hist (degrade cfg now wall batch st) = wr_written st @ batch @ wr_ring st @ opt_list (wr_starter st) @ wr_queue st"
  "wr_accepted (degrade cfg now wall batch st) = wr_accepted st" "wr_lossy (degrade cfg now wall batch st) = wr_lossy st"
  "mode_inv (degrade cfg now wall batch st)"
  by (simp_all add: degrade_def hist_def mode_inv_def)

lemma publish_status_simps [simp]:
  "hist (publish_status now d st) = hist st" "wr_accepted (publish_status now d st) = wr_accepted st"
  "wr_lossy (publish_status now d st) = wr_lossy st" "mode_inv (publish_status now d st) = mode_inv st"
  "wr_written (publish_status now d st) = wr_written st" "wr_degraded (publish_status now d st) = wr_degraded st"
  by (simp_all add: publish_status_def hist_def mode_inv_def Let_def)

lemma heartbeat_simps [simp]:
  "hist (heartbeat w now st) = hist st" "wr_accepted (heartbeat w now st) = wr_accepted st"
  "wr_lossy (heartbeat w now st) = wr_lossy st" "mode_inv (heartbeat w now st) = mode_inv st"
  "wr_written (heartbeat w now st) = wr_written st" "wr_degraded (heartbeat w now st) = wr_degraded st"
  by (simp_all add: heartbeat_def Let_def)

lemma flow_hist_cong:
  "flow new st st' \<Longrightarrow> hist st'' = hist st' \<Longrightarrow> wr_accepted st'' = wr_accepted st' \<Longrightarrow> wr_lossy st'' = wr_lossy st'
     \<Longrightarrow> flow new st st''"
  by (simp add: flow_def)

text \<open>A batch, whether its insert works or not.\<close>

lemma flush_batch_hist:
  assumes "wr_pending st = []" "wr_ring st = []" "wr_starter st = None"
    "\<not> wr_degraded st" "\<not> ls_degraded (wr_status st)"
  shows "hist (flush_batch S cfg t r st) = wr_written st @ r # wr_queue st @ tn_arrivals t \<and>
    wr_accepted (flush_batch S cfg t r st) = wr_accepted st @ tn_arrivals t \<and>
    wr_lossy (flush_batch S cfg t r st) = wr_lossy st \<and> mode_inv (flush_batch S cfg t r st) \<and>
    (\<not> tn_fault t 0 \<longrightarrow> \<not> wr_degraded (flush_batch S cfg t r st))"
proof -
  define c where "c = collect S cfg (est S r) [r] (wr_queue st @ tn_arrivals t)"
  define st1 where "st1 = st\<lparr>wr_starter := fst (snd c), wr_queue := snd (snd c), wr_accepted := wr_accepted st @ tn_arrivals t\<rparr>"
  obtain ok st2 where i: "insert_batch_blocked S (tn_fault t 0) (fst c) st1 = (ok, st2)" by (meson surj_pair)
  have f: "flush_batch S cfg t r st = (if ok then st2 else degrade cfg (tn_end t) (tn_wall t) (fst c) st2)"
    by (simp add: flush_batch_def Let_def c_def[symmetric] st1_def[symmetric] i)
  have st2: "st2 = st1\<lparr>wr_db := wr_db st2, wr_written := wr_written st1 @ (if ok then fst c else [])\<rparr>"
    by (rule insert_blocked_state[OF i])
  have rest: "wr_pending st2 = []" "wr_ring st2 = []" "wr_starter st2 = fst (snd c)" "wr_queue st2 = snd (snd c)"
      "wr_accepted st2 = wr_accepted st @ tn_arrivals t" "wr_lossy st2 = wr_lossy st" "\<not> wr_degraded st2"
      "\<not> ls_degraded (wr_status st2)" "wr_written st2 = wr_written st @ (if ok then fst c else [])"
    by (subst st2, simp add: st1_def assms)+
  have c: "fst c @ opt_list (fst (snd c)) @ snd (snd c) = r # wr_queue st @ tn_arrivals t"
    using collect_exact[of S cfg "est S r" "[r]" "wr_queue st @ tn_arrivals t"] by (simp add: c_def)
  have "\<not> tn_fault t 0 \<Longrightarrow> ok" using insert_blocked_no_fault[of "tn_fault t 0" S "fst c" st1] i by simp
  then show ?thesis
    using c rest unfolding f by (cases ok) (auto simp: hist_def[of st2] mode_inv_def[of st2])
qed

lemma tick_markers_flow:
  assumes "wr_pending st = []" "wr_ring st = []" "\<not> wr_degraded st" "\<not> ls_degraded (wr_status st)"
  shows "flow [] st (tick_markers S rfc3339 cfg t st) \<and> mode_inv (tick_markers S rfc3339 cfg t st) \<and>
    filter genuine (hist (tick_markers S rfc3339 cfg t st)) = filter genuine (hist st) \<and> (\<not> tn_fault t 0 \<longrightarrow> \<not> wr_degraded (tick_markers S rfc3339 cfg t st))"
proof (cases "fst (marker_due cfg t st)")
  case None
  then obtain since where "tick_markers S rfc3339 cfg t st = st\<lparr>wr_drop_since := since\<rparr>"
    by (cases "marker_due cfg t st") (auto simp: tick_markers_def)
  then show ?thesis using assms by (auto simp: flow_same hist_def mode_inv_def)
next
  case (Some cs)
  obtain count since x where due: "marker_due cfg t st = (Some (count, since), x)"
    using Some by (cases cs; cases "marker_due cfg t st") auto
  define m where "m = drop_marker_record S rfc3339 count since (tn_wall t)"
  define st1 where "st1 = st\<lparr>wr_drop_since := None, wr_dropped := 0\<rparr>"
  obtain ok st2 where i: "insert_batch_blocked S (tn_fault t 0) [m] st1 = (ok, st2)" by (meson surj_pair)
  have f: "tick_markers S rfc3339 cfg t st = (if ok then st2 else degrade cfg (tn_end t) (tn_wall t) [m] st2)"
    by (simp add: tick_markers_def due Let_def m_def[symmetric] st1_def[symmetric] i)
  have st2: "st2 = st1\<lparr>wr_db := wr_db st2, wr_written := wr_written st1 @ (if ok then [m] else [])\<rparr>"
    by (rule insert_blocked_state[OF i])
  have rest: "wr_pending st2 = []" "wr_ring st2 = []" "wr_starter st2 = wr_starter st" "wr_queue st2 = wr_queue st"
      "wr_accepted st2 = wr_accepted st" "wr_lossy st2 = wr_lossy st" "\<not> wr_degraded st2"
      "\<not> ls_degraded (wr_status st2)" "wr_written st2 = wr_written st @ (if ok then [m] else [])"
    by (subst st2, simp add: st1_def assms)+
  have g: "\<not> genuine m" by (simp add: m_def drop_marker_record_def genuine_def)
  have "\<not> tn_fault t 0 \<Longrightarrow> ok" using insert_blocked_no_fault[of "tn_fault t 0" S "[m]" st1] i by simp
  then show ?thesis
    using rest g assms unfolding f
    by (cases ok) (auto simp: hist_def[of st2] hist_def[of st] mode_inv_def[of st2] intro!: flow_same)
qed

lemma tick_prune_simps [simp]:
  "hist (tick_prune cfg t st) = hist st" "wr_accepted (tick_prune cfg t st) = wr_accepted st"
  "wr_lossy (tick_prune cfg t st) = wr_lossy st" "mode_inv (tick_prune cfg t st) = mode_inv st"
  "wr_degraded (tick_prune cfg t st) = wr_degraded st" "wr_written (tick_prune cfg t st) = wr_written st"
  by (auto simp: tick_prune_def hist_def mode_inv_def split: option.splits prod.splits)

lemma drain_ring_flow:
  assumes "wr_pending st = []" "\<not> wr_degraded st"
  shows "flow [] st (drain_ring S cfg t i st) \<and> wr_status (drain_ring S cfg t i st) = wr_status st \<and>
    (\<not> wr_degraded (drain_ring S cfg t i st) \<longrightarrow> wr_pending (drain_ring S cfg t i st) = [] \<and> wr_ring (drain_ring S cfg t i st) = [])"
  using assms
proof (induction S cfg t i st rule: drain_ring.induct)
  case (1 S cfg t i st)
  show ?case
  proof (cases "wr_ring st = [] \<or> wc_batch_max_rows cfg = 0")
    case True
    then show ?thesis
      using "1.prems" by (subst (1 2 3 4 5) drain_ring.simps) (auto simp: flow_def hist_def intro: list_emb_append_mono)
  next
    case False
    define n where "n = min (wc_batch_max_rows cfg) (length (wr_ring st))"
    define chunk where "chunk = take n (wr_ring st)"
    define st1 where "st1 = st\<lparr>wr_ring := drop n (wr_ring st)\<rparr>"
    obtain ok st2 where ins: "insert_batch_blocked S (tn_fault t (Suc i)) chunk st1 = (ok, st2)" by (meson surj_pair)
    have d: "drain_ring S cfg t i st = (if \<not> ok then st2\<lparr>wr_degraded := True, wr_pending := chunk\<rparr>
        else if tn_late t i then st2\<lparr>wr_ring := [], wr_lossy := (wr_lossy st2 \<or> wr_ring st2 \<noteq> [])\<rparr>
        else drain_ring S cfg t (Suc i) st2)"
      using False by (subst drain_ring.simps)
        (simp only: Let_def n_def[symmetric] chunk_def[symmetric] st1_def[symmetric] ins fst_conv snd_conv de_Morgan_disj if_False)
    have st2: "st2 = st1\<lparr>wr_db := wr_db st2, wr_written := wr_written st1 @ (if ok then chunk else [])\<rparr>"
      by (rule insert_blocked_state[OF ins])
    have rest: "wr_pending st2 = []" "wr_ring st2 = drop n (wr_ring st)" "wr_starter st2 = wr_starter st"
        "wr_queue st2 = wr_queue st" "wr_accepted st2 = wr_accepted st" "wr_lossy st2 = wr_lossy st" "\<not> wr_degraded st2"
        "wr_status st2 = wr_status st" "wr_written st2 = wr_written st @ (if ok then chunk else [])"
      by (subst st2, simp add: st1_def "1.prems")+
    have ring: "chunk @ drop n (wr_ring st) = wr_ring st" by (simp add: chunk_def)
    have hist: "hist st = wr_written st @ chunk @ drop n (wr_ring st) @ opt_list (wr_starter st) @ wr_queue st"
      unfolding hist_def "1.prems"(1) using ring by (metis append_Nil append_assoc)
    show ?thesis
    proof (cases ok)
      case bad: False
      then have d': "drain_ring S cfg t i st = st2\<lparr>wr_degraded := True, wr_pending := chunk\<rparr>" using d by simp
      have "hist (st2\<lparr>wr_degraded := True, wr_pending := chunk\<rparr>) = hist st" using rest bad unfolding hist by (simp add: hist_def)
      then show ?thesis unfolding d' using rest by (auto intro!: flow_same)
    next
      case True
      then have h2: "hist st2 = hist st" using rest unfolding hist by (simp add: hist_def)
      show ?thesis
      proof (cases "tn_late t i")
        case late: True
        then have d': "drain_ring S cfg t i st = st2\<lparr>wr_ring := [], wr_lossy := (wr_lossy st2 \<or> wr_ring st2 \<noteq> [])\<rparr>"
          using d True by simp
        let ?st' = "st2\<lparr>wr_ring := [], wr_lossy := (wr_lossy st2 \<or> wr_ring st2 \<noteq> [])\<rparr>"
        have "hist ?st' = (wr_written st @ chunk) @ opt_list (wr_starter st) @ wr_queue st"
          unfolding hist_def[of ?st'] using rest True by simp
        moreover have "hist st = (wr_written st @ chunk) @ drop n (wr_ring st) @ opt_list (wr_starter st) @ wr_queue st"
          unfolding hist by simp
        ultimately have "subseq (hist ?st') (hist st)"
          by (simp only: subseq_append' subseq_drop_many subseq_order.order_refl)
        then have "subseq (filter genuine (hist ?st')) (filter genuine (hist st))" by (rule subseq_filter)
        moreover have "hist ?st' = hist st" if "wr_ring st2 = []"
          unfolding hist_def[of ?st'] hist using rest True that by simp
        ultimately show ?thesis unfolding d' using rest by (auto simp: flow_def)
      next
        case in_time: False
        have "flow [] st st2" using h2 rest by (intro flow_same) simp_all
        moreover have "flow [] st2 (drain_ring S cfg t (Suc i) st2) \<and> wr_status (drain_ring S cfg t (Suc i) st2) = wr_status st2 \<and>
            (\<not> wr_degraded (drain_ring S cfg t (Suc i) st2) \<longrightarrow> wr_pending (drain_ring S cfg t (Suc i) st2) = [] \<and>
              wr_ring (drain_ring S cfg t (Suc i) st2) = [])"
          using "1.IH"[OF _ _ n_def chunk_def] False True in_time rest ins unfolding st1_def by simp
        ultimately show ?thesis using d True in_time rest flow_trans[of "[]" st st2 "[]"] by simp
      qed
    qed
  qed
qed

lemma retry_flow:
  assumes "mode_inv st" "wr_degraded st" "wr_starter st = None"
  shows "flow [] st (retry S cfg t st) \<and> mode_inv (retry S cfg t st)"
proof -
  obtain ok st0 where i: "insert_batch_blocked S (tn_fault t 0) (wr_pending st) st = (ok, st0)" by (meson surj_pair)
  have st0: "st0 = st\<lparr>wr_db := wr_db st0, wr_written := wr_written st @ (if ok then wr_pending st else [])\<rparr>"
    by (rule insert_blocked_state[OF i])
  let ?seen = "\<lambda>s. s\<lparr>wr_status := (wr_status s)\<lparr>ls_retries_seen := ls_retries_seen (wr_status s) + 1\<rparr>\<rparr>"
  define st1 where "st1 = (if \<not> ok then ?seen st0 else drain_ring S cfg t 0 ((?seen st0)\<lparr>wr_pending := [], wr_degraded := False\<rparr>))"
  have r: "hist (retry S cfg t st) = hist st1" "wr_accepted (retry S cfg t st) = wr_accepted st1"
      "wr_lossy (retry S cfg t st) = wr_lossy st1" "wr_degraded (retry S cfg t st) = wr_degraded st1"
      "wr_pending (retry S cfg t st) = wr_pending st1" "wr_ring (retry S cfg t st) = wr_ring st1"
      "ls_degraded (wr_status (retry S cfg t st)) = (if wr_degraded st1 then ls_degraded (wr_status st1) else False)"
    unfolding retry_def Let_def i fst_conv snd_conv st1_def[symmetric] by (simp_all add: hist_def)
  have st0_flags: "wr_degraded st0" "ls_degraded (wr_status st0)" "wr_accepted st0 = wr_accepted st" "wr_lossy st0 = wr_lossy st"
    by (subst st0, use assms in \<open>simp add: mode_inv_def\<close>)+
  have st0_hist: "wr_written st0 = wr_written st @ (if ok then wr_pending st else [])" "wr_pending st0 = wr_pending st"
      "wr_ring st0 = wr_ring st" "wr_starter st0 = wr_starter st" "wr_queue st0 = wr_queue st"
    by (subst st0, simp)+
  have "flow [] st st1 \<and> (\<not> wr_degraded st1 \<longrightarrow> wr_pending st1 = [] \<and> wr_ring st1 = []) \<and>
      (wr_degraded st1 \<longrightarrow> ls_degraded (wr_status st1))"
  proof (cases ok)
    case False
    have "flow [] st (?seen st0)"
      by (rule flow_same) (use st0_flags st0_hist False in \<open>simp_all add: hist_def\<close>)
    then show ?thesis using False st0_flags by (simp add: st1_def)
  next
    case True
    let ?go = "(?seen st0)\<lparr>wr_pending := [], wr_degraded := False\<rparr>"
    have go: "flow [] st ?go"
      by (rule flow_same) (use st0_flags st0_hist True in \<open>simp_all add: hist_def\<close>)
    have d: "flow [] ?go (drain_ring S cfg t 0 ?go) \<and> wr_status (drain_ring S cfg t 0 ?go) = wr_status ?go \<and>
        (\<not> wr_degraded (drain_ring S cfg t 0 ?go) \<longrightarrow> wr_pending (drain_ring S cfg t 0 ?go) = [] \<and>
          wr_ring (drain_ring S cfg t 0 ?go) = [])"
      by (rule drain_ring_flow) simp_all
    show ?thesis using flow_trans[OF go conjunct1[OF d]] d True st0_flags by (simp add: st1_def)
  qed
  then show ?thesis using r by (auto simp: flow_def mode_inv_def)
qed

section \<open>Turns and runs\<close>

text \<open>What a turn lets in while it collects a batch.\<close>

definition turn_news :: "'n turn \<Rightarrow> 'n writer \<Rightarrow> 'n log_event list" where
  "turn_news t st = (if \<not> wr_degraded st \<and> (wr_starter st \<noteq> None \<or> \<not> tn_cancelled t \<and> wr_queue st \<noteq> [])
     then tn_arrivals t else [])"

lemma degraded_turn_flow:
  assumes "mode_inv st" "wr_degraded st" "degraded_turn S cfg t st = Inr st'"
  shows "flow [] st st' \<and> mode_inv st'"
proof (cases "wr_starter st")
  case (Some r)
  have st': "st' = publish_status (tn_end t) (wr_dropped (ring_arrival S cfg r (st\<lparr>wr_starter := None\<rparr>)))
      (ring_arrival S cfg r (st\<lparr>wr_starter := None\<rparr>))"
    using assms(3) Some by (simp add: degraded_turn_def Let_def)
  have "flow [] st (ring_arrival S cfg r (st\<lparr>wr_starter := None\<rparr>))"
    by (rule ring_arrival_flow) (simp_all add: hist_def Some)
  moreover have "mode_inv (ring_arrival S cfg r (st\<lparr>wr_starter := None\<rparr>))"
    using assms(1,2) by (simp add: ring_arrival_def mode_inv_def Let_def)
  ultimately show ?thesis unfolding st' by (auto intro: flow_hist_cong)
next
  case None
  show ?thesis
  proof (cases "case wr_retry_at st of None \<Rightarrow> True | Some at \<Rightarrow> tn_now t \<ge> at")
    case True
    then have "st' = publish_status (tn_end t) (wr_dropped (retry S cfg t st)) (retry S cfg t st)"
      using assms(3) None by (simp add: degraded_turn_def Let_def)
    then show ?thesis using retry_flow[OF assms(1,2) None, of S cfg t] by (auto intro: flow_hist_cong)
  next
    case wait: False
    show ?thesis
    proof (cases "tn_slept t \<or> wr_queue st = []")
      case True
      then have "st' = publish_status (tn_end t) (wr_dropped st) st"
        using assms(3) None wait by (auto simp: degraded_turn_def split: if_splits)
      then show ?thesis using assms(1) by (auto intro: flow_hist_cong[OF flow_refl])
    next
      case False
      then obtain r rest where q: "wr_queue st = r # rest" by (cases "wr_queue st") auto
      have st': "st' = publish_status (tn_end t) (wr_dropped (ring_arrival S cfg r (st\<lparr>wr_queue := rest\<rparr>)))
          (ring_arrival S cfg r (st\<lparr>wr_queue := rest\<rparr>))"
        using assms(3) None wait False q by (simp add: degraded_turn_def Let_def split: if_splits)
      have "flow [] st (ring_arrival S cfg r (st\<lparr>wr_queue := rest\<rparr>))"
        by (rule ring_arrival_flow) (simp_all add: hist_def None q)
      moreover have "mode_inv (ring_arrival S cfg r (st\<lparr>wr_queue := rest\<rparr>))"
        using assms(1,2) by (simp add: ring_arrival_def mode_inv_def Let_def)
      ultimately show ?thesis unfolding st' by (auto intro: flow_hist_cong)
    qed
  qed
qed

lemma flush_batch_flow:
  assumes "hist st = wr_written st0 @ r # wr_queue st0" "wr_accepted st0 = wr_accepted st" "wr_lossy st0 = wr_lossy st"
    "wr_pending st0 = []" "wr_ring st0 = []" "wr_starter st0 = None" "\<not> wr_degraded st0" "\<not> ls_degraded (wr_status st0)"
  shows "flow (tn_arrivals t) st (flush_batch S cfg t r st0) \<and> mode_inv (flush_batch S cfg t r st0) \<and>
    (\<not> tn_fault t 0 \<longrightarrow> \<not> wr_degraded (flush_batch S cfg t r st0) \<and>
      filter genuine (hist (flush_batch S cfg t r st0)) = filter genuine (hist st @ tn_arrivals t))"
  using flush_batch_hist[OF assms(4-8), of S cfg t r] assms(1-3) by (auto intro!: flow_same)

lemma normal_turn_flow:
  assumes "mode_inv st" "\<not> wr_degraded st" "normal_turn S rfc3339 cfg t st = Inr st'"
  shows "flow (turn_news t st) st st' \<and> mode_inv st' \<and>
    (\<not> tn_fault t 0 \<longrightarrow> \<not> wr_degraded st' \<and> filter genuine (hist st') = filter genuine (hist st @ turn_news t st))"
proof -
  have idle: "wr_pending st = []" "wr_ring st = []" "\<not> ls_degraded (wr_status st)"
    using assms(1,2) by (auto simp: mode_inv_def)
  show ?thesis
  proof (cases "wr_starter st")
    case (Some r)
    let ?st0 = "st\<lparr>wr_starter := None\<rparr>"
    have st': "st' = heartbeat (ls_degraded (wr_status st)) (tn_end t) (flush_batch S cfg t r ?st0)"
      using assms(3) Some by (simp add: normal_turn_def Let_def)
    have "flow (tn_arrivals t) st (flush_batch S cfg t r ?st0) \<and> mode_inv (flush_batch S cfg t r ?st0) \<and>
        (\<not> tn_fault t 0 \<longrightarrow> \<not> wr_degraded (flush_batch S cfg t r ?st0) \<and>
          filter genuine (hist (flush_batch S cfg t r ?st0)) = filter genuine (hist st @ tn_arrivals t))"
      by (rule flush_batch_flow) (use idle assms(2) Some in \<open>simp_all add: hist_def\<close>)
    moreover have "turn_news t st = tn_arrivals t" using assms(2) Some by (simp add: turn_news_def)
    ultimately show ?thesis unfolding st' by (auto intro: flow_hist_cong)
  next
    case None
    then have going: "\<not> tn_cancelled t" using assms(3) by (auto simp: normal_turn_def Let_def)
    show ?thesis
    proof (cases "wr_queue st")
      case (Cons r rest)
      let ?st0 = "st\<lparr>wr_queue := rest\<rparr>"
      have st': "st' = heartbeat (ls_degraded (wr_status st)) (tn_end t) (flush_batch S cfg t r ?st0)"
        using assms(3) None going Cons by (simp add: normal_turn_def Let_def)
      have "flow (tn_arrivals t) st (flush_batch S cfg t r ?st0) \<and> mode_inv (flush_batch S cfg t r ?st0) \<and>
          (\<not> tn_fault t 0 \<longrightarrow> \<not> wr_degraded (flush_batch S cfg t r ?st0) \<and>
            filter genuine (hist (flush_batch S cfg t r ?st0)) = filter genuine (hist st @ tn_arrivals t))"
        by (rule flush_batch_flow) (use idle assms(2) None Cons in \<open>simp_all add: hist_def\<close>)
      moreover have "turn_news t st = tn_arrivals t" using assms(2) going Cons by (simp add: turn_news_def)
      ultimately show ?thesis unfolding st' by (auto intro: flow_hist_cong)
    next
      case Nil
      have st': "st' = heartbeat (ls_degraded (wr_status st)) (tn_end t) (tick_prune cfg t (tick_markers S rfc3339 cfg t st))"
        using assms(3) None going Nil by (simp add: normal_turn_def Let_def split: if_splits)
      have "turn_news t st = []" using None Nil by (simp add: turn_news_def)
      then show ?thesis
        using tick_markers_flow[OF idle(1,2) assms(2) idle(3), of S rfc3339 cfg t] unfolding st'
        by (auto intro: flow_hist_cong)
    qed
  qed
qed

text \<open>One step of a run: what the channel took, and what became of the rest.\<close>

fun step_news :: "nat \<Rightarrow> 'n wstep \<Rightarrow> 'n writer \<Rightarrow> 'n log_event list" where
  "step_news capacity (Send r) st = (if length (wr_queue st) < capacity then [r] else [])"
| "step_news capacity SendersGone st = []"
| "step_news capacity (Turn t) st = turn_news t st"

fun step_one ::
  "'n serde \<Rightarrow> (int \<Rightarrow> utext) \<Rightarrow> writer_config \<Rightarrow> nat \<Rightarrow> 'n wstep \<Rightarrow> 'n writer \<Rightarrow> 'n writer + 'n writer" where
  "step_one S rfc3339 cfg capacity (Send r) st = Inr (layer_send capacity r st)"
| "step_one S rfc3339 cfg capacity SendersGone st = Inr (close_channel st)"
| "step_one S rfc3339 cfg capacity (Turn t) st = writer_turn S rfc3339 cfg t st"

lemma run_writer_step:
  "run_writer S rfc3339 cfg capacity (e # es) st =
     (case step_one S rfc3339 cfg capacity e st of
        Inl st' \<Rightarrow> (False, st') | Inr st' \<Rightarrow> run_writer S rfc3339 cfg capacity es st')"
  by (cases e) simp_all

lemma step_one_flow:
  assumes "mode_inv st" "step_one S rfc3339 cfg capacity e st = Inr st'"
  shows "flow (step_news capacity e st) st st' \<and> mode_inv st'"
proof (cases e)
  case (Send r)
  then show ?thesis using assms by (auto simp: layer_send_def mode_inv_def hist_def intro!: flow_same)
next
  case SendersGone
  then show ?thesis using assms by (auto simp: close_channel_def mode_inv_def hist_def intro!: flow_same)
next
  case (Turn t)
  show ?thesis
  proof (cases "wr_degraded st")
    case True
    then have "turn_news t st = []" by (simp add: turn_news_def)
    then show ?thesis using degraded_turn_flow[OF assms(1) True] assms(2) Turn True by (simp add: writer_turn_def)
  next
    case False
    then show ?thesis using normal_turn_flow[OF assms(1) False, of S rfc3339 cfg t st'] assms(2) Turn by (simp add: writer_turn_def)
  qed
qed

definition kept_in_order :: "'n writer \<Rightarrow> bool" where
  "kept_in_order st \<longleftrightarrow> mode_inv st \<and> subseq (filter genuine (hist st)) (filter genuine (wr_accepted st)) \<and>
     (\<not> wr_lossy st \<longrightarrow> filter keepable (hist st) = filter keepable (wr_accepted st))"

lemma kept_in_order_start: "kept_in_order (writer_start db)"
  by (simp add: kept_in_order_def writer_start_def mode_inv_def hist_def status_ok_def)

lemma kept_in_order_step:
  assumes "kept_in_order st" "step_one S rfc3339 cfg capacity e st = Inr st'"
  shows "kept_in_order st'"
proof -
  have f: "flow (step_news capacity e st) st st' \<and> mode_inv st'"
    using assms by (intro step_one_flow) (simp_all add: kept_in_order_def)
  have acc: "wr_accepted st' = wr_accepted st @ step_news capacity e st"
    and sub: "subseq (filter genuine (hist st')) (filter genuine (hist st @ step_news capacity e st))"
    using f unfolding flow_def by blast+
  have "subseq (filter genuine (hist st) @ filter genuine (step_news capacity e st))
      (filter genuine (wr_accepted st) @ filter genuine (step_news capacity e st))"
    using assms(1) by (intro list_emb_append_mono) (simp_all add: kept_in_order_def)
  then have "subseq (filter genuine (hist st @ step_news capacity e st)) (filter genuine (wr_accepted st'))"
    unfolding acc filter_append .
  with sub have "subseq (filter genuine (hist st')) (filter genuine (wr_accepted st'))"
    by (rule subseq_order.trans)
  moreover have "filter keepable (hist st') = filter keepable (wr_accepted st')" if "\<not> wr_lossy st'"
  proof -
    have "filter keepable (hist st') = filter keepable (hist st @ step_news capacity e st)" "\<not> wr_lossy st"
      using f that unfolding flow_def by blast+
    then show ?thesis using assms(1) unfolding acc kept_in_order_def by simp
  qed
  ultimately show ?thesis using f unfolding kept_in_order_def by blast
qed

text \<open>A shutdown writes at most what was waiting, in order.\<close>

lemma finish_shutdown_written:
  "\<exists>p q. wr_written (finish_shutdown S t pending st) = wr_written st @ p @ q \<and>
     p = (if tn_fault t 0 then [] else pending) \<and>
     q = (if tn_fault t 1 \<or> \<not> wr_closed st then [] else wr_queue st) \<and>
     wr_accepted (finish_shutdown S t pending st) = wr_accepted st \<and> wr_closed (finish_shutdown S t pending st) = wr_closed st \<and>
     wr_queue (finish_shutdown S t pending st) = []"
  by (simp add: finish_shutdown_def Let_def insert_batch_blocked_def insert_batch_def)

lemma writer_stops:
  assumes "writer_turn S rfc3339 cfg t st = Inl st'"
  shows "st' = finish_shutdown S t (if wr_degraded st then wr_pending st else []) st \<and> wr_starter st = None"
  using assms by (auto simp: writer_turn_def degraded_turn_def normal_turn_def Let_def split: option.splits list.splits if_splits)

lemma shutdown_in_order:
  assumes "kept_in_order st" "writer_turn S rfc3339 cfg t st = Inl st'"
  shows "subseq (filter genuine (wr_written st')) (filter genuine (wr_accepted st'))"
proof -
  obtain p q where w: "wr_written st' = wr_written st @ p @ q" "subseq p (wr_pending st)" "subseq q (wr_queue st)"
      "wr_accepted st' = wr_accepted st"
    using writer_stops[OF assms(2)] finish_shutdown_written[of S t "if wr_degraded st then wr_pending st else []" st]
    by (auto split: if_splits)
  have "subseq (p @ q) (wr_pending st @ (wr_ring st @ opt_list (wr_starter st)) @ wr_queue st)"
    using w(2,3) by (intro list_emb_append_mono subseq_drop_many)
  then have "subseq (wr_written st') (hist st)" unfolding w(1) hist_def by (simp only: subseq_append' append_assoc)
  then have "subseq (filter genuine (wr_written st')) (filter genuine (hist st))" by (rule subseq_filter)
  then show ?thesis using assms(1) w(4) subseq_order.trans by (metis kept_in_order_def)
qed

lemma run_kept_in_order:
  assumes "kept_in_order st" "run_writer S rfc3339 cfg capacity es st = (running, st')"
  shows "subseq (filter genuine (wr_written st')) (filter genuine (wr_accepted st')) \<and> (running \<longrightarrow> kept_in_order st')"
  using assms
proof (induction es arbitrary: st)
  case Nil
  have "subseq (filter genuine (wr_written st)) (filter genuine (hist st))"
    by (simp add: hist_def subseq_rev_drop_many)
  then show ?case using Nil subseq_order.trans by (auto simp: kept_in_order_def)
next
  case (Cons e es)
  show ?case
  proof (cases "step_one S rfc3339 cfg capacity e st")
    case (Inr st1)
    then show ?thesis using Cons kept_in_order_step[OF Cons.prems(1) Inr] by (simp add: run_writer_step)
  next
    case (Inl st1)
    then obtain t where "e = Turn t" by (cases e) simp_all
    then show ?thesis using Inl Cons.prems shutdown_in_order[of st S rfc3339 cfg t st1] by (simp add: run_writer_step)
  qed
qed

section \<open>What a run guarantees\<close>

text \<open>C6. The log keeps the order of the events: in any run of the writer, through outages, recoveries,
  drop markers, prunes and the shutdown, the records it has inserted, markers aside, are records
  the channel took, in the order in which it took them and none of them twice.\<close>

theorem log_order_kept:
  "subseq (filter genuine (wr_written (snd (run_writer S rfc3339 cfg capacity es (writer_start db)))))
     (filter genuine (wr_accepted (snd (run_writer S rfc3339 cfg capacity es (writer_start db)))))"
  using run_kept_in_order[OF kept_in_order_start] by (metis surjective_pairing)

text \<open>C7. Warnings survive an outage: as long as the writer runs and neither the ring nor its drain had to
  throw something away, every warning, error and drop notice the channel took is written, waiting for
  the retry, in the ring, set aside or still in the channel, each once and in the order it came.\<close>

theorem outage_keeps_warnings:
  assumes "run_writer S rfc3339 cfg capacity es (writer_start db) = (True, st)" "\<not> wr_lossy st"
  shows "filter keepable (wr_written st @ wr_pending st @ wr_ring st @ opt_list (wr_starter st) @ wr_queue st) =
    filter keepable (wr_accepted st)"
  using run_kept_in_order[OF kept_in_order_start assms(1)] assms(2) unfolding kept_in_order_def hist_def by blast

text \<open>The limits of the ring.\<close>

definition ring_ok :: "'n serde \<Rightarrow> writer_config \<Rightarrow> 'n writer \<Rightarrow> bool" where
  "ring_ok S cfg st \<longleftrightarrow> wring_fits S (wc_ring_max_entries cfg) (wc_ring_max_bytes cfg) (wr_ring st)"

lemma ring_ok_empty: "wr_ring st = [] \<Longrightarrow> ring_ok S cfg st"
  by (simp add: ring_ok_def wring_fits_def estimated_bytes_def)

lemma ring_ok_suffix: "ring_ok S cfg st \<Longrightarrow> suffix (wr_ring st') (wr_ring st) \<Longrightarrow> ring_ok S cfg st'"
  unfolding ring_ok_def using wring.fits_suffix by blast

lemma ring_ok_arrival: "ring_ok S cfg st \<Longrightarrow> ring_ok S cfg (ring_arrival S cfg r st)"
  by (simp add: ring_ok_def ring_arrival_def Let_def admit_to_ring_fits)

lemma insert_blocked_ring [simp]: "wr_ring (snd (insert_batch_blocked S fault batch st)) = wr_ring st"
  by (simp add: insert_batch_blocked_def insert_batch_def)

lemma drain_ring_suffix: "suffix (wr_ring (drain_ring S cfg t i st)) (wr_ring st)"
proof (induction S cfg t i st rule: drain_ring.induct)
  case (1 S cfg t i st)
  let ?n = "min (wc_batch_max_rows cfg) (length (wr_ring st))"
  let ?r = "insert_batch_blocked S (tn_fault t (Suc i)) (take ?n (wr_ring st)) (st\<lparr>wr_ring := drop ?n (wr_ring st)\<rparr>)"
  show ?case
  proof (cases "wr_ring st = [] \<or> wc_batch_max_rows cfg = 0 \<or> \<not> fst ?r \<or> tn_late t i")
    case True
    then show ?thesis by (subst drain_ring.simps) (auto simp: Let_def suffix_drop)
  next
    case False
    then have "suffix (wr_ring (drain_ring S cfg t (Suc i) (snd ?r))) (wr_ring (snd ?r))"
      by (intro "1.IH") simp_all
    then have "suffix (wr_ring (drain_ring S cfg t (Suc i) (snd ?r))) (drop ?n (wr_ring st))" by simp
    then have "suffix (wr_ring (drain_ring S cfg t (Suc i) (snd ?r))) (wr_ring st)"
      using suffix_drop suffix_order.trans by blast
    moreover have "drain_ring S cfg t i st = drain_ring S cfg t (Suc i) (snd ?r)"
      using False by (subst drain_ring.simps) (simp add: Let_def)
    ultimately show ?thesis by simp
  qed
qed

lemma retry_suffix: "suffix (wr_ring (retry S cfg t st)) (wr_ring st)"
proof -
  have "suffix (wr_ring (drain_ring S cfg t i st1)) (wr_ring st)" if "wr_ring st1 = wr_ring st" for i st1
    using drain_ring_suffix[of S cfg t i st1] that by simp
  then show ?thesis by (auto simp: retry_def Let_def)
qed

lemma flush_batch_ring: "wr_ring (flush_batch S cfg t r st) = wr_ring st"
  by (simp add: flush_batch_def Let_def degrade_def)

lemma tick_ring: "wr_ring (tick_prune cfg t (tick_markers S rfc3339 cfg t st)) = wr_ring st"
  by (auto simp: tick_prune_def tick_markers_def Let_def degrade_def split: option.splits prod.splits)

lemma publish_ring [simp]: "wr_ring (publish_status now d st) = wr_ring st"
  by (simp add: publish_status_def Let_def)

lemma heartbeat_ring [simp]: "wr_ring (heartbeat w now st) = wr_ring st"
  by (simp add: heartbeat_def Let_def)

lemma finish_ring: "wr_ring (finish_shutdown S t pending st) = wr_ring st"
  by (simp add: finish_shutdown_def Let_def)

lemma ring_ok_publish [simp]: "ring_ok S cfg (publish_status now d st) = ring_ok S cfg st"
  by (simp add: ring_ok_def)

lemma ring_ok_cong: "ring_ok S cfg st \<Longrightarrow> wr_ring st' = wr_ring st \<Longrightarrow> ring_ok S cfg st'"
  by (simp add: ring_ok_def)

lemma ring_ok_turn:
  assumes "ring_ok S cfg st"
  shows "case writer_turn S rfc3339 cfg t st of Inl st' \<Rightarrow> ring_ok S cfg st' | Inr st' \<Rightarrow> ring_ok S cfg st'"
proof (cases "wr_degraded st")
  case True
  have a: "ring_ok S cfg (ring_arrival S cfg r (st\<lparr>wr_starter := x\<rparr>))" "ring_ok S cfg (ring_arrival S cfg r (st\<lparr>wr_queue := q\<rparr>))" for r x q
    by (rule ring_ok_arrival, rule ring_ok_cong[OF assms], simp)+
  have r: "ring_ok S cfg (retry S cfg t st)" by (rule ring_ok_suffix[OF assms retry_suffix])
  have f: "ring_ok S cfg (finish_shutdown S t p st)" for p using assms by (rule ring_ok_cong) (rule finish_ring)
  show ?thesis using a r f assms True
    by (simp add: writer_turn_def degraded_turn_def Let_def split: option.splits list.splits)
next
  case False
  have b: "ring_ok S cfg (heartbeat w n (flush_batch S cfg t r (st\<lparr>wr_starter := x\<rparr>)))"
      "ring_ok S cfg (heartbeat w n (flush_batch S cfg t r (st\<lparr>wr_queue := q\<rparr>)))" for w n r x q
    using assms by (auto simp: ring_ok_def flush_batch_ring)
  have t: "ring_ok S cfg (heartbeat w n (tick_prune cfg t (tick_markers S rfc3339 cfg t st)))" for w n
    using assms by (simp add: ring_ok_def tick_ring)
  have f: "ring_ok S cfg (finish_shutdown S t p st)" for p using assms by (rule ring_ok_cong) (rule finish_ring)
  show ?thesis using b t f False
    by (simp add: writer_turn_def normal_turn_def Let_def split: option.splits list.splits)
qed

text \<open>The memory an outage takes is bounded: at every point of every run the ring holds at most the
  configured number of entries and of estimated bytes.\<close>

theorem ring_bounded:
  "let ring = wr_ring (snd (run_writer S rfc3339 cfg capacity es (writer_start db))) in
     length ring \<le> wc_ring_max_entries cfg \<and> estimated_bytes S ring \<le> wc_ring_max_bytes cfg"
proof -
  have "ring_ok S cfg st \<Longrightarrow> ring_ok S cfg (snd (run_writer S rfc3339 cfg capacity es st))" for st
  proof (induction es arbitrary: st)
    case (Cons e es)
    show ?case
    proof (cases e)
      case (Turn t)
      then show ?thesis using Cons ring_ok_turn[OF Cons.prems, of rfc3339 t]
        by (cases "writer_turn S rfc3339 cfg t st") simp_all
    qed (use Cons in \<open>simp_all add: layer_send_def close_channel_def ring_ok_def\<close>)
  qed simp
  from this[of "writer_start db"] show ?thesis
    by (simp add: ring_ok_def wring_fits_def Let_def not_less writer_start_def ring_ok_empty[of "writer_start db", unfolded ring_ok_def wring_fits_def writer_start_def] estimated_bytes_def)
qed

lemma healthy_step:
  assumes "mode_inv st" "\<not> wr_degraded st" "filter genuine (hist st) = filter genuine (wr_accepted st)"
    "\<forall>t. e = Turn t \<longrightarrow> \<not> tn_fault t 0" "step_one S rfc3339 cfg capacity e st = Inr st'"
  shows "mode_inv st' \<and> \<not> wr_degraded st' \<and> filter genuine (hist st') = filter genuine (wr_accepted st')"
proof (cases e)
  case (Send r)
  then show ?thesis using assms
    by (cases "length (wr_queue st) < capacity") (auto simp: layer_send_def mode_inv_def hist_def)
next
  case SendersGone
  then show ?thesis using assms by (auto simp: close_channel_def mode_inv_def hist_def)
next
  case (Turn t)
  then have "normal_turn S rfc3339 cfg t st = Inr st'" "\<not> tn_fault t 0"
    using assms(2,4,5) by (simp_all add: writer_turn_def)
  then show ?thesis
    using normal_turn_flow[OF assms(1,2), of S rfc3339 cfg t st'] assms(3) by (auto simp: flow_def)
qed

text \<open>C26. While the store takes every insert, no record is lost: all that the channel took is written,
  set aside or still in the channel, in order; and when the writer ends because the last sender
  is gone, all of it is written.\<close>

theorem healthy_run_loses_nothing:
  assumes "run_writer S rfc3339 cfg capacity es (writer_start db) = (running, st)"
    "\<forall>t. Turn t \<in> set es \<longrightarrow> (\<forall>i. \<not> tn_fault t i)" "running \<or> wr_closed st"
  shows "filter genuine (wr_written st @ opt_list (wr_starter st) @ wr_queue st) = filter genuine (wr_accepted st) \<and>
    (\<not> running \<longrightarrow> wr_starter st = None \<and> wr_queue st = [])"
proof -
  have "mode_inv st0 \<Longrightarrow> \<not> wr_degraded st0 \<Longrightarrow> filter genuine (hist st0) = filter genuine (wr_accepted st0) \<Longrightarrow>
      run_writer S rfc3339 cfg capacity es st0 = (running, st) \<Longrightarrow>
      filter genuine (wr_written st @ opt_list (wr_starter st) @ wr_queue st) = filter genuine (wr_accepted st) \<and>
      (\<not> running \<longrightarrow> wr_starter st = None \<and> wr_queue st = [])" for st0
    using assms(2)
  proof (induction es arbitrary: st0)
    case Nil
    then show ?case by (auto simp: mode_inv_def hist_def)
  next
    case (Cons e es)
    show ?case
    proof (cases "step_one S rfc3339 cfg capacity e st0")
      case (Inr st1)
      have "mode_inv st1 \<and> \<not> wr_degraded st1 \<and> filter genuine (hist st1) = filter genuine (wr_accepted st1)"
        using Cons.prems by (intro healthy_step[OF _ _ _ _ Inr]) auto
      moreover have "run_writer S rfc3339 cfg capacity es st1 = (running, st)"
        using Cons.prems(4) Inr by (simp add: run_writer_step)
      moreover have "\<forall>t. Turn t \<in> set es \<longrightarrow> (\<forall>i. \<not> tn_fault t i)" using Cons.prems(5) by simp
      ultimately show ?thesis by (intro Cons.IH) simp_all
    next
      case (Inl st1)
      then obtain t where e: "e = Turn t" by (cases e) simp_all
      then have stop: "st = st1" "\<not> running" "writer_turn S rfc3339 cfg t st0 = Inl st1"
        using Inl Cons.prems(4) by (simp_all add: run_writer_step)
      have faults: "\<not> tn_fault t 0" "\<not> tn_fault t 1" using Cons.prems(5) e by simp_all
      have "st1 = finish_shutdown S t [] st0" "wr_starter st0 = None"
        using writer_stops[OF stop(3)] Cons.prems(2) by simp_all
      then have "wr_written st = wr_written st0 @ wr_queue st0" "wr_queue st = []" "wr_starter st = None"
          "wr_accepted st = wr_accepted st0"
        using faults stop assms(3) by (auto simp: finish_shutdown_def Let_def insert_batch_blocked_def insert_batch_def)
      then show ?thesis
        using Cons.prems(1-3) \<open>wr_starter st0 = None\<close> stop(2) by (auto simp: mode_inv_def hist_def)
    qed
  qed
  from this[of "writer_start db"] show ?thesis
    using assms(1) kept_in_order_start[of db] by (simp add: kept_in_order_def writer_start_def hist_def)
qed

text \<open>A stop signal that comes while a sender is left, and the process's own logger keeps one as
  long as it lives, throws away all that is in the channel: the writer empties it and writes
  none of it.\<close>

theorem shutdown_loses_channel:
  assumes "\<not> wr_degraded st" "wr_starter st = None" "tn_cancelled t" "\<not> wr_closed st"
  shows "\<exists>st'. writer_turn S rfc3339 cfg t st = Inl st' \<and> wr_queue st' = [] \<and>
    wr_written st' = wr_written st \<and> wr_db st' = wr_db st"
  using assms
  by (simp add: writer_turn_def normal_turn_def Let_def finish_shutdown_def insert_batch_blocked_def)

text \<open>Under load the writer neither reports drops nor prunes: as long as a record waits in the channel
  when a turn begins, the drop counter, its window and the time of the last prune stay as they are.\<close>

theorem busy_channel_starves_ticks:
  assumes "\<not> wr_degraded st" "wr_queue st \<noteq> []" "\<not> tn_cancelled t"
  shows "\<exists>st'. writer_turn S rfc3339 cfg t st = Inr st' \<and> wr_dropped st' = wr_dropped st \<and>
    wr_drop_since st' = wr_drop_since st \<and> wr_last_prune st' = wr_last_prune st"
proof -
  have same: "wr_dropped (heartbeat w n (flush_batch S cfg t r st0)) = wr_dropped st0 \<and>
      wr_drop_since (heartbeat w n (flush_batch S cfg t r st0)) = wr_drop_since st0 \<and>
      wr_last_prune (heartbeat w n (flush_batch S cfg t r st0)) = wr_last_prune st0" for w n r st0
    by (simp add: heartbeat_def publish_status_def flush_batch_def Let_def degrade_def insert_batch_blocked_def insert_batch_def)
  obtain r rest where "wr_queue st = r # rest" using assms(2) by (cases "wr_queue st") auto
  then show ?thesis using assms(1,3) same
    by (cases "wr_starter st") (simp_all add: writer_turn_def normal_turn_def Let_def)
qed

section \<open>What an event is recorded as\<close>

text \<open>The document of an event has its message and target, and every field under its name, the last
  value when a name repeats; only a field called target gives way to the event's own target.\<close>

lemma visitor_field:
  "name \<noteq> lit ''message'' \<Longrightarrow> fmlookup (snd (record_value S other x v)) name =
    (if other = name then (case x of
        FDebug t \<Rightarrow> Some (case sj_from_str S t of Some j \<Rightarrow> j | None \<Rightarrow> JStr t)
      | FStr t \<Rightarrow> Some (JStr t) | FBytes b \<Rightarrow> Some (JStr (from_utf8_lossy b)) | FError t \<Rightarrow> Some (JStr t)
      | FNum n \<Rightarrow> Some (JNum n) | FNonFinite t \<Rightarrow> Some (JStr t) | FBool b \<Rightarrow> Some (JBool b))
     else fmlookup (snd v) name)"
  by (cases x) (auto simp: record_debug_def record_text_def)

lemma event_target: "jget (ev_msg (on_event S ts level source target fs)) ''target'' = Some (JStr target)"
  by (simp add: on_event_def Let_def jput_def)

section \<open>The theorems at work\<close>

definition demo_text_serde :: "nat serde" where
  "demo_text_serde = \<lparr>sj_from_str = (\<lambda>_. None), sj_from_slice = (\<lambda>_. None), sj_to_string = (\<lambda>_. []), sj_to_vec = (\<lambda>_. []),
     sj_as_i64 = (\<lambda>_. None), sj_from_i64 = unat\<rparr>"

definition demo_event :: "nat log_event" where
  "demo_event = \<lparr>ev_ts = 1, ev_level = LogstoreLevel 4, ev_source = [], ev_msg = JNull\<rparr>"

definition demo_turn :: "bool \<Rightarrow> nat turn" where
  "demo_turn cancelled = \<lparr>tn_now = 0, tn_wall = 0, tn_cancelled = cancelled, tn_slept = False, tn_fault = (\<lambda>_. False),
     tn_late = (\<lambda>_. False), tn_arrivals = [], tn_end = 0\<rparr>"

definition demo_steps :: "nat wstep list" where
  "demo_steps = [Send demo_event, Turn (demo_turn False), Send demo_event]"

lemma demo_writer_run:
  "\<exists>st :: nat writer. run_writer demo_text_serde (\<lambda>_. []) writer_config_default 8 demo_steps (writer_start []) = (True, st) \<and>
     \<not> wr_lossy st \<and> wr_queue st = [demo_event] \<and> \<not> wr_degraded st \<and> wr_starter st = None \<and> \<not> wr_closed st \<and>
     wr_written st = [demo_event]"
  by (simp add: demo_steps_def layer_send_def writer_start_def writer_turn_def normal_turn_def Let_def flush_batch_def
      insert_batch_blocked_def insert_batch_def heartbeat_def publish_status_def demo_turn_def status_ok_def)

theorem outage_keeps_warnings_witness:
  "\<exists>st :: nat writer. run_writer demo_text_serde (\<lambda>_. []) writer_config_default 8 demo_steps (writer_start []) = (True, st) \<and>
    filter keepable (wr_written st @ wr_pending st @ wr_ring st @ opt_list (wr_starter st) @ wr_queue st) =
    filter keepable (wr_accepted st)"
  using demo_writer_run outage_keeps_warnings by blast

theorem healthy_run_loses_nothing_witness:
  "\<exists>st :: nat writer. run_writer demo_text_serde (\<lambda>_. []) writer_config_default 8 demo_steps (writer_start []) = (True, st) \<and>
    filter genuine (wr_written st @ opt_list (wr_starter st) @ wr_queue st) = filter genuine (wr_accepted st)"
proof -
  have "\<forall>t. Turn t \<in> set demo_steps \<longrightarrow> (\<forall>i. \<not> tn_fault t i)" by (simp add: demo_steps_def demo_turn_def)
  then show ?thesis using demo_writer_run healthy_run_loses_nothing by blast
qed

theorem shutdown_loses_channel_witness:
  "\<exists>(st :: nat writer) st'. wr_queue st = [demo_event] \<and>
    writer_turn demo_text_serde (\<lambda>_. []) writer_config_default (demo_turn True) st = Inl st' \<and> wr_queue st' = [] \<and>
    wr_written st' = wr_written st"
proof -
  have c: "tn_cancelled (demo_turn True)" by (simp add: demo_turn_def)
  obtain st :: "nat writer" where st: "wr_queue st = [demo_event]" "\<not> wr_degraded st" "wr_starter st = None" "\<not> wr_closed st"
    using demo_writer_run by blast
  show ?thesis using shutdown_loses_channel[OF st(2,3) c st(4)] st(1) by blast
qed

theorem busy_channel_starves_ticks_witness:
  "\<exists>(st :: nat writer) st'. wr_queue st = [demo_event] \<and>
    writer_turn demo_text_serde (\<lambda>_. []) writer_config_default (demo_turn False) st = Inr st' \<and> wr_dropped st' = wr_dropped st"
proof -
  have c: "\<not> tn_cancelled (demo_turn False)" by (simp add: demo_turn_def)
  obtain st :: "nat writer" where st: "wr_queue st = [demo_event]" "\<not> wr_degraded st" using demo_writer_run by blast
  then have "wr_queue st \<noteq> []" by simp
  from busy_channel_starves_ticks[OF st(2) this c] st(1) show ?thesis by blast
qed

end
