(* ===== verification/HfApi.thy ===== *)
theory HfApi
  imports Quants Json "HOL-Library.Multiset"
begin

text \<open>
  What the proxy and the hosts read from the Hugging Face API
  (\<^verbatim>\<open>tama-core/src/models/pull/api.rs\<close>, \<^verbatim>\<open>models/pull/mod.rs\<close>): the listing of a
  repository with its two candidate names, the table of its blobs, the grouping of shards into
  quants, and the metadata merged from the API and the model card. The answers of the API are
  arguments, an error being its text. File names are \<open>string\<close>s: a name of the JSON document is taken
  over code point by code point, which is exact below 256.
\<close>

section \<open>Data\<close>

record remote_gguf =
  rg_filename :: string
  rg_quant :: "string option"

record repo_gguf_listing =
  rl_repo_id :: string
  rl_commit_sha :: string
  rl_files :: "remote_gguf list"

record blob_info =
  bi_filename :: string
  bi_blob_id :: "string option"
  bi_size :: "64 word option"
  bi_lfs_sha256 :: "string option"

record grouped_quant =
  gq_filename :: string
  gq_quant :: "string option"
  gq_shards :: "string list"
  gq_size_bytes :: "64 word option"
  gq_kind :: quant_kind

section \<open>The listing of a repository\<close>

definition gguf_candidates :: "string \<Rightarrow> string list" where
  "gguf_candidates repo_id =
     (if ends_with (to_upper repo_id) ''-GGUF'' then [repo_id] else [repo_id, repo_id @ ''-GGUF''])"

definition remote_ggufs :: "string list \<Rightarrow> remote_gguf list" where
  "remote_ggufs siblings =
     map (\<lambda>f. \<lparr>rg_filename = f, rg_quant = infer_quant_from_filename f\<rparr>)
       (filter (\<lambda>f. ends_with f ''.gguf'') siblings)"

text \<open>\<open>info\<close> answers with the commit and the file names of a repository, or with an error.\<close>

fun try_candidates ::
  "(string \<Rightarrow> string + string \<times> string list) \<Rightarrow> string list \<Rightarrow> string option \<Rightarrow> string option + repo_gguf_listing" where
  "try_candidates info [] last_error = Inl last_error"
| "try_candidates info (c # cs) last_error =
     (case info c of
        Inl e \<Rightarrow> try_candidates info cs (Some (CHR 0x27 # c @ CHR 0x27 # '': '' @ e))
      | Inr (sha, siblings) \<Rightarrow>
          (if remote_ggufs siblings \<noteq> []
           then Inr \<lparr>rl_repo_id = c, rl_commit_sha = sha, rl_files = remote_ggufs siblings\<rparr>
           else try_candidates info cs
             (Some (CHR 0x27 # c @ CHR 0x27 # '' exists but contains no .gguf files''))))"

definition list_gguf_files ::
  "(string \<Rightarrow> string + string \<times> string list) \<Rightarrow> string \<Rightarrow> string + repo_gguf_listing" where
  "list_gguf_files info repo_id =
     (case try_candidates info (gguf_candidates repo_id) None of
        Inr l \<Rightarrow> Inr l
      | Inl e \<Rightarrow> Inl (''No GGUF files found. Tried: '' @ join_with '', '' (gguf_candidates repo_id)
          @ CHR 0x0A # ''Last error: '' @ (case e of Some d \<Rightarrow> d | None \<Rightarrow> ''unknown error'')))"

section \<open>Blobs\<close>

definition as_name :: "'n json \<Rightarrow> string option" where
  "as_name v = map_option (map char_of) (as_str v)"

definition json_i64 :: "'n serde \<Rightarrow> 'n json \<Rightarrow> 64 word option" where
  "json_i64 S v = (case v of JNum n \<Rightarrow> sj_as_i64 S n | _ \<Rightarrow> None)"

definition json_siblings :: "'n json \<Rightarrow> 'n json list option" where
  "json_siblings v = Option.bind (jget v ''siblings'') as_array"

definition blob_of :: "'n serde \<Rightarrow> 'n json \<Rightarrow> string \<Rightarrow> blob_info" where
  "blob_of S sibling rfilename =
     \<lparr>bi_filename = rfilename,
      bi_blob_id = Option.bind (jget sibling ''blobId'') as_name,
      bi_size = Option.bind (jget sibling ''size'') (json_i64 S),
      bi_lfs_sha256 = Option.bind (Option.bind (jget sibling ''lfs'') (\<lambda>l. jget l ''sha256'')) as_name\<rparr>"

definition put_sibling :: "'n serde \<Rightarrow> 'n json \<Rightarrow> (string, blob_info) hmap \<Rightarrow> (string, blob_info) hmap" where
  "put_sibling S sibling result =
     (case Option.bind (jget sibling ''rfilename'') as_name of
        None \<Rightarrow> result
      | Some f \<Rightarrow> if ends_with f ''.gguf'' then hm_insert f (blob_of S sibling f) result else result)"

definition parse_blob_siblings :: "'n serde \<Rightarrow> 'n json \<Rightarrow> (string, blob_info) hmap" where
  "parse_blob_siblings S v =
     (case json_siblings v of None \<Rightarrow> [] | Some ss \<Rightarrow> fold (put_sibling S) ss [])"

text \<open>Sizes are added as \<^verbatim>\<open>u64\<close> with the wrap-around of a release build.\<close>

record repo_stats =
  rs_total_bytes :: "64 word"
  rs_file_count :: "32 word"

definition sibling_sizes :: "'n serde \<Rightarrow> 'n json list \<Rightarrow> 64 word list" where
  "sibling_sizes S ss = filter (\<lambda>w. 0 < sint w)
     (List.map_filter (\<lambda>s. Option.bind (jget s ''size'') (json_i64 S)) ss)"

definition parse_siblings_stats :: "'n serde \<Rightarrow> 'n json \<Rightarrow> repo_stats" where
  "parse_siblings_stats S v =
     (case json_siblings v of
        None \<Rightarrow> \<lparr>rs_total_bytes = 0, rs_file_count = 0\<rparr>
      | Some ss \<Rightarrow> \<lparr>rs_total_bytes = sum_list (sibling_sizes S ss), rs_file_count = of_nat (length ss)\<rparr>)"

section \<open>Shards\<close>

definition directory_prefix :: "string \<Rightarrow> string option" where
  "directory_prefix f =
     (case dropWhile (\<lambda>c. c \<noteq> CHR ''/'') (rev f) of [] \<Rightarrow> None | _ # d \<Rightarrow> Some (rev d))"

definition determine_primary_shard :: "string \<Rightarrow> (string, blob_info) hmap \<Rightarrow> bool" where
  "determine_primary_shard filename blobs =
     (case directory_prefix filename of
        None \<Rightarrow> True
      | Some d \<Rightarrow> (case sort (filter (\<lambda>k. directory_prefix k = Some d) (map fst blobs)) of
            [] \<Rightarrow> True
          | f # _ \<Rightarrow> f = filename))"

definition group_key :: "blob_info \<Rightarrow> string" where
  "group_key b = (case directory_prefix (bi_filename b) of Some p \<Rightarrow> p | None \<Rightarrow> bi_filename b)"

definition group_push :: "blob_info \<Rightarrow> (string, blob_info list) hmap \<Rightarrow> (string, blob_info list) hmap" where
  "group_push b groups =
     hm_insert (group_key b) ((case hm_get groups (group_key b) of Some g \<Rightarrow> g | None \<Rightarrow> []) @ [b]) groups"

text \<open>\<open>None\<close> is the panic of \<^verbatim>\<open>group[0]\<close>.\<close>

definition grouped_of :: "blob_info list \<Rightarrow> grouped_quant option" where
  "grouped_of members =
     (case sort_key bi_filename members of
        [] \<Rightarrow> None
      | primary # rest \<Rightarrow>
          Some \<lparr>gq_filename = bi_filename primary,
            gq_quant = (if CHR ''/'' \<in> set (bi_filename primary)
               then directory_prefix (bi_filename primary)
               else infer_quant_from_filename (bi_filename primary)),
            gq_shards = (if CHR ''/'' \<in> set (bi_filename primary)
               then map bi_filename (primary # rest) else []),
            gq_size_bytes = (if list_all (\<lambda>b. bi_size b \<noteq> None) (primary # rest)
               then Some (sum_list (List.map_filter bi_size (primary # rest))) else None),
            gq_kind = kind_from_filename (bi_filename primary)\<rparr>)"

definition group_sharded_quants :: "(string, blob_info) hmap \<Rightarrow> grouped_quant list option" where
  "group_sharded_quants blobs =
     those (map (\<lambda>(k, g). grouped_of g) (fold group_push (map snd blobs) []))"

section \<open>Metadata\<close>

record hf_model_metadata =
  hf_format :: "string option"
  hf_base_model :: "string option"
  hf_pipeline_tag :: "string option"
  hf_total_params :: "string option"
  hf_active_params :: "string option"
  hf_architecture_type :: "string option"
  hf_context_length :: "u32 option"
  hf_num_layers :: "u32 option"
  hf_last_modified :: "string option"
  hf_total_size_bytes :: "64 word option"
  hf_file_count :: "32 word option"

definition hf_metadata_default :: hf_model_metadata where
  "hf_metadata_default = \<lparr>hf_format = None, hf_base_model = None, hf_pipeline_tag = None,
     hf_total_params = None, hf_active_params = None, hf_architecture_type = None,
     hf_context_length = None, hf_num_layers = None, hf_last_modified = None,
     hf_total_size_bytes = None, hf_file_count = None\<rparr>"

definition detect_hf_format :: "string list \<Rightarrow> string" where
  "detect_hf_format filenames =
     (let some_ends = (\<lambda>e. list_ex (\<lambda>f. ends_with (to_lower f) e) filenames) in
      if some_ends ''.gguf'' then ''gguf''
      else if some_ends ''.safetensors'' \<or> some_ends ''.bin'' then ''transformers''
      else ''gguf'')"

definition infer_modalities_from_pipeline :: "string option \<Rightarrow> (string list \<times> string list) option" where
  "infer_modalities_from_pipeline pipeline_tag =
     (case pipeline_tag of
        None \<Rightarrow> None
      | Some t \<Rightarrow> (let tag = to_lower t; has = contains_str tag in
          if has ''vision'' \<or> has ''image-text'' then Some ([''text'', ''image''], [''text''])
          else if has ''text-generation'' \<or> has ''conversational'' \<or> has ''chat''
            then Some ([''text''], [''text''])
          else if has ''image-classification'' \<or> has ''object-detection'' then Some ([''image''], [''text''])
          else if has ''text-to-speech'' \<or> has ''tts'' then Some ([''text''], [''audio''])
          else if has ''speech'' \<or> has ''audio'' then Some ([''audio''], [''text''])
          else if has ''embedding'' \<or> has ''feature-extraction'' then Some ([''text''], [''embedding''])
          else if has ''image-generation'' \<or> has ''text-to-image'' then Some ([''text''], [''image''])
          else None))"

definition base_model_of :: "string list \<Rightarrow> string option" where
  "base_model_of tags = fold (\<lambda>t m.
     if starts_with t ''base_model:'' \<and> \<not> starts_with t ''base_model:quantized:''
     then strip_prefix ''base_model:'' t else m) tags None"

definition json_names :: "'n json \<Rightarrow> string \<Rightarrow> string list" where
  "json_names v k = (case Option.bind (jget v k) as_array of None \<Rightarrow> [] | Some xs \<Rightarrow> List.map_filter as_name xs)"

definition sibling_names :: "'n json \<Rightarrow> string list" where
  "sibling_names v = (case json_siblings v of
     None \<Rightarrow> [] | Some ss \<Rightarrow> List.map_filter (\<lambda>s. Option.bind (jget s ''rfilename'') as_name) ss)"

definition api_metadata :: "'n json \<Rightarrow> hf_model_metadata" where
  "api_metadata v = hf_metadata_default\<lparr>
     hf_format := Some (detect_hf_format (sibling_names v)),
     hf_base_model := base_model_of (json_names v ''tags''),
     hf_pipeline_tag := Option.bind (jget v ''pipeline_tag'') as_name,
     hf_last_modified := Option.bind (jget v ''lastModified'') as_name\<rparr>"

definition or_else :: "'a option \<Rightarrow> 'a option \<Rightarrow> 'a option" where
  "or_else a b = (case a of None \<Rightarrow> b | Some x \<Rightarrow> Some x)"

definition merge_readme :: "hf_model_metadata \<Rightarrow> hf_model_metadata \<Rightarrow> hf_model_metadata" where
  "merge_readme meta readme = meta\<lparr>
     hf_total_params := or_else (hf_total_params meta) (hf_total_params readme),
     hf_active_params := or_else (hf_active_params meta) (hf_active_params readme),
     hf_architecture_type := or_else (hf_architecture_type meta) (hf_architecture_type readme),
     hf_context_length := or_else (hf_context_length meta) (hf_context_length readme),
     hf_num_layers := or_else (hf_num_layers meta) (hf_num_layers readme)\<rparr>"

text \<open>
  \<open>model\<close>, \<open>readme\<close> and \<open>stats\<close> are the answers of the three requests; \<open>readme\<close> is the parsed
  model card, where one of the two branches has one.
\<close>

definition lookup_hf_metadata ::
  "string + 'n json \<Rightarrow> hf_model_metadata option \<Rightarrow> string + repo_stats \<Rightarrow> string + hf_model_metadata" where
  "lookup_hf_metadata model readme stats =
     (case model of
        Inl e \<Rightarrow> Inl e
      | Inr v \<Rightarrow> Inr (let m = (case readme of None \<Rightarrow> api_metadata v | Some r \<Rightarrow> merge_readme (api_metadata v) r) in
          case stats of
            Inl e \<Rightarrow> m
          | Inr s \<Rightarrow> m\<lparr>hf_total_size_bytes := Some (rs_total_bytes s), hf_file_count := Some (rs_file_count s)\<rparr>))"

section \<open>The listing\<close>

lemma remote_ggufs_names: "map rg_filename (remote_ggufs ss) = filter (\<lambda>f. ends_with f ''.gguf'') ss"
  by (simp add: remote_ggufs_def comp_def)

lemma try_candidates_Inr:
  "try_candidates info cs e = Inr l \<Longrightarrow>
     rl_repo_id l \<in> set cs \<and> rl_files l \<noteq> []
     \<and> (\<exists>ss. info (rl_repo_id l) = Inr (rl_commit_sha l, ss) \<and> rl_files l = remote_ggufs ss)"
proof (induction cs arbitrary: e)
  case (Cons c cs)
  show ?case
  proof (cases "info c")
    case (Inl x)
    with Cons show ?thesis by auto
  next
    case (Inr r)
    obtain sha ss where r: "r = (sha, ss)" by (cases r)
    show ?thesis
    proof (cases "remote_ggufs ss = []")
      case True
      with Cons.prems Inr r have "\<exists>e'. try_candidates info cs e' = Inr l" by auto
      then show ?thesis using Cons.IH by auto
    next
      case False
      with Cons.prems Inr r show ?thesis by auto
    qed
  qed
qed simp

lemma list_gguf_files_Inr:
  assumes "list_gguf_files info repo_id = Inr l"
  shows "rl_repo_id l \<in> {repo_id, repo_id @ ''-GGUF''}" "rl_files l \<noteq> []"
    "\<exists>ss. info (rl_repo_id l) = Inr (rl_commit_sha l, ss) \<and> rl_files l = remote_ggufs ss"
  using assms try_candidates_Inr [of info "gguf_candidates repo_id" None l]
  by (auto simp: list_gguf_files_def gguf_candidates_def split: sum.splits if_splits)

section \<open>Directories and groups\<close>

lemma dropWhile_other: "dropWhile (\<lambda>c. c \<noteq> x) xs = [] \<longleftrightarrow> x \<notin> set xs"
  by (induction xs) auto

lemma directory_prefix_None: "directory_prefix f = None \<longleftrightarrow> CHR ''/'' \<notin> set f"
proof -
  have "directory_prefix f = None \<longleftrightarrow> dropWhile (\<lambda>c. c \<noteq> CHR ''/'') (rev f) = []"
    unfolding directory_prefix_def by (simp split: list.split del: dropWhile_eq_Nil_conv)
  then show ?thesis unfolding dropWhile_other set_rev .
qed

lemma hm_get_group_push:
  "hm_get (group_push b gs) k =
     (if group_key b = k then Some ((case hm_get gs k of Some h \<Rightarrow> h | None \<Rightarrow> []) @ [b]) else hm_get gs k)"
  by (simp add: group_push_def)

lemma group_push_get:
  "hm_get (fold group_push bs gs) k =
     (if filter (\<lambda>b. group_key b = k) bs = [] then hm_get gs k
      else Some ((case hm_get gs k of Some h \<Rightarrow> h | None \<Rightarrow> []) @ filter (\<lambda>b. group_key b = k) bs))"
proof (induction bs arbitrary: gs)
  case (Cons b bs)
  show ?case
    by (cases "group_key b = k") (simp_all add: Cons.IH hm_get_group_push)
qed simp

lemma hm_wf_groups: "hm_wf gs \<Longrightarrow> hm_wf (fold group_push bs gs)"
  by (induction bs arbitrary: gs) (simp_all add: group_push_def)

lemma groups_get:
  "hm_get (fold group_push bs []) k =
     (if filter (\<lambda>b. group_key b = k) bs = [] then None else Some (filter (\<lambda>b. group_key b = k) bs))"
  by (simp add: group_push_get)

lemma groups_mem:
  "(k, g) \<in> set (fold group_push bs []) \<longleftrightarrow> g = filter (\<lambda>b. group_key b = k) bs \<and> g \<noteq> []"
proof -
  have "(k, g) \<in> set (fold group_push bs []) \<longleftrightarrow> hm_get (fold group_push bs []) k = Some g"
    using hm_get_in_set [OF hm_wf_groups, of "[]" bs k g] by simp
  then show ?thesis by (auto simp only: groups_get split: if_splits)
qed

lemma mset_group_push: "mset (concat (map snd (group_push b gs))) = add_mset b (mset (concat (map snd gs)))"
proof -
  have "mset (concat (map snd (hm_insert k ((case hm_get gs k of Some h \<Rightarrow> h | None \<Rightarrow> []) @ [b]) gs))) =
      add_mset b (mset (concat (map snd gs)))" for k
    by (induction gs) (auto simp: hm_insert_def hm_get_def)
  then show ?thesis by (simp add: group_push_def)
qed

lemma groups_mset: "mset (concat (map snd (fold group_push bs gs))) = mset (concat (map snd gs)) + mset bs"
  by (induction bs arbitrary: gs) (simp_all add: mset_group_push)


section \<open>Quants as groups of files\<close>

definition quant_files :: "grouped_quant \<Rightarrow> string list" where
  "quant_files q = (if gq_shards q = [] then [gq_filename q] else gq_shards q)"

text \<open>
  In a repository no name is both a file and a directory; the table of its blobs is keyed by
  the names.
\<close>

definition shard_layout :: "(string, blob_info) hmap \<Rightarrow> bool" where
  "shard_layout blobs \<longleftrightarrow> hm_wf blobs \<and> (\<forall>(k, b)\<in>set blobs. bi_filename b = k)
     \<and> (\<forall>k\<in>fst ` set blobs. \<forall>k'\<in>fst ` set blobs. directory_prefix k' \<noteq> Some k)"

lemma parse_blob_siblings_named:
  "hm_wf (parse_blob_siblings S v)" "(k, b) \<in> set (parse_blob_siblings S v) \<Longrightarrow> bi_filename b = k"
proof -
  define P where "P m \<longleftrightarrow> hm_wf m \<and> (\<forall>k b. hm_get m k = Some b \<longrightarrow> bi_filename b = k)" for m :: "(string, blob_info) hmap"
  have step: "P m \<Longrightarrow> P (put_sibling S s m)" for s m
    by (auto simp: P_def put_sibling_def blob_of_def split: option.splits)
  have "P m \<Longrightarrow> P (fold (put_sibling S) ss m)" for ss m
    by (induction ss arbitrary: m) (simp_all add: step)
  moreover have "P []" by (simp add: P_def)
  ultimately have "P (parse_blob_siblings S v)"
    by (auto simp: parse_blob_siblings_def split: option.splits)
  then show "hm_wf (parse_blob_siblings S v)" "(k, b) \<in> set (parse_blob_siblings S v) \<Longrightarrow> bi_filename b = k"
    by (auto simp: P_def hm_get_in_set)
qed

lemma map_sort_key: "map f (sort_key f xs) = sort (map f xs)"
  by (rule properties_for_sort [symmetric]) simp_all

lemma those_map: "(\<And>x. x \<in> set xs \<Longrightarrow> f x = Some (g x)) \<Longrightarrow> those (map f xs) = Some (map g xs)"
  by (induction xs) simp_all

lemma grouped_of_sorted:
  assumes "sort (map bi_filename g) = p # ps"
  shows "\<exists>q. grouped_of g = Some q \<and> gq_filename q = p
    \<and> quant_files q = (if CHR ''/'' \<in> set p then p # ps else [p])"
proof -
  obtain b bs where s: "sort_key bi_filename g = b # bs" "bi_filename b = p" "map bi_filename bs = ps"
    using assms map_sort_key [of bi_filename g] by (cases "sort_key bi_filename g") auto
  then show ?thesis
    by (simp add: grouped_of_def quant_files_def)
qed

lemma layout_names:
  assumes "shard_layout blobs"
  shows "map bi_filename (map snd blobs) = map fst blobs" "distinct (map fst blobs)"
proof -
  have "\<forall>(k, b)\<in>set blobs. bi_filename b = k" using assms by (simp add: shard_layout_def)
  then show "map bi_filename (map snd blobs) = map fst blobs" by (induction blobs) auto
  show "distinct (map fst blobs)" using assms by (simp add: shard_layout_def hm_wf_def)
qed

text \<open>The names in a group: all files of one directory, or one file outside every directory.\<close>

definition name_key :: "string \<Rightarrow> string" where
  "name_key f = (case directory_prefix f of Some p \<Rightarrow> p | None \<Rightarrow> f)"

definition names_in :: "string \<Rightarrow> (string, blob_info) hmap \<Rightarrow> string list" where
  "names_in k blobs = filter (\<lambda>f. name_key f = k) (map fst blobs)"

lemma group_names:
  assumes "shard_layout blobs"
  shows "map bi_filename (filter (\<lambda>b. group_key b = k) (map snd blobs)) = names_in k blobs"
proof -
  have "(\<lambda>b. group_key b = k) = (\<lambda>f. name_key f = k) \<circ> bi_filename"
    by (simp add: fun_eq_iff name_key_def group_key_def)
  then have "map bi_filename (filter (\<lambda>b. group_key b = k) (map snd blobs))
      = filter (\<lambda>f. name_key f = k) (map bi_filename (map snd blobs))"
    by (simp only: filter_map)
  then show ?thesis
    unfolding names_in_def layout_names (1) [OF assms] .
qed

lemma filter_one: "distinct xs \<Longrightarrow> x \<in> set xs \<Longrightarrow> filter (\<lambda>y. y = x) xs = [x]"
  by (induction xs) (auto simp: filter_empty_conv)

lemma names_in_plain:
  assumes "shard_layout blobs" "f \<in> fst ` set blobs" "directory_prefix f = None"
  shows "names_in f blobs = [f]"
proof -
  have "\<forall>f'\<in>set (map fst blobs). name_key f' = f \<longleftrightarrow> f' = f"
    using assms by (auto simp: shard_layout_def name_key_def split: option.splits)
  then have "names_in f blobs = filter (\<lambda>f'. f' = f) (map fst blobs)"
    unfolding names_in_def by (intro filter_cong) auto
  also have "\<dots> = [f]"
    using layout_names (2) [OF assms(1)] assms(2) by (simp add: filter_one)
  finally show ?thesis .
qed

lemma names_in_directory:
  assumes "shard_layout blobs" "f \<in> fst ` set blobs" "directory_prefix f = Some d"
  shows "names_in d blobs = filter (\<lambda>k. directory_prefix k = Some d) (map fst blobs)"
proof -
  have "\<forall>k\<in>set (map fst blobs). name_key k = d \<longleftrightarrow> directory_prefix k = Some d"
    using assms by (auto simp: shard_layout_def name_key_def split: option.splits)
  then show ?thesis unfolding names_in_def by (intro filter_cong) auto
qed

definition quant_of_group :: "blob_info list \<Rightarrow> grouped_quant" where
  "quant_of_group g = (case grouped_of g of Some q \<Rightarrow> q | None \<Rightarrow>
     \<lparr>gq_filename = [], gq_quant = None, gq_shards = [], gq_size_bytes = None, gq_kind = QModel\<rparr>)"

lemma group_quant:
  assumes "shard_layout blobs" "(k, g) \<in> set (fold group_push (map snd blobs) [])"
  shows "grouped_of g = Some (quant_of_group g)"
    "mset (quant_files (quant_of_group g)) = mset (map bi_filename g)"
    "\<exists>ps. sort (names_in k blobs) = gq_filename (quant_of_group g) # ps"
proof -
  have g: "map bi_filename g = names_in k blobs" "names_in k blobs \<noteq> []"
    using assms(2) group_names [OF assms(1), of k] by (auto simp only: groups_mem map_is_Nil_conv)
  obtain p ps where s: "sort (names_in k blobs) = p # ps"
    using g(2) by (cases "sort (names_in k blobs)") (auto dest: arg_cong [where f = length])
  have p: "p \<in> set (names_in k blobs)"
    using s by (metis list.set_intros(1) set_sort)
  obtain q where q: "grouped_of g = Some q" "gq_filename q = p"
      "quant_files q = (if CHR ''/'' \<in> set p then p # ps else [p])"
    using grouped_of_sorted [of g p ps] g s by auto
  then have qq: "quant_of_group g = q" by (simp add: quant_of_group_def)
  show "grouped_of g = Some (quant_of_group g)" by (simp add: q qq)
  show "\<exists>ps. sort (names_in k blobs) = gq_filename (quant_of_group g) # ps" by (simp add: q qq s)
  have "mset (quant_files q) = mset (p # ps)"
  proof (cases "directory_prefix p")
    case None
    from p have "name_key p = k" "p \<in> fst ` set blobs" by (auto simp: names_in_def)
    with None have "names_in k blobs = [p]"
      using names_in_plain [OF assms(1)] by (auto simp: name_key_def)
    with s have "ps = []" by simp
    with q(3) show ?thesis by simp
  next
    case (Some d)
    then have "CHR ''/'' \<in> set p" using directory_prefix_None [of p] by auto
    then show ?thesis unfolding q(3) by simp
  qed
  then show "mset (quant_files (quant_of_group g)) = mset (map bi_filename g)"
    unfolding qq g(1) s [symmetric] by simp
qed

lemma primary_iff:
  assumes "shard_layout blobs" "f \<in> fst ` set blobs"
  shows "determine_primary_shard f blobs \<longleftrightarrow> (\<exists>ps. sort (names_in (name_key f) blobs) = f # ps)"
proof (cases "directory_prefix f")
  case None
  then show ?thesis
    using names_in_plain [OF assms None] by (simp add: determine_primary_shard_def name_key_def)
next
  case (Some d)
  have "filter (\<lambda>k. directory_prefix k = Some d) (map fst blobs) \<noteq> []"
    using assms(2) Some by (auto simp: filter_empty_conv)
  then obtain p ps where "sort (filter (\<lambda>k. directory_prefix k = Some d) (map fst blobs)) = p # ps"
    by (metis list.exhaust sort_key_simps(1) length_0_conv length_sort)
  then show ?thesis
    using names_in_directory [OF assms Some] Some
    by (simp add: determine_primary_shard_def name_key_def)
qed

lemma mset_concat_map_cong:
  "(\<And>x. x \<in> set xs \<Longrightarrow> mset (f x) = mset (g x)) \<Longrightarrow> mset (concat (map f xs)) = mset (concat (map g xs))"
  by (induction xs) simp_all

lemma primaries:
  assumes "shard_layout blobs"
  shows "gq_filename ` quant_of_group ` snd ` set (fold group_push (map snd blobs) []) =
    {f \<in> fst ` set blobs. determine_primary_shard f blobs}" (is "?L = ?R")
proof (intro subset_antisym subsetI)
  fix f assume "f \<in> ?L"
  then obtain k g where kg: "(k, g) \<in> set (fold group_push (map snd blobs) [])"
      "f = gq_filename (quant_of_group g)" by auto
  obtain ps where ps: "sort (names_in k blobs) = f # ps"
    using group_quant (3) [OF assms kg(1)] kg(2) by auto
  then have "f \<in> set (names_in k blobs)" by (metis list.set_intros(1) set_sort)
  then have "f \<in> fst ` set blobs" "name_key f = k" by (auto simp: names_in_def)
  with ps show "f \<in> ?R" using primary_iff [OF assms] by simp
next
  fix f assume f: "f \<in> ?R"
  let ?g = "filter (\<lambda>b. group_key b = name_key f) (map snd blobs)"
  have "f \<in> set (names_in (name_key f) blobs)" using f by (auto simp: names_in_def)
  then have "?g \<noteq> []" using group_names [OF assms, of "name_key f"] by auto
  then have g: "(name_key f, ?g) \<in> set (fold group_push (map snd blobs) [])" unfolding groups_mem by simp
  obtain ps where "sort (names_in (name_key f) blobs) = f # ps"
    using f primary_iff [OF assms] by auto
  then have f_eq: "gq_filename (quant_of_group ?g) = f"
    using group_quant (3) [OF assms g] by auto
  show "f \<in> ?L"
    using imageI [OF imageI [OF imageI [OF g]], of gq_filename quant_of_group snd]
    unfolding snd_conv f_eq .
qed

text \<open>
  Grouping the files of a repository into quants succeeds, puts every file into exactly one
  quant, and names as the quants' files exactly the primary shards.
\<close>

theorem shards_partition:
  assumes "shard_layout blobs"
  shows "\<exists>qs. group_sharded_quants blobs = Some qs
    \<and> mset (concat (map quant_files qs)) = mset (map fst blobs)
    \<and> gq_filename ` set qs = {f \<in> fst ` set blobs. determine_primary_shard f blobs}"
proof -
  let ?gs = "fold group_push (map snd blobs) []"
  let ?qs = "map (\<lambda>(k, g). quant_of_group g) ?gs"
  have "group_sharded_quants blobs = Some ?qs"
    unfolding group_sharded_quants_def
    by (rule those_map) (use group_quant (1) [OF assms] in auto)
  moreover have "mset (concat (map quant_files ?qs)) = mset (map fst blobs)"
  proof -
    have "mset (concat (map quant_files ?qs)) = mset (concat (map (map bi_filename \<circ> snd) ?gs))"
      unfolding map_map
      by (rule mset_concat_map_cong) (use group_quant (2) [OF assms] in auto)
    also have "\<dots> = image_mset bi_filename (mset (concat (map snd ?gs)))"
      by (simp add: map_concat flip: mset_map)
    also have "\<dots> = mset (map bi_filename (map snd blobs))"
      by (simp only: groups_mset) (simp add: multiset.map_comp)
    finally show ?thesis unfolding layout_names (1) [OF assms] .
  qed
  moreover have "gq_filename ` set ?qs = {f \<in> fst ` set blobs. determine_primary_shard f blobs}"
    using primaries [OF assms] by (simp add: image_image case_prod_beta)
  ultimately show ?thesis by blast
qed

definition demo_blobs :: "(string, blob_info) hmap" where
  "demo_blobs = map (\<lambda>f. (f, \<lparr>bi_filename = f, bi_blob_id = None, bi_size = Some 7, bi_lfs_sha256 = None\<rparr>))
     [''a.gguf'', ''Q4/m-2.gguf'', ''Q4/m-1.gguf'']"

theorem shards_partition_witness:
  "(\<exists>qs. group_sharded_quants demo_blobs = Some qs
    \<and> mset (concat (map quant_files qs)) = mset (map fst demo_blobs)
    \<and> gq_filename ` set qs = {f \<in> fst ` set demo_blobs. determine_primary_shard f demo_blobs})
   \<and> determine_primary_shard ''Q4/m-1.gguf'' demo_blobs \<and> \<not> determine_primary_shard ''Q4/m-2.gguf'' demo_blobs"
proof -
  have "shard_layout demo_blobs"
    by (simp add: shard_layout_def demo_blobs_def hm_wf_def directory_prefix_def)
  moreover have "determine_primary_shard ''Q4/m-1.gguf'' demo_blobs"
    "\<not> determine_primary_shard ''Q4/m-2.gguf'' demo_blobs"
    by (simp_all add: determine_primary_shard_def demo_blobs_def directory_prefix_def less_char_def)
  ultimately show ?thesis using shards_partition [of demo_blobs] by blast
qed

end
