(* ===== verification/ModelFiles.thy ===== *)
theory ModelFiles
  imports HfApi ModelConfig Paths
begin

text \<open>
  The files of the models the proxy knows: the tables \<^verbatim>\<open>model_pulls\<close> and \<^verbatim>\<open>model_files\<close>
  (\<^verbatim>\<open>tama-core/src/db/queries/model_queries.rs\<close>), the verification of a file against the hash
  its repository publishes (\<^verbatim>\<open>models/verify.rs\<close>), and the refresh of the stored metadata
  (\<^verbatim>\<open>models/update.rs\<close>). Tables are lists of rows; the ids that PostgreSQL hands out to the rows
  of the two tables are left out, no code here reads them. Every query may fail; the digest is a
  parameter.
\<close>

section \<open>Rows\<close>

record pull_row =
  mp_model_id :: int
  mp_repo_id :: string
  mp_commit_sha :: string
  mp_pulled_at :: int

record file_row =
  mf_model_id :: int
  mf_repo_id :: string
  mf_filename :: string
  mf_quant :: "string option"
  mf_lfs_oid :: "string option"
  mf_size_bytes :: "64 word option"
  mf_pulled_at :: int
  mf_last_verified_at :: "int option"
  mf_verified_ok :: "bool option"
  mf_verify_error :: "string option"

definition upsert_model_pull :: "int \<Rightarrow> string \<Rightarrow> string \<Rightarrow> int \<Rightarrow> pull_row list \<Rightarrow> pull_row list" where
  "upsert_model_pull mid repo sha now rows =
     (let new = \<lparr>mp_model_id = mid, mp_repo_id = repo, mp_commit_sha = sha, mp_pulled_at = now\<rparr> in
      if list_ex (\<lambda>r. mp_model_id r = mid) rows
      then map (\<lambda>r. if mp_model_id r = mid then new else r) rows else rows @ [new])"

definition get_model_pull :: "int \<Rightarrow> pull_row list \<Rightarrow> pull_row option" where
  "get_model_pull mid rows = List.find (\<lambda>r. mp_model_id r = mid) rows"

definition is_file :: "int \<Rightarrow> string \<Rightarrow> file_row \<Rightarrow> bool" where
  "is_file mid filename r \<longleftrightarrow> mf_model_id r = mid \<and> mf_filename r = filename"

definition overwrite_file :: "string \<Rightarrow> string option \<Rightarrow> string option \<Rightarrow> 64 word option \<Rightarrow> int \<Rightarrow> file_row \<Rightarrow> file_row" where
  "overwrite_file repo quant oid sz now r =
     (let kept = (mf_lfs_oid r = oid) in
      r\<lparr>mf_repo_id := repo, mf_quant := quant, mf_lfs_oid := oid, mf_size_bytes := sz, mf_pulled_at := now,
        mf_last_verified_at := (if kept then mf_last_verified_at r else None),
        mf_verified_ok := (if kept then mf_verified_ok r else None),
        mf_verify_error := (if kept then mf_verify_error r else None)\<rparr>)"

definition upsert_model_file ::
  "int \<Rightarrow> string \<Rightarrow> string \<Rightarrow> string option \<Rightarrow> string option \<Rightarrow> 64 word option \<Rightarrow> int \<Rightarrow> file_row list \<Rightarrow> file_row list" where
  "upsert_model_file mid repo filename quant oid sz now rows =
     (if list_ex (is_file mid filename) rows
      then map (\<lambda>r. if is_file mid filename r then overwrite_file repo quant oid sz now r else r) rows
      else rows @ [\<lparr>mf_model_id = mid, mf_repo_id = repo, mf_filename = filename, mf_quant = quant,
        mf_lfs_oid = oid, mf_size_bytes = sz, mf_pulled_at = now, mf_last_verified_at = None,
        mf_verified_ok = None, mf_verify_error = None\<rparr>])"

definition get_model_files :: "int \<Rightarrow> file_row list \<Rightarrow> file_row list" where
  "get_model_files mid rows = filter (\<lambda>r. mf_model_id r = mid) rows"

definition delete_model_file :: "int \<Rightarrow> string \<Rightarrow> file_row list \<Rightarrow> file_row list" where
  "delete_model_file mid filename rows = filter (\<lambda>r. \<not> is_file mid filename r) rows"

definition update_verification ::
  "int \<Rightarrow> string \<Rightarrow> bool option \<Rightarrow> string option \<Rightarrow> int \<Rightarrow> file_row list \<Rightarrow> bool \<times> file_row list" where
  "update_verification mid filename ok err now rows =
     (list_ex (is_file mid filename) rows,
      map (\<lambda>r. if is_file mid filename r
        then r\<lparr>mf_last_verified_at := Some now, mf_verified_ok := ok,
          mf_verify_error := (if ok = Some True then None else err)\<rparr> else r) rows)"

section \<open>Hashing a file\<close>

text \<open>The \<^verbatim>\<open>sha2\<close> crate: a hasher that is fed pieces of bytes.\<close>

record 'h sha256 =
  sha_new :: 'h
  sha_update :: "bytes \<Rightarrow> 'h \<Rightarrow> 'h"
  sha_finalize :: "'h \<Rightarrow> bytes"

definition sha_streams :: "'h sha256 \<Rightarrow> bool" where
  "sha_streams H \<longleftrightarrow> (\<forall>a b h. sha_update H b (sha_update H a h) = sha_update H (a @ b) h)
     \<and> (\<forall>h. sha_update H [] h = h)"

definition hex_digit :: "8 word \<Rightarrow> char" where
  "hex_digit n = ''0123456789abcdef'' ! unat n"

definition hex_encode :: "bytes \<Rightarrow> string" where
  "hex_encode bs = concat (map (\<lambda>b. [hex_digit (drop_bit 4 b), hex_digit (and b 0x0f)]) bs)"

text \<open>
  \<open>reads\<close> are the results of the reads, an error (\<open>None\<close>) or a piece; an empty piece is the end
  of the file. The second component is what the progress callback saw.
\<close>

fun hash_loop :: "'h sha256 \<Rightarrow> 'h \<Rightarrow> nat \<Rightarrow> bytes option list \<Rightarrow> 'h option \<times> nat list" where
  "hash_loop H h seen [] = (Some h, [])"
| "hash_loop H h seen (None # rs) = (None, [])"
| "hash_loop H h seen (Some [] # rs) = (Some h, [])"
| "hash_loop H h seen (Some bs # rs) =
     (let (r, ps) = hash_loop H (sha_update H bs h) (seen + length bs) rs in (r, (seen + length bs) # ps))"

definition sha256_file :: "'h sha256 \<Rightarrow> bytes option list option \<Rightarrow> string option \<times> nat list" where
  "sha256_file H opened =
     (case opened of
        None \<Rightarrow> (None, [])
      | Some reads \<Rightarrow> (let (r, ps) = hash_loop H (sha_new H) 0 reads in
          (map_option (\<lambda>h. hex_encode (sha_finalize H h)) r, ps)))"

section \<open>Verification\<close>

record file_verification =
  fv_filename :: string
  fv_expected_sha :: "string option"
  fv_actual_sha :: "string option"
  fv_ok :: "bool option"
  fv_error :: "string option"

text \<open>\<open>disk\<close> is the file under a path: absent, unreadable (with the error), or its digest.\<close>

type_synonym disk = "string \<Rightarrow> (string + string) option"

definition short :: "string \<Rightarrow> string" where
  "short s = take 10 s"

definition verify_one :: "disk \<Rightarrow> string \<Rightarrow> string \<Rightarrow> string option \<Rightarrow> file_verification" where
  "verify_one disk filename path expected_lfs_oid =
     (case expected_lfs_oid of
        Some (c # cs) \<Rightarrow>
          (case disk path of
             None \<Rightarrow> \<lparr>fv_filename = filename, fv_expected_sha = Some (c # cs), fv_actual_sha = None,
               fv_ok = Some False, fv_error = Some (''file not found: '' @ path)\<rparr>
           | Some (Inr actual) \<Rightarrow>
               \<lparr>fv_filename = filename, fv_expected_sha = Some (c # cs), fv_actual_sha = Some actual,
                fv_ok = Some (eq_ignore_case actual (c # cs)),
                fv_error = (if eq_ignore_case actual (c # cs) then None
                  else Some (''hash mismatch: expected '' @ short (c # cs) @ '' got '' @ short actual))\<rparr>
           | Some (Inl e) \<Rightarrow> \<lparr>fv_filename = filename, fv_expected_sha = Some (c # cs), fv_actual_sha = None,
               fv_ok = Some False, fv_error = Some (''hash error: '' @ e)\<rparr>)
      | _ \<Rightarrow> \<lparr>fv_filename = filename, fv_expected_sha = None, fv_actual_sha = None, fv_ok = None,
               fv_error = Some ''no upstream hash''\<rparr>)"

definition verify_record :: "disk \<Rightarrow> string \<Rightarrow> file_row \<Rightarrow> file_verification" where
  "verify_record disk model_dir r =
     verify_one disk (mf_filename r) (path_join model_dir (mf_filename r)) (mf_lfs_oid r)"

definition write_verification :: "int \<Rightarrow> file_verification \<Rightarrow> int \<Rightarrow> file_row list \<Rightarrow> bool \<times> file_row list" where
  "write_verification mid v now rows = update_verification mid (fv_filename v) (fv_ok v) (fv_error v) now rows"

text \<open>\<open>db\<close> says which of the writes the database accepts; the rows are those after the loop stopped.\<close>

fun verify_loop ::
  "(nat \<Rightarrow> bool) \<Rightarrow> disk \<Rightarrow> string \<Rightarrow> int \<Rightarrow> int \<Rightarrow> file_row list \<Rightarrow> nat \<Rightarrow> file_row list
    \<Rightarrow> file_verification list option \<times> file_row list" where
  "verify_loop db disk dir mid now [] n rows = (Some [], rows)"
| "verify_loop db disk dir mid now (r # rs) n rows =
     (let v = verify_record disk dir r in
      if \<not> db n then (None, rows)
      else (case write_verification mid v now rows of
          (False, rows') \<Rightarrow> (None, rows')
        | (True, rows') \<Rightarrow> (let (res, rows'') = verify_loop db disk dir mid now rs (Suc n) rows' in
            (map_option (\<lambda>vs. v # vs) res, rows''))))"

definition verify_model ::
  "(nat \<Rightarrow> bool) \<Rightarrow> disk \<Rightarrow> string \<Rightarrow> int \<Rightarrow> int \<Rightarrow> file_row list \<Rightarrow> file_verification list option \<times> file_row list" where
  "verify_model db disk dir mid now rows =
     (if \<not> db 0 then (None, rows)
      else verify_loop db disk dir mid now (get_model_files mid rows) 1 rows)"

section \<open>Stored metadata\<close>

definition update_model_config_hf_metadata :: "int \<Rightarrow> hf_model_metadata \<Rightarrow> model_config_record list \<Rightarrow> model_config_record list" where
  "update_model_config_hf_metadata mid m rows = map (\<lambda>r. if sint (mr_id r) = mid then
     r\<lparr>mr_hf_format := or_else (hf_format m) (mr_hf_format r),
       mr_hf_base_model := or_else (hf_base_model m) (mr_hf_base_model r),
       mr_hf_pipeline_tag := or_else (hf_pipeline_tag m) (mr_hf_pipeline_tag r),
       mr_hf_total_params := or_else (hf_total_params m) (mr_hf_total_params r),
       mr_hf_active_params := or_else (hf_active_params m) (mr_hf_active_params r),
       mr_hf_architecture_type := or_else (hf_architecture_type m) (mr_hf_architecture_type r),
       mr_hf_context_length := or_else (hf_context_length m) (mr_hf_context_length r),
       mr_hf_num_layers := or_else (hf_num_layers m) (mr_hf_num_layers r),
       mr_hf_last_modified := or_else (hf_last_modified m) (mr_hf_last_modified r)\<rparr> else r) rows"

definition update_model_config_quant :: "int \<Rightarrow> string \<Rightarrow> model_config_record list \<Rightarrow> model_config_record list" where
  "update_model_config_quant mid quant rows =
     map (\<lambda>r. if sint (mr_id r) = mid then r\<lparr>mr_selected_quant := Some quant\<rparr> else r) rows"

record catalogue =
  ct_models :: "model_config_record list"
  ct_pulls :: "pull_row list"
  ct_files :: "file_row list"

text \<open>The files of a listing that exist under one of the two directories get their rows.\<close>

fun refresh_files ::
  "(nat \<Rightarrow> bool) \<Rightarrow> (string \<Rightarrow> bool) \<Rightarrow> int \<Rightarrow> string \<Rightarrow> string \<Rightarrow> string \<Rightarrow> (string, blob_info) hmap \<Rightarrow> int
    \<Rightarrow> remote_gguf list \<Rightarrow> nat \<Rightarrow> file_row list \<Rightarrow> bool \<times> file_row list" where
  "refresh_files db exists mid models_dir repo resolved blobs now [] n rows = (True, rows)"
| "refresh_files db exists mid models_dir repo resolved blobs now (f # fs) n rows =
     (if \<not> exists (path_join (path_join models_dir repo) (rg_filename f))
         \<and> \<not> exists (path_join (path_join models_dir resolved) (rg_filename f))
      then refresh_files db exists mid models_dir repo resolved blobs now fs n rows
      else if \<not> db n then (False, rows)
      else (let b = hm_get blobs (rg_filename f) in
        refresh_files db exists mid models_dir repo resolved blobs now fs (Suc n)
          (upsert_model_file mid repo (rg_filename f) (rg_quant f)
             (Option.bind b bi_lfs_sha256) (Option.bind b bi_size) now rows)))"

text \<open>
  \<open>model\<close> is the row found for the repository or, where there was none, the one that was created;
  \<open>None\<close> is a failed query. \<open>meta\<close> is the answer of \<open>lookup_hf_metadata\<close>.
\<close>

definition refresh_metadata ::
  "(nat \<Rightarrow> bool) \<Rightarrow> (string \<Rightarrow> bool) \<Rightarrow> string \<Rightarrow> string \<Rightarrow> string + repo_gguf_listing
    \<Rightarrow> (string \<Rightarrow> string + (string, blob_info) hmap) \<Rightarrow> (int \<times> model_config_record list) option
    \<Rightarrow> (string \<Rightarrow> string + hf_model_metadata) \<Rightarrow> int \<Rightarrow> catalogue \<Rightarrow> bool \<times> catalogue" where
  "refresh_metadata db exists models_dir repo listing blobs_of model meta now ct =
     (case listing of Inl e \<Rightarrow> (False, ct) | Inr l \<Rightarrow>
      (case blobs_of (rl_repo_id l) of Inl e \<Rightarrow> (False, ct) | Inr blobs \<Rightarrow>
       (case model of None \<Rightarrow> (False, ct) | Some (mid, created) \<Rightarrow>
        (let ct1 = ct\<lparr>ct_models := ct_models ct @ created\<rparr> in
         if \<not> db 0 then (False, ct1)
         else (let ct2 = ct1\<lparr>ct_pulls := upsert_model_pull mid repo (rl_commit_sha l) now (ct_pulls ct1)\<rparr>;
                   (ok, files) = refresh_files db exists mid models_dir repo (rl_repo_id l) blobs now
                     (rl_files l) 1 (ct_files ct2);
                   ct3 = ct2\<lparr>ct_files := files\<rparr>
               in if \<not> ok then (False, ct3)
                  else (case meta (rl_repo_id l) of
                      Inl e \<Rightarrow> (True, ct3)
                    | Inr m \<Rightarrow> if \<not> db (Suc (length (rl_files l))) then (False, ct3) else (True, ct3\<lparr>ct_models := update_model_config_hf_metadata mid m (ct_models ct3)\<rparr>)))))))"

section \<open>The pieces of a file do not matter\<close>

lemma hash_loop_pieces:
  assumes "sha_streams H" "[] \<notin> set ps"
  shows "hash_loop H h n (map Some ps @ Some [] # rest) =
    (Some (sha_update H (concat ps) h), map (\<lambda>k. n + length (concat (take (Suc k) ps))) [0..<length ps])"
  using assms(2)
proof (induction ps arbitrary: h n)
  case Nil
  then show ?case using assms(1) by (simp add: sha_streams_def)
next
  case (Cons p ps)
  obtain x xs where p: "p = x # xs" using Cons.prems by (cases p) auto
  have "hash_loop H (sha_update H p h) (n + length p) (map Some ps @ Some [] # rest) =
    (Some (sha_update H (concat ps) (sha_update H p h)),
     map (\<lambda>k. n + length p + length (concat (take (Suc k) ps))) [0..<length ps])"
    using Cons by simp
  moreover have "sha_update H (concat ps) (sha_update H p h) = sha_update H (concat (p # ps)) h"
    using assms(1) by (simp add: sha_streams_def)
  moreover have "map (\<lambda>k. n + length (concat (take (Suc k) (p # ps)))) [0..<length (p # ps)] =
      (n + length p) # map (\<lambda>k. n + length p + length (concat (take (Suc k) ps))) [0..<length ps]"
    by (simp add: upt_conv_Cons flip: map_Suc_upt del: upt_Suc)
  ultimately show ?case by (simp add: p)
qed

lemma sha256_file_exact:
  assumes "sha_streams H" "[] \<notin> set ps"
  shows "fst (sha256_file H (Some (map Some ps @ Some [] # rest))) =
    Some (hex_encode (sha_finalize H (sha_update H (concat ps) (sha_new H))))"
  by (simp add: sha256_file_def hash_loop_pieces [OF assms])

section \<open>What a verified row says\<close>

definition hash_checked :: "disk \<Rightarrow> (int \<Rightarrow> string) \<Rightarrow> file_row \<Rightarrow> bool" where
  "hash_checked disk dir_of r \<longleftrightarrow> (mf_verified_ok r = Some True \<longrightarrow>
     (\<exists>h a. mf_lfs_oid r = Some h \<and> h \<noteq> [] \<and> eq_ignore_case a h
       \<and> disk (path_join (dir_of (mf_model_id r)) (mf_filename r)) = Some (Inr a)))"

lemma verify_one_ok:
  "fv_ok (verify_one disk f path oid) = Some True \<longleftrightarrow>
     (\<exists>h a. oid = Some h \<and> h \<noteq> [] \<and> eq_ignore_case a h \<and> disk path = Some (Inr a))"
  by (auto simp: verify_one_def split: option.splits list.splits sum.splits)

lemma verify_one_filename [simp]: "fv_filename (verify_one disk f path oid) = f"
  by (simp add: verify_one_def split: option.splits list.splits sum.splits)

text \<open>\<open>same_hashes rs rows\<close>: no row has got another hash since \<open>rs\<close> was read.\<close>

definition same_hashes :: "file_row list \<Rightarrow> file_row list \<Rightarrow> bool" where
  "same_hashes rs rows \<longleftrightarrow> (\<forall>r\<in>set rs. \<forall>r'\<in>set rows.
     is_file (mf_model_id r) (mf_filename r) r' \<longrightarrow> mf_lfs_oid r' = mf_lfs_oid r)"

lemma write_same_hashes: "same_hashes rs rows \<Longrightarrow> same_hashes rs (snd (write_verification mid v now rows))"
  by (auto simp: same_hashes_def write_verification_def update_verification_def is_file_def)

lemma write_checked:
  assumes "\<forall>r\<in>set rows. hash_checked disk dir_of r" "mf_model_id r = mid"
    "same_hashes (r # rs) rows" "dir = dir_of mid"
  shows "\<forall>r\<in>set (snd (write_verification mid (verify_record disk dir r) now rows)). hash_checked disk dir_of r"
  using assms
  by (auto simp: write_verification_def update_verification_def verify_record_def verify_one_ok
      hash_checked_def same_hashes_def is_file_def)

lemma verify_loop_checked:
  assumes "\<forall>r\<in>set rows. hash_checked disk dir_of r" "same_hashes rs rows"
    "\<forall>r\<in>set rs. mf_model_id r = mid" "dir = dir_of mid"
  shows "\<forall>r\<in>set (snd (verify_loop db disk dir mid now rs n rows)). hash_checked disk dir_of r"
  using assms
proof (induction rs arbitrary: n rows)
  case (Cons r rs)
  let ?w = "write_verification mid (verify_record disk dir r) now rows"
  have w: "\<forall>r\<in>set (snd ?w). hash_checked disk dir_of r"
    using write_checked [OF Cons.prems(1) _ Cons.prems(2,4)] Cons.prems(3) by simp
  have "same_hashes rs (snd ?w)"
    using write_same_hashes [OF Cons.prems(2)] by (simp add: same_hashes_def)
  then have "\<forall>r\<in>set (snd (verify_loop db disk dir mid now rs (Suc n) (snd ?w))). hash_checked disk dir_of r"
    using Cons.IH [OF w] Cons.prems by simp
  then show ?case
    using w Cons.prems(1) by (cases ?w) (simp add: Let_def split: prod.splits bool.splits)
qed simp

datatype files_op =
    UpsertFile int string string "string option" "string option" "64 word option" int
  | DeleteFile int string
  | VerifyModel "nat \<Rightarrow> bool" int int

fun files_step :: "disk \<Rightarrow> (int \<Rightarrow> string) \<Rightarrow> files_op \<Rightarrow> file_row list \<Rightarrow> file_row list" where
  "files_step disk dir_of (UpsertFile mid repo f quant oid sz now) rows =
     upsert_model_file mid repo f quant oid sz now rows"
| "files_step disk dir_of (DeleteFile mid f) rows = delete_model_file mid f rows"
| "files_step disk dir_of (VerifyModel db mid now) rows = snd (verify_model db disk (dir_of mid) mid now rows)"

definition files_unique :: "file_row list \<Rightarrow> bool" where
  "files_unique rows \<longleftrightarrow> distinct (map (\<lambda>r. (mf_model_id r, mf_filename r)) rows)"

lemma update_verification_keys:
  "map (\<lambda>r. (mf_model_id r, mf_filename r)) (snd (update_verification mid f ok e now rows)) =
     map (\<lambda>r. (mf_model_id r, mf_filename r)) rows"
  by (simp add: update_verification_def)

lemma verify_loop_keys:
  "map (\<lambda>r. (mf_model_id r, mf_filename r)) (snd (verify_loop db disk dir mid now rs n rows)) =
     map (\<lambda>r. (mf_model_id r, mf_filename r)) rows"
proof (induction rs arbitrary: n rows)
  case (Cons r rs)
  let ?w = "write_verification mid (verify_record disk dir r) now rows"
  let ?key = "\<lambda>r. (mf_model_id r, mf_filename r)"
  have w: "map ?key (snd ?w) = map ?key rows"
    unfolding write_verification_def by (rule update_verification_keys)
  have "map ?key (snd (verify_loop db disk dir mid now rs (Suc n) (snd ?w))) = map ?key (snd ?w)"
    by (rule Cons.IH)
  then show ?case
    using w by (cases ?w; cases "verify_loop db disk dir mid now rs (Suc n) (snd ?w)")
      (auto simp: Let_def split: bool.split)
qed simp

lemma upsert_unique: "files_unique rows \<Longrightarrow> files_unique (upsert_model_file mid repo f q oid sz now rows)"
proof -
  assume u: "files_unique rows"
  have "map (\<lambda>r. (mf_model_id r, mf_filename r))
      (map (\<lambda>r. if is_file mid f r then overwrite_file repo q oid sz now r else r) rows) =
      map (\<lambda>r. (mf_model_id r, mf_filename r)) rows"
    by (simp add: overwrite_file_def Let_def)
  then have "files_unique (map (\<lambda>r. if is_file mid f r then overwrite_file repo q oid sz now r else r) rows)"
    using u unfolding files_unique_def by (simp only:)
  moreover have "\<not> list_ex (is_file mid f) rows \<Longrightarrow> files_unique (rows @ [\<lparr>mf_model_id = mid, mf_repo_id = repo,
      mf_filename = f, mf_quant = q, mf_lfs_oid = oid, mf_size_bytes = sz, mf_pulled_at = now,
      mf_last_verified_at = None, mf_verified_ok = None, mf_verify_error = None\<rparr>])"
    using u by (auto simp: files_unique_def list_ex_iff is_file_def)
  ultimately show ?thesis by (simp add: upsert_model_file_def)
qed

lemma files_unique_eq:
  assumes "files_unique rows" "r \<in> set rows" "r' \<in> set rows" "is_file (mf_model_id r) (mf_filename r) r'"
  shows "r' = r"
proof -
  have "inj_on (\<lambda>r. (mf_model_id r, mf_filename r)) (set rows)"
    using assms(1) unfolding files_unique_def distinct_map by (rule conjunct2)
  then show ?thesis
    by (rule inj_onD) (use assms in \<open>simp_all add: is_file_def\<close>)
qed

lemma files_step_inv:
  assumes "files_unique rows" "\<forall>r\<in>set rows. hash_checked disk dir_of r"
  shows "files_unique (files_step disk dir_of ops rows) \<and> (\<forall>r\<in>set (files_step disk dir_of ops rows). hash_checked disk dir_of r)"
proof (cases ops)
  case (UpsertFile mid repo f quant oid sz now)
  then show ?thesis
    using assms upsert_unique [OF assms(1)]
    by (auto simp: upsert_model_file_def hash_checked_def overwrite_file_def Let_def split: if_splits)
next
  case (DeleteFile mid f)
  then show ?thesis
    using assms by (auto simp: delete_model_file_def files_unique_def intro: distinct_map_filter)
next
  case (VerifyModel db mid now)
  have "same_hashes (get_model_files mid rows) rows"
    unfolding same_hashes_def
  proof (intro ballI impI)
    fix r r' assume "r \<in> set (get_model_files mid rows)" "r' \<in> set rows"
      "is_file (mf_model_id r) (mf_filename r) r'"
    then have "r' = r"
      by (intro files_unique_eq [OF assms(1)]) (auto simp: get_model_files_def)
    then show "mf_lfs_oid r' = mf_lfs_oid r" by (rule arg_cong)
  qed
  then have "\<forall>r\<in>set (snd (verify_loop db disk (dir_of mid) mid now (get_model_files mid rows) 1 rows)). hash_checked disk dir_of r"
    by (rule verify_loop_checked [OF assms(2)]) (simp_all add: get_model_files_def)
  moreover have "files_unique (snd (verify_loop db disk (dir_of mid) mid now (get_model_files mid rows) 1 rows))"
    using assms(1) unfolding files_unique_def verify_loop_keys .
  ultimately show ?thesis
    using assms by (simp add: VerifyModel verify_model_def)
qed

lemma files_run_inv:
  assumes "files_unique rows" "\<forall>r\<in>set rows. hash_checked disk dir_of r"
  shows "files_unique (fold (files_step disk dir_of) ops rows)
    \<and> (\<forall>r\<in>set (fold (files_step disk dir_of) ops rows). hash_checked disk dir_of r)"
  using assms
proof (induction ops arbitrary: rows)
  case (Cons x ops)
  note inv = files_step_inv [OF Cons.prems, of x]
  show ?case
    using Cons.IH [OF conjunct1 [OF inv] conjunct2 [OF inv]] by simp
qed simp


definition demo_ops :: "files_op list" where
  "demo_ops = [UpsertFile 1 ''o/r'' ''a.gguf'' None (Some ''ab'') None 5, VerifyModel (\<lambda>n. True) 1 6]"


text \<open>
  The records of a verification are read once, before the files are hashed. A row that gets a new
  hash meanwhile is marked as verified although the file has the old one.
\<close>

lemma stale_verification:
  assumes "r \<in> set rows" "mf_lfs_oid r = Some h" "h \<noteq> []" "disk (path_join dir (mf_filename r)) = Some (Inr h)"
    "h' \<noteq> h"
  shows "\<exists>r'\<in>set (snd (write_verification (mf_model_id r) (verify_record disk dir r) t
      (upsert_model_file (mf_model_id r) repo (mf_filename r) q (Some h') sz now rows))).
    is_file (mf_model_id r) (mf_filename r) r' \<and> mf_lfs_oid r' = Some h' \<and> mf_verified_ok r' = Some True"
proof -
  have ok: "fv_ok (verify_record disk dir r) = Some True"
    using assms unfolding verify_record_def verify_one_ok by (auto simp: eq_ignore_case_def)
  have f: "is_file (mf_model_id r) (mf_filename r) r" by (simp add: is_file_def)
  let ?rows = "upsert_model_file (mf_model_id r) repo (mf_filename r) q (Some h') sz now rows"
  let ?r = "overwrite_file repo q (Some h') sz now r"
  let ?v = "verify_record disk dir r"
  let ?mark = "\<lambda>r'. if is_file (mf_model_id r) (mf_filename r) r'
      then r'\<lparr>mf_last_verified_at := Some t, mf_verified_ok := fv_ok ?v,
        mf_verify_error := (if fv_ok ?v = Some True then None else fv_error ?v)\<rparr> else r'"
  have "?r \<in> set ?rows"
    using assms(1) f by (auto simp: upsert_model_file_def list_ex_iff)
  then have "?mark ?r \<in> ?mark ` set ?rows" by (rule imageI)
  moreover have "?mark ` set ?rows = set (snd (write_verification (mf_model_id r) ?v t ?rows))"
    by (simp add: write_verification_def update_verification_def verify_record_def)
  moreover have "is_file (mf_model_id r) (mf_filename r) (?mark ?r)" "mf_lfs_oid (?mark ?r) = Some h'"
    "mf_verified_ok (?mark ?r) = Some True"
    using ok by (simp_all add: is_file_def overwrite_file_def Let_def)
  ultimately show ?thesis by blast
qed

end
