(* ===== verification/UpdateCheck.thy ===== *)
theory UpdateCheck
  imports ModelFiles Installations SqlLike
begin

text \<open>
  Which updates there are: the comparison of a model's files with its repository
  (\<^verbatim>\<open>tama-core/src/models/update.rs\<close>), and the checker that runs over all models and engines
  and keeps its verdicts in the table \<^verbatim>\<open>update_checks\<close> (\<^verbatim>\<open>updates/checker/\<close>,
  \<^verbatim>\<open>db/queries/update_check_queries.rs\<close>). What the database, the Hugging Face API and the release
  pages answer is the record \<open>check_env\<close> of one check; the cache of listings is the \<^verbatim>\<open>lru\<close> crate's, a parameter. The
  document a check stores as text is kept as the value it prints.
\<close>

section \<open>Comparing files\<close>

datatype file_status = Unchanged | Changed string string | NewRemote | Unknown | RemovedFromRemote

record file_update =
  fu_filename :: string
  fu_quant :: "string option"
  fu_status :: file_status
  fu_local_size :: "64 word option"
  fu_remote_size :: "64 word option"

datatype model_update_status =
    NoPriorRecord | UpToDate | RepoChangedFilesUnchanged | UpdatesAvailable | VerificationFailed
  | CheckFailed string

record update_result =
  ur_repo_id :: string
  ur_status :: model_update_status
  ur_files :: "file_update list"

definition hash_status :: "string option \<Rightarrow> string option \<Rightarrow> file_status" where
  "hash_status local_oid remote_oid = (case (local_oid, remote_oid) of
     (Some l, Some r) \<Rightarrow> if l = r then Unchanged else Changed l r
   | _ \<Rightarrow> Unknown)"

definition compare_local :: "(string, blob_info) hmap \<Rightarrow> file_row \<Rightarrow> file_update" where
  "compare_local blobs r = (case hm_get blobs (mf_filename r) of
     Some b \<Rightarrow> \<lparr>fu_filename = mf_filename r, fu_quant = mf_quant r,
       fu_status = hash_status (mf_lfs_oid r) (bi_lfs_sha256 b),
       fu_local_size = mf_size_bytes r, fu_remote_size = bi_size b\<rparr>
   | None \<Rightarrow> \<lparr>fu_filename = mf_filename r, fu_quant = mf_quant r, fu_status = RemovedFromRemote,
       fu_local_size = mf_size_bytes r, fu_remote_size = None\<rparr>)"

definition tracked :: "file_row list \<Rightarrow> string \<Rightarrow> bool" where
  "tracked rows f = list_ex (\<lambda>r. mf_filename r = f) rows"

definition compare_files :: "file_row list \<Rightarrow> (string, blob_info) hmap \<Rightarrow> file_update list" where
  "compare_files rows blobs = map (compare_local blobs) rows @
     map (\<lambda>(f, b). \<lparr>fu_filename = f, fu_quant = None, fu_status = NewRemote, fu_local_size = None,
        fu_remote_size = bi_size b\<rparr>) (filter (\<lambda>(f, b). \<not> tracked rows f) blobs)"

definition is_change :: "file_update \<Rightarrow> bool" where
  "is_change u = (case fu_status u of Changed _ _ \<Rightarrow> True | NewRemote \<Rightarrow> True | _ \<Rightarrow> False)"

definition overall_status :: "file_update list \<Rightarrow> model_update_status" where
  "overall_status us = (if list_ex (\<lambda>u. fu_status u = Unknown) us then VerificationFailed
     else if list_ex is_change us then UpdatesAvailable else RepoChangedFilesUnchanged)"

text \<open>
  The answers one check gets: the id of the model found for a repository, its pull record and its
  files (\<open>Inl\<close> is a failed query), the repository information behind the listing and the blobs,
  the text of the error that the write of the verdict ends with (\<open>None\<close>: it works), and the clock.
\<close>

record check_env =
  ce_model :: "string \<Rightarrow> string + int option"
  ce_pull :: "int \<Rightarrow> string + pull_row option"
  ce_files :: "int \<Rightarrow> string + file_row list"
  ce_info :: "string \<Rightarrow> string + string \<times> string list"
  ce_blobs :: "string \<Rightarrow> string + (string, blob_info) hmap"
  ce_save :: "string option"
  ce_now :: int

definition check_for_updates :: "check_env \<Rightarrow> string \<Rightarrow> string + update_result" where
  "check_for_updates E repo =
     (let result = (\<lambda>s us. Inr \<lparr>ur_repo_id = repo, ur_status = s, ur_files = us\<rparr>) in
      case ce_model E repo of
        Inl e \<Rightarrow> Inl e
      | Inr None \<Rightarrow> result NoPriorRecord []
      | Inr (Some mid) \<Rightarrow>
          (case ce_pull E mid of Inl e \<Rightarrow> Inl e | Inr pull \<Rightarrow>
          (case ce_files E mid of Inl e \<Rightarrow> Inl e | Inr rows \<Rightarrow>
          (case pull of None \<Rightarrow> result NoPriorRecord [] | Some p \<Rightarrow>
          (case list_gguf_files (ce_info E) repo of Inl e \<Rightarrow> result (CheckFailed e) [] | Inr l \<Rightarrow>
             if rl_commit_sha l = mp_commit_sha p then result UpToDate []
             else (case ce_blobs E (rl_repo_id l) of
                 Inl e \<Rightarrow> result (CheckFailed (''Commit changed but failed to fetch file details: '' @ e)) []
               | Inr blobs \<Rightarrow> result (overall_status (compare_files rows blobs)) (compare_files rows blobs)))))))"

section \<open>The cache of listings\<close>

type_synonym cache_entry = "string \<times> remote_gguf list \<times> int"

record 'c lru =
  lru_get :: "string \<Rightarrow> 'c \<Rightarrow> cache_entry option \<times> 'c"
  lru_put :: "string \<Rightarrow> cache_entry \<Rightarrow> 'c \<Rightarrow> 'c"
  lru_pop :: "string \<Rightarrow> 'c \<Rightarrow> 'c"

definition TTL_SECS :: int where
  "TTL_SECS = 300"

definition cache_get :: "'c lru \<Rightarrow> int \<Rightarrow> string \<Rightarrow> 'c \<Rightarrow> (string \<times> remote_gguf list) option \<times> 'c" where
  "cache_get L now repo c = (case lru_get L repo c of
     (Some (sha, files, epoch), c') \<Rightarrow>
        if now - epoch < TTL_SECS then (Some (sha, files), c') else (None, lru_pop L repo c')
   | (None, c') \<Rightarrow> (None, c'))"

definition cache_insert :: "'c lru \<Rightarrow> int \<Rightarrow> string \<Rightarrow> string \<Rightarrow> remote_gguf list \<Rightarrow> 'c \<Rightarrow> 'c" where
  "cache_insert L now repo sha files c = lru_put L repo (sha, files, now) c"

section \<open>Verdicts and events\<close>

record quant_verdict =
  qv_quant_name :: "string option"
  qv_filename :: string
  qv_current_hash :: "string option"
  qv_latest_hash :: "string option"
  qv_update_available :: bool
  qv_status :: string

record check_details =
  cd_repo_id :: string
  cd_commit_sha :: string
  cd_quants :: "quant_verdict list"

record update_check =
  uc_item_type :: string
  uc_item_id :: string
  uc_current_version :: "string option"
  uc_latest_version :: "string option"
  uc_update_available :: bool
  uc_status :: string
  uc_error_message :: "string option"
  uc_details :: "check_details option"
  uc_checked_at :: int

text \<open>\<open>CheckCompleted\<close> carries the verdict under the id the frontend knows.\<close>

datatype update_event =
    CheckStarted string string "string option"
  | CheckCompleted string string "string option" update_check
  | CheckError string string "string option" string
  | CheckSkipped string string

record 'c checker =
  ck_cache :: 'c
  ck_table :: "(string \<times> string, update_check) hmap"
  ck_events :: "update_event list"

definition emit_update :: "update_event \<Rightarrow> 'c checker \<Rightarrow> 'c checker" where
  "emit_update e st = st\<lparr>ck_events := ck_events st @ [e]\<rparr>"

definition upsert_update_check :: "update_check \<Rightarrow> (string \<times> string, update_check) hmap \<Rightarrow> (string \<times> string, update_check) hmap" where
  "upsert_update_check r t = hm_insert (uc_item_type r, uc_item_id r) r t"

definition get_update_check :: "string \<Rightarrow> string \<Rightarrow> (string \<times> string, update_check) hmap \<Rightarrow> update_check option" where
  "get_update_check ty item t = hm_get t (ty, item)"

definition delete_update_check :: "string \<Rightarrow> string \<Rightarrow> (string \<times> string, update_check) hmap \<Rightarrow> (string \<times> string, update_check) hmap" where
  "delete_update_check ty item t = filter (\<lambda>(k, r). k \<noteq> (ty, item)) t"

definition pg_like :: "utext \<Rightarrow> utext \<Rightarrow> bool" where
  "pg_like pattern s = like_match (\<lambda>c. c) (like_tokens (of_char CHR 0x5C) pattern) s"

definition delete_update_checks_by_pattern ::
  "string \<Rightarrow> utext \<Rightarrow> (string \<times> string, update_check) hmap \<Rightarrow> (string \<times> string, update_check) hmap" where
  "delete_update_checks_by_pattern ty pattern t =
     filter (\<lambda>((ty', item), r). \<not> (ty' = ty \<and> pg_like pattern (lit item))) t"

definition escape_name :: "utext \<Rightarrow> utext" where
  "escape_name s = replace_char (CHR ''%'') [CHR 0x5C, CHR ''%'']
     (replace_char (CHR ''_'') [CHR 0x5C, CHR ''_''] (replace_char (CHR 0x5C) [CHR 0x5C, CHR 0x5C] s))"

definition delete_update_checks_for_backend ::
  "string \<Rightarrow> (string \<times> string, update_check) hmap \<Rightarrow> (string \<times> string, update_check) hmap" where
  "delete_update_checks_for_backend name t =
     delete_update_check ''backend'' name
       (delete_update_checks_by_pattern ''backend'' (escape_name (lit name) @ lit '':%'') t)"

definition get_oldest_check_time :: "(string \<times> string, update_check) hmap \<Rightarrow> int option" where
  "get_oldest_check_time t = (case map (uc_checked_at \<circ> snd) t of [] \<Rightarrow> None | x # xs \<Rightarrow> Some (fold min xs x))"

definition should_check :: "int \<Rightarrow> int \<Rightarrow> (string \<times> string, update_check) hmap \<Rightarrow> bool" where
  "should_check interval_hours now t =
     (case get_oldest_check_time t of Some ts \<Rightarrow> interval_hours * 3600 \<le> now - ts | None \<Rightarrow> True)"

text \<open>A verdict is written first; the event says whether that worked.\<close>

definition save_and_emit ::
  "check_env \<Rightarrow> update_check \<Rightarrow> string \<Rightarrow> string option \<Rightarrow> 'c checker \<Rightarrow> (string + unit) \<times> 'c checker" where
  "save_and_emit E r item variant st = (case ce_save E of
     None \<Rightarrow> (Inr (), emit_update (CheckCompleted (uc_item_type r) item variant (r\<lparr>uc_item_id := item\<rparr>))
       (st\<lparr>ck_table := upsert_update_check r (ck_table st)\<rparr>))
   | Some e \<Rightarrow> (Inl e, emit_update (CheckError (uc_item_type r) item variant (''Failed to save check result: '' @ e)) st))"

section \<open>Checking a model\<close>

definition show_i64 :: "int \<Rightarrow> string" where
  "show_i64 i = (if i < 0 then CHR ''-'' # show_nat (nat (- i)) else show_nat (nat i))"

definition model_key :: "int \<Rightarrow> string" where
  "model_key mid = ''model-'' @ show_i64 mid"

definition quant_check :: "(string, blob_info) hmap \<Rightarrow> file_row \<Rightarrow> quant_verdict" where
  "quant_check blobs r = (case hm_get blobs (mf_filename r) of
     Some b \<Rightarrow>
       (let (upd, status) = (case (mf_lfs_oid r, bi_lfs_sha256 b) of
            (Some c, Some l) \<Rightarrow> if c = l then (False, ''up_to_date'') else (True, ''update_available'')
          | (None, _) \<Rightarrow> (False, ''no_hash'')
          | (Some _, None) \<Rightarrow> (False, ''removed_from_remote''))
        in \<lparr>qv_quant_name = mf_quant r, qv_filename = mf_filename r, qv_current_hash = mf_lfs_oid r,
            qv_latest_hash = bi_lfs_sha256 b, qv_update_available = upd, qv_status = status\<rparr>)
   | None \<Rightarrow> \<lparr>qv_quant_name = mf_quant r, qv_filename = mf_filename r, qv_current_hash = mf_lfs_oid r,
       qv_latest_hash = None, qv_update_available = False, qv_status = ''removed_from_remote''\<rparr>)"

definition quant_verdicts :: "file_row list \<Rightarrow> (string, blob_info) hmap \<Rightarrow> quant_verdict list" where
  "quant_verdicts rows blobs = map (quant_check blobs) rows @
     map (\<lambda>(f, b). \<lparr>qv_quant_name = None, qv_filename = f, qv_current_hash = None,
        qv_latest_hash = bi_lfs_sha256 b, qv_update_available = True, qv_status = ''new_quant''\<rparr>)
       (filter (\<lambda>(f, b). f \<notin> set (map mf_filename rows)) blobs)"

definition model_verdict ::
  "check_env \<Rightarrow> int \<Rightarrow> string option \<Rightarrow> string option \<Rightarrow> bool \<Rightarrow> string \<Rightarrow> string option \<Rightarrow> check_details option \<Rightarrow> update_check" where
  "model_verdict E mid current latest upd status err details =
     \<lparr>uc_item_type = ''model'', uc_item_id = show_i64 mid, uc_current_version = current,
      uc_latest_version = latest, uc_update_available = upd, uc_status = status,
      uc_error_message = err, uc_details = details, uc_checked_at = ce_now E\<rparr>"

definition db_state :: "check_env \<Rightarrow> string \<Rightarrow> string + (pull_row \<times> file_row list) option" where
  "db_state E repo = (case ce_model E repo of
     Inl e \<Rightarrow> Inl e
   | Inr None \<Rightarrow> Inr None
   | Inr (Some mid) \<Rightarrow> (case ce_pull E mid of Inl e \<Rightarrow> Inl e | Inr pull \<Rightarrow>
       (case ce_files E mid of Inl e \<Rightarrow> Inl e | Inr rows \<Rightarrow> Inr (map_option (\<lambda>p. (p, rows)) pull))))"

definition cached_listing :: "'c lru \<Rightarrow> check_env \<Rightarrow> string \<Rightarrow> 'c \<Rightarrow> (string + repo_gguf_listing) \<times> 'c" where
  "cached_listing L E repo c = (case cache_get L (ce_now E) repo c of
     (Some (sha, files), c') \<Rightarrow> (Inr \<lparr>rl_repo_id = repo, rl_commit_sha = sha, rl_files = files\<rparr>, c')
   | (None, c') \<Rightarrow> (case list_gguf_files (ce_info E) repo of
         Inl e \<Rightarrow> (Inl e, c')
       | Inr l \<Rightarrow> (Inr l, cache_insert L (ce_now E) repo (rl_commit_sha l) (rl_files l) c')))"

definition compare_verdict ::
  "check_env \<Rightarrow> int \<Rightarrow> pull_row \<Rightarrow> file_row list \<Rightarrow> repo_gguf_listing \<Rightarrow> update_check" where
  "compare_verdict E mid p rows l =
     (if rl_commit_sha l = mp_commit_sha p
      then model_verdict E mid (Some (mp_commit_sha p)) (Some (rl_commit_sha l)) False ''up_to_date'' None None
      else (case ce_blobs E (rl_repo_id l) of
          Inl e \<Rightarrow> model_verdict E mid (Some (mp_commit_sha p)) (Some (rl_commit_sha l)) False ''error''
            (Some (''Commit changed but failed to fetch file details: '' @ e)) None
        | Inr blobs \<Rightarrow>
            (let qs = quant_verdicts rows blobs; upd = list_ex qv_update_available qs in
             model_verdict E mid (Some (mp_commit_sha p)) (Some (rl_commit_sha l)) upd
               (if upd then ''update_available'' else ''up_to_date'') None
               (Some \<lparr>cd_repo_id = rl_repo_id l, cd_commit_sha = rl_commit_sha l, cd_quants = qs\<rparr>))))"

definition check_model ::
  "'c lru \<Rightarrow> check_env \<Rightarrow> int \<Rightarrow> string option \<Rightarrow> 'c checker \<Rightarrow> (string + unit) \<times> 'c checker" where
  "check_model L E mid repo_id st0 =
     (let st = emit_update (CheckStarted ''model'' (model_key mid) None) st0 in
      case repo_id of
        Some (c # cs) \<Rightarrow>
          (case db_state E (c # cs) of
             Inl e \<Rightarrow> (Inl e, st)
           | Inr None \<Rightarrow> save_and_emit E (model_verdict E mid None None False ''no_prior_record'' None None)
               (model_key mid) None st
           | Inr (Some (p, rows)) \<Rightarrow>
               (case cached_listing L E (c # cs) (ck_cache st) of
                  (Inl e, cache) \<Rightarrow> (Inl e, st\<lparr>ck_cache := cache\<rparr>)
                | (Inr l, cache) \<Rightarrow> save_and_emit E (compare_verdict E mid p rows l) (model_key mid) None
                    (st\<lparr>ck_cache := cache\<rparr>)))
      | _ \<Rightarrow>
          (let msg = ''Model has no source repo configured'' in
           case ce_save E of
             Some e \<Rightarrow> (Inl e, st)
           | None \<Rightarrow> (Inr (), emit_update (CheckError ''model'' (model_key mid) None msg)
               (st\<lparr>ck_table := upsert_update_check
                 (model_verdict E mid None None False ''unknown'' (Some msg) None) (ck_table st)\<rparr>))))"

section \<open>Checking an engine\<close>

record engine_env =
  ee_current :: "string + string option"
  ee_latest :: "string + string"
  ee_save :: "string option"
  ee_now :: int

definition engine_item :: "string \<Rightarrow> string \<Rightarrow> string" where
  "engine_item name variant = name @ '':'' @ variant"

definition engine_verdict ::
  "engine_env \<Rightarrow> string \<Rightarrow> string option \<Rightarrow> string option \<Rightarrow> bool \<Rightarrow> string \<Rightarrow> string option \<Rightarrow> update_check" where
  "engine_verdict E item current latest upd status err =
     \<lparr>uc_item_type = ''backend'', uc_item_id = item, uc_current_version = current,
      uc_latest_version = latest, uc_update_available = upd, uc_status = status,
      uc_error_message = err, uc_details = None, uc_checked_at = ee_now E\<rparr>"

definition engine_save :: "engine_env \<Rightarrow> check_env" where
  "engine_save E = \<lparr>ce_model = \<lambda>_. Inr None, ce_pull = \<lambda>_. Inr None, ce_files = \<lambda>_. Inr [],
     ce_info = \<lambda>_. Inl [], ce_blobs = \<lambda>_. Inl [], ce_save = ee_save E, ce_now = ee_now E\<rparr>"

definition update_of :: "string option \<Rightarrow> string option \<Rightarrow> bool \<times> string" where
  "update_of current latest =
     (let upd = (case latest of Some v \<Rightarrow> (case current of Some c \<Rightarrow> v \<noteq> c | None \<Rightarrow> True) | None \<Rightarrow> False) in
      (upd, if latest = None \<and> current = None then ''unknown''
            else if upd then ''update_available'' else ''up_to_date''))"

definition check_backend ::
  "engine_env \<Rightarrow> string \<Rightarrow> installation_type \<Rightarrow> string \<Rightarrow> 'c checker \<Rightarrow> (string + unit) \<times> 'c checker" where
  "check_backend E name ty variant st0 =
     (let item = engine_item name variant;
          st = emit_update (CheckStarted ''backend'' name (Some variant)) st0;
          verdict = (\<lambda>current latest. let (upd, status) = update_of current latest in
            save_and_emit (engine_save E) (engine_verdict E item current latest upd status None) name (Some variant) st)
      in case ee_current E of
           Inl e \<Rightarrow> (Inl e, st)
         | Inr current \<Rightarrow>
             (if ty \<in> {ILlamaCpp, IIkLlama} then
                (case ee_latest E of
                   Inr v \<Rightarrow> verdict current (Some v)
                 | Inl e \<Rightarrow> (case ee_save E of
                      Some se \<Rightarrow> (Inl se, st)
                    | None \<Rightarrow> (Inr (), emit_update (CheckError ''backend'' name (Some variant) e)
                        (st\<lparr>ck_table := upsert_update_check
                          (engine_verdict E item current None False ''error'' (Some e)) (ck_table st)\<rparr>))))
              else verdict current None))"

section \<open>A run over everything\<close>

text \<open>
  The types in an answer of \<open>list_versions\<close> are names of installation types, so the parser finds
  them; the iteration follows the answer's order.
\<close>

definition variant_entries :: "string \<Rightarrow> installation list \<Rightarrow> (string \<times> installation_type \<times> string) list" where
  "variant_entries name versions =
     List.map_filter (\<lambda>variant. map_option
         (\<lambda>i. (name, case installation_type_parse (in_type i) of Some t \<Rightarrow> t | None \<Rightarrow> ICustom, variant))
         (List.find (\<lambda>i. in_variant i = variant) versions))
       (remdups_adj (sort (map in_variant versions)))"

definition backend_entries :: "install_json \<Rightarrow> install_db \<Rightarrow> (string \<times> installation_type \<times> string) list" where
  "backend_entries K db =
     concat (map (\<lambda>i. case list_versions K (in_name i) None db of
         Inr (Some versions) \<Rightarrow> variant_entries (in_name i) versions
       | _ \<Rightarrow> [])
       (case list_active K db of Inr is \<Rightarrow> is | Inl e \<Rightarrow> []))"

definition run_check ::
  "'c lru \<Rightarrow> bool \<Rightarrow> string + (int \<times> string) list \<Rightarrow> install_json \<Rightarrow> install_db
    \<Rightarrow> (nat \<Rightarrow> engine_env) \<Rightarrow> (nat \<Rightarrow> check_env) \<Rightarrow> 'c checker \<Rightarrow> (string + unit) \<times> 'c checker" where
  "run_check L locked models K db eenv menv st =
     (if locked then (Inr (), emit_update (CheckSkipped ''all'' ''Update check already in progress'') st)
      else (case models of
          Inl e \<Rightarrow> (Inl e, st)
        | Inr ms \<Rightarrow>
            (let st1 = fold (\<lambda>(i, n, ty, v) s. snd (check_backend (eenv i) n ty v s))
                   (enumerate 0 (backend_entries K db)) st
             in (Inr (), fold (\<lambda>(i, mid, repo) s. snd (check_model L (menv i) mid (Some repo) s))
                   (enumerate 0 ms) st1))))"

end
