(* ===== verification/UpdateFacts.thy ===== *)
theory UpdateFacts
  imports UpdateCheck
begin

text \<open>
  What the update checks tell: the two ways of checking a model agree on changes, a verdict for a
  repository whose name was completed does not survive the cache, and the removal of an engine
  takes exactly its verdicts away.
\<close>

section \<open>The comparisons agree\<close>

lemma quant_check_update: "qv_update_available (quant_check blobs r) = is_change (compare_local blobs r)"
  by (simp add: quant_check_def compare_local_def is_change_def hash_status_def
      split: option.split prod.split file_status.split)

lemma tracked_iff: "tracked rows f \<longleftrightarrow> f \<in> set (map mf_filename rows)"
  by (auto simp: tracked_def list_ex_iff)

lemma verdicts_agree:
  "list_ex qv_update_available (quant_verdicts rows blobs) = list_ex is_change (compare_files rows blobs)"
proof -
  have "list_ex qv_update_available (map (quant_check blobs) rows) = list_ex is_change (map (compare_local blobs) rows)"
    by (simp add: list_ex_iff quant_check_update)
  moreover have "is_change \<lparr>fu_filename = f, fu_quant = None, fu_status = NewRemote, fu_local_size = None,
      fu_remote_size = z\<rparr>" for f z
    by (simp add: is_change_def)
  ultimately show ?thesis
    unfolding quant_verdicts_def compare_files_def list_ex_append tracked_iff
    by (auto simp: list_ex_iff)
qed

lemma change_iff:
  assumes "hm_wf blobs"
  shows "list_ex is_change (compare_files rows blobs) \<longleftrightarrow>
    (\<exists>f b. hm_get blobs f = Some b \<and>
      (f \<notin> mf_filename ` set rows
       \<or> (\<exists>r\<in>set rows. mf_filename r = f
          \<and> (\<exists>c l. mf_lfs_oid r = Some c \<and> bi_lfs_sha256 b = Some l \<and> c \<noteq> l))))"
proof -
  have "is_change (compare_local blobs r) \<longleftrightarrow>
      (\<exists>b c l. hm_get blobs (mf_filename r) = Some b \<and> mf_lfs_oid r = Some c \<and> bi_lfs_sha256 b = Some l \<and> c \<noteq> l)" for r
    by (auto simp: compare_local_def is_change_def hash_status_def split: option.split)
  moreover have "list_ex is_change (map (\<lambda>(f, b). \<lparr>fu_filename = f, fu_quant = None, fu_status = NewRemote,
      fu_local_size = None, fu_remote_size = bi_size b\<rparr>) (filter (\<lambda>(f, b). \<not> tracked rows f) blobs)) \<longleftrightarrow>
      (\<exists>f b. hm_get blobs f = Some b \<and> f \<notin> mf_filename ` set rows)"
    by (auto simp: list_ex_iff is_change_def tracked_iff hm_get_in_set [OF assms])
  ultimately show ?thesis
    unfolding compare_files_def list_ex_append by (auto simp: list_ex_iff)
qed

definition verdict_row :: "int \<Rightarrow> 'c checker \<Rightarrow> update_check option" where
  "verdict_row mid st = get_update_check ''model'' (show_i64 mid) (ck_table st)"

lemma verdict_saved:
  "ce_save E = None \<Longrightarrow> uc_item_type r = ''model'' \<Longrightarrow> uc_item_id r = show_i64 mid \<Longrightarrow>
     verdict_row mid (snd (save_and_emit E r item variant st)) = Some r"
  by (simp add: verdict_row_def save_and_emit_def emit_update_def upsert_update_check_def get_update_check_def)

lemma verdict_key [simp]:
  "uc_item_type (model_verdict E mid cur lat upd status err details) = ''model''"
  "uc_item_id (model_verdict E mid cur lat upd status err details) = show_i64 mid"
  "uc_update_available (model_verdict E mid cur lat upd status err details) = upd"
  "uc_status (model_verdict E mid cur lat upd status err details) = status"
  "uc_details (model_verdict E mid cur lat upd status err details) = details"
  by (simp_all add: model_verdict_def)

lemma compare_verdict_key [simp]:
  "uc_item_type (compare_verdict E mid p rows l) = ''model''"
  "uc_item_id (compare_verdict E mid p rows l) = show_i64 mid"
  by (simp_all add: compare_verdict_def Let_def split: sum.split)

lemma check_model_compare:
  assumes "repo \<noteq> []" "ce_save E = None" "db_state E repo = Inr (Some (p, rows))"
    "cached_listing L E repo (ck_cache st) = (Inr l, c)"
  shows "verdict_row mid (snd (check_model L E mid (Some repo) st)) = Some (compare_verdict E mid p rows l)"
    "ck_cache (snd (check_model L E mid (Some repo) st)) = c"
proof -
  obtain x xs where repo: "repo = x # xs" using assms(1) by (cases repo) auto
  have c: "cached_listing L E repo (ck_cache (emit_update e st)) = (Inr l, c)" for e
    using assms(4) by (simp add: emit_update_def)
  have "check_model L E mid (Some repo) st = save_and_emit E (compare_verdict E mid p rows l) (model_key mid) None
      (emit_update (CheckStarted ''model'' (model_key mid) None) st\<lparr>ck_cache := c\<rparr>)"
    unfolding repo check_model_def using assms(3) c unfolding repo by (simp add: Let_def)
  then show "verdict_row mid (snd (check_model L E mid (Some repo) st)) = Some (compare_verdict E mid p rows l)"
    "ck_cache (snd (check_model L E mid (Some repo) st)) = c"
    using assms(2) by (simp_all add: verdict_saved) (simp add: save_and_emit_def emit_update_def)
qed

lemma compare_verdict_blobs:
  assumes "ce_blobs E (rl_repo_id l) = Inr blobs" "rl_commit_sha l \<noteq> mp_commit_sha p"
  shows "compare_verdict E mid p rows l =
    model_verdict E mid (Some (mp_commit_sha p)) (Some (rl_commit_sha l))
      (list_ex is_change (compare_files rows blobs))
      (if list_ex is_change (compare_files rows blobs) then ''update_available'' else ''up_to_date'') None
      (Some \<lparr>cd_repo_id = rl_repo_id l, cd_commit_sha = rl_commit_sha l, cd_quants = quant_verdicts rows blobs\<rparr>)"
  using assms by (simp add: compare_verdict_def verdicts_agree Let_def)

lemma update_verdict_exact:
  assumes "repo \<noteq> []" "ce_save E = None" "db_state E repo = Inr (Some (p, rows))"
    "cached_listing L E repo (ck_cache st) = (Inr l, c)"
    "ce_blobs E (rl_repo_id l) = Inr blobs" "hm_wf blobs"
  shows "\<exists>r. verdict_row mid (snd (check_model L E mid (Some repo) st)) = Some r \<and>
    (uc_update_available r \<longleftrightarrow> rl_commit_sha l \<noteq> mp_commit_sha p \<and>
      (\<exists>f b. hm_get blobs f = Some b \<and>
        (f \<notin> mf_filename ` set rows
         \<or> (\<exists>x\<in>set rows. mf_filename x = f
            \<and> (\<exists>c l. mf_lfs_oid x = Some c \<and> bi_lfs_sha256 b = Some l \<and> c \<noteq> l)))))"
proof (cases "rl_commit_sha l = mp_commit_sha p")
  case True
  then show ?thesis
    using check_model_compare (1) [OF assms(1-4)] by (simp add: compare_verdict_def)
next
  case False
  then show ?thesis
    using check_model_compare (1) [OF assms(1-4)] compare_verdict_blobs [where p = p and l = l and E = E, OF assms(5)]
      change_iff [OF assms(6)] by simp
qed

lemma fresh_listing:
  assumes "fst (cache_get L (ce_now E) repo cache) = None" "list_gguf_files (ce_info E) repo = Inr l"
  shows "\<exists>c. cached_listing L E repo cache = (Inr l, c)"
  using assms by (cases "cache_get L (ce_now E) repo cache") (auto simp: cached_listing_def)

definition short_status :: "update_result \<Rightarrow> string" where
  "short_status res = (case ur_status res of
     NoPriorRecord \<Rightarrow> ''no_prior_record''
   | _ \<Rightarrow> if list_ex is_change (ur_files res) then ''update_available'' else ''up_to_date'')"

lemma check_for_updates_cases:
  assumes "check_for_updates E repo = Inr res" "\<forall>e. ur_status res \<noteq> CheckFailed e"
  obtains (Nothing) "db_state E repo = Inr None" "ur_status res = NoPriorRecord" "ur_files res = []"
  | (Same) p rows l where "db_state E repo = Inr (Some (p, rows))" "list_gguf_files (ce_info E) repo = Inr l"
      "rl_commit_sha l = mp_commit_sha p" "ur_status res = UpToDate" "ur_files res = []"
  | (Differs) p rows l blobs where "db_state E repo = Inr (Some (p, rows))" "list_gguf_files (ce_info E) repo = Inr l"
      "rl_commit_sha l \<noteq> mp_commit_sha p" "ce_blobs E (rl_repo_id l) = Inr blobs"
      "ur_files res = compare_files rows blobs" "ur_status res = overall_status (ur_files res)"
  using assms
  by (auto simp: check_for_updates_def db_state_def Let_def split: sum.splits option.splits if_splits)


section \<open>The cache forgets the completed name\<close>

text \<open>What the cache crate promises here: an entry just stored is found.\<close>

definition lru_recent :: "'c lru \<Rightarrow> bool" where
  "lru_recent L \<longleftrightarrow> (\<forall>k e c. fst (lru_get L k (lru_put L k e c)) = Some e)"

lemma cached_listing_twice:
  assumes "lru_recent L" "cached_listing L E repo c0 = (Inr l, c)"
    "fst (cache_get L (ce_now E) repo c0) = None" "ce_now E' < ce_now E + 300"
  shows "\<exists>c'. cached_listing L E' repo c = (Inr (l\<lparr>rl_repo_id := repo\<rparr>), c')"
proof -
  obtain c1 where c1: "cache_get L (ce_now E) repo c0 = (None, c1)"
    using assms(3) by (cases "cache_get L (ce_now E) repo c0") auto
  then have "c = lru_put L repo (rl_commit_sha l, rl_files l, ce_now E) c1"
    using assms(2) by (auto simp: cached_listing_def cache_insert_def split: sum.splits)
  then have "fst (lru_get L repo c) = Some (rl_commit_sha l, rl_files l, ce_now E)"
    using assms(1) by (simp add: lru_recent_def)
  then have "fst (cache_get L (ce_now E') repo c) = Some (rl_commit_sha l, rl_files l)"
    using assms(4) by (auto simp: cache_get_def TTL_SECS_def split: prod.splits)
  then show ?thesis
    by (cases "cache_get L (ce_now E') repo c") (auto simp: cached_listing_def)
qed

text \<open>
  A model whose repository was found under the completed name (with -GGUF) is checked again
  within five minutes against the blobs of the name as given: where that repository has no GGUF
  files, a found update turns into up to date with every file removed.
\<close>

theorem cached_listing_forgets_name:
  assumes "lru_recent L" "repo \<noteq> []" "ce_save E = None" "ce_save E' = None"
    "db_state E repo = Inr (Some (p, rows))" "db_state E' repo = Inr (Some (p, rows))"
    "fst (cache_get L (ce_now E) repo (ck_cache st)) = None"
    "list_gguf_files (ce_info E) repo = Inr l" "rl_commit_sha l \<noteq> mp_commit_sha p"
    "ce_blobs E (rl_repo_id l) = Inr blobs" "list_ex is_change (compare_files rows blobs)"
    "ce_blobs E' repo = Inr []" "ce_now E' < ce_now E + 300"
  shows "(\<exists>r. verdict_row mid (snd (check_model L E mid (Some repo) st)) = Some r
      \<and> uc_update_available r \<and> uc_status r = ''update_available'')
    \<and> (\<exists>r d. verdict_row mid (snd (check_model L E' mid (Some repo) (snd (check_model L E mid (Some repo) st)))) = Some r
      \<and> \<not> uc_update_available r \<and> uc_status r = ''up_to_date''
      \<and> uc_details r = Some d \<and> set (map qv_status (cd_quants d)) \<subseteq> {''removed_from_remote''})"
proof
  let ?st1 = "snd (check_model L E mid (Some repo) st)"
  obtain c where c: "cached_listing L E repo (ck_cache st) = (Inr l, c)"
    using fresh_listing [OF assms(7,8)] by blast
  show "\<exists>r. verdict_row mid ?st1 = Some r \<and> uc_update_available r \<and> uc_status r = ''update_available''"
    unfolding check_model_compare (1) [OF assms(2,3,5) c] compare_verdict_blobs [OF assms(10,9)]
    using assms(11) by simp
  let ?l = "l\<lparr>rl_repo_id := repo\<rparr>"
  obtain c' where c': "cached_listing L E' repo c = (Inr ?l, c')"
    using cached_listing_twice [OF assms(1) c assms(7,13)] by blast
  have "ck_cache ?st1 = c"
    by (rule check_model_compare (2) [OF assms(2,3,5) c])
  then have cc: "cached_listing L E' repo (ck_cache ?st1) = (Inr ?l, c')" using c' by simp
  have blobs: "ce_blobs E' (rl_repo_id ?l) = Inr []" using assms(12) by simp
  have sha: "rl_commit_sha ?l \<noteq> mp_commit_sha p" using assms(9) by simp
  have none: "\<not> list_ex is_change (compare_files rows [])"
    by (auto simp: change_iff [where blobs = "[]"])
  have "qv_status v = ''removed_from_remote''" if "v \<in> set (quant_verdicts rows [])" for v
    using that by (auto simp: quant_verdicts_def quant_check_def)
  then have "set (map qv_status (quant_verdicts rows [])) \<subseteq> {''removed_from_remote''}" by auto
  then show "\<exists>r d. verdict_row mid (snd (check_model L E' mid (Some repo) ?st1)) = Some r
      \<and> \<not> uc_update_available r \<and> uc_status r = ''up_to_date''
      \<and> uc_details r = Some d \<and> set (map qv_status (cd_quants d)) \<subseteq> {''removed_from_remote''}"
    unfolding check_model_compare (1) [OF assms(2,4,6) cc] compare_verdict_blobs [OF blobs sha]
    using none by (intro exI conjI) (rule refl | simp)+
qed

section \<open>A run in which this happens\<close>

definition demo_lru :: "(string, cache_entry) hmap lru" where
  "demo_lru = \<lparr>lru_get = \<lambda>k c. (hm_get c k, c), lru_put = hm_insert, lru_pop = hm_remove\<rparr>"

definition demo_rows :: "file_row list" where
  "demo_rows = [\<lparr>mf_model_id = 1, mf_repo_id = ''o/r'', mf_filename = ''a.gguf'', mf_quant = None,
     mf_lfs_oid = Some ''h1'', mf_size_bytes = None, mf_pulled_at = 0, mf_last_verified_at = None,
     mf_verified_ok = None, mf_verify_error = None\<rparr>]"

definition demo_pull :: pull_row where
  "demo_pull = \<lparr>mp_model_id = 1, mp_repo_id = ''o/r'', mp_commit_sha = ''c1'', mp_pulled_at = 0\<rparr>"

text \<open>The repository as given holds a model card only; the one with GGUF files has a new commit.\<close>

definition demo_env :: check_env where
  "demo_env = \<lparr>ce_model = \<lambda>r. Inr (Some 1), ce_pull = \<lambda>i. Inr (Some demo_pull), ce_files = \<lambda>i. Inr demo_rows,
     ce_info = \<lambda>r. if r = ''o/r'' then Inr (''c0'', [''README.md'']) else Inr (''c2'', [''a.gguf'']),
     ce_blobs = \<lambda>r. if r = ''o/r'' then Inr []
       else Inr [(''a.gguf'', \<lparr>bi_filename = ''a.gguf'', bi_blob_id = None, bi_size = None, bi_lfs_sha256 = Some ''h2''\<rparr>)],
     ce_save = None, ce_now = 1000\<rparr>"

definition demo_checker :: "(string, cache_entry) hmap checker" where
  "demo_checker = \<lparr>ck_cache = [], ck_table = [], ck_events = []\<rparr>"

lemma demo_listing: "\<exists>l. list_gguf_files (ce_info demo_env) ''o/r'' = Inr l \<and> rl_repo_id l = ''o/r-GGUF'' \<and> rl_commit_sha l = ''c2''"
  by (simp add: demo_env_def list_gguf_files_def gguf_candidates_def remote_ggufs_def to_upper_def upper_char_def
      ends_with_def strip_suffix_def)


lemma demo_answers:
  "lru_recent demo_lru" "db_state demo_env ''o/r'' = Inr (Some (demo_pull, demo_rows))"
  "cache_get demo_lru 1000 ''o/r'' [] = (None, [])"
  "mp_commit_sha demo_pull = ''c1''" "ce_save demo_env = None" "ce_now demo_env = 1000"
  by (simp_all add: lru_recent_def demo_lru_def db_state_def demo_env_def cache_get_def demo_pull_def)

lemma demo_changed:
  assumes "rl_repo_id l = ''o/r-GGUF''"
  shows "\<exists>blobs. ce_blobs demo_env (rl_repo_id l) = Inr blobs \<and> list_ex is_change (compare_files demo_rows blobs)"
  unfolding assms
  by (simp add: demo_env_def compare_files_def compare_local_def demo_rows_def hm_get_def hash_status_def is_change_def tracked_def)


theorem cached_listing_forgets_name_witness:
  "\<exists>r. verdict_row 1 (snd (check_model demo_lru demo_env 1 (Some ''o/r'')
      (snd (check_model demo_lru demo_env 1 (Some ''o/r'') demo_checker)))) = Some r \<and> uc_status r = ''up_to_date''"
proof -
  obtain l where l: "list_gguf_files (ce_info demo_env) ''o/r'' = Inr l" "rl_repo_id l = ''o/r-GGUF''" "rl_commit_sha l = ''c2''"
    using demo_listing by blast
  obtain blobs where blobs: "ce_blobs demo_env (rl_repo_id l) = Inr blobs" "list_ex is_change (compare_files demo_rows blobs)"
    using demo_changed [OF l(2)] by blast
  have miss: "fst (cache_get demo_lru (ce_now demo_env) ''o/r'' (ck_cache demo_checker)) = None"
    by (simp add: demo_answers demo_checker_def)
  have "rl_commit_sha l \<noteq> mp_commit_sha demo_pull" by (simp add: l demo_answers)
  from cached_listing_forgets_name [OF demo_answers(1) _ demo_answers(5,5,2,2) miss l(1) this blobs, of 1]
  show ?thesis by (auto simp: demo_env_def)
qed

section \<open>Removing an engine\<close>

interpretation postgres: like_escape "of_char CHR 0x5C" escape_name
proof
  show "escape_name s = concat (map (\<lambda>x. if x = of_char CHR 0x5C \<or> x = of_char (CHR ''%'') \<or> x = of_char (CHR ''_'')
     then [of_char CHR 0x5C, x] else [x]) s)" for s
    by (induction s) (auto simp: escape_name_def)
qed simp_all

lemma lit_inject [simp]: "lit a = lit b \<longleftrightarrow> a = b"
  unfolding lit_def by (rule inj_map_eq_map) (simp add: inj_def)

lemma lit_append_conv: "lit s = lit p @ r \<longleftrightarrow> (\<exists>q. s = p @ q \<and> r = lit q)"
proof
  assume s: "lit s = lit p @ r"
  then obtain u v where "s = u @ v" "lit p = lit u" "r = lit v"
    by (auto simp: lit_def map_eq_append_conv)
  then show "\<exists>q. s = p @ q \<and> r = lit q" by auto
qed auto

lemma engine_checks_deleted:
  "delete_update_checks_for_backend name t =
     filter (\<lambda>((ty, item), r). \<not> (ty = ''backend'' \<and> (item = name \<or> (\<exists>v. item = engine_item name v)))) t"
proof -
  have "pg_like (escape_name (lit name) @ lit '':%'') (lit item) \<longleftrightarrow> (\<exists>v. item = engine_item name v)" for item
  proof -
    have "pg_like (escape_name (lit name) @ lit '':%'') (lit item) \<longleftrightarrow>
        (\<exists>a b. lit item = a @ b \<and> a = lit (name @ '':''))"
      using postgres.prefix_pattern [of "of_char (CHR '':'')" "\<lambda>c. c" "lit name" "lit item"]
      by (simp add: pg_like_def)
    then show ?thesis
      by (auto simp: lit_append_conv engine_item_def simp del: lit_simps)
  qed
  then show ?thesis
    by (auto simp: delete_update_checks_for_backend_def delete_update_check_def
        delete_update_checks_by_pattern_def intro: filter_cong)
qed

end
