(* ===== verification/HostPull.thy ===== *)
theory HostPull
  imports ModelFiles
begin

text \<open>
  A pull as the host runs it (\<^verbatim>\<open>tamad/src/pulls.rs\<close>, \<^verbatim>\<open>tamad/src/download/hf.rs\<close>): the
  checks of the request, the directory, the files one by one with their verification, or the
  \<^verbatim>\<open>hf\<close> program for a whole repository; and the helpers both sides share
  (\<^verbatim>\<open>tama-core/src/models/pull/hf_cli.rs\<close>, \<^verbatim>\<open>models/transformers.rs\<close>). What downloads,
  hashes and parsers answer is the environment \<open>file_env\<close> of each file; a cancellation is an
  answer of its own.
\<close>

section \<open>The tail of an error stream\<close>

definition TAIL_CAP :: nat where
  "TAIL_CAP = 4096"

definition cap_tail :: "bytes \<Rightarrow> bytes" where
  "cap_tail bs = drop (length bs - TAIL_CAP) bs"

definition tail_chunk :: "bytes \<Rightarrow> bytes \<Rightarrow> bytes" where
  "tail_chunk chunk sink = cap_tail (sink @ chunk)"

definition stderr_tail_str :: "bytes \<Rightarrow> utext option" where
  "stderr_tail_str sink =
     (let t = trim_end_matches (\<lambda>c. c = 10 \<or> c = 13) (from_utf8_lossy sink) in if t = [] then None else Some t)"

section \<open>The size of a directory\<close>

text \<open>
  A directory tree: regular files, directories (\<open>None\<close>: not readable), and everything that is
  skipped (symbolic links, entries that cannot be examined, special files).
\<close>

datatype fs_entry = FsFile nat | FsDir "fs_entry list option" | FsSkipped

definition u64_max :: nat where
  "u64_max = 2 ^ 64 - 1"

definition sat_add64 :: "nat \<Rightarrow> nat \<Rightarrow> nat" where
  "sat_add64 a b = min u64_max (a + b)"

fun scan_entries :: "fs_entry list \<Rightarrow> nat \<Rightarrow> fs_entry list \<Rightarrow> nat \<times> fs_entry list" where
  "scan_entries [] seen stack = (seen, stack)"
| "scan_entries (FsFile n # es) seen stack = scan_entries es (sat_add64 seen n) stack"
| "scan_entries (FsDir d # es) seen stack = scan_entries es seen (FsDir d # stack)"
| "scan_entries (FsSkipped # es) seen stack = scan_entries es seen stack"

lemma scan_entries_size:
  "size_list size (snd (scan_entries es n stack)) \<le> size_list size stack + size_list size es"
  by (induction es n stack rule: scan_entries.induct) simp_all

function scan_stack :: "nat \<Rightarrow> fs_entry list \<Rightarrow> nat" where
  "scan_stack seen [] = seen"
| "scan_stack seen (FsDir (Some es) # stack) =
     (let (seen', stack') = scan_entries es seen stack in scan_stack seen' stack')"
| "scan_stack seen (FsDir None # stack) = scan_stack seen stack"
| "scan_stack seen (FsFile n # stack) = scan_stack seen stack"
| "scan_stack seen (FsSkipped # stack) = scan_stack seen stack"
  by pat_completeness auto

termination
proof (relation "measure (\<lambda>(seen, stack). size_list size stack)", goal_cases)
  case (2 seen es stack x seen' stack')
  then have "snd (scan_entries es seen stack) = stack'" by (metis snd_conv)
  then show ?case
    using scan_entries_size [of es seen stack] by simp
qed simp_all

definition scan_dir_bytes :: "fs_entry option \<Rightarrow> nat" where
  "scan_dir_bytes d = (case d of Some (FsDir es) \<Rightarrow> scan_stack 0 [FsDir es] | _ \<Rightarrow> 0)"

section \<open>The configuration of a transformers model\<close>

record transformers_metadata =
  tf_architectures :: "string list"
  tf_hidden_size :: "u32 option"
  tf_num_hidden_layers :: "u32 option"
  tf_num_attention_heads :: "u32 option"
  tf_max_position_embeddings :: "u32 option"
  tf_quantization_method :: "string option"

text \<open>\<open>as_u64\<close> is \<^verbatim>\<open>serde_json\<close>'s view of a number; a value beyond 32 bits counts as absent.\<close>

definition json_u32 :: "('n \<Rightarrow> nat option) \<Rightarrow> 'n json \<Rightarrow> string \<Rightarrow> u32 option" where
  "json_u32 as_u64 v k = (case jget v k of
     Some (JNum n) \<Rightarrow> (case as_u64 n of Some x \<Rightarrow> if x < 2 ^ 32 then Some (of_nat x) else None | None \<Rightarrow> None)
   | _ \<Rightarrow> None)"

definition parse_transformers_metadata :: "('n \<Rightarrow> nat option) \<Rightarrow> 'n json option \<Rightarrow> transformers_metadata option" where
  "parse_transformers_metadata as_u64 config = map_option (\<lambda>v.
     \<lparr>tf_architectures = json_names v ''architectures'',
      tf_hidden_size = json_u32 as_u64 v ''hidden_size'',
      tf_num_hidden_layers = json_u32 as_u64 v ''num_hidden_layers'',
      tf_num_attention_heads = json_u32 as_u64 v ''num_attention_heads'',
      tf_max_position_embeddings = json_u32 as_u64 v ''max_position_embeddings'',
      tf_quantization_method = Option.bind (Option.bind (jget v ''quantization_config'') (\<lambda>q. jget q ''quant_method'')) as_name\<rparr>)
     config"

section \<open>The request\<close>

record pull_request =
  pr_repo_id :: string
  pr_quants :: "string list"
  pr_model_name :: string
  pr_backend :: string
  pr_hf_token :: string
  pr_repo_pull :: bool
  pr_dest_dir :: string

definition resolve_dest_dir :: "string \<Rightarrow> pull_request \<Rightarrow> string + string" where
  "resolve_dest_dir models_dir req =
     (let dest = trim_ws (pr_dest_dir req) in
      if dest = [] then Inr (repo_path models_dir (pr_repo_id req))
      else if \<not> starts_with dest ''/''
        then Inl (''dest_dir must be an absolute path: '' @ CHR 0x27 # dest @ [CHR 0x27])
      else if ''..'' \<in> set (split_char (CHR ''/'') dest)
        then Inl (''dest_dir must not contain '' @ CHR 0x27 # ''..'' @ CHR 0x27 # '': '' @ CHR 0x27 # dest @ [CHR 0x27])
      else Inr dest)"

section \<open>Files one by one\<close>

datatype 'a host_answer = HostCancelled | HostFailed string | HostDone 'a

text \<open>
  What happens to one file: the error of making its parent directory, the pairs of byte counts
  the progress callback gets, the download, the digest (\<open>None\<close>: cancelled before it was there; \<open>Some
  None\<close>: the file cannot be read), and what the two parsers make of the headers.
\<close>

record 'g file_env =
  fe_parent :: "string option"
  fe_progress :: "(nat \<times> nat) list"
  fe_download :: "nat host_answer"
  fe_hash :: "string option option"
  fe_gguf :: "'g option"
  fe_config_exists :: bool
  fe_transformers :: "transformers_metadata option"

text \<open>A report of a job: percentage, message, bytes downloaded, bytes in all.\<close>

type_synonym report = "nat \<times> string \<times> nat \<times> nat"

record pulled_file =
  pf_path :: string
  pf_size :: nat
  pf_sha256 :: "string option"
  pf_expected_sha :: "string option"
  pf_verified :: bool
  pf_verify_error :: "string option"
  pf_is_primary_shard :: bool

record 'g gguf_state =
  gs_files :: "pulled_file list"
  gs_gguf :: "'g option"
  gs_transformers :: "transformers_metadata option"
  gs_removed :: "string list"
  gs_reports :: "report list"

definition progress_pct :: "nat \<Rightarrow> nat \<Rightarrow> nat" where
  "progress_pct pulled all = (if all = 0 then 0 else min 99 (min u64_max (pulled * 100) div all))"

definition hash_verdict :: "string option \<Rightarrow> string option \<Rightarrow> bool \<times> string option" where
  "hash_verdict expected actual = (case (expected, actual) of
     (None, _) \<Rightarrow> (True, None)
   | (Some _, None) \<Rightarrow> (False, Some ''hash error: failed to read file'')
   | (Some e, Some a) \<Rightarrow> if eq_ignore_case a e then (True, None)
       else (False, Some (''hash mismatch: expected '' @ short e @ '' got '' @ short a)))"

definition primary_shard :: "(string, blob_info) hmap option \<Rightarrow> string \<Rightarrow> bool" where
  "primary_shard blobs filename = (case blobs of
     Some b \<Rightarrow> determine_primary_shard filename b
   | None \<Rightarrow> CHR ''/'' \<notin> set filename \<or> contains_str filename ''00001-of'')"

definition expected_sha :: "(string, blob_info) hmap option \<Rightarrow> string \<Rightarrow> string option" where
  "expected_sha blobs filename = Option.bind blobs (\<lambda>b. Option.bind (hm_get b filename) bi_lfs_sha256)"

definition parse_headers :: "'g file_env \<Rightarrow> string \<Rightarrow> 'g gguf_state \<Rightarrow> 'g gguf_state" where
  "parse_headers F filename st =
     (let skip = (kind_from_filename filename \<in> {QMmproj, QMtp});
          st1 = (if \<not> skip \<and> gs_gguf st = None then st\<lparr>gs_gguf := fe_gguf F\<rparr> else st)
      in if \<not> skip \<and> gs_gguf st1 = None \<and> gs_transformers st1 = None \<and> fe_config_exists F
         then st1\<lparr>gs_transformers := fe_transformers F\<rparr> else st1)"

definition download_reports :: "string \<Rightarrow> 'g file_env \<Rightarrow> report list" where
  "download_reports filename F =
     (0, ''Downloading '' @ filename, 0, 0)
     # map (\<lambda>(n, all). (progress_pct n all, ''Downloading '' @ filename, n, all)) (fe_progress F)"

definition verify_reports :: "nat \<Rightarrow> report list" where
  "verify_reports sz = [(100, ''Verifying...'', 0, 0), (100, ''Verifying...'', sz, sz)]"

definition pull_file ::
  "(string, blob_info) hmap option \<Rightarrow> string \<Rightarrow> string \<Rightarrow> 'g file_env \<Rightarrow> 'g gguf_state \<Rightarrow> string option \<times> 'g gguf_state" where
  "pull_file blobs dest_dir filename F st0 =
     (case fe_parent F of Some e \<Rightarrow> (Some e, st0) | None \<Rightarrow>
      (let st = st0\<lparr>gs_reports := gs_reports st0 @ download_reports filename F\<rparr> in
       case fe_download F of
         HostCancelled \<Rightarrow> (Some ''pull cancelled'', st)
       | HostFailed e \<Rightarrow> (Some (''download of '' @ CHR 0x27 # filename @ CHR 0x27 # '' failed''), st)
       | HostDone sz \<Rightarrow>
          (let st1 = st\<lparr>gs_reports := gs_reports st @ verify_reports sz\<rparr> in
           case fe_hash F of
             None \<Rightarrow> (Some ''pull cancelled'', st1)
           | Some actual \<Rightarrow>
              (let (ok, err) = hash_verdict (expected_sha blobs filename) actual in
               if \<not> ok
               then (Some (''verification failed for '' @ CHR 0x27 # filename @ CHR 0x27 # '': ''
                       @ (case err of Some e \<Rightarrow> e | None \<Rightarrow> ''verification failed'')),
                     st1\<lparr>gs_removed := gs_removed st1 @ [path_join dest_dir filename]\<rparr>)
               else (let st2 = parse_headers F filename st1 in
                 (None, st2\<lparr>gs_files := gs_files st2 @ [\<lparr>pf_path = filename, pf_size = sz, pf_sha256 = actual,
                    pf_expected_sha = expected_sha blobs filename, pf_verified = ok, pf_verify_error = err,
                    pf_is_primary_shard = primary_shard blobs filename\<rparr>]\<rparr>))))))"

fun pull_files ::
  "(string, blob_info) hmap option \<Rightarrow> string \<Rightarrow> (string \<Rightarrow> 'g file_env) \<Rightarrow> string list \<Rightarrow> 'g gguf_state
    \<Rightarrow> string option \<times> 'g gguf_state" where
  "pull_files blobs dest_dir F [] st = (None, st)"
| "pull_files blobs dest_dir F (f # fs) st =
     (case pull_file blobs dest_dir f (F f) st of
        (Some e, st') \<Rightarrow> (Some e, st')
      | (None, st') \<Rightarrow> pull_files blobs dest_dir F fs st')"

record 'g gguf_result =
  gr_dir :: string
  gr_files :: "pulled_file list"
  gr_gguf :: "'g option"
  gr_transformers :: "transformers_metadata option"

definition gguf_start :: "'g gguf_state" where
  "gguf_start = \<lparr>gs_files = [], gs_gguf = None, gs_transformers = None, gs_removed = [], gs_reports = []\<rparr>"

text \<open>\<open>mkdir\<close> and \<open>client\<close> are the errors of making the directory and the HTTP client.\<close>

definition run_gguf_pull ::
  "pull_request \<Rightarrow> string \<Rightarrow> string option \<Rightarrow> (string, blob_info) hmap host_answer \<Rightarrow> string option
    \<Rightarrow> (string \<Rightarrow> 'g file_env) \<Rightarrow> (string + 'g gguf_result) \<times> 'g gguf_state" where
  "run_gguf_pull req models_dir mkdir blobs client F =
     (case resolve_dest_dir models_dir req of Inl e \<Rightarrow> (Inl e, gguf_start) | Inr dest \<Rightarrow>
      (case mkdir of Some e \<Rightarrow> (Inl e, gguf_start) | None \<Rightarrow>
       if blobs = HostCancelled then (Inl ''pull cancelled'', gguf_start)
       else (case client of Some e \<Rightarrow> (Inl e, gguf_start) | None \<Rightarrow>
        (let known = (case blobs of HostDone b \<Rightarrow> Some b | _ \<Rightarrow> None) in
         case pull_files known dest F (pr_quants req) gguf_start of
           (Some e, st) \<Rightarrow> (Inl e, st)
         | (None, st) \<Rightarrow> (Inr \<lparr>gr_dir = dest, gr_files = gs_files st, gr_gguf = gs_gguf st,
             gr_transformers = gs_transformers st\<rparr>, st)))))"

section \<open>A whole repository\<close>

text \<open>
  The child process is polled: it has exited (with its verdict and the text of its status), it
  runs (with the size of the directory, and whether the job is cancelled before the next poll), or
  it cannot be waited for.
\<close>

datatype child_poll = Exited bool string | Running nat bool | WaitFailed string

record repo_result =
  rr_dir :: string
  rr_ok :: bool

fun poll_child :: "string \<Rightarrow> bytes \<Rightarrow> child_poll list \<Rightarrow> (string + repo_result) option \<times> report list" where
  "poll_child dest sink [] = (None, [])"
| "poll_child dest sink (Exited ok status # ps) =
     (if ok then (Some (Inr \<lparr>rr_dir = dest, rr_ok = True\<rparr>), [(100, ''Repo pull complete'', 0, 0)])
      else (Some (Inl (''hf download exited with code '' @ status @
          (case stderr_tail_str sink of None \<Rightarrow> [] | Some t \<Rightarrow> '': '' @ map char_of t))), []))"
| "poll_child dest sink (WaitFailed e # ps) = (Some (Inl (''waiting on hf child failed: '' @ e)), [])"
| "poll_child dest sink (Running n cancelled # ps) =
     (let r = (0, ''Repo pull in progress: '' @ show_nat n @ '' bytes downloaded'', 0, 0) in
      if cancelled then (Some (Inl ''repo pull cancelled''), [r])
      else (let (res, rs) = poll_child dest sink ps in (res, r # rs)))"

text \<open>
  \<open>spawned\<close> is the error of starting the child, or what it wrote to its error stream, piece by piece;
  \<open>None\<close> as a result is a child that never ends.
\<close>

definition run_repo_pull ::
  "pull_request \<Rightarrow> string \<Rightarrow> string option \<Rightarrow> string option \<Rightarrow> string + bytes list \<Rightarrow> child_poll list
    \<Rightarrow> (string + repo_result) option \<times> report list" where
  "run_repo_pull req models_dir mkdir no_hf spawned polls =
     (case resolve_dest_dir models_dir req of Inl e \<Rightarrow> (Some (Inl e), []) | Inr dest \<Rightarrow>
      (case mkdir of Some e \<Rightarrow> (Some (Inl e), []) | None \<Rightarrow>
      (case no_hf of Some e \<Rightarrow> (Some (Inl e), []) | None \<Rightarrow>
      (case spawned of Inl e \<Rightarrow> (Some (Inl e), []) | Inr chunks \<Rightarrow>
        (let (res, rs) = poll_child dest (fold tail_chunk chunks []) polls in
         (res, (0, ''Starting hf download'', 0, 0) # rs))))))"

section \<open>The entry\<close>

definition check_request :: "pull_request \<Rightarrow> string option" where
  "check_request req =
     (if \<not> is_valid_repo_id (pr_repo_id req)
      then Some (''invalid repo_id: '' @ CHR 0x27 # pr_repo_id req @ [CHR 0x27])
      else if pr_repo_pull req then None
      else if pr_quants req = []
      then Some (''no files requested for GGUF pull of '' @ CHR 0x27 # pr_repo_id req @ [CHR 0x27])
      else (case List.find (\<lambda>f. \<not> is_safe_relative_path f) (pr_quants req) of
          Some f \<Rightarrow> Some (''unsafe filename: '' @ CHR 0x27 # f @ [CHR 0x27])
        | None \<Rightarrow> None))"

datatype 'g pull_result = RepoDone repo_result | GgufDone "'g gguf_result"

definition run_pull ::
  "pull_request \<Rightarrow> string \<Rightarrow> string option \<Rightarrow> (string, blob_info) hmap host_answer \<Rightarrow> string option
    \<Rightarrow> (string \<Rightarrow> 'g file_env) \<Rightarrow> string option \<Rightarrow> string + bytes list \<Rightarrow> child_poll list
    \<Rightarrow> (string + 'g pull_result) option" where
  "run_pull req models_dir mkdir blobs client F no_hf spawned polls =
     (case check_request req of
        Some e \<Rightarrow> Some (Inl e)
      | None \<Rightarrow>
          (if pr_repo_pull req
           then map_option (\<lambda>r. case r of Inl e \<Rightarrow> Inl e | Inr x \<Rightarrow> Inr (RepoDone x))
             (fst (run_repo_pull req models_dir mkdir no_hf spawned polls))
           else Some (case fst (run_gguf_pull req models_dir mkdir blobs client F) of
             Inl e \<Rightarrow> Inl e | Inr x \<Rightarrow> Inr (GgufDone x))))"

section \<open>The tail is the end of the stream\<close>

lemma cap_tail_append: "cap_tail (cap_tail a @ b) = cap_tail (a @ b)"
proof (cases "length a \<le> TAIL_CAP")
  case False
  define n where "n = length a - TAIL_CAP"
  have "drop (n + length b) (a @ b) = drop (length b) (drop n a @ b)"
    by (simp add: n_def add.commute flip: drop_drop)
  moreover have "length a = n + TAIL_CAP" using False by (simp add: n_def)
  ultimately show ?thesis by (simp add: cap_tail_def)
qed (simp add: cap_tail_def)

lemma tail_chunks: "fold tail_chunk cs (cap_tail a) = cap_tail (a @ concat cs)"
proof (induction cs arbitrary: a)
  case (Cons c cs)
  then show ?case by (simp add: tail_chunk_def cap_tail_append)
qed simp

lemma stderr_sink_exact: "fold tail_chunk cs [] = cap_tail (concat cs)"
  using tail_chunks [of cs "[]"] by (simp add: cap_tail_def)

text \<open>A character of four bytes that the cap cuts behind its first byte shows up three times.\<close>

lemma cut_character_shows_thrice: "stderr_tail_str [0x9F, 0x98, 0x80] = Some [0xFFFD, 0xFFFD, 0xFFFD]"
proof -
  have c: "list_all is_cont [0x9F, 0x98, 0x80 :: u8]" by (simp add: is_cont_def)
  have "from_utf8_lossy [0x9F, 0x98, 0x80] = [0xFFFD, 0xFFFD, 0xFFFD]"
    using lossy_cont [OF c, of "[]"] by (simp add: numeral_3_eq_3)
  then show ?thesis by (simp add: stderr_tail_str_def trim_end_matches_def)
qed

section \<open>The size of a directory tree\<close>

fun tree_bytes :: "fs_entry \<Rightarrow> nat" where
  "tree_bytes (FsFile n) = n"
| "tree_bytes (FsDir (Some es)) = sum_list (map tree_bytes es)"
| "tree_bytes (FsDir None) = 0"
| "tree_bytes FsSkipped = 0"

definition dir_bytes :: "fs_entry \<Rightarrow> nat" where
  "dir_bytes e = (case e of FsDir d \<Rightarrow> tree_bytes e | _ \<Rightarrow> 0)"

lemma sat_add64_assoc: "sat_add64 (min u64_max a) b = min u64_max (a + b)"
  by (simp add: sat_add64_def)

lemma scan_entries_sum:
  "scan_entries es (min u64_max a) stack = (n', stack') \<Longrightarrow>
    \<exists>a'. n' = min u64_max a' \<and> a' + sum_list (map dir_bytes stack') =
      a + sum_list (map tree_bytes es) + sum_list (map dir_bytes stack)"
proof (induction es "min u64_max a" stack arbitrary: a rule: scan_entries.induct)
  case (2 n es stack)
  then show ?case by (simp add: sat_add64_assoc) (metis add.assoc)
next
  case (3 d es stack)
  then show ?case by (fastforce simp: dir_bytes_def)
qed auto

lemma scan_stack_sum: "scan_stack (min u64_max a) stack = min u64_max (a + sum_list (map dir_bytes stack))"
proof (induction "min u64_max a" stack arbitrary: a rule: scan_stack.induct)
  case (2 es stack)
  obtain n' stack' where sc: "scan_entries es (min u64_max a) stack = (n', stack')" by (cases "scan_entries es (min u64_max a) stack")
  from scan_entries_sum [OF this] obtain a' where a': "n' = min u64_max a'"
      "a' + sum_list (map dir_bytes stack') = a + sum_list (map tree_bytes es) + sum_list (map dir_bytes stack)"
    by blast
  have "scan_stack (min u64_max a') stack' = min u64_max (a' + sum_list (map dir_bytes stack'))"
    using 2 sc a'(1) by simp
  then show ?case by (simp add: sc a' dir_bytes_def)
qed (simp_all add: dir_bytes_def)

lemma scan_dir_exact: "scan_dir_bytes (Some (FsDir d)) = min u64_max (tree_bytes (FsDir d))"
  using scan_stack_sum [of 0 "[FsDir d]"] by (simp add: scan_dir_bytes_def dir_bytes_def)

section \<open>What a pull that succeeds has done\<close>

lemma pull_file_None:
  assumes "pull_file blobs dest f F st = (None, st')"
  shows "gs_removed st' = gs_removed st"
    "\<exists>x. gs_files st' = gs_files st @ [x] \<and> pf_path x = f \<and> pf_verified x \<and> pf_verify_error x = None
      \<and> fe_download F = HostDone (pf_size x) \<and> fe_hash F = Some (pf_sha256 x)
      \<and> (case expected_sha blobs f of None \<Rightarrow> True
         | Some e \<Rightarrow> (\<exists>a. pf_sha256 x = Some a \<and> eq_ignore_case a e))"
  using assms
  by (auto simp: pull_file_def parse_headers_def Let_def hash_verdict_def split: option.splits host_answer.splits if_splits)

lemma pull_file_Some:
  assumes "pull_file blobs dest f F st = (Some e, st')"
  shows "gs_files st' = gs_files st"
    "gs_removed st' \<noteq> gs_removed st \<longleftrightarrow> (\<exists>n h x. fe_parent F = None \<and> fe_download F = HostDone n \<and> fe_hash F = Some h
      \<and> expected_sha blobs f = Some x \<and> (\<forall>a. h = Some a \<longrightarrow> \<not> eq_ignore_case a x))"
    "gs_removed st' \<in> {gs_removed st, gs_removed st @ [path_join dest f]}"
  using assms
  by (auto simp: pull_file_def Let_def hash_verdict_def split: option.splits host_answer.splits if_splits)

definition file_good :: "(string, blob_info) hmap option \<Rightarrow> (string \<Rightarrow> 'g file_env) \<Rightarrow> pulled_file \<Rightarrow> bool" where
  "file_good blobs F x \<longleftrightarrow> pf_verified x \<and> fe_download (F (pf_path x)) = HostDone (pf_size x)
     \<and> fe_hash (F (pf_path x)) = Some (pf_sha256 x)
     \<and> (\<forall>e. expected_sha blobs (pf_path x) = Some e \<longrightarrow> (\<exists>a. pf_sha256 x = Some a \<and> eq_ignore_case a e))"

lemma pull_files_None:
  assumes "pull_files blobs dest F fs st = (None, st')"
  shows "gs_removed st' = gs_removed st"
    "\<exists>xs. gs_files st' = gs_files st @ xs \<and> map pf_path xs = fs \<and> (\<forall>x\<in>set xs. file_good blobs F x)"
proof -
  have "gs_removed st' = gs_removed st \<and>
    (\<exists>xs. gs_files st' = gs_files st @ xs \<and> map pf_path xs = fs \<and> (\<forall>x\<in>set xs. file_good blobs F x))"
    using assms
  proof (induction fs arbitrary: st)
    case (Cons f fs)
    obtain st1 where st1: "pull_file blobs dest f (F f) st = (None, st1)" "pull_files blobs dest F fs st1 = (None, st')"
      using Cons.prems by (auto split: prod.splits option.splits)
    obtain x where x: "gs_files st1 = gs_files st @ [x]" "pf_path x = f" "file_good blobs F x"
      using pull_file_None (2) [OF st1(1)] by (auto simp: file_good_def split: option.splits)
    obtain xs where xs: "gs_files st' = gs_files st1 @ xs" "map pf_path xs = fs" "\<forall>x\<in>set xs. file_good blobs F x"
      using Cons.IH [OF st1(2)] by blast
    show ?case
    proof (intro conjI exI [of _ "x # xs"])
      show "gs_removed st' = gs_removed st"
        using Cons.IH [OF st1(2)] pull_file_None (1) [OF st1(1)] by simp
    qed (use x xs in simp_all)
  qed simp
  then show "gs_removed st' = gs_removed st"
    "\<exists>xs. gs_files st' = gs_files st @ xs \<and> map pf_path xs = fs \<and> (\<forall>x\<in>set xs. file_good blobs F x)" by blast+
qed

text \<open>
  C31. A pull of files that the host reports as done passed the checks of the request, downloaded
  every requested file in order, removed none, and every file whose published hash is known has
  that hash.
\<close>

theorem host_pull_verified:
  assumes "run_pull req models_dir mkdir blobs client F no_hf spawned polls = Some (Inr (GgufDone r))"
  shows "is_valid_repo_id (pr_repo_id req) \<and> list_all is_safe_relative_path (pr_quants req)
    \<and> resolve_dest_dir models_dir req = Inr (gr_dir r)
    \<and> map pf_path (gr_files r) = pr_quants req \<and> gr_files r \<noteq> []
    \<and> gs_removed (snd (run_gguf_pull req models_dir mkdir blobs client F)) = []
    \<and> list_all (file_good (case blobs of HostDone b \<Rightarrow> Some b | _ \<Rightarrow> None) F) (gr_files r)"
proof -
  have ok: "check_request req = None" using assms by (auto simp: run_pull_def split: option.splits)
  have no_repo: "\<not> pr_repo_pull req"
  proof
    assume "pr_repo_pull req"
    with assms ok obtain z where "(case z of Inl e \<Rightarrow> Inl e | Inr x \<Rightarrow> Inr (RepoDone x)) = (Inr (GgufDone r) :: string + _)"
      by (auto simp: run_pull_def)
    then show False by (cases z) auto
  qed
  have "fst (run_gguf_pull req models_dir mkdir blobs client F) = Inr r"
    using assms ok no_repo
    by (cases "fst (run_gguf_pull req models_dir mkdir blobs client F)") (auto simp: run_pull_def)
  note chk = ok no_repo this
  have req: "is_valid_repo_id (pr_repo_id req)" "pr_quants req \<noteq> []" "list_all is_safe_relative_path (pr_quants req)"
    using chk(1,2) by (auto simp: check_request_def find_None_iff list_all_iff split: if_splits option.splits)
  let ?known = "case blobs of HostDone b \<Rightarrow> Some b | _ \<Rightarrow> None"
  obtain dest st where st: "resolve_dest_dir models_dir req = Inr dest"
      "pull_files ?known dest F (pr_quants req) gguf_start = (None, st)"
      "r = \<lparr>gr_dir = dest, gr_files = gs_files st, gr_gguf = gs_gguf st, gr_transformers = gs_transformers st\<rparr>"
      "snd (run_gguf_pull req models_dir mkdir blobs client F) = st"
    using chk(3) by (auto simp: run_gguf_pull_def Let_def split: sum.splits option.splits prod.splits if_splits)
  obtain xs where "gs_files st = xs" "map pf_path xs = pr_quants req" "\<forall>x\<in>set xs. file_good ?known F x"
    using pull_files_None (2) [OF st(2)] by (auto simp: gguf_start_def)
  moreover have "gs_removed st = []"
    using pull_files_None (1) [OF st(2)] by (simp add: gguf_start_def)
  ultimately show ?thesis
    using req st by (auto simp: list_all_iff)
qed

definition demo_request :: pull_request where
  "demo_request = \<lparr>pr_repo_id = ''o/r'', pr_quants = [''a.gguf''], pr_model_name = [], pr_backend = [],
     pr_hf_token = [], pr_repo_pull = False, pr_dest_dir = ''/d''\<rparr>"

definition demo_known :: "(string, blob_info) hmap" where
  "demo_known = [(''a.gguf'', \<lparr>bi_filename = ''a.gguf'', bi_blob_id = None, bi_size = None, bi_lfs_sha256 = Some ''ab''\<rparr>)]"

definition demo_file_env :: "string \<Rightarrow> nat file_env" where
  "demo_file_env f = \<lparr>fe_parent = None, fe_progress = [(1, 3)], fe_download = HostDone 3, fe_hash = Some (Some ''ab''),
     fe_gguf = Some 7, fe_config_exists = False, fe_transformers = None\<rparr>"

theorem host_pull_verified_witness:
  "\<exists>r. run_pull demo_request ''/m'' None (HostDone demo_known) None demo_file_env None (Inr []) [] = Some (Inr (GgufDone r))
    \<and> map pf_path (gr_files r) = pr_quants demo_request
    \<and> list_all (file_good (Some demo_known) demo_file_env) (gr_files r)"
proof -
  have chk: "check_request demo_request = None" by code_simp
  have dest: "resolve_dest_dir ''/m'' demo_request = Inr ''/d''" by code_simp
  have "\<exists>r. run_pull demo_request ''/m'' None (HostDone demo_known) None demo_file_env None (Inr []) [] = Some (Inr (GgufDone r))"
    by (simp add: run_pull_def chk run_gguf_pull_def dest)
      (simp add: demo_request_def pull_file_def Let_def demo_file_env_def expected_sha_def demo_known_def
        hm_get_def hash_verdict_def eq_ignore_case_def)
  then obtain r where r: "run_pull demo_request ''/m'' None (HostDone demo_known) None demo_file_env None (Inr []) [] = Some (Inr (GgufDone r))"
    by blast
  from host_pull_verified [OF r] r show ?thesis by auto
qed

end
