(* ===== verification/RepoPull.thy ===== *)
theory RepoPull
  imports HostPull
begin

text \<open>
  Whole-repository pulls on the proxy (\<^verbatim>\<open>tama-core/src/proxy/state/repo_pull.rs\<close>,
  \<^verbatim>\<open>proxy/state/pull.rs\<close>, \<^verbatim>\<open>proxy/types.rs\<close>, \<^verbatim>\<open>tama/src/api/repo_pulls.rs\<close>): the table of
  jobs, the start, the relay that follows the host's job, the completion and the cancellation.
  Every block under a lock, and every \<^verbatim>\<open>await\<close> that is followed by one, is a step; between two
  steps anything else may run. The error sink of a job is shared by its copies, so it is a table of
  its own; only the job's relay uses it.
\<close>

section \<open>Jobs\<close>

datatype repo_status = RepoRunning | RepoCompleted | RepoFailed | RepoCancelled

definition repo_status_show :: "repo_status \<Rightarrow> string" where
  "repo_status_show s = (case s of RepoRunning \<Rightarrow> ''running'' | RepoCompleted \<Rightarrow> ''completed''
     | RepoFailed \<Rightarrow> ''failed'' | RepoCancelled \<Rightarrow> ''cancelled'')"

record repo_job =
  rj_repo_id :: string
  rj_model_id :: "int option"
  rj_dest :: string
  rj_total_bytes :: "64 word option"
  rj_status :: repo_status
  rj_error :: "utext option"
  rj_cancel_requested :: bool
  rj_context_length :: "u32 option"
  rj_tamad_job_id :: "string option"
  rj_bytes_done :: "64 word"

record host_job_event =
  ev_status :: string
  ev_error :: utext
  ev_bytes :: int
  ev_total :: int
  ev_result :: string

text \<open>
  A relay: before the host's stream, on it, about to write an error into the sink (with the exit
  status that goes with it), and the four steps of \<^verbatim>\<open>finish_repo_pull\<close>.
\<close>

datatype relay_pc =
    RelayOpen
  | RelayStream
  | RelaySink utext "int option"
  | RelayFinish "int option"
  | RelayDecide repo_job "int option"
  | RelayComplete repo_job repo_status "utext option"
  | RelayWrite repo_job
  | RelayDone

record repo_sys =
  rs_jobs :: "(string, repo_job) hmap"
  rs_sinks :: "(string, bytes) hmap"
  rs_models :: "model_config_record list"
  rs_tasks :: "(string, relay_pc) hmap"
  rs_starting :: "string list"

definition repo_pull_running_for :: "string \<Rightarrow> repo_sys \<Rightarrow> bool" where
  "repo_pull_running_for repo s =
     list_ex (\<lambda>(k, j). rj_repo_id j = repo \<and> rj_status j = RepoRunning) (rs_jobs s)"

definition get_repo_pull :: "string \<Rightarrow> repo_sys \<Rightarrow> repo_job option" where
  "get_repo_pull job_id s = hm_get (rs_jobs s) job_id"

definition upsert_repo_pull :: "string \<Rightarrow> repo_job \<Rightarrow> repo_sys \<Rightarrow> repo_sys" where
  "upsert_repo_pull job_id j s = s\<lparr>rs_jobs := hm_insert job_id j (rs_jobs s)\<rparr>"

definition with_repo_pull :: "string \<Rightarrow> (repo_job \<Rightarrow> repo_job) \<Rightarrow> repo_sys \<Rightarrow> repo_sys" where
  "with_repo_pull job_id f s = (case hm_get (rs_jobs s) job_id of
     None \<Rightarrow> s | Some j \<Rightarrow> s\<lparr>rs_jobs := hm_insert job_id (f j) (rs_jobs s)\<rparr>)"

definition clear_repo_pulls :: "repo_sys \<Rightarrow> repo_sys" where
  "clear_repo_pulls s = s\<lparr>rs_jobs := []\<rparr>"

datatype cancel_answer = CancelOk | CancelNotFound | CancelFinished

definition cancel_job :: "string \<Rightarrow> repo_sys \<Rightarrow> cancel_answer \<times> repo_sys" where
  "cancel_job job_id s = (case hm_get (rs_jobs s) job_id of
     None \<Rightarrow> (CancelNotFound, s)
   | Some j \<Rightarrow> if rj_status j \<noteq> RepoRunning then (CancelFinished, s)
       else (CancelOk, upsert_repo_pull job_id (j\<lparr>rj_cancel_requested := True, rj_status := RepoCancelled\<rparr>) s))"

text \<open>The host's job that the wrapper asks to be cancelled first, where there is one.\<close>

definition cancel_target :: "string option \<Rightarrow> bool \<Rightarrow> repo_job option \<Rightarrow> string option" where
  "cancel_target pull_backend registered j = (case j of
     None \<Rightarrow> None
   | Some j \<Rightarrow> (case rj_tamad_job_id j of
       None \<Rightarrow> None
     | Some t \<Rightarrow> if rj_status j = RepoRunning \<and> pull_backend \<noteq> None \<and> registered then Some t else None))"

section \<open>Completion\<close>

definition complete_meta :: "hf_model_metadata \<Rightarrow> transformers_metadata option \<Rightarrow> hf_model_metadata" where
  "complete_meta base tf =
     (let meta = (case tf of None \<Rightarrow> base | Some t \<Rightarrow> base\<lparr>
          hf_architecture_type := or_else (hf_architecture_type base)
            (case tf_architectures t of [] \<Rightarrow> None | a # _ \<Rightarrow> Some a),
          hf_context_length := or_else (hf_context_length base) (tf_max_position_embeddings t),
          hf_num_layers := or_else (hf_num_layers base) (tf_num_hidden_layers t)\<rparr>)
      in meta\<lparr>hf_format := or_else (hf_format meta) (Some ''transformers'')\<rparr>)"

text \<open>\<open>db\<close> says which of the two writes work; \<open>None\<close> is a failed write.\<close>

definition apply_completion ::
  "(nat \<Rightarrow> bool) \<Rightarrow> int \<Rightarrow> hf_model_metadata \<Rightarrow> transformers_metadata option \<Rightarrow> model_config_record list
    \<Rightarrow> u32 option option \<times> model_config_record list" where
  "apply_completion db mid base tf rows =
     (if \<not> db 0 then (None, rows)
      else (let rows1 = update_model_config_hf_metadata mid (complete_meta base tf) rows;
                result = Option.bind tf tf_max_position_embeddings
            in case Option.bind tf tf_quantization_method of
                 None \<Rightarrow> (Some result, rows1)
               | Some q \<Rightarrow> if \<not> db 1 then (None, rows1)
                   else (Some result, update_model_config_quant mid q rows1)))"

definition fetch_completion_metadata :: "string + hf_model_metadata \<Rightarrow> hf_model_metadata" where
  "fetch_completion_metadata answer = (case answer of Inr m \<Rightarrow> m | Inl e \<Rightarrow> hf_metadata_default)"

section \<open>The relay\<close>

definition parse_repo_result_ok :: "(string \<Rightarrow> bool option) \<Rightarrow> string \<Rightarrow> bool option" where
  "parse_repo_result_ok parse result_json = (if trim_ws result_json = [] then None else parse result_json)"

text \<open>
  What a step of the relay finds: the answer to opening the stream, the next thing on it, or
  nothing (the steps of the completion), with the answers the completion gets.
\<close>

datatype relay_input =
    Opened | Refused utext | Event host_job_event | Stalled | StreamError utext | StreamEnd
  | Go "transformers_metadata option" "string + hf_model_metadata" "nat \<Rightarrow> bool"

definition mirror :: "host_job_event \<Rightarrow> repo_job \<Rightarrow> repo_job" where
  "mirror ev j = j\<lparr>
     rj_total_bytes := (if 0 < ev_total ev then Some (word_of_int (ev_total ev)) else rj_total_bytes j),
     rj_bytes_done := (if 0 < ev_bytes ev then word_of_int (ev_bytes ev) else rj_bytes_done j)\<rparr>"

definition on_host_event :: "(string \<Rightarrow> bool option) \<Rightarrow> host_job_event \<Rightarrow> relay_pc" where
  "on_host_event parse ev =
     (if ev_status ev = ''succeeded'' then
        (if parse_repo_result_ok parse (ev_result ev) = Some False
         then RelaySink (lit ''tamad repo pull result payload reported ok=false'') None
         else RelayFinish (Some 0))
      else if ev_status ev = ''cancelled'' then RelayFinish None
      else if ev_status ev = ''failed'' then RelaySink (trim_u (ev_error ev)) (Some 1)
      else RelayStream)"

definition decide :: "repo_job \<Rightarrow> int option \<Rightarrow> bytes \<Rightarrow> repo_status \<times> utext option" where
  "decide j exit_status sink =
     (if rj_cancel_requested j then (RepoCancelled, None)
      else if exit_status = Some 0 then (RepoCompleted, None)
      else (RepoFailed, case stderr_tail_str sink of
          Some t \<Rightarrow> Some t
        | None \<Rightarrow> Some (case exit_status of
            Some code \<Rightarrow> lit (''hf download exited with code '' @ (if code < 0 then CHR ''-'' # show_nat (nat (- code)) else show_nat (nat code)))
          | None \<Rightarrow> lit ''hf download exited abnormally'')))"

definition job_sink :: "string \<Rightarrow> repo_sys \<Rightarrow> bytes" where
  "job_sink job_id s = (case hm_get (rs_sinks s) job_id of Some b \<Rightarrow> b | None \<Rightarrow> [])"

text \<open>The cap holds for the host's error; the relay's own errors are written whole.\<close>

definition sink_bytes :: "utext \<Rightarrow> int option \<Rightarrow> bytes" where
  "sink_bytes t exit_status = (if exit_status = Some 1 then cap_tail (utf8_encode t) else utf8_encode t)"

fun relay_step ::
  "(string \<Rightarrow> bool option) \<Rightarrow> string \<Rightarrow> relay_input \<Rightarrow> relay_pc \<Rightarrow> repo_sys \<Rightarrow> relay_pc \<times> repo_sys" where
  "relay_step parse k Opened RelayOpen s = (RelayStream, s)"
| "relay_step parse k (Refused e) RelayOpen s = (RelaySink (lit ''tamad job stream failed: '' @ e) None, s)"
| "relay_step parse k (Event ev) RelayStream s = (on_host_event parse ev, with_repo_pull k (mirror ev) s)"
| "relay_step parse k Stalled RelayStream s =
     (RelaySink (lit ''pull stalled: no tamad progress for 120s'') None, s)"
| "relay_step parse k (StreamError e) RelayStream s = (RelaySink (lit ''tamad job stream error: '' @ e) None, s)"
| "relay_step parse k StreamEnd RelayStream s =
     (RelaySink (lit ''tamad disconnected mid-pull (no terminal job event)'') None, s)"
| "relay_step parse k (Go tf meta db) (RelaySink t x) s =
     (RelayFinish x, case get_repo_pull k s of
        None \<Rightarrow> s | Some j \<Rightarrow> s\<lparr>rs_sinks := hm_insert k (sink_bytes t x) (rs_sinks s)\<rparr>)"
| "relay_step parse k (Go tf meta db) (RelayFinish x) s =
     (case get_repo_pull k s of None \<Rightarrow> (RelayDone, s) | Some j \<Rightarrow> (RelayDecide j x, s))"
| "relay_step parse k (Go tf meta db) (RelayDecide j x) s =
     (RelayComplete j (fst (decide j x (job_sink k s))) (snd (decide j x (job_sink k s))), s)"
| "relay_step parse k (Go tf meta db) (RelayComplete j status err) s =
     (let done = (\<lambda>len. RelayWrite (j\<lparr>rj_status := status, rj_error := err, rj_context_length := len\<rparr>)) in
      if status \<noteq> RepoCompleted then (done None, s)
      else (case rj_model_id j of
          None \<Rightarrow> (done None, s)
        | Some mid \<Rightarrow>
            (let (len, rows) = apply_completion db mid (fetch_completion_metadata meta) tf (rs_models s) in
             (done (case len of Some l \<Rightarrow> l | None \<Rightarrow> None), s\<lparr>rs_models := rows\<rparr>))))"
| "relay_step parse k (Go tf meta db) (RelayWrite j) s = (RelayDone, upsert_repo_pull k j s)"
| "relay_step parse k i pc s = (pc, s)"

section \<open>Starting a pull\<close>

text \<open>The message for a missing pull host is given without the reference it ends with.\<close>

datatype repo_pull_error = DuplicatePull | RepoNotFound string | Upstream string | InvalidRepoId string

definition repo_pull_error_show :: "repo_pull_error \<Rightarrow> string" where
  "repo_pull_error_show e = (case e of
     DuplicatePull \<Rightarrow> ''a whole-repo pull for this repo is already running''
   | RepoNotFound m \<Rightarrow> m | Upstream m \<Rightarrow> m
   | InvalidRepoId r \<Rightarrow> ''invalid repo id: '' @ CHR 0x27 # r @ [CHR 0x27])"

record start_env =
  se_api :: "string option"
  se_info :: "string option"
  se_stats :: "string + repo_stats"
  se_models_dir :: "string + string"
  se_mkdir :: "string option"
  se_pull_backend :: "string option"
  se_registered :: bool
  se_token :: "string option"
  se_dispatch :: "pull_request \<Rightarrow> string + string"

definition start_check :: "string \<Rightarrow> repo_sys \<Rightarrow> repo_pull_error option" where
  "start_check repo s =
     (if \<not> is_valid_repo_id repo then Some (InvalidRepoId repo)
      else if repo_pull_running_for repo s then Some DuplicatePull else None)"

definition start_request :: "start_env \<Rightarrow> string \<Rightarrow> string \<Rightarrow> pull_request" where
  "start_request E repo dest = \<lparr>pr_repo_id = repo, pr_quants = [], pr_model_name = [], pr_backend = [],
     pr_hf_token = (case se_token E of Some t \<Rightarrow> t | None \<Rightarrow> []), pr_repo_pull = True, pr_dest_dir = dest\<rparr>"

definition start_dispatch :: "start_env \<Rightarrow> string \<Rightarrow> repo_pull_error + string \<times> 64 word option \<times> string" where
  "start_dispatch E repo =
     (case se_api E of Some e \<Rightarrow> Inl (Upstream e) | None \<Rightarrow>
      (case se_info E of
         Some msg \<Rightarrow> (let lower = to_lower msg in
           if contains_str lower ''404'' \<or> contains_str lower ''not found''
           then Inl (RepoNotFound (CHR 0x27 # repo @ CHR 0x27 # '' not found on HuggingFace''))
           else Inl (Upstream msg))
       | None \<Rightarrow>
          (case se_models_dir E of Inl e \<Rightarrow> Inl (Upstream e) | Inr models_dir \<Rightarrow>
           (let dest = repo_path models_dir repo;
                total_bytes = (case se_stats E of Inr st \<Rightarrow> Some (rs_total_bytes st) | Inl e \<Rightarrow> None)
            in case se_mkdir E of Some e \<Rightarrow> Inl (Upstream e) | None \<Rightarrow>
               (case se_pull_backend E of
                  None \<Rightarrow> Inl (Upstream ''no pull host configured: set proxy.pull_backend (the proxy itself never downloads)'')
                | Some b \<Rightarrow>
                    if \<not> se_registered E
                    then Inl (Upstream (''pull_backend '' @ CHR 0x27 # b @ CHR 0x27 # '' is not a registered tamad''))
                    else (case se_dispatch E (start_request E repo dest) of
                        Inl e \<Rightarrow> Inl (Upstream (''tamad pull dispatch failed: '' @ e))
                      | Inr t \<Rightarrow> Inr (dest, total_bytes, t)))))))"

definition new_repo_job :: "string \<Rightarrow> int option \<Rightarrow> string \<Rightarrow> 64 word option \<Rightarrow> string \<Rightarrow> repo_job" where
  "new_repo_job repo mid dest total_bytes t =
     \<lparr>rj_repo_id = repo, rj_model_id = mid, rj_dest = dest, rj_total_bytes = total_bytes,
      rj_status = RepoRunning, rj_error = None, rj_cancel_requested = False, rj_context_length = None,
      rj_tamad_job_id = Some t, rj_bytes_done = 0\<rparr>"

definition register_repo_pull :: "string \<Rightarrow> repo_job \<Rightarrow> repo_sys \<Rightarrow> repo_sys" where
  "register_repo_pull k j s = (upsert_repo_pull k j s)\<lparr>rs_sinks := hm_insert k [] (rs_sinks s),
     rs_tasks := hm_insert k RelayOpen (rs_tasks s), rs_starting := remove1 (rj_repo_id j) (rs_starting s)\<rparr>"

section \<open>The endpoints\<close>

record repo_pull_status_dto =
  rd_job_id :: string
  rd_status :: string
  rd_bytes_done :: nat
  rd_total_bytes :: "64 word option"
  rd_error :: "utext option"
  rd_context_length :: "u32 option"

definition get_repo_pull_status :: "string \<Rightarrow> fs_entry option \<Rightarrow> repo_sys \<Rightarrow> repo_pull_status_dto option" where
  "get_repo_pull_status job_id dir s = map_option (\<lambda>j.
     \<lparr>rd_job_id = job_id, rd_status = repo_status_show (rj_status j),
      rd_bytes_done = max (unat (rj_bytes_done j)) (scan_dir_bytes dir), rd_total_bytes = rj_total_bytes j,
      rd_error = rj_error j, rd_context_length = rj_context_length j\<rparr>) (get_repo_pull job_id s)"

datatype 'a repo_reply = RepoReply 'a | RepoErrorReply nat string string

definition start_error_reply :: "string \<Rightarrow> repo_pull_error \<Rightarrow> 'a repo_reply" where
  "start_error_reply repo e = (case e of
     InvalidRepoId r \<Rightarrow> RepoErrorReply 422 ''ValidationError'' (repo_pull_error_show e)
   | DuplicatePull \<Rightarrow> RepoErrorReply 409 ''ConflictError''
       (''A repo pull for '' @ CHR 0x27 # repo @ CHR 0x27 # '' is already running'')
   | RepoNotFound m \<Rightarrow> RepoErrorReply 422 ''ValidationError'' (repo_pull_error_show e)
   | Upstream m \<Rightarrow> RepoErrorReply 502 ''UpstreamError'' (repo_pull_error_show e))"

definition not_found_reply :: "string \<Rightarrow> 'a repo_reply" where
  "not_found_reply job_id = RepoErrorReply 404 ''NotFoundError'' (''Repo pull '' @ CHR 0x27 # job_id @ CHR 0x27 # '' not found'')"

definition handle_get_repo_pull :: "string \<Rightarrow> fs_entry option \<Rightarrow> repo_sys \<Rightarrow> repo_pull_status_dto repo_reply" where
  "handle_get_repo_pull job_id dir s = (case get_repo_pull_status job_id dir s of
     Some d \<Rightarrow> RepoReply d | None \<Rightarrow> not_found_reply job_id)"

definition delete_reply :: "string \<Rightarrow> cancel_answer \<Rightarrow> bool repo_reply" where
  "delete_reply job_id a = (case a of
     CancelOk \<Rightarrow> RepoReply True
   | CancelNotFound \<Rightarrow> not_found_reply job_id
   | CancelFinished \<Rightarrow> RepoErrorReply 409 ''ConflictError''
       (''Repo pull '' @ CHR 0x27 # job_id @ CHR 0x27 # '' already finished''))"

section \<open>Interleaving\<close>

text \<open>
  A start passes its check and registers the job later, under an id of its own (a UUID); in between it asks the network
  and the host. A relay that is not done takes any input.
\<close>

inductive rstep :: "(string \<Rightarrow> bool option) \<Rightarrow> repo_sys \<Rightarrow> repo_sys \<Rightarrow> bool" for parse where
  StartCheck: "start_check repo s = None \<Longrightarrow> rstep parse s (s\<lparr>rs_starting := repo # rs_starting s\<rparr>)"
| StartFail: "start_dispatch E repo = Inl e \<Longrightarrow> repo \<in> set (rs_starting s) \<Longrightarrow>
    rstep parse s (s\<lparr>rs_starting := remove1 repo (rs_starting s)\<rparr>)"
| StartRegister: "start_dispatch E repo = Inr (dest, total_bytes, t) \<Longrightarrow> repo \<in> set (rs_starting s) \<Longrightarrow>
    hm_get (rs_tasks s) k = None \<Longrightarrow>
    rstep parse s (register_repo_pull k (new_repo_job repo mid dest total_bytes t) s)"
| Relay: "hm_get (rs_tasks s) k = Some pc \<Longrightarrow> relay_step parse k i pc s = (pc', s') \<Longrightarrow>
    rstep parse s (s'\<lparr>rs_tasks := hm_insert k pc' (rs_tasks s')\<rparr>)"
| Cancel: "cancel_job k s = (a, s') \<Longrightarrow> rstep parse s s'"
| Clear: "rstep parse s (clear_repo_pulls s)"

inductive rreach :: "(string \<Rightarrow> bool option) \<Rightarrow> repo_sys \<Rightarrow> bool" for parse where
  Start: "rreach parse \<lparr>rs_jobs = [], rs_sinks = [], rs_models = rows, rs_tasks = [], rs_starting = []\<rparr>"
| Step: "rreach parse s \<Longrightarrow> rstep parse s s' \<Longrightarrow> rreach parse s'"

end
