(* ===== verification/RepoPullFacts.thy ===== *)
theory RepoPullFacts
  imports RepoPull
begin

text \<open>
  What holds of whole-repository pulls in every reachable state, how a relay ends, and two runs
  in which steps come in between: a cancellation that was confirmed and is overwritten, and two
  pulls of one repository.
\<close>

section \<open>Reachable states\<close>

text \<open>What a relay carries has the shape of what it will write.\<close>

fun pc_ok :: "relay_pc \<Rightarrow> bool" where
  "pc_ok (RelayComplete j st err) = (st \<noteq> RepoRunning \<and> rj_cancel_requested j = (st = RepoCancelled))"
| "pc_ok (RelayWrite j) = (rj_status j \<noteq> RepoRunning \<and> rj_cancel_requested j = (rj_status j = RepoCancelled))"
| "pc_ok pc = True"

definition job_ok :: "repo_job \<Rightarrow> relay_pc option \<Rightarrow> bool" where
  "job_ok j t \<longleftrightarrow> (rj_cancel_requested j \<longleftrightarrow> rj_status j = RepoCancelled)
     \<and> (\<exists>pc. t = Some pc \<and> (rj_status j = RepoRunning \<longrightarrow> pc \<noteq> RelayDone))"

definition repo_inv :: "repo_sys \<Rightarrow> bool" where
  "repo_inv s \<longleftrightarrow> (\<forall>k j. hm_get (rs_jobs s) k = Some j \<longrightarrow> job_ok j (hm_get (rs_tasks s) k))
     \<and> (\<forall>k pc. hm_get (rs_tasks s) k = Some pc \<longrightarrow> pc_ok pc)"

lemma decide_ok: "pc_ok (RelayComplete j (fst (decide j x b)) err)"
  by (auto simp: decide_def)

lemma mirror_job [simp]:
  "rj_status (mirror ev j) = rj_status j" "rj_cancel_requested (mirror ev j) = rj_cancel_requested j"
  by (simp_all add: mirror_def)

lemma on_host_event_pc: "pc_ok (on_host_event parse ev)" "on_host_event parse ev \<noteq> RelayDone"
  by (simp_all add: on_host_event_def)

lemma relay_step_pc: "relay_step parse k i pc s = (pc', s') \<Longrightarrow> pc_ok pc \<Longrightarrow> pc_ok pc'"
  by (induction parse k i pc s rule: relay_step.induct)
    (auto simp: on_host_event_pc decide_def Let_def split: option.splits if_splits prod.splits)

lemma relay_step_tasks: "relay_step parse k i pc s = (pc', s') \<Longrightarrow> rs_tasks s' = rs_tasks s"
  by (induction parse k i pc s rule: relay_step.induct)
    (auto simp: with_repo_pull_def upsert_repo_pull_def Let_def split: option.splits if_splits prod.splits)

text \<open>A step of a relay touches its own job only, and the job it leaves is all right.\<close>

lemma relay_step_jobs:
  assumes "relay_step parse k i pc s = (pc', s')" "pc_ok pc" "pc \<noteq> RelayDone"
    "\<And>j. hm_get (rs_jobs s) k = Some j \<Longrightarrow> job_ok j (Some pc)"
  shows "k' \<noteq> k \<Longrightarrow> hm_get (rs_jobs s') k' = hm_get (rs_jobs s) k'"
    "hm_get (rs_jobs s') k = Some j \<Longrightarrow> job_ok j (Some pc')"
  using assms
  by (induction parse k i pc s rule: relay_step.induct)
    (auto simp: with_repo_pull_def upsert_repo_pull_def get_repo_pull_def job_ok_def on_host_event_pc Let_def
      split: option.splits if_splits prod.splits)

lemma relay_step_done [simp]: "relay_step parse k i RelayDone s = (RelayDone, s)"
  by (cases i) simp_all

lemma job_ok_cancel: "job_ok j t \<Longrightarrow> job_ok (j\<lparr>rj_cancel_requested := True, rj_status := RepoCancelled\<rparr>) t"
  by (auto simp: job_ok_def)

lemma rstep_inv:
  assumes "rstep parse s s'" "repo_inv s"
  shows "repo_inv s'"
  using assms
proof (cases rule: rstep.cases)
  case (StartRegister E repo dest total_bytes t k mid)
  then show ?thesis
    using assms(2)
    by (auto simp: repo_inv_def register_repo_pull_def upsert_repo_pull_def new_repo_job_def job_ok_def)
next
  case (Relay k pc i pc' s1)
  have inv: "\<And>k j. hm_get (rs_jobs s) k = Some j \<Longrightarrow> job_ok j (hm_get (rs_tasks s) k)"
      "\<And>k pc. hm_get (rs_tasks s) k = Some pc \<Longrightarrow> pc_ok pc"
    using assms(2) by (auto simp: repo_inv_def)
  have tasks: "rs_tasks s1 = rs_tasks s" by (rule relay_step_tasks [OF Relay(3)])
  show ?thesis
  proof (cases "pc = RelayDone")
    case True
    with Relay have "pc' = RelayDone" "s1 = s" by auto
    moreover have "hm_get (hm_insert k RelayDone (rs_tasks s)) = hm_get (rs_tasks s)"
      by (rule ext) (use Relay(2) True in simp)
    ultimately show ?thesis using assms(2) by (simp add: Relay(1) repo_inv_def)
  next
    case False
    have job: "\<And>j. hm_get (rs_jobs s) k = Some j \<Longrightarrow> job_ok j (Some pc)"
      using inv(1) Relay(2) by fastforce
    note jobs = relay_step_jobs [OF Relay(3) inv(2) [OF Relay(2)] False job]
    have "pc_ok pc'" by (rule relay_step_pc [OF Relay(3) inv(2) [OF Relay(2)]])
    moreover have "job_ok j (hm_get (hm_insert k pc' (rs_tasks s)) k')" if "hm_get (rs_jobs s1) k' = Some j" for k' j
      using that jobs inv(1) by (cases "k' = k") auto
    ultimately show ?thesis
      using inv(2) by (auto simp: Relay(1) repo_inv_def tasks split: if_splits)
  qed
next
  case (Cancel k a)
  then show ?thesis
    using assms(2)
    by (auto simp: cancel_job_def repo_inv_def upsert_repo_pull_def job_ok_cancel split: option.splits if_splits)
qed (auto simp: repo_inv_def clear_repo_pulls_def)

lemma rreach_inv: "rreach parse s \<Longrightarrow> repo_inv s"
  by (induction rule: rreach.induct) (auto simp: repo_inv_def [of "\<lparr>rs_jobs = [], rs_sinks = _, rs_models = _, rs_tasks = [], rs_starting = _\<rparr>"] intro: rstep_inv)

text \<open>
  In every reachable state a job is flagged for cancellation exactly when it is cancelled, and
  a job that runs has a relay that is not done.
\<close>

theorem running_pull_has_relay:
  assumes "rreach parse s" "get_repo_pull k s = Some j"
  shows "(rj_cancel_requested j \<longleftrightarrow> rj_status j = RepoCancelled)
    \<and> (rj_status j = RepoRunning \<longrightarrow> (\<exists>pc. hm_get (rs_tasks s) k = Some pc \<and> pc \<noteq> RelayDone))"
proof -
  have "job_ok j (hm_get (rs_tasks s) k)"
    using rreach_inv [OF assms(1)] assms(2) by (simp add: repo_inv_def get_repo_pull_def)
  then show ?thesis by (auto simp: job_ok_def)
qed

section \<open>How a relay ends\<close>

definition relay_alone ::
  "(string \<Rightarrow> bool option) \<Rightarrow> string \<Rightarrow> relay_input list \<Rightarrow> relay_pc \<times> repo_sys \<Rightarrow> relay_pc \<times> repo_sys" where
  "relay_alone parse k is = fold (\<lambda>i (pc, s). relay_step parse k i pc s) is"

text \<open>What the host's last word means for a job.\<close>

fun host_verdict :: "(string \<Rightarrow> bool option) \<Rightarrow> relay_input \<Rightarrow> bool option" where
  "host_verdict parse (Event ev) =
     (if ev_status ev = ''succeeded'' then Some (parse_repo_result_ok parse (ev_result ev) \<noteq> Some False)
      else if ev_status ev = ''cancelled'' \<or> ev_status ev = ''failed'' then Some False else None)"
| "host_verdict parse Stalled = Some False"
| "host_verdict parse (StreamError e) = Some False"
| "host_verdict parse StreamEnd = Some False"
| "host_verdict parse i = None"

definition final_status :: "bool \<Rightarrow> bool \<Rightarrow> repo_status" where
  "final_status cancelled ok = (if cancelled then RepoCancelled else if ok then RepoCompleted else RepoFailed)"

lemma complete_step:
  "\<exists>len s1. relay_step parse k (Go tf m db) (RelayComplete j st err) s =
     (RelayWrite (j\<lparr>rj_status := st, rj_error := err, rj_context_length := len\<rparr>), s1)"
  by (cases "apply_completion db (the (rj_model_id j)) (fetch_completion_metadata m) tf (rs_models s)")
    (auto simp: Let_def split: option.split)

lemma finish_alone:
  assumes "get_repo_pull k s = Some j"
  shows "\<exists>s' j'. relay_alone parse k [Go tf m db, Go tf m db, Go tf m db, Go tf m db] (RelayFinish x, s) = (RelayDone, s')
    \<and> get_repo_pull k s' = Some j' \<and> rj_status j' = final_status (rj_cancel_requested j) (x = Some 0)
    \<and> (rj_error j' = None \<longleftrightarrow> rj_status j' \<noteq> RepoFailed)"
proof -
  let ?st = "fst (decide j x (job_sink k s))" and ?err = "snd (decide j x (job_sink k s))"
  have st: "?st = final_status (rj_cancel_requested j) (x = Some 0)" "?err = None \<longleftrightarrow> ?st \<noteq> RepoFailed"
    by (auto simp: decide_def final_status_def split: option.splits)
  obtain len s1 where c: "relay_step parse k (Go tf m db) (RelayComplete j ?st ?err) s =
      (RelayWrite (j\<lparr>rj_status := ?st, rj_error := ?err, rj_context_length := len\<rparr>), s1)"
    using complete_step by blast
  have "relay_alone parse k [Go tf m db, Go tf m db, Go tf m db, Go tf m db] (RelayFinish x, s) =
      relay_step parse k (Go tf m db) (RelayWrite (j\<lparr>rj_status := ?st, rj_error := ?err, rj_context_length := len\<rparr>)) s1"
    using assms c by (simp add: relay_alone_def del: relay_step.simps(10))
  then show ?thesis
    using st by (simp add: upsert_repo_pull_def get_repo_pull_def)
qed

lemma alone_Cons: "relay_alone parse k (i # is) (pc, s) = relay_alone parse k is (relay_step parse k i pc s)"
  by (simp add: relay_alone_def)

lemma alone_snoc: "relay_alone parse k is (pc, s) = (RelayDone, s') \<Longrightarrow> relay_alone parse k (is @ [i]) (pc, s) = (RelayDone, s')"
  by (simp add: relay_alone_def)

lemma sink_alone:
  assumes "get_repo_pull k s = Some j"
  shows "\<exists>s' j'. relay_alone parse k (replicate 5 (Go tf m db)) (RelaySink t x, s) = (RelayDone, s')
    \<and> get_repo_pull k s' = Some j' \<and> rj_status j' = final_status (rj_cancel_requested j) (x = Some 0)
    \<and> (rj_error j' = None \<longleftrightarrow> rj_status j' \<noteq> RepoFailed)"
proof -
  let ?s = "s\<lparr>rs_sinks := hm_insert k (sink_bytes t x) (rs_sinks s)\<rparr>"
  have "get_repo_pull k ?s = Some j" using assms by (simp add: get_repo_pull_def)
  from finish_alone [OF this] show ?thesis
    using assms by (simp add: numeral_eq_Suc alone_Cons)
qed


definition demo_repo_job :: repo_job where
  "demo_repo_job = new_repo_job ''o/r'' None ''/m/o/r'' None ''t''"


section \<open>Two runs that go wrong\<close>

lemma register_run:
  assumes "rreach parse s" "start_check repo s = None" "start_dispatch E repo = Inr (dest, total_bytes, t)"
    "hm_get (rs_tasks s) k = None"
  shows "rreach parse (register_repo_pull k (new_repo_job repo mid dest total_bytes t) (s\<lparr>rs_starting := repo # rs_starting s\<rparr>))"
proof -
  have "rreach parse (s\<lparr>rs_starting := repo # rs_starting s\<rparr>)"
    using assms(1,2) by (blast intro: rreach.Step rstep.StartCheck)
  then show ?thesis
    by (rule rreach.Step) (rule rstep.StartRegister [OF assms(3)], use assms(4) in simp_all)
qed

lemma relay_run:
  assumes "rreach parse s" "hm_get (rs_tasks s) k = Some pc" "relay_step parse k i pc s = (pc', s')"
  shows "rreach parse (s'\<lparr>rs_tasks := hm_insert k pc' (rs_tasks s')\<rparr>)"
  using assms by (blast intro: rreach.Step rstep.Relay)

text \<open>A host that accepts every pull.\<close>

definition demo_start :: start_env where
  "demo_start = \<lparr>se_api = None, se_info = None, se_stats = Inl [], se_models_dir = Inr ''/m'', se_mkdir = None,
     se_pull_backend = Some ''h'', se_registered = True, se_token = None, se_dispatch = \<lambda>r. Inr ''t''\<rparr>"

lemma demo_start_dispatch: "start_dispatch demo_start ''o/r'' = Inr (''/m/o/r'', None, ''t'')"
  by code_simp

lemma valid_demo: "is_valid_repo_id ''o/r''"
  by code_simp

definition rsys :: "(string, repo_job) hmap \<Rightarrow> (string, relay_pc) hmap \<Rightarrow> string list \<Rightarrow> repo_sys" where
  "rsys jobs tasks starting = \<lparr>rs_jobs = jobs, rs_sinks = [(''a'', [])], rs_models = [], rs_tasks = tasks, rs_starting = starting\<rparr>"

lemma demo_registered: "rreach parse (rsys [(''a'', demo_repo_job)] [(''a'', RelayOpen)] [])"
proof -
  let ?s = "\<lparr>rs_jobs = [], rs_sinks = [], rs_models = [], rs_tasks = [], rs_starting = []\<rparr>"
  have c: "start_check ''o/r'' ?s = None" by (simp add: start_check_def valid_demo repo_pull_running_for_def)
  have "register_repo_pull ''a'' (new_repo_job ''o/r'' None ''/m/o/r'' None ''t'') (?s\<lparr>rs_starting := ''o/r'' # rs_starting ?s\<rparr>)
      = rsys [(''a'', demo_repo_job)] [(''a'', RelayOpen)] []"
    by (simp add: register_repo_pull_def upsert_repo_pull_def hm_insert_def rsys_def demo_repo_job_def new_repo_job_def)
  then show ?thesis
    using register_run [OF rreach.Start c demo_start_dispatch, of "''a''" parse None] by simp
qed

lemma demo_relay:
  assumes "rreach parse (rsys [(''a'', j)] [(''a'', pc)] [])"
    "relay_step parse ''a'' i pc (rsys [(''a'', j)] [(''a'', pc)] []) = (pc', rsys [(''a'', j')] [(''a'', pc)] [])"
  shows "rreach parse (rsys [(''a'', j')] [(''a'', pc')] [])"
  using relay_run [OF assms(1) _ assms(2)] by (simp add: rsys_def hm_get_def hm_insert_def)

definition demo_success :: host_job_event where
  "demo_success = \<lparr>ev_status = ''succeeded'', ev_error = [], ev_bytes = 0, ev_total = 0, ev_result = []\<rparr>"

text \<open>
  A pull whose cancellation was answered with success can end as completed, its flag gone: the
  cancellation falls between the decision of the relay and its last write.
\<close>

theorem confirmed_cancel_lost:
  "\<exists>s s1 s2 j. rreach parse s \<and> cancel_job ''a'' s = (CancelOk, s1) \<and> (rstep parse)\<^sup>*\<^sup>* s1 s2
    \<and> get_repo_pull ''a'' s2 = Some j \<and> rj_status j = RepoCompleted \<and> \<not> rj_cancel_requested j"
proof -
  let ?go = "Go None (Inl []) (\<lambda>n. True)"
  let ?s = "\<lambda>j pc. rsys [(''a'', j)] [(''a'', pc)] []"
  let ?done = "demo_repo_job\<lparr>rj_status := RepoCompleted, rj_error := None, rj_context_length := None\<rparr>"
  let ?cancelled = "demo_repo_job\<lparr>rj_cancel_requested := True, rj_status := RepoCancelled\<rparr>"
  have get: "get_repo_pull ''a'' (?s j pc) = Some j" for j pc
    by (simp add: get_repo_pull_def rsys_def hm_get_def)
  have put: "upsert_repo_pull ''a'' j' (?s j pc) = ?s j' pc" for j j' pc
    by (simp add: upsert_repo_pull_def rsys_def hm_insert_def)
  have no_cancel: "\<not> rj_cancel_requested demo_repo_job" "rj_status demo_repo_job = RepoRunning" "rj_model_id demo_repo_job = None"
    by (simp_all add: demo_repo_job_def new_repo_job_def)
  have same: "mirror demo_success demo_repo_job = demo_repo_job"
    by (simp add: mirror_def demo_success_def)
  have "rreach parse (?s demo_repo_job RelayStream)"
    by (rule demo_relay [OF demo_registered, where i = Opened]) simp
  then have "rreach parse (?s demo_repo_job (RelayFinish (Some 0)))"
    by (rule demo_relay [where i = "Event demo_success"])
      (simp add: with_repo_pull_def rsys_def hm_get_def hm_insert_def same,
       simp add: on_host_event_def demo_success_def parse_repo_result_ok_def trim_ws_def)
  then have "rreach parse (?s demo_repo_job (RelayDecide demo_repo_job (Some 0)))"
    by (rule demo_relay [where i = ?go]) (simp add: get)
  then have r: "rreach parse (?s demo_repo_job (RelayComplete demo_repo_job RepoCompleted None))"
    by (rule demo_relay [where i = ?go]) (simp add: decide_def no_cancel)
  let ?pc = "RelayComplete demo_repo_job RepoCompleted None"
  have c: "cancel_job ''a'' (?s demo_repo_job ?pc) = (CancelOk, ?s ?cancelled ?pc)"
    using get [of demo_repo_job ?pc] by (simp add: cancel_job_def get_repo_pull_def no_cancel put)
  have tasks: "hm_get (rs_tasks (?s j pc)) ''a'' = Some pc"
      "(?s j pc)\<lparr>rs_tasks := hm_insert ''a'' pc' (rs_tasks (?s j pc))\<rparr> = ?s j pc'" for j pc pc'
    by (simp_all add: rsys_def hm_get_def hm_insert_def)
  have step: "rstep parse (?s j pc) (?s j' pc')" if "relay_step parse ''a'' i pc (?s j pc) = (pc', ?s j' pc)" for i j j' pc pc'
    using rstep.Relay [OF tasks(1) that] by (simp only: tasks(2))
  have "rstep parse (?s ?cancelled ?pc) (?s ?cancelled (RelayWrite ?done))"
    by (rule step [where i = ?go]) (simp add: no_cancel)
  moreover have "rstep parse (?s ?cancelled (RelayWrite ?done)) (?s ?done RelayDone)"
    by (rule step [where i = ?go]) (simp add: put)
  ultimately have "(rstep parse)\<^sup>*\<^sup>* (?s ?cancelled ?pc) (?s ?done RelayDone)" by (meson converse_rtranclp_into_rtranclp rtranclp.rtrancl_refl)
  then show ?thesis
    using r c get [of ?done RelayDone] no_cancel by fastforce
qed

text \<open>
  The check for a running pull and the registration are two steps: two starts for one repository
  that overlap both succeed, and two downloads write to one directory.
\<close>

lemma two_pulls_of_one_repo:
  "\<exists>s j1 j2. rreach parse s \<and> get_repo_pull ''a'' s = Some j1 \<and> get_repo_pull ''b'' s = Some j2
    \<and> rj_status j1 = RepoRunning \<and> rj_status j2 = RepoRunning
    \<and> rj_repo_id j1 = rj_repo_id j2 \<and> rj_dest j1 = rj_dest j2"
proof -
  let ?s0 = "\<lparr>rs_jobs = [], rs_sinks = [], rs_models = [], rs_tasks = [], rs_starting = []\<rparr>"
  let ?s1 = "?s0\<lparr>rs_starting := [''o/r'']\<rparr>" and ?s2 = "?s0\<lparr>rs_starting := [''o/r'', ''o/r'']\<rparr>"
  let ?j = "new_repo_job ''o/r'' None ''/m/o/r'' None ''t''"
  let ?s3 = "register_repo_pull ''a'' ?j ?s2"
  let ?s4 = "register_repo_pull ''b'' ?j ?s3"
  have c: "start_check ''o/r'' ?s0 = None" "start_check ''o/r'' ?s1 = None"
    by (simp_all add: start_check_def valid_demo repo_pull_running_for_def)
  have "rreach parse ?s1" using rreach.Step [OF rreach.Start rstep.StartCheck [OF c(1)]] by simp
  then have "rreach parse ?s2" using rreach.Step [OF _ rstep.StartCheck [OF c(2)], of parse] by simp
  then have "rreach parse ?s3"
    by (rule rreach.Step) (rule rstep.StartRegister [OF demo_start_dispatch], simp_all)
  then have "rreach parse ?s4"
    by (rule rreach.Step)
      (rule rstep.StartRegister [OF demo_start_dispatch], simp_all add: register_repo_pull_def upsert_repo_pull_def new_repo_job_def)
  moreover have "get_repo_pull ''a'' ?s4 = Some ?j" "get_repo_pull ''b'' ?s4 = Some ?j"
    by (simp_all add: get_repo_pull_def register_repo_pull_def upsert_repo_pull_def)
  ultimately show ?thesis by (force simp: new_repo_job_def)
qed

end
