(* ===== verification/ModelDb.thy ===== *)
theory ModelDb
  imports ModelFiles
begin

text \<open>
  The table \<^verbatim>\<open>model_configs\<close> (\<^verbatim>\<open>tama-core/src/db/queries/model_config_queries.rs\<close>), the saving
  of a configuration and the loading of the registry (\<^verbatim>\<open>db/mod.rs\<close>). A row is found by its id or
  by its repository up to case; the identity column hands out the next number to every insert,
  the ones that end as an update included. Every query may fail. The order of a table
  stands for the order in which PostgreSQL returns its rows, which nothing fixes.
\<close>

section \<open>The table\<close>

record model_db = catalogue +
  md_next :: nat

definition same_repo :: "string \<Rightarrow> model_config_record \<Rightarrow> bool" where
  "same_repo repo r \<longleftrightarrow> to_lower (mr_repo_id r) = to_lower repo"

definition get_model_config :: "64 word \<Rightarrow> model_db \<Rightarrow> model_config_record option" where
  "get_model_config i D = List.find (\<lambda>r. mr_id r = i) (ct_models D)"

definition get_model_config_by_repo_id :: "string \<Rightarrow> model_db \<Rightarrow> model_config_record option" where
  "get_model_config_by_repo_id repo D = List.find (same_repo repo) (ct_models D)"

definition get_all_model_configs :: "model_db \<Rightarrow> model_config_record list" where
  "get_all_model_configs D = ct_models D"

text \<open>
  The columns an update sets: the metadata only where the new row has some, the identity and the
  time of creation never.
\<close>

definition overwrite_config :: "string \<Rightarrow> model_config_record \<Rightarrow> model_config_record \<Rightarrow> model_config_record" where
  "overwrite_config now new old = new\<lparr>
     mr_id := mr_id old, mr_repo_id := mr_repo_id old,
     mr_hf_format := or_else (mr_hf_format new) (mr_hf_format old),
     mr_hf_base_model := or_else (mr_hf_base_model new) (mr_hf_base_model old),
     mr_hf_pipeline_tag := or_else (mr_hf_pipeline_tag new) (mr_hf_pipeline_tag old),
     mr_hf_total_params := or_else (mr_hf_total_params new) (mr_hf_total_params old),
     mr_hf_active_params := or_else (mr_hf_active_params new) (mr_hf_active_params old),
     mr_hf_architecture_type := or_else (mr_hf_architecture_type new) (mr_hf_architecture_type old),
     mr_hf_context_length := or_else (mr_hf_context_length new) (mr_hf_context_length old),
     mr_hf_num_layers := or_else (mr_hf_num_layers new) (mr_hf_num_layers old),
     mr_hf_last_modified := or_else (mr_hf_last_modified new) (mr_hf_last_modified old),
     mr_created_at := mr_created_at old, mr_updated_at := now\<rparr>"

definition or_now :: "string \<Rightarrow> string \<Rightarrow> string" where
  "or_now now t = (if t = [] then now else t)"

definition push_repo_upsert :: "string \<Rightarrow> model_config_record \<Rightarrow> model_db \<Rightarrow> model_db" where
  "push_repo_upsert now new D =
     (let D' = D\<lparr>md_next := Suc (md_next D)\<rparr> in
      if list_ex (same_repo (mr_repo_id new)) (ct_models D)
      then D'\<lparr>ct_models := map (\<lambda>r. if same_repo (mr_repo_id new) r then overwrite_config now new r else r) (ct_models D)\<rparr>
      else D'\<lparr>ct_models := ct_models D @ [new\<lparr>mr_id := of_nat (md_next D),
        mr_created_at := or_now now (mr_created_at new), mr_updated_at := or_now now (mr_updated_at new)\<rparr>]\<rparr>)"

text \<open>The update by id writes the repository too; the unique index may refuse it.\<close>

definition push_id_update :: "string \<Rightarrow> model_config_record \<Rightarrow> 64 word \<Rightarrow> model_db \<Rightarrow> model_db option" where
  "push_id_update now new i D =
     (if list_ex (\<lambda>r. mr_id r = i) (ct_models D)
         \<and> list_ex (\<lambda>r. mr_id r \<noteq> i \<and> same_repo (mr_repo_id new) r) (ct_models D) then None
      else Some (D\<lparr>ct_models := map (\<lambda>r. if mr_id r = i
        then (overwrite_config now new r)\<lparr>mr_repo_id := mr_repo_id new\<rparr> else r) (ct_models D)\<rparr>))"

text \<open>
  What the lookup before the statement found is \<open>pre\<close>; between the two anything else may run. An
  \<^verbatim>\<open>Err\<close> of the code is \<open>None\<close>.
\<close>

definition case_differs :: "(64 word \<times> string) option \<Rightarrow> model_config_record \<Rightarrow> (64 word \<times> string) option" where
  "case_differs pre new = (case pre of
     Some (i, stored) \<Rightarrow> if stored \<noteq> mr_repo_id new then Some (i, stored) else None
   | None \<Rightarrow> None)"

definition upsert_statement ::
  "string \<Rightarrow> (64 word \<times> string) option \<Rightarrow> model_config_record \<Rightarrow> model_db \<Rightarrow> model_db option" where
  "upsert_statement now pre new D = (case case_differs pre new of
     Some (i, stored) \<Rightarrow> push_id_update now (new\<lparr>mr_repo_id := stored\<rparr>) i D
   | None \<Rightarrow> Some (push_repo_upsert now new D))"

definition upsert_precheck :: "string \<Rightarrow> model_db \<Rightarrow> (64 word \<times> string) option" where
  "upsert_precheck repo D = map_option (\<lambda>r. (mr_id r, mr_repo_id r)) (get_model_config_by_repo_id repo D)"

definition upsert_model_config ::
  "(nat \<Rightarrow> bool) \<Rightarrow> string \<Rightarrow> model_config_record \<Rightarrow> model_db \<Rightarrow> 64 word option \<times> model_db" where
  "upsert_model_config db now new D =
     (if \<not> db 0 then (None, D)
      else (let pre = upsert_precheck (mr_repo_id new) D in
        case (if db 1 then upsert_statement now pre new D else None) of
          None \<Rightarrow> (None, D)
        | Some D' \<Rightarrow> (case case_differs pre new of
              Some (i, _) \<Rightarrow> (Some i, D')
            | None \<Rightarrow> (if db 2 then map_option mr_id (get_model_config_by_repo_id (mr_repo_id new) D') else None, D'))))"

text \<open>Deleting a row takes its pulls and files along.\<close>

definition delete_model_config :: "64 word \<Rightarrow> model_db \<Rightarrow> model_db" where
  "delete_model_config i D = D\<lparr>ct_models := filter (\<lambda>r. mr_id r \<noteq> i) (ct_models D),
     ct_pulls := filter (\<lambda>p. mp_model_id p \<noteq> sint i) (ct_pulls D),
     ct_files := filter (\<lambda>f. mf_model_id f \<noteq> sint i) (ct_files D)\<rparr>"

section \<open>Configurations and rows\<close>

definition config_repo :: "string \<Rightarrow> 'f model_config \<Rightarrow> string" where
  "config_repo key mc = (case nonempty (mc_model mc) of Some m \<Rightarrow> m | None \<Rightarrow> config_key_to_repo_id key)"

definition config_record :: "'f json_ops \<Rightarrow> string \<Rightarrow> string \<Rightarrow> 'f model_config \<Rightarrow> model_config_record" where
  "config_record J now key mc = (let r = to_db_record J now mc (config_repo key mc) in
     case nonempty (mr_api_name r) of
       None \<Rightarrow> r\<lparr>mr_api_name := Some (config_repo key mc)\<rparr> | Some _ \<Rightarrow> r)"

definition save_model_config ::
  "'f json_ops \<Rightarrow> (nat \<Rightarrow> bool) \<Rightarrow> string \<Rightarrow> string \<Rightarrow> 'f model_config \<Rightarrow> model_db \<Rightarrow> 64 word option \<times> model_db" where
  "save_model_config J db now key mc D = upsert_model_config db now (config_record J now key mc) D"

definition file_entry :: "file_row \<Rightarrow> quant_entry" where
  "file_entry f = \<lparr>qe_file = mf_filename f, qe_kind = kind_from_filename (mf_filename f),
     qe_size_bytes = mf_size_bytes f, qe_context_length = None\<rparr>"

definition file_quant_key :: "file_row \<Rightarrow> string" where
  "file_quant_key f = unwrap_or (mf_quant f) (mf_filename f)"

definition file_quants :: "file_row list \<Rightarrow> (string \<rightharpoonup> quant_entry) \<Rightarrow> (string \<rightharpoonup> quant_entry)" where
  "file_quants fs q = fold (\<lambda>f q. q(file_quant_key f \<mapsto> file_entry f)) fs q"

definition load_row :: "'f json_ops \<Rightarrow> file_row list \<Rightarrow> model_config_record \<Rightarrow> 'f model_config" where
  "load_row J files r = (let m = from_db_record J r in
     m\<lparr>mc_db_id := Some (mr_id r), mc_quants := file_quants (get_model_files (sint (mr_id r)) files) (mc_quants m)\<rparr>)"

definition load_model_configs :: "'f json_ops \<Rightarrow> (nat \<Rightarrow> bool) \<Rightarrow> model_db \<Rightarrow> (string, 'f model_config) hmap option" where
  "load_model_configs J db D =
     (if \<not> db 0 \<or> \<not> db 1 then None
      else Some (fold (\<lambda>r m. hm_insert (config_key_from_repo_id (mr_repo_id r)) (load_row J (ct_files D) r) m)
        (get_all_model_configs D) []))"

section \<open>The table as a map\<close>

text \<open>A table is read as a map from repositories, in lower case, to rows.\<close>

definition config_at :: "model_db \<Rightarrow> string \<Rightarrow> model_config_record option" where
  "config_at D k = List.find (\<lambda>r. to_lower (mr_repo_id r) = k) (ct_models D)"

definition configs_wf :: "model_db \<Rightarrow> bool" where
  "configs_wf D \<longleftrightarrow> distinct (map (\<lambda>r. to_lower (mr_repo_id r)) (ct_models D)) \<and> distinct (map mr_id (ct_models D))
     \<and> list_all (\<lambda>r. unat (mr_id r) < md_next D) (ct_models D)"

definition upserted_row :: "string \<Rightarrow> model_config_record \<Rightarrow> model_db \<Rightarrow> model_config_record" where
  "upserted_row now new D = (case config_at D (to_lower (mr_repo_id new)) of
     Some old \<Rightarrow> overwrite_config now new old
   | None \<Rightarrow> new\<lparr>mr_id := of_nat (md_next D), mr_created_at := or_now now (mr_created_at new),
       mr_updated_at := or_now now (mr_updated_at new)\<rparr>)"

lemma overwrite_identity [simp]:
  "mr_id (overwrite_config now new old) = mr_id old"
  "mr_repo_id (overwrite_config now new old) = mr_repo_id old"
  "mr_created_at (overwrite_config now new old) = mr_created_at old"
  by (simp_all add: overwrite_config_def)

lemma find_unique_iff:
  assumes "distinct (map f xs)"
  shows "List.find (\<lambda>x. f x = k) xs = Some x \<longleftrightarrow> x \<in> set xs \<and> f x = k"
  using assms
proof (induction xs)
  case (Cons a xs)
  show ?case
  proof (cases "f a = k")
    case True
    then have "k \<notin> f ` set xs" using Cons.prems by simp
    then have "y \<notin> set xs" if "f y = k" for y using that by (metis imageI)
    then show ?thesis using True by auto
  next
    case False
    then show ?thesis using Cons by auto
  qed
qed simp

lemma find_map_at:
  assumes "\<And>x. f (g x) = f x" "distinct (map f xs)"
  shows "List.find (\<lambda>x. f x = k) (map (\<lambda>x. if P (f x) then g x else x) xs)
    = map_option (\<lambda>x. if P (f x) then g x else x) (List.find (\<lambda>x. f x = k) xs)"
  using assms by (induction xs) auto

lemma get_by_repo_config_at: "get_model_config_by_repo_id repo D = config_at D (to_lower repo)"
  by (simp add: get_model_config_by_repo_id_def config_at_def same_repo_def [abs_def])

lemma config_at_iff:
  "configs_wf D \<Longrightarrow> config_at D k = Some r \<longleftrightarrow> r \<in> set (ct_models D) \<and> to_lower (mr_repo_id r) = k"
  unfolding config_at_def configs_wf_def by (rule find_unique_iff) simp

lemma config_at_None: "config_at D k = None \<longleftrightarrow> (\<forall>r \<in> set (ct_models D). to_lower (mr_repo_id r) \<noteq> k)"
  by (auto simp: config_at_def find_None_iff)

text \<open>Both ways to update a row give the same rows.\<close>

lemma id_update_is_upsert:
  assumes wf: "configs_wf D" and old: "config_at D (to_lower (mr_repo_id new)) = Some old"
  shows "push_id_update now (new\<lparr>mr_repo_id := mr_repo_id old\<rparr>) (mr_id old) D
    = Some (D\<lparr>ct_models := ct_models (push_repo_upsert now new D)\<rparr>)"
proof -
  have o: "old \<in> set (ct_models D)" "to_lower (mr_repo_id old) = to_lower (mr_repo_id new)"
    using old config_at_iff [OF wf] by auto
  have same: "mr_id r = mr_id old \<longleftrightarrow> r = old" if "r \<in> set (ct_models D)" for r
    using wf o(1) that by (auto simp: configs_wf_def distinct_map inj_on_def)
  have same': "same_repo (mr_repo_id new) r \<longleftrightarrow> r = old" if "r \<in> set (ct_models D)" for r
    using wf o that by (auto simp: configs_wf_def distinct_map inj_on_def same_repo_def)
  have "\<not> list_ex (\<lambda>r. mr_id r \<noteq> mr_id old \<and> same_repo (mr_repo_id old) r) (ct_models D)"
    unfolding list_ex_iff using same same' o(2) by (metis same_repo_def)
  moreover have "list_ex (same_repo (mr_repo_id new)) (ct_models D)"
    using o by (auto simp: list_ex_iff same_repo_def)
  moreover have "map (\<lambda>r. if mr_id r = mr_id old
        then (overwrite_config now (new\<lparr>mr_repo_id := mr_repo_id old\<rparr>) r)\<lparr>mr_repo_id := mr_repo_id (new\<lparr>mr_repo_id := mr_repo_id old\<rparr>)\<rparr> else r) (ct_models D)
      = map (\<lambda>r. if same_repo (mr_repo_id new) r then overwrite_config now new r else r) (ct_models D)"
    by (rule map_cong [OF refl]) (simp add: same same' overwrite_config_def)
  ultimately show ?thesis
    by (simp add: push_id_update_def push_repo_upsert_def Let_def del: map_eq_conv)
qed

lemma upsert_row_at:
  assumes wf: "configs_wf D" and bound: "md_next D < 2 ^ 63"
  shows "config_at (push_repo_upsert now new D) = (config_at D)(to_lower (mr_repo_id new) \<mapsto> upserted_row now new D)"
proof (cases "config_at D (to_lower (mr_repo_id new))")
  case None
  then have no: "\<not> list_ex (same_repo (mr_repo_id new)) (ct_models D)"
    by (auto simp: config_at_None list_ex_iff same_repo_def)
  show ?thesis
  proof
    fix k
    show "config_at (push_repo_upsert now new D) k = ((config_at D)(to_lower (mr_repo_id new) \<mapsto> upserted_row now new D)) k"
      using no None by (auto simp: push_repo_upsert_def Let_def config_at_def upserted_row_def find_snoc split: option.splits)
  qed
next
  case (Some old)
  have ex: "list_ex (same_repo (mr_repo_id new)) (ct_models D)"
    using Some config_at_iff [OF wf] by (auto simp: list_ex_iff same_repo_def)
  show ?thesis
  proof
    fix k
    have d: "distinct (map (\<lambda>r. to_lower (mr_repo_id r)) (ct_models D))" using wf by (simp add: configs_wf_def)
    have "config_at (push_repo_upsert now new D) k = map_option (\<lambda>r. if to_lower (mr_repo_id r) = to_lower (mr_repo_id new)
        then overwrite_config now new r else r) (config_at D k)"
      using find_map_at [of "\<lambda>r. to_lower (mr_repo_id r)" "overwrite_config now new" "ct_models D" k
          "\<lambda>l. l = to_lower (mr_repo_id new)", OF _ d] ex
      by (simp add: push_repo_upsert_def Let_def config_at_def same_repo_def)
    moreover have "to_lower (mr_repo_id r) = k" if "config_at D k = Some r" for r
      using that config_at_iff [OF wf] by simp
    ultimately show "config_at (push_repo_upsert now new D) k = ((config_at D)(to_lower (mr_repo_id new) \<mapsto> upserted_row now new D)) k"
      using Some by (cases "config_at D k") (auto simp: upserted_row_def)
  qed
qed

text \<open>Whatever was looked up before the statement, the table stays well formed.\<close>

lemma repo_upsert_wf:
  assumes wf: "configs_wf D" and bound: "md_next D < 2 ^ 63"
  shows "configs_wf (push_repo_upsert now new D)"
proof (cases "list_ex (same_repo (mr_repo_id new)) (ct_models D)")
  case True
  have "map mr_id (map (\<lambda>r. if same_repo (mr_repo_id new) r then overwrite_config now new r else r) (ct_models D)) = map mr_id (ct_models D)"
    by simp
  moreover have "map (\<lambda>r. to_lower (mr_repo_id r)) (map (\<lambda>r. if same_repo (mr_repo_id new) r then overwrite_config now new r else r) (ct_models D))
      = map (\<lambda>r. to_lower (mr_repo_id r)) (ct_models D)"
    by simp
  moreover have "list_all (\<lambda>r. unat (mr_id r) < Suc (md_next D)) (map (\<lambda>r. if same_repo (mr_repo_id new) r then overwrite_config now new r else r) (ct_models D))"
    using wf by (auto simp: configs_wf_def list_all_iff intro: less_SucI)
  ultimately show ?thesis
    using True wf by (simp add: push_repo_upsert_def Let_def configs_wf_def del: map_map)
next
  case False
  have fits: "unat (of_nat (md_next D) :: 64 word) = md_next D"
    using bound by (simp add: unat_of_nat take_bit_nat_eq_self_iff)
  have "of_nat (md_next D) \<notin> mr_id ` set (ct_models D)"
  proof
    assume "of_nat (md_next D) \<in> mr_id ` set (ct_models D)"
    then obtain r where r: "r \<in> set (ct_models D)" "mr_id r = of_nat (md_next D)" by auto
    have "unat (mr_id r) < md_next D" using wf r(1) by (auto simp: configs_wf_def list_all_iff)
    moreover have "unat (mr_id r) = md_next D" unfolding r(2) by (rule fits)
    ultimately show False by simp
  qed
  moreover have "to_lower (mr_repo_id new) \<notin> (\<lambda>r. to_lower (mr_repo_id r)) ` set (ct_models D)"
    using False by (auto simp: list_ex_iff same_repo_def)
  moreover have "list_all (\<lambda>r. unat (mr_id r) < Suc (md_next D)) (ct_models D)"
    using wf by (auto simp: configs_wf_def list_all_iff intro: less_SucI)
  ultimately show ?thesis
    using False wf fits by (simp add: push_repo_upsert_def Let_def configs_wf_def)
qed

lemma id_update_wf:
  assumes wf: "configs_wf D" and up: "push_id_update now new i D = Some D'"
  shows "configs_wf D'"
proof -
  let ?g = "\<lambda>r. if mr_id r = i then (overwrite_config now new r)\<lparr>mr_repo_id := mr_repo_id new\<rparr> else r"
  have D': "D' = D\<lparr>ct_models := map ?g (ct_models D)\<rparr>"
    and ok: "list_ex (\<lambda>r. mr_id r = i) (ct_models D) \<Longrightarrow>
      \<not> list_ex (\<lambda>r. mr_id r \<noteq> i \<and> same_repo (mr_repo_id new) r) (ct_models D)"
    using up by (auto simp: push_id_update_def split: if_splits)
  have inj: "inj_on (\<lambda>r. to_lower (mr_repo_id (?g r))) (set (ct_models D))"
  proof (rule inj_onI)
    fix a b assume ab: "a \<in> set (ct_models D)" "b \<in> set (ct_models D)"
      and eq: "to_lower (mr_repo_id (?g a)) = to_lower (mr_repo_id (?g b))"
    have ids: "mr_id a = mr_id b \<Longrightarrow> a = b" and repos: "to_lower (mr_repo_id a) = to_lower (mr_repo_id b) \<Longrightarrow> a = b"
      using wf ab by (auto simp: configs_wf_def distinct_map inj_on_def)
    have no: "mr_id r = i \<Longrightarrow> mr_id q \<noteq> i \<Longrightarrow> r \<in> set (ct_models D) \<Longrightarrow> q \<in> set (ct_models D)
        \<Longrightarrow> to_lower (mr_repo_id q) \<noteq> to_lower (mr_repo_id new)" for r q
      using ok by (auto simp: list_ex_iff same_repo_def)
    show "a = b"
      using eq ids repos no [of a b] no [of b a] ab by (auto split: if_splits)
  qed
  have "distinct (ct_models D)" using wf by (simp add: configs_wf_def distinct_map)
  with inj have "distinct (map (\<lambda>r. to_lower (mr_repo_id r)) (map ?g (ct_models D)))"
    by (simp add: distinct_map comp_def)
  moreover have "map mr_id (map ?g (ct_models D)) = map mr_id (ct_models D)" by simp
  moreover have "list_all (\<lambda>r. unat (mr_id r) < md_next D) (map ?g (ct_models D))"
    using wf by (auto simp: configs_wf_def list_all_iff)
  ultimately show ?thesis using wf by (simp add: D' configs_wf_def del: map_map)
qed

lemma upsert_statement_wf:
  assumes "configs_wf D" "md_next D < 2 ^ 63" "upsert_statement now pre new D = Some D'"
  shows "configs_wf D'"
  using assms repo_upsert_wf id_update_wf by (auto simp: upsert_statement_def split: option.splits)

text \<open>What an upsert does, the failures of its queries included.\<close>

lemma upsert_exact:
  assumes "configs_wf D" "md_next D < 2 ^ 63"
  shows "case upsert_model_config db now new D of (i, D') \<Rightarrow>
     if db 0 \<and> db 1 then
       config_at D' = (config_at D)(to_lower (mr_repo_id new) \<mapsto> upserted_row now new D)
       \<and> ct_files D' = ct_files D \<and> ct_pulls D' = ct_pulls D \<and> configs_wf D'
       \<and> i \<in> {None, Some (mr_id (upserted_row now new D))} \<and> (db 2 \<longrightarrow> i \<noteq> None)
     else (i, D') = (None, D)"
proof -
  let ?k = "to_lower (mr_repo_id new)"
  have pre: "upsert_precheck (mr_repo_id new) D = map_option (\<lambda>r. (mr_id r, mr_repo_id r)) (config_at D ?k)"
    by (simp add: upsert_precheck_def get_by_repo_config_at)
  have at: "config_at (push_repo_upsert now new D) = (config_at D)(?k \<mapsto> upserted_row now new D)"
    by (rule upsert_row_at [OF assms])
  have same: "config_at (D\<lparr>ct_models := ct_models E\<rparr>) = config_at E" for E :: model_db by (rule ext) (simp add: config_at_def)
  have rest: "ct_files (push_repo_upsert now new D) = ct_files D" "ct_pulls (push_repo_upsert now new D) = ct_pulls D"
    by (simp_all add: push_repo_upsert_def Let_def)
  have wf: "configs_wf (push_repo_upsert now new D)" by (rule repo_upsert_wf [OF assms])
  show ?thesis
  proof (cases "case_differs (upsert_precheck (mr_repo_id new) D) new")
    case None
    then show ?thesis
      using at rest wf by (simp add: upsert_model_config_def Let_def upsert_statement_def get_by_repo_config_at)
  next
    case (Some p)
    then obtain old where old: "config_at D ?k = Some old" and p: "p = (mr_id old, mr_repo_id old)"
      by (auto simp: case_differs_def pre split: option.splits if_splits)
    let ?D' = "D\<lparr>ct_models := ct_models (push_repo_upsert now new D)\<rparr>"
    have st: "upsert_statement now (upsert_precheck (mr_repo_id new) D) new D = Some ?D'"
      using Some id_update_is_upsert [OF assms(1) old] by (simp add: upsert_statement_def p)
    have "configs_wf ?D'" by (rule upsert_statement_wf [OF assms st])
    moreover have "mr_id (upserted_row now new D) = mr_id old" using old by (simp add: upserted_row_def)
    moreover have "config_at ?D' = (config_at D)(?k \<mapsto> upserted_row now new D)" by (simp add: same at)
    ultimately show ?thesis
      using Some st by (simp add: upsert_model_config_def Let_def p)
  qed
qed

text \<open>
  C35. Saving a configuration is an insertion into the map from repositories to rows, whatever the
  case of the name: the row that was there keeps its id, its spelling, its time of creation and
  the metadata the new row lacks, a new one gets a number no row has; the id returned is that
  row's, no other row and no file changes, and repositories (up to case) and ids stay unique. A
  failed query leaves the table as it was, or reports an error after the row was written.
\<close>

theorem save_refines:
  assumes "configs_wf D" "md_next D < 2 ^ 63"
  shows "case save_model_config J db now key mc D of (i, D') \<Rightarrow>
     (let new = upserted_row now (config_record J now key mc) D in
      if db 0 \<and> db 1 then
        config_at D' = (config_at D)(to_lower (config_repo key mc) \<mapsto> new)
        \<and> ct_files D' = ct_files D \<and> ct_pulls D' = ct_pulls D \<and> configs_wf D'
        \<and> i \<in> {None, Some (mr_id new)} \<and> (db 2 \<longrightarrow> i \<noteq> None)
      else (i, D') = (None, D))"
proof -
  have "mr_repo_id (config_record J now key mc) = config_repo key mc"
    by (simp add: config_record_def Let_def to_db_record_def split: option.splits)
  then show ?thesis
    using upsert_exact [OF assms, where db = db and now = now and new = "config_record J now key mc"]
    by (simp only: save_model_config_def Let_def)
qed

definition demo_config_row :: "string \<Rightarrow> model_config_record" where
  "demo_config_row repo = to_db_record demo_json ''t0'' demo_model repo"

definition demo_model_db :: model_db where
  "demo_model_db = \<lparr>ct_models = [demo_config_row ''Org/Foo''], ct_pulls = [], ct_files = [], md_next = 1\<rparr>"

lemma demo_row_identity [simp]: "mr_id (demo_config_row repo) = 0" "mr_repo_id (demo_config_row repo) = repo"
  by (simp_all add: demo_config_row_def to_db_record_def)

lemma demo_model_db_wf: "configs_wf demo_model_db" "md_next demo_model_db < 2 ^ 63"
  by (simp_all add: demo_model_db_def configs_wf_def)

lemma save_refines_witness:
  "\<exists>D'. save_model_config demo_json (\<lambda>_. True) ''t1'' ''org--foo'' (demo_model\<lparr>mc_model := Some ''org/FOO''\<rparr>) demo_model_db
      = (Some 0, D')
    \<and> config_at D' = (config_at demo_model_db)(''org/foo'' \<mapsto> overwrite_config ''t1''
        (config_record demo_json ''t1'' ''org--foo'' (demo_model\<lparr>mc_model := Some ''org/FOO''\<rparr>)) (demo_config_row ''Org/Foo''))"
proof -
  let ?m = "demo_model\<lparr>mc_model := Some ''org/FOO''\<rparr>"
  let ?new = "config_record demo_json ''t1'' ''org--foo'' ?m"
  have repo: "config_repo ''org--foo'' ?m = ''org/FOO''" by (simp add: config_repo_def nonempty_def)
  have "mr_repo_id ?new = ''org/FOO''"
    by (simp add: config_record_def Let_def to_db_record_def repo split: option.splits)
  moreover have lower: "to_lower ''org/FOO'' = ''org/foo''" "to_lower ''Org/Foo'' = ''org/foo''" by code_simp+
  ultimately have row: "upserted_row ''t1'' ?new demo_model_db = overwrite_config ''t1'' ?new (demo_config_row ''Org/Foo'')"
    by (simp add: upserted_row_def config_at_def demo_model_db_def)
  have "case save_model_config demo_json (\<lambda>_. True) ''t1'' ''org--foo'' ?m demo_model_db of (i, D') \<Rightarrow>
      config_at D' = (config_at demo_model_db)(''org/foo'' \<mapsto> upserted_row ''t1'' ?new demo_model_db)
      \<and> i = Some (mr_id (upserted_row ''t1'' ?new demo_model_db))"
    using save_refines [OF demo_model_db_wf, where J = demo_json and db = "\<lambda>_. True" and now = "''t1''" and key = "''org--foo''" and mc = ?m]
    by (auto simp: Let_def repo lower split: prod.splits)
  then show ?thesis by (auto simp: row split: prod.splits)
qed

end
