(* ===== verification/ModelCrud.thy ===== *)
theory ModelCrud
  imports ModelDb UpdateCheck
begin

text \<open>
  The model configurations as the web API edits them (\<^verbatim>\<open>tama/src/api/models/crud/\<close>,
  \<^verbatim>\<open>api/models/info.rs\<close>) and the rename inside the proxy (\<^verbatim>\<open>tama-core/src/proxy/rename.rs\<close>,
  \<^verbatim>\<open>models/manager.rs\<close>). A handler answers with an HTTP status and a message, or with the id it
  reports. The queries of a handler are numbered in their order, \<open>db\<close> tells which of them work;
  the reads of a handler see earlier states of the database than its write. The reload of the aliases
  is not modelled.
\<close>

section \<open>Bodies\<close>

record 'f model_body =
  bo_backend :: string
  bo_gpu_variant :: "gpu_variant option"
  bo_gpu_device :: "string option"
  bo_model :: "string option"
  bo_quant :: "string option"
  bo_mmproj :: "string option"
  bo_mtp_model :: "string option"
  bo_args :: "string list"
  bo_sampling :: "'f sampling_params option"
  bo_enabled :: "bool option"
  bo_context_length :: "u32 option"
  bo_num_parallel :: "u32 option"
  bo_port :: "u16 option"
  bo_api_name :: "string option"
  bo_display_name :: "string option"
  bo_gpu_layers :: "u32 option"
  bo_quants :: "(string \<rightharpoonup> quant_entry) option"
  bo_modalities :: "model_modalities option"
  bo_reasoning_levels :: "string list option"
  bo_kv_unified :: "bool option"
  bo_cache_type_k :: "string option"
  bo_cache_type_v :: "string option"
  bo_spec_decoding :: "spec_decoding_config option"
  bo_vllm :: "'f vllm_config option"
  bo_n_batch :: "u32 option"
  bo_n_ubatch :: "u32 option"

text \<open>A patch has the same fields, all of them optional.\<close>

record 'f model_patch =
  pa_backend :: "string option"
  pa_gpu_variant :: "gpu_variant option"
  pa_gpu_device :: "string option"
  pa_model :: "string option"
  pa_quant :: "string option"
  pa_mmproj :: "string option"
  pa_mtp_model :: "string option"
  pa_args :: "string list option"
  pa_sampling :: "'f sampling_params option"
  pa_enabled :: "bool option"
  pa_context_length :: "u32 option"
  pa_num_parallel :: "u32 option"
  pa_port :: "u16 option"
  pa_api_name :: "string option"
  pa_display_name :: "string option"
  pa_gpu_layers :: "u32 option"
  pa_quants :: "(string \<rightharpoonup> quant_entry) option"
  pa_modalities :: "model_modalities option"
  pa_reasoning_levels :: "string list option"
  pa_kv_unified :: "bool option"
  pa_cache_type_k :: "string option"
  pa_cache_type_v :: "string option"
  pa_spec_decoding :: "spec_decoding_config option"
  pa_vllm :: "'f vllm_config option"
  pa_n_batch :: "u32 option"
  pa_n_ubatch :: "u32 option"

definition GPU_DEVICE_CLEAR_SENTINEL :: string where
  "GPU_DEVICE_CLEAR_SENTINEL = ''__clear__''"

definition body_gpu_device :: "string option \<Rightarrow> string option \<Rightarrow> string option" where
  "body_gpu_device body existing =
     (if body = Some GPU_DEVICE_CLEAR_SENTINEL then None else or_else body existing)"

definition merge_quants :: "(string \<rightharpoonup> quant_entry) \<Rightarrow> (string \<rightharpoonup> quant_entry) option \<Rightarrow> string \<rightharpoonup> quant_entry" where
  "merge_quants base body = (\<lambda>k. map_option
     (\<lambda>v. v\<lparr>qe_size_bytes := or_else (Option.bind (base k) qe_size_bytes) (qe_size_bytes v)\<rparr>) (unwrap_or body base k))"

definition cache_type :: "string option \<Rightarrow> string option \<Rightarrow> string option" where
  "cache_type body existing = or_else (case body of None \<Rightarrow> None | Some s \<Rightarrow>
      (let t = trim_ws s in if t \<noteq> [] \<and> t \<noteq> ''__custom'' then Some t else None)) existing"

definition apply_model_patch :: "'f model_patch \<Rightarrow> 'f model_config \<Rightarrow> 'f model_config" where
  "apply_model_patch b m = m\<lparr>
     mc_backend := unwrap_or (pa_backend b) (mc_backend m),
     mc_gpu_variant := or_else (pa_gpu_variant b) (mc_gpu_variant m),
     mc_gpu_device := body_gpu_device (pa_gpu_device b) (mc_gpu_device m),
     mc_model := or_else (pa_model b) (mc_model m),
     mc_quant := or_else (pa_quant b) (mc_quant m),
     mc_mmproj := or_else (pa_mmproj b) (mc_mmproj m),
     mc_mtp_model := or_else (pa_mtp_model b) (mc_mtp_model m),
     mc_args := unwrap_or (pa_args b) (mc_args m),
     mc_sampling := or_else (pa_sampling b) (mc_sampling m),
     mc_enabled := unwrap_or (pa_enabled b) (mc_enabled m),
     mc_context_length := or_else (pa_context_length b) (mc_context_length m),
     mc_num_parallel := or_else (pa_num_parallel b) (mc_num_parallel m),
     mc_port := or_else (pa_port b) (mc_port m),
     mc_api_name := or_else (pa_api_name b) (mc_api_name m),
     mc_gpu_layers := or_else (pa_gpu_layers b) (mc_gpu_layers m),
     mc_modalities := or_else (pa_modalities b) (mc_modalities m),
     mc_display_name := or_else (pa_display_name b) (mc_display_name m),
     mc_quants := merge_quants (mc_quants m) (pa_quants b),
     mc_kv_unified := unwrap_or (pa_kv_unified b) (mc_kv_unified m),
     mc_cache_type_k := cache_type (pa_cache_type_k b) (mc_cache_type_k m),
     mc_cache_type_v := cache_type (pa_cache_type_v b) (mc_cache_type_v m),
     mc_spec_decoding := unwrap_or (pa_spec_decoding b) (mc_spec_decoding m),
     mc_n_batch := pa_n_batch b, mc_n_ubatch := pa_n_ubatch b,
     mc_vllm := unwrap_or (pa_vllm b) (mc_vllm m),
     mc_reasoning_levels := or_else (pa_reasoning_levels b) (mc_reasoning_levels m)\<rparr>"

text \<open>The base of a new model: everything absent, enabled, with a unified cache.\<close>

definition body_base :: "'f model_config" where
  "body_base = model_default\<lparr>mc_enabled := True, mc_kv_unified := True\<rparr>"

definition apply_model_body :: "'f model_body \<Rightarrow> 'f model_config option \<Rightarrow> 'f model_config" where
  "apply_model_body b existing = (let m = unwrap_or existing body_base in m\<lparr>
     mc_backend := bo_backend b,
     mc_gpu_variant := or_else (bo_gpu_variant b) (mc_gpu_variant m),
     mc_gpu_device := body_gpu_device (bo_gpu_device b) (mc_gpu_device m),
     mc_model := or_else (bo_model b) (mc_model m),
     mc_quant := or_else (bo_quant b) (mc_quant m),
     mc_mmproj := or_else (bo_mmproj b) (mc_mmproj m),
     mc_mtp_model := or_else (bo_mtp_model b) (mc_mtp_model m),
     mc_args := bo_args b,
     mc_sampling := bo_sampling b,
     mc_enabled := unwrap_or (bo_enabled b) (mc_enabled m),
     mc_context_length := or_else (bo_context_length b) (mc_context_length m),
     mc_num_parallel := or_else (bo_num_parallel b) (mc_num_parallel m),
     mc_port := or_else (bo_port b) (mc_port m),
     mc_profile := None,
     mc_api_name := or_else (bo_api_name b) (mc_api_name m),
     mc_gpu_layers := or_else (bo_gpu_layers b) (mc_gpu_layers m),
     mc_modalities := or_else (bo_modalities b) (mc_modalities m),
     mc_display_name := or_else (bo_display_name b) (mc_display_name m),
     mc_quants := merge_quants (mc_quants m) (bo_quants b),
     mc_kv_unified := unwrap_or (bo_kv_unified b) (mc_kv_unified m),
     mc_cache_type_k := cache_type (bo_cache_type_k b) (mc_cache_type_k m),
     mc_cache_type_v := cache_type (bo_cache_type_v b) (mc_cache_type_v m),
     mc_spec_decoding := unwrap_or (bo_spec_decoding b) (mc_spec_decoding m),
     mc_n_batch := bo_n_batch b, mc_n_ubatch := bo_n_ubatch b,
     mc_vllm := unwrap_or (bo_vllm b) (mc_vllm m),
     mc_reasoning_levels := or_else (bo_reasoning_levels b) (mc_reasoning_levels m)\<rparr>)"

section \<open>Validation\<close>

definition VALID_REASONING_LEVELS :: "string list" where
  "VALID_REASONING_LEVELS = [''off'', ''minimal'', ''low'', ''medium'', ''high'', ''xhigh'', ''max'']"

definition push_new :: "string \<Rightarrow> string list \<Rightarrow> string list" where
  "push_new x xs = (if x \<in> set xs then xs else xs @ [x])"

fun sort_levels :: "string list \<Rightarrow> string list \<Rightarrow> string list \<Rightarrow> string list \<times> string list" where
  "sort_levels [] seen offenders = (seen, offenders)"
| "sort_levels (raw # rest) seen offenders =
     (let n = to_lower (trim_ws raw) in
      if n = [] then sort_levels rest seen offenders
      else if n \<notin> set VALID_REASONING_LEVELS then sort_levels rest seen (push_new n offenders)
      else sort_levels rest (push_new n seen) offenders)"

definition normalize_reasoning_levels :: "string list \<Rightarrow> string list + string list" where
  "normalize_reasoning_levels levels = (let (seen, offenders) = sort_levels levels [] [] in
     if offenders \<noteq> [] then Inl offenders else Inr seen)"

text \<open>The first complaint of a chain of checks; a complaint is the field's name and what is wrong.\<close>

datatype complaint = Empty string | TooLong string nat | Sentinel string | BadLevels "string list"

definition check_length :: "string \<Rightarrow> nat \<Rightarrow> string option \<Rightarrow> complaint option" where
  "check_length field n v = (case v of None \<Rightarrow> None | Some s \<Rightarrow> if utf8_len s > n then Some (TooLong field n) else None)"

definition check_present :: "string \<Rightarrow> nat \<Rightarrow> string option \<Rightarrow> complaint option" where
  "check_present field n v = (if v = Some [] then Some (Empty field) else check_length field n v)"

definition check_cache :: "string \<Rightarrow> string option \<Rightarrow> complaint option" where
  "check_cache field v = (case v of None \<Rightarrow> None | Some s \<Rightarrow>
     if trim_ws s = ''__custom'' then Some (Sentinel field) else check_length field 32 (Some (trim_ws s)))"

definition first_complaint :: "complaint option list \<Rightarrow> complaint option" where
  "first_complaint cs = (case List.find (\<lambda>c. c \<noteq> None) cs of Some c \<Rightarrow> c | None \<Rightarrow> None)"

definition normalized_levels :: "string list option \<Rightarrow> complaint + string list option" where
  "normalized_levels v = (case v of None \<Rightarrow> Inr None | Some ls \<Rightarrow>
     (case normalize_reasoning_levels ls of Inl bad \<Rightarrow> Inl (BadLevels bad) | Inr ns \<Rightarrow> Inr (Some ns)))"

definition validate_model_body :: "'f model_body \<Rightarrow> complaint + 'f model_body" where
  "validate_model_body b =
     (case first_complaint [check_present ''backend'' 256 (Some (bo_backend b)), check_present ''model'' 256 (bo_model b),
        check_length ''quant'' 128 (bo_quant b), check_length ''mmproj'' 128 (bo_mmproj b),
        check_length ''api_name'' 128 (bo_api_name b), check_length ''display_name'' 256 (bo_display_name b),
        check_cache ''cache_type_k'' (bo_cache_type_k b), check_cache ''cache_type_v'' (bo_cache_type_v b)] of
        Some c \<Rightarrow> Inl c
      | None \<Rightarrow> (case normalized_levels (bo_reasoning_levels b) of
            Inl c \<Rightarrow> Inl c | Inr ls \<Rightarrow> Inr (b\<lparr>bo_reasoning_levels := ls\<rparr>)))"

definition validate_model_patch :: "'f model_patch \<Rightarrow> complaint + 'f model_patch" where
  "validate_model_patch b =
     (case first_complaint [check_present ''backend'' 256 (pa_backend b), check_present ''model'' 256 (pa_model b),
        check_length ''quant'' 128 (pa_quant b), check_length ''mmproj'' 128 (pa_mmproj b),
        check_length ''api_name'' 128 (pa_api_name b), check_length ''display_name'' 256 (pa_display_name b),
        check_cache ''cache_type_k'' (pa_cache_type_k b), check_cache ''cache_type_v'' (pa_cache_type_v b)] of
        Some c \<Rightarrow> Inl c
      | None \<Rightarrow> (case normalized_levels (pa_reasoning_levels b) of
            Inl c \<Rightarrow> Inl c | Inr ls \<Rightarrow> Inr (b\<lparr>pa_reasoning_levels := ls\<rparr>)))"

section \<open>Handlers\<close>

datatype crud_answer =
    Refused nat string
  | Invalid complaint
  | DbFailed
  | Saved "64 word"
  | QuantDeleted "64 word" string string
  | ModelDeleted

record 'f crud =
  cr_db :: model_db
  cr_registry :: "(string, 'f model_config) hmap"
  cr_checks :: "(string \<times> string, update_check) hmap"
  cr_removed :: "string list"
  cr_accessed :: "(string, int) hmap"
  cr_stats :: "(string, nat) hmap"

definition resolve_db_id :: "(nat \<Rightarrow> bool) \<Rightarrow> model_db \<Rightarrow> string \<Rightarrow> unit + 64 word option" where
  "resolve_db_id db D id_str = (case parse_i64 id_str of
     Some i \<Rightarrow> Inr (Some (word_of_int i))
   | None \<Rightarrow> if \<not> db 0 then Inl ()
       else Inr (map_option mr_id (get_model_config_by_repo_id (config_key_to_repo_id id_str) D)))"

definition resolve_model_record ::
  "(nat \<Rightarrow> bool) \<Rightarrow> model_db \<Rightarrow> string \<Rightarrow> crud_answer + 64 word \<times> model_config_record" where
  "resolve_model_record db D id_str = (case resolve_db_id db D id_str of
     Inl _ \<Rightarrow> Inl (Refused 400 ''query failed'')
   | Inr None \<Rightarrow> Inl (Refused 404 ''Model not found'')
   | Inr (Some i) \<Rightarrow> if \<not> db 1 then Inl DbFailed else (case get_model_config i D of
         None \<Rightarrow> Inl (Refused 404 ''Model not found'')
       | Some r \<Rightarrow> Inr (i, r)))"

text \<open>The registry is reloaded where the queries work; a failure is only logged.\<close>

definition reload_registry :: "'f json_ops \<Rightarrow> (nat \<Rightarrow> bool) \<Rightarrow> 'f crud \<Rightarrow> 'f crud" where
  "reload_registry J db S = (case load_model_configs J db (cr_db S) of
     None \<Rightarrow> S | Some m \<Rightarrow> S\<lparr>cr_registry := m\<rparr>)"

text \<open>The checks of a repository name that two handlers share.\<close>

definition check_repo_id :: "string \<Rightarrow> string \<Rightarrow> crud_answer option" where
  "check_repo_id what repo =
     (if repo = [] then Some (Refused 422 (what @ '' cannot be empty''))
      else if utf8_len repo > 256 then Some (Refused 422 (what @ '' must be at most 256 characters''))
      else if \<not> is_valid_repo_id repo then Some (Refused 422 (what @ '' contains invalid characters (only alphanumeric, dots, underscores, hyphens, and slashes are allowed)''))
      else None)"

definition save_and_reload ::
  "'f json_ops \<Rightarrow> (nat \<Rightarrow> bool) \<Rightarrow> string \<Rightarrow> string \<Rightarrow> 'f model_config \<Rightarrow> 'f crud \<Rightarrow> crud_answer \<times> 'f crud" where
  "save_and_reload J db now key mc S =
     (case save_model_config J db now key mc (cr_db S) of
        (None, D) \<Rightarrow> (DbFailed, S\<lparr>cr_db := D\<rparr>)
      | (Some i, D) \<Rightarrow> (Saved i, reload_registry J (\<lambda>n. db (3 + n)) (S\<lparr>cr_db := D\<rparr>)))"

definition with_metadata :: "hf_model_metadata option \<Rightarrow> 'f model_config \<Rightarrow> 'f model_config" where
  "with_metadata meta m = (case meta of None \<Rightarrow> m | Some h \<Rightarrow> m\<lparr>
     mc_hf_format := or_else (mc_hf_format m) (hf_format h),
     mc_hf_base_model := or_else (mc_hf_base_model m) (hf_base_model h),
     mc_hf_pipeline_tag := or_else (mc_hf_pipeline_tag m) (hf_pipeline_tag h),
     mc_hf_total_params := or_else (mc_hf_total_params m) (hf_total_params h),
     mc_hf_active_params := or_else (mc_hf_active_params m) (hf_active_params h),
     mc_hf_architecture_type := or_else (mc_hf_architecture_type m) (hf_architecture_type h),
     mc_hf_context_length := or_else (mc_hf_context_length m) (hf_context_length h),
     mc_hf_num_layers := or_else (mc_hf_num_layers m) (hf_num_layers h),
     mc_hf_last_modified := or_else (mc_hf_last_modified m) (hf_last_modified h)\<rparr>)"

definition with_repo :: "string \<Rightarrow> 'f model_config \<Rightarrow> 'f model_config" where
  "with_repo repo m = (if nonempty (mc_model m) = None then m\<lparr>mc_model := Some repo\<rparr> else m)"

text \<open>\<open>D0\<close> is the database at the check for a row of that name.\<close>

definition create_model ::
  "'f json_ops \<Rightarrow> (nat \<Rightarrow> bool) \<Rightarrow> string \<Rightarrow> model_db \<Rightarrow> string \<Rightarrow> hf_model_metadata option \<Rightarrow> 'f model_body
    \<Rightarrow> 'f crud \<Rightarrow> crud_answer \<times> 'f crud" where
  "create_model J db now D0 raw meta body S =
     (let repo = trim_ws raw in
      case check_repo_id ''repo_id'' repo of Some a \<Rightarrow> (a, S) | None \<Rightarrow>
      (case validate_model_body body of Inl c \<Rightarrow> (Invalid c, S) | Inr b \<Rightarrow>
      (if \<not> db 0 then (DbFailed, S)
       else if get_model_config_by_repo_id repo D0 \<noteq> None
         then (Refused 409 (''Model '' @ CHR 0x27 # repo @ CHR 0x27 # '' already exists''), S)
       else save_and_reload J (\<lambda>n. db (1 + n)) now repo (with_repo repo (with_metadata meta (apply_model_body b None))) S)))"

definition update_model ::
  "'f json_ops \<Rightarrow> (nat \<Rightarrow> bool) \<Rightarrow> string \<Rightarrow> model_db \<Rightarrow> string \<Rightarrow> 'f model_body \<Rightarrow> 'f crud \<Rightarrow> crud_answer \<times> 'f crud" where
  "update_model J db now D0 id_str body S =
     (case validate_model_body body of Inl c \<Rightarrow> (Invalid c, S) | Inr b \<Rightarrow>
      (case resolve_model_record db D0 id_str of Inl a \<Rightarrow> (a, S) | Inr (i, r) \<Rightarrow>
       save_and_reload J (\<lambda>n. db (2 + n)) now (config_key_from_repo_id (mr_repo_id r))
         (apply_model_body b (Some (from_db_record J r))) S))"

definition patch_model ::
  "'f json_ops \<Rightarrow> (nat \<Rightarrow> bool) \<Rightarrow> string \<Rightarrow> model_db \<Rightarrow> string \<Rightarrow> 'f model_patch \<Rightarrow> 'f crud \<Rightarrow> crud_answer \<times> 'f crud" where
  "patch_model J db now D0 id_str body S =
     (case validate_model_patch body of Inl c \<Rightarrow> (Invalid c, S) | Inr b \<Rightarrow>
      (case resolve_model_record db D0 id_str of Inl a \<Rightarrow> (a, S) | Inr (i, r) \<Rightarrow>
       save_and_reload J (\<lambda>n. db (2 + n)) now (config_key_from_repo_id (mr_repo_id r))
         (apply_model_patch b (from_db_record J r)) S))"

text \<open>\<open>D0\<close> and \<open>D1\<close>: at the lookup of the model, and of the new name.\<close>

definition rename_model ::
  "'f json_ops \<Rightarrow> (nat \<Rightarrow> bool) \<Rightarrow> string \<Rightarrow> model_db \<Rightarrow> model_db \<Rightarrow> string \<Rightarrow> string \<Rightarrow> 'f crud \<Rightarrow> crud_answer \<times> 'f crud" where
  "rename_model J db now D0 D1 id_str raw S =
     (case resolve_model_record db D0 id_str of Inl a \<Rightarrow> (a, S) | Inr (i, r) \<Rightarrow>
      (let new = trim_ws raw in
       case check_repo_id ''New repo_id'' new of Some a \<Rightarrow> (a, S) | None \<Rightarrow>
       (if \<not> db 2 then (DbFailed, S)
        else if get_model_config_by_repo_id new D1 \<noteq> None
          then (Refused 409 (''Model '' @ CHR 0x27 # new @ CHR 0x27 # '' already exists''), S)
        else (case save_and_reload J (\<lambda>n. db (3 + n)) now (config_key_from_repo_id new)
                ((from_db_record J r)\<lparr>mc_model := Some new\<rparr>) S of
            (Saved _, S') \<Rightarrow> (Saved i, if db 8
               then S'\<lparr>cr_checks := delete_update_check ''model'' (mr_repo_id r) (cr_checks S')\<rparr> else S')
          | (a, S') \<Rightarrow> (a, S')))))"

text \<open>
  Deletions: the models and the configs directory, or the answer with which reading the settings
  failed; which paths exist and can be removed.
\<close>

record crud_disk =
  kd_models_dir :: "string option"
  kd_configs_dir :: "string option"
  kd_exists :: "string \<Rightarrow> bool"
  kd_removable :: "string \<Rightarrow> bool"
  kd_empty :: "string \<Rightarrow> bool"

definition remove_path :: "crud_disk \<Rightarrow> string \<Rightarrow> 'f crud \<Rightarrow> 'f crud" where
  "remove_path K p S = (if kd_exists K p \<and> kd_removable K p then S\<lparr>cr_removed := cr_removed S @ [p]\<rparr> else S)"

definition delete_quant ::
  "'f json_ops \<Rightarrow> (nat \<Rightarrow> bool) \<Rightarrow> string \<Rightarrow> model_db \<Rightarrow> crud_answer + crud_disk \<Rightarrow> 64 word \<Rightarrow> string \<Rightarrow> 'f crud
    \<Rightarrow> crud_answer \<times> 'f crud" where
  "delete_quant J db now D0 cfg i quant_key S =
     (case cfg of Inl a \<Rightarrow> (a, S) | Inr K \<Rightarrow>
      if \<not> db 0 then (DbFailed, S) else
      (case get_model_config i D0 of None \<Rightarrow> (Refused 404 ''Model not found'', S) | Some r \<Rightarrow>
       (let m = from_db_record J r in
        case mc_quants m quant_key of None \<Rightarrow> (Refused 404 ''Quant not found'', S) | Some q \<Rightarrow>
        (let m1 = m\<lparr>mc_quant := (if mc_quant m = Some quant_key then None else mc_quant m),
               mc_mmproj := (if mc_mmproj m = Some quant_key then None else mc_mmproj m),
               mc_quants := (mc_quants m)(quant_key := None)\<rparr> in
         case save_and_reload J (\<lambda>n. db (1 + n)) now (config_key_from_repo_id (mr_repo_id r)) m1 S of
           (Saved _, S1) \<Rightarrow>
             (let S2 = (case kd_models_dir K of None \<Rightarrow> S1
                  | Some d \<Rightarrow> if mr_repo_id r = [] then S1 else remove_path K (path_join (repo_path d (mr_repo_id r)) (qe_file q)) S1);
                  S3 = (if mr_repo_id r \<noteq> [] \<and> db 6
                    then S2\<lparr>cr_db := (cr_db S2)\<lparr>ct_files := delete_model_file (sint i) (qe_file q) (ct_files (cr_db S2))\<rparr>\<rparr> else S2)
              in (QuantDeleted i quant_key (qe_file q), S3))
         | (a, S1) \<Rightarrow> (a, S1)))))"

definition parent_dir :: "string \<Rightarrow> string" where
  "parent_dir p = rev (drop 1 (dropWhile (\<lambda>c. c \<noteq> CHR ''/'') (rev p)))"

definition remove_files :: "crud_disk \<Rightarrow> string \<Rightarrow> 'f crud \<Rightarrow> 'f crud" where
  "remove_files K repo S =
     (let S1 = (case kd_models_dir K of None \<Rightarrow> S | Some d \<Rightarrow>
            (let p = repo_path d repo in
             if kd_exists K p \<and> kd_removable K p
             then (let S' = S\<lparr>cr_removed := cr_removed S @ [p]\<rparr> in
               if kd_empty K (parent_dir p) \<and> kd_removable K (parent_dir p)
               then S'\<lparr>cr_removed := cr_removed S' @ [parent_dir p]\<rparr> else S')
             else S))
      in (case kd_configs_dir K of None \<Rightarrow> S1
          | Some c \<Rightarrow> remove_path K (path_join c (replace_slash repo @ ''.toml'')) S1))"

definition delete_model ::
  "'f json_ops \<Rightarrow> (nat \<Rightarrow> bool) \<Rightarrow> model_db \<Rightarrow> crud_answer + crud_disk \<Rightarrow> string \<Rightarrow> 'f crud \<Rightarrow> crud_answer \<times> 'f crud" where
  "delete_model J db D0 cfg id_str S =
     (case cfg of Inl a \<Rightarrow> (a, S) | Inr K \<Rightarrow>
      (case resolve_model_record db D0 id_str of Inl a \<Rightarrow> (a, S) | Inr (i, r) \<Rightarrow>
       if \<not> db 2 then (Refused 500 ''Failed to delete model records from database'', S)
       else (let S1 = reload_registry J (\<lambda>n. db (3 + n)) (S\<lparr>cr_db := delete_model_config i (cr_db S)\<rparr>);
                 S2 = (if mr_repo_id r = [] then S1 else remove_files K (mr_repo_id r) S1)
             in (ModelDeleted, if db 5
               then S2\<lparr>cr_checks := delete_update_check ''model'' (show_i64 (sint i)) (cr_checks S2)\<rparr> else S2))))"

section \<open>The manager\<close>

definition manager_record :: "'f json_ops \<Rightarrow> string \<Rightarrow> string \<Rightarrow> 'f model_config \<Rightarrow> model_config_record" where
  "manager_record J now key mc = (let repo = config_key_to_repo_id key; r = to_db_record J now mc repo in
     case nonempty (mr_api_name r) of None \<Rightarrow> r\<lparr>mr_api_name := Some repo\<rparr> | Some _ \<Rightarrow> r)"

text \<open>The rename by id of the manager: the row keeps its id. \<open>None\<close> is an error.\<close>

definition rename_config :: "(nat \<Rightarrow> bool) \<Rightarrow> string \<Rightarrow> 64 word \<Rightarrow> string \<Rightarrow> model_db \<Rightarrow> model_db option" where
  "rename_config db now i new D =
     (if \<not> db 0 \<or> get_model_config i D = None \<or> \<not> db 1
         \<or> list_ex (\<lambda>r. same_repo new r \<and> mr_id r \<noteq> i) (ct_models D) \<or> \<not> db 2 then None
      else Some (D\<lparr>ct_models := map (\<lambda>r. if mr_id r = i then r\<lparr>mr_repo_id := new, mr_updated_at := now\<rparr> else r) (ct_models D)\<rparr>))"

definition set_enabled :: "bool \<Rightarrow> string \<Rightarrow> string \<Rightarrow> model_db \<Rightarrow> model_db" where
  "set_enabled e now key D = D\<lparr>ct_models := map (\<lambda>r. if same_repo (config_key_to_repo_id key) r
     then r\<lparr>mr_enabled := e, mr_updated_at := now\<rparr> else r) (ct_models D)\<rparr>"

definition move_key :: "'k \<Rightarrow> 'k \<Rightarrow> ('k, 'v) hmap \<Rightarrow> ('k, 'v) hmap" where
  "move_key old new m = (case hm_get m old of None \<Rightarrow> m | Some v \<Rightarrow> hm_insert new v (hm_remove old m))"

text \<open>The rename of the proxy's state; its error is a text.\<close>

definition proxy_rename_model ::
  "'f json_ops \<Rightarrow> (nat \<Rightarrow> bool) \<Rightarrow> string \<Rightarrow> string \<Rightarrow> string \<Rightarrow> 'f crud \<Rightarrow> string option \<times> 'f crud" where
  "proxy_rename_model J db now old_name new_name S =
     (if new_name = [] then (Some ''new name cannot be empty'', S)
      else if old_name = new_name then (Some ''old name and new name must differ'', S)
      else (case hm_get (cr_registry S) old_name of
        None \<Rightarrow> (Some (''model '' @ CHR 0x27 # old_name @ CHR 0x27 # '' does not exist''), S)
      | Some mc \<Rightarrow>
         if hm_get (cr_registry S) new_name \<noteq> None
         then (Some (''model name '' @ CHR 0x27 # new_name @ CHR 0x27 # '' already taken''), S)
         else (let (saved, D) = upsert_model_config db now (manager_record J now new_name mc) (cr_db S);
                   D' = (case saved of None \<Rightarrow> D | Some _ \<Rightarrow>
                     (case (if db 3 then get_model_config_by_repo_id (config_key_to_repo_id old_name) D else None) of
                        None \<Rightarrow> D | Some r \<Rightarrow> if db 4 then delete_model_config (mr_id r) D else D))
           in (None, S\<lparr>cr_registry := hm_insert new_name mc (hm_remove old_name (cr_registry S)), cr_db := D',
                cr_accessed := move_key old_name new_name (cr_accessed S), cr_stats := move_key old_name new_name (cr_stats S)\<rparr>))))"

end
