(* ===== verification/ModelCrudFacts.thy ===== *)
theory ModelCrudFacts
  imports ModelCrud
begin

text \<open>
  What the edits of model configurations do: which row an update, a creation or a rename writes, and
  what becomes of the files.
\<close>

section \<open>Saving\<close>

lemma reload_keeps [simp]:
  "cr_db (reload_registry J db S) = cr_db S" "cr_checks (reload_registry J db S) = cr_checks S"
  by (simp_all add: reload_registry_def split: option.splits)

lemma from_row [simp]:
  "mc_model (from_db_record J r) = Some (mr_repo_id r)" "mc_quants (from_db_record J r) = Map.empty"
  by (simp_all add: from_db_record_def split: prod.splits)

lemma config_record_repo [simp]: "mr_repo_id (config_record J now key mc) = config_repo key mc"
  by (simp add: config_record_def Let_def to_db_record_def split: option.splits)

lemma config_record_columns [simp]:
  "mr_n_batch (config_record J now key mc) = map_option as_i32 (mc_n_batch mc)"
  "mr_n_ubatch (config_record J now key mc) = map_option as_i32 (mc_n_ubatch mc)"
  by (simp_all add: config_record_def Let_def to_db_record_def split: option.splits)

lemma config_repo_Some: "mc_model mc = Some m \<Longrightarrow> m \<noteq> [] \<Longrightarrow> config_repo key mc = m"
  by (simp add: config_repo_def nonempty_def)

lemma saved_row:
  assumes wf: "configs_wf (cr_db S)" "md_next (cr_db S) < 2 ^ 63"
    and saved: "save_and_reload J db now key mc S = (Saved j, S')"
  shows "config_at (cr_db S') = (config_at (cr_db S))(to_lower (config_repo key mc) \<mapsto> upserted_row now (config_record J now key mc) (cr_db S))"
    and "j = mr_id (upserted_row now (config_record J now key mc) (cr_db S))"
    and "ct_files (cr_db S') = ct_files (cr_db S)" and "configs_wf (cr_db S')"
proof -
  let ?new = "config_record J now key mc"
  obtain D where up: "upsert_model_config db now ?new (cr_db S) = (Some j, D)" and S': "cr_db S' = D"
    using saved by (auto simp: save_and_reload_def save_model_config_def split: prod.splits option.splits)
  have d: "db 0 \<and> db 1"
  proof (rule ccontr)
    assume "\<not> (db 0 \<and> db 1)"
    then show False using upsert_exact [OF wf, where db = db and now = now and new = ?new] up by (auto split: if_splits)
  qed
  have up': "case upsert_model_config db now ?new (cr_db S) of (i, D') \<Rightarrow>
       config_at D' = (config_at (cr_db S))(to_lower (mr_repo_id ?new) \<mapsto> upserted_row now ?new (cr_db S))
       \<and> ct_files D' = ct_files (cr_db S) \<and> ct_pulls D' = ct_pulls (cr_db S) \<and> configs_wf D'
       \<and> i \<in> {None, Some (mr_id (upserted_row now ?new (cr_db S)))} \<and> (db 2 \<longrightarrow> i \<noteq> None)"
    using upsert_exact [OF wf, where db = db and now = now and new = ?new] unfolding if_P [OF d] .
  show "config_at (cr_db S') = (config_at (cr_db S))(to_lower (config_repo key mc) \<mapsto> upserted_row now ?new (cr_db S))"
    "j = mr_id (upserted_row now ?new (cr_db S))"
    "ct_files (cr_db S') = ct_files (cr_db S)" "configs_wf (cr_db S')"
    using up' unfolding up S' by auto
qed

lemma save_succeeds:
  assumes wf: "configs_wf (cr_db S)" "md_next (cr_db S) < 2 ^ 63"
  shows "\<exists>S'. save_and_reload J (\<lambda>_. True) now key mc S = (Saved (mr_id (upserted_row now (config_record J now key mc) (cr_db S))), S')"
proof -
  have "\<exists>D'. upsert_model_config (\<lambda>_. True) now (config_record J now key mc) (cr_db S)
      = (Some (mr_id (upserted_row now (config_record J now key mc) (cr_db S))), D')"
    using upsert_exact [OF wf, where db = "\<lambda>_. True" and now = now and new = "config_record J now key mc"]
    by (auto split: prod.splits)
  then show ?thesis by (auto simp: save_and_reload_def save_model_config_def)
qed

lemma resolved:
  assumes "resolve_model_record db D id_str = Inr (i, r)"
  shows "get_model_config i D = Some r" "mr_id r = i" "r \<in> set (ct_models D)"
proof -
  show g: "get_model_config i D = Some r"
    using assms by (auto simp: resolve_model_record_def split: sum.splits option.splits if_splits)
  show "mr_id r = i" "r \<in> set (ct_models D)"
    using g by (auto simp: get_model_config_def find_Some_iff)
qed

lemma config_at_row: "configs_wf D \<Longrightarrow> r \<in> set (ct_models D) \<Longrightarrow> config_at D (to_lower (mr_repo_id r)) = Some r"
  using config_at_iff by blast

lemma not_saved [simp]: "check_repo_id what repo \<noteq> Some (Saved j)" "resolve_model_record db D id_str \<noteq> Inl (Saved j)"
  by (simp_all add: check_repo_id_def resolve_model_record_def split: sum.splits option.splits)

lemma saved_checks: "save_and_reload J db now key mc S = (Saved j, S') \<Longrightarrow> cr_checks S' = cr_checks S"
  by (auto simp: save_and_reload_def split: prod.splits option.splits)

lemma other_check: "item \<noteq> item' \<Longrightarrow> get_update_check ty item (delete_update_check ty item' t) = get_update_check ty item t"
  unfolding get_update_check_def delete_update_check_def hm_get_def by (induction t) auto

section \<open>Updates\<close>

text \<open>An edit is a PUT or a PATCH; what it makes of the stored configuration, if it is valid.\<close>

datatype 'f edit = Put "'f model_body" | Patch "'f model_patch"

definition run_edit where
  "run_edit J db now D id_str e S = (case e of
     Put b \<Rightarrow> update_model J db now D id_str b S | Patch b \<Rightarrow> patch_model J db now D id_str b S)"

definition validated_edit :: "'f edit \<Rightarrow> complaint + 'f edit" where
  "validated_edit e = (case e of
     Put b \<Rightarrow> map_sum id Put (validate_model_body b) | Patch b \<Rightarrow> map_sum id Patch (validate_model_patch b))"

definition merged :: "'f edit \<Rightarrow> 'f model_config \<Rightarrow> 'f model_config" where
  "merged e m = (case e of Put b \<Rightarrow> apply_model_body b (Some m) | Patch b \<Rightarrow> apply_model_patch b m)"

definition edit_model :: "'f edit \<Rightarrow> string option" where
  "edit_model e = (case e of Put b \<Rightarrow> bo_model b | Patch b \<Rightarrow> pa_model b)"

lemma edit_as_save:
  "run_edit J db now D id_str e S = (case validated_edit e of Inl c \<Rightarrow> (Invalid c, S) | Inr v \<Rightarrow>
     (case resolve_model_record db D id_str of Inl a \<Rightarrow> (a, S) | Inr (i, r) \<Rightarrow>
        save_and_reload J (\<lambda>n. db (2 + n)) now (config_key_from_repo_id (mr_repo_id r)) (merged v (from_db_record J r)) S))"
  by (cases e) (auto simp: run_edit_def validated_edit_def merged_def update_model_def patch_model_def split: sum.splits)

lemma merged_model [simp]: "mc_model (merged e m) = or_else (edit_model e) (mc_model m)"
  by (cases e) (simp_all add: merged_def edit_model_def apply_model_body_def apply_model_patch_def unwrap_or_def Let_def)

lemma validated_model: "validated_edit e = Inr v \<Longrightarrow> edit_model v = edit_model e"
  by (cases e) (auto simp: validated_edit_def edit_model_def validate_model_body_def validate_model_patch_def
      split: option.splits sum.splits)


text \<open>A patch that says nothing about the batch sizes erases them, the empty patch too.\<close>

lemma patch_clears_batch:
  assumes "configs_wf (cr_db S)" "md_next (cr_db S) < 2 ^ 63"
    and "resolve_model_record db (cr_db S) id_str = Inr (i, r)" "mr_repo_id r \<noteq> []"
    and "pa_model b = None" "pa_n_batch b = None" "pa_n_ubatch b = None"
    and "patch_model J db now (cr_db S) id_str b S = (Saved j, S')"
  shows "\<exists>r'. config_at (cr_db S') (to_lower (mr_repo_id r)) = Some r' \<and> mr_n_batch r' = None \<and> mr_n_ubatch r' = None"
proof -
  obtain v where v: "validate_model_patch b = Inr v"
    using assms(8) by (cases "validate_model_patch b") (auto simp: patch_model_def)
  have f: "pa_model v = None" "pa_n_batch v = None" "pa_n_ubatch v = None"
    using v assms(5-7) by (auto simp: validate_model_patch_def split: option.splits sum.splits)
  let ?key = "config_key_from_repo_id (mr_repo_id r)" and ?mc = "apply_model_patch v (from_db_record J r)"
  have saved: "save_and_reload J (\<lambda>n. db (2 + n)) now ?key ?mc S = (Saved j, S')"
    using assms(8) by (simp add: patch_model_def v assms(3))
  have m: "mc_model ?mc = Some (mr_repo_id r)" "mc_n_batch ?mc = None" "mc_n_ubatch ?mc = None"
    using f by (simp_all add: apply_model_patch_def or_else_def)
  have repo: "config_repo ?key ?mc = mr_repo_id r" using m(1) assms(4) by (rule config_repo_Some)
  have none: "mr_n_batch (upserted_row now (config_record J now ?key ?mc) D) = None"
    "mr_n_ubatch (upserted_row now (config_record J now ?key ?mc) D) = None" for D
    using m by (simp_all add: upserted_row_def overwrite_config_def split: option.splits)
  show ?thesis
    using saved_row(1) [OF assms(1,2) saved] none by (simp add: repo)
qed

section \<open>Names that exist already\<close>

text \<open>
  C39. The check for an existing model looks at the repository of the request, the row written is that
  of the \<open>model\<close> field of its body: a creation under a free name with the field naming another model
  succeeds, answers with that model's id, and overwrites it; no model of the free name comes to be.
\<close>

theorem create_overwrites_other:
  assumes "configs_wf (cr_db S)" "md_next (cr_db S) < 2 ^ 63"
    and "bo_model b = Some m" "m \<noteq> []" "config_at (cr_db S) (to_lower m) = Some other"
    and "create_model J db now (cr_db S) raw meta b S = (Saved j, S')"
  shows "j = mr_id other \<and> get_model_config_by_repo_id (trim_ws raw) (cr_db S') = None
         \<and> (\<exists>row. config_at (cr_db S') = (config_at (cr_db S))(to_lower m \<mapsto> row)
              \<and> mr_id row = mr_id other \<and> mr_backend row = bo_backend b \<and> mr_selected_quant row = bo_quant b)"
proof -
  obtain v where v: "validate_model_body b = Inr v"
    using assms(6) by (cases "validate_model_body b") (auto simp: create_model_def Let_def split: option.splits)
  have f: "bo_model v = Some m" "bo_backend v = bo_backend b" "bo_quant v = bo_quant b"
    using v assms(3) by (auto simp: validate_model_body_def split: option.splits sum.splits)
  let ?repo = "trim_ws raw"
  let ?mc = "with_repo ?repo (with_metadata meta (apply_model_body v None))"
  have free: "config_at (cr_db S) (to_lower ?repo) = None"
    and saved: "save_and_reload J (\<lambda>n. db (1 + n)) now ?repo ?mc S = (Saved j, S')"
    using assms(6) by (auto simp: create_model_def Let_def v get_by_repo_config_at split: option.splits if_splits)
  have mc: "mc_model ?mc = Some m" "mc_backend ?mc = bo_backend b" "mc_quant ?mc = bo_quant b"
    using f assms(4) by (auto simp: with_repo_def with_metadata_def apply_model_body_def Let_def unwrap_or_def
        or_else_def nonempty_def body_base_def model_default_def split: option.splits)
  have repo: "config_repo ?repo ?mc = m" using mc(1) assms(4) by (rule config_repo_Some)
  let ?row = "upserted_row now (config_record J now ?repo ?mc) (cr_db S)"
  have row: "?row = overwrite_config now (config_record J now ?repo ?mc) other"
    by (simp add: upserted_row_def repo assms(5))
  have cols: "mr_backend (config_record J now ?repo ?mc) = bo_backend b"
    "mr_selected_quant (config_record J now ?repo ?mc) = bo_quant b"
    using mc by (simp_all add: config_record_def Let_def to_db_record_def split: option.splits)
  have other: "to_lower ?repo \<noteq> to_lower m" using free assms(5) by auto
  have at: "config_at (cr_db S') = (config_at (cr_db S))(to_lower m \<mapsto> ?row)" and j: "j = mr_id ?row"
    using saved_row(1,2) [OF assms(1,2) saved] by (simp_all add: repo)
  have "mr_id ?row = mr_id other" "mr_backend ?row = bo_backend b" "mr_selected_quant ?row = bo_quant b"
    by (simp_all add: row cols) (simp_all add: overwrite_config_def cols)
  then show ?thesis
    using at j other free by (auto simp: get_by_repo_config_at)
qed

text \<open>What the answer of a rename that succeeds says of its steps.\<close>

lemma renamed:
  assumes "rename_model J db now D D1 id_str raw S = (Saved i, S')"
  obtains r j S1 where "resolve_model_record db D id_str = Inr (i, r)" "trim_ws raw \<noteq> []"
    "config_at D1 (to_lower (trim_ws raw)) = None"
    "save_and_reload J (\<lambda>n. db (3 + n)) now (config_key_from_repo_id (trim_ws raw))
       ((from_db_record J r)\<lparr>mc_model := Some (trim_ws raw)\<rparr>) S = (Saved j, S1)"
    "cr_db S' = cr_db S1" "cr_checks S' \<in> {cr_checks S1, delete_update_check ''model'' (mr_repo_id r) (cr_checks S1)}"
proof -
  let ?new = "trim_ws raw"
  obtain i' r where res: "resolve_model_record db D id_str = Inr (i', r)"
    using assms by (cases "resolve_model_record db D id_str") (auto simp: rename_model_def)
  have chk: "check_repo_id ''New repo_id'' ?new = None"
  proof (cases "check_repo_id ''New repo_id'' ?new")
    case (Some a)
    then have "rename_model J db now D D1 id_str raw S = (a, S)"
      by (simp add: rename_model_def Let_def res)
    then show ?thesis using assms Some not_saved(1) by auto
  qed simp
  have ok: "db 2" "get_model_config_by_repo_id ?new D1 = None"
  proof -
    show "db 2" by (rule ccontr) (use assms in \<open>simp add: rename_model_def Let_def res chk\<close>)
    then show "get_model_config_by_repo_id ?new D1 = None"
      by (rule_tac ccontr) (use assms in \<open>simp add: rename_model_def Let_def res chk\<close>)
  qed
  obtain a S1 where sv: "save_and_reload J (\<lambda>n. db (3 + n)) now (config_key_from_repo_id ?new)
      ((from_db_record J r)\<lparr>mc_model := Some ?new\<rparr>) S = (a, S1)" by fastforce
  have eq: "rename_model J db now D D1 id_str raw S = (case (a, S1) of
        (Saved _, S') \<Rightarrow> (Saved i', if db 8
           then S'\<lparr>cr_checks := delete_update_check ''model'' (mr_repo_id r) (cr_checks S')\<rparr> else S')
      | (a, S') \<Rightarrow> (a, S'))"
    unfolding sv [symmetric] by (simp add: rename_model_def Let_def res chk ok)
  obtain j where a: "a = Saved j"
    using assms unfolding eq by (cases a) auto
  have i: "i' = i" and S': "S' = (if db 8 then S1\<lparr>cr_checks := delete_update_check ''model'' (mr_repo_id r) (cr_checks S1)\<rparr> else S1)"
    using assms unfolding eq a by auto
  have "?new \<noteq> []" using chk by (auto simp: check_repo_id_def split: if_splits)
  then show thesis
    using that [OF res [unfolded i] _ _ sv [unfolded a]] ok(2) by (simp add: S' get_by_repo_config_at)
qed

lemma row_kept:
  assumes "configs_wf D'" "config_at D' (to_lower (mr_repo_id r)) = Some r"
  shows "get_model_config (mr_id r) D' = Some r"
  using assms config_at_iff [OF assms(1)] find_unique_iff [of mr_id "ct_models D'" "mr_id r" r]
  by (simp add: get_model_config_def configs_wf_def)

lemma next_id_fresh:
  assumes "configs_wf D" "md_next D < 2 ^ 63" "r \<in> set (ct_models D)"
  shows "mr_id r \<noteq> of_nat (md_next D)"
proof -
  have "unat (mr_id r) < md_next D" using assms(1,3) by (auto simp: configs_wf_def list_all_iff)
  moreover have "unat (of_nat (md_next D) :: 64 word) = md_next D"
    using assms(2) by (simp add: unat_of_nat take_bit_nat_eq_self_iff)
  ultimately show ?thesis by auto
qed


text \<open>The rename by id of the manager, which no handler calls, keeps the id and the files.\<close>

lemma manager_rename:
  assumes "configs_wf D" "get_model_config i D = Some r" "rename_config db now i new D = Some D'"
  shows "get_model_config i D' = Some (r\<lparr>mr_repo_id := new, mr_updated_at := now\<rparr>) \<and> ct_files D' = ct_files D \<and> configs_wf D'"
proof -
  let ?g = "\<lambda>r. if mr_id r = i then r\<lparr>mr_repo_id := new, mr_updated_at := now\<rparr> else r"
  have D': "D' = D\<lparr>ct_models := map ?g (ct_models D)\<rparr>"
    and no: "\<not> list_ex (\<lambda>r. same_repo new r \<and> mr_id r \<noteq> i) (ct_models D)"
    using assms(3) by (auto simp: rename_config_def split: if_splits)
  have r: "r \<in> set (ct_models D)" "mr_id r = i"
    using assms(2) by (auto simp: get_model_config_def find_Some_iff)
  have ids: "map mr_id (map ?g (ct_models D)) = map mr_id (ct_models D)" by simp
  have "distinct (map mr_id (map ?g (ct_models D)))" unfolding ids using assms(1) by (simp add: configs_wf_def)
  then have "List.find (\<lambda>q. mr_id q = i) (map ?g (ct_models D)) = Some (?g r)"
    using r by (subst find_unique_iff) auto
  then have found: "get_model_config i D' = Some (r\<lparr>mr_repo_id := new, mr_updated_at := now\<rparr>)"
    using r by (simp add: get_model_config_def D')
  have inj: "inj_on (\<lambda>r. to_lower (mr_repo_id (?g r))) (set (ct_models D))"
  proof (rule inj_onI)
    fix a b assume ab: "a \<in> set (ct_models D)" "b \<in> set (ct_models D)"
      and eq: "to_lower (mr_repo_id (?g a)) = to_lower (mr_repo_id (?g b))"
    have "mr_id a = mr_id b \<Longrightarrow> a = b" "to_lower (mr_repo_id a) = to_lower (mr_repo_id b) \<Longrightarrow> a = b"
      using assms(1) ab by (auto simp: configs_wf_def distinct_map inj_on_def)
    then show "a = b"
      using eq no ab by (auto simp: list_ex_iff same_repo_def split: if_splits)
  qed
  have "distinct (ct_models D)" using assms(1) by (simp add: configs_wf_def distinct_map)
  with inj have "distinct (map (\<lambda>r. to_lower (mr_repo_id r)) (map ?g (ct_models D)))"
    by (simp add: distinct_map comp_def)
  moreover have "list_all (\<lambda>r. unat (mr_id r) < md_next D) (map ?g (ct_models D))"
    using assms(1) by (auto simp: configs_wf_def list_all_iff)
  moreover have "distinct (map mr_id (map ?g (ct_models D)))" unfolding ids using assms(1) by (simp add: configs_wf_def)
  ultimately have "configs_wf D'" by (simp add: D' configs_wf_def del: map_map)
  then show ?thesis using found by (simp add: D')
qed

text \<open>
  The rename of the proxy's state saves a second row as well, and then deletes the first, with it the
  rows of all its files.
\<close>

lemma proxy_rename_drops_files:
  assumes "configs_wf (cr_db S)" "md_next (cr_db S) < 2 ^ 63" "\<forall>n. db n"
    and "proxy_rename_model J db now old_name new_name S = (None, S')"
    and "config_at (cr_db S) (to_lower (config_key_to_repo_id old_name)) = Some r"
    and "to_lower (config_key_to_repo_id new_name) \<noteq> to_lower (config_key_to_repo_id old_name)"
  shows "get_model_files (sint (mr_id r)) (ct_files (cr_db S')) = []"
proof -
  obtain mc where mc: "hm_get (cr_registry S) old_name = Some mc"
    using assms(4) by (auto simp: proxy_rename_model_def split: if_splits option.splits)
  let ?new = "manager_record J now new_name mc"
  have repo: "mr_repo_id ?new = config_key_to_repo_id new_name"
    by (simp add: manager_record_def Let_def to_db_record_def split: option.splits)
  obtain j D where up: "upsert_model_config db now ?new (cr_db S) = (Some j, D)"
    and at: "config_at D = (config_at (cr_db S))(to_lower (config_key_to_repo_id new_name) \<mapsto> upserted_row now ?new (cr_db S))"
    using upsert_exact [OF assms(1,2), where db = db and now = now and new = ?new] assms(3)
    by (auto simp: repo split: prod.splits)
  have "config_at D (to_lower (config_key_to_repo_id old_name)) = Some r"
    using at assms(5,6) by simp
  then have "cr_db S' = delete_model_config (mr_id r) D"
    using assms(3,4) by (auto simp: proxy_rename_model_def mc up get_by_repo_config_at Let_def split: if_splits option.splits)
  then show ?thesis by (auto simp: delete_model_config_def get_model_files_def filter_empty_conv)
qed

section \<open>Deleting a quant\<close>


section \<open>Witnesses\<close>

definition demo_file :: file_row where
  "demo_file = \<lparr>mf_model_id = 0, mf_repo_id = ''Org/Foo'', mf_filename = ''foo-Q8_0.gguf'', mf_quant = Some ''Q8_0'',
     mf_lfs_oid = None, mf_size_bytes = Some 7, mf_pulled_at = 0, mf_last_verified_at = None, mf_verified_ok = None,
     mf_verify_error = None\<rparr>"

definition demo_crud_db :: model_db where
  "demo_crud_db = demo_model_db\<lparr>ct_files := [demo_file]\<rparr>"

definition demo_crud :: "nat crud" where
  "demo_crud = \<lparr>cr_db = demo_crud_db, cr_registry = [], cr_checks = [], cr_removed = [], cr_accessed = [], cr_stats = []\<rparr>"

definition demo_patch :: "nat model_patch" where
  "demo_patch = \<lparr>pa_backend = None, pa_gpu_variant = None, pa_gpu_device = None, pa_model = None, pa_quant = Some ''Q8_0'',
     pa_mmproj = None, pa_mtp_model = None, pa_args = None, pa_sampling = None, pa_enabled = None, pa_context_length = None,
     pa_num_parallel = None, pa_port = None, pa_api_name = None, pa_display_name = None, pa_gpu_layers = None,
     pa_quants = None, pa_modalities = None, pa_reasoning_levels = None, pa_kv_unified = None, pa_cache_type_k = None,
     pa_cache_type_v = None, pa_spec_decoding = None, pa_vllm = None, pa_n_batch = None, pa_n_ubatch = None\<rparr>"

definition demo_body :: "nat model_body" where
  "demo_body = \<lparr>bo_backend = ''vllm'', bo_gpu_variant = None, bo_gpu_device = None, bo_model = Some ''org/foo'', bo_quant = None,
     bo_mmproj = None, bo_mtp_model = None, bo_args = [], bo_sampling = None, bo_enabled = None, bo_context_length = None,
     bo_num_parallel = None, bo_port = None, bo_api_name = None, bo_display_name = None, bo_gpu_layers = None,
     bo_quants = None, bo_modalities = None, bo_reasoning_levels = None, bo_kv_unified = None, bo_cache_type_k = None,
     bo_cache_type_v = None, bo_spec_decoding = None, bo_vllm = None, bo_n_batch = None, bo_n_ubatch = None\<rparr>"

lemma no_value: "check_present field n None = None" "check_length field n None = None" "check_cache field None = None"
  "normalized_levels None = Inr None"
  by (simp_all add: check_present_def check_length_def check_cache_def normalized_levels_def)

lemma demo_crud_facts:
  "cr_db demo_crud = demo_crud_db" "configs_wf demo_crud_db" "md_next demo_crud_db < 2 ^ 63"
  "get_model_config 0 demo_crud_db = Some (demo_config_row ''Org/Foo'')"
  "config_at demo_crud_db ''org/foo'' = Some (demo_config_row ''Org/Foo'')" "config_at demo_crud_db ''org/bar'' = None"
  "resolve_model_record (\<lambda>_. True) demo_crud_db ''0'' = Inr (0, demo_config_row ''Org/Foo'')"
proof -
  have lower: "to_lower ''Org/Foo'' = ''org/foo''" by code_simp
  have zero: "parse_i64 ''0'' = Some 0"
    by (simp add: parse_i64_def parse_uint_def is_digit_def digits_val_def digit_val_def Let_def)
  show db: "cr_db demo_crud = demo_crud_db" "configs_wf demo_crud_db" "md_next demo_crud_db < 2 ^ 63"
    "get_model_config 0 demo_crud_db = Some (demo_config_row ''Org/Foo'')"
    by (simp_all add: demo_crud_def demo_crud_db_def demo_model_db_def configs_wf_def get_model_config_def)
  show "config_at demo_crud_db ''org/foo'' = Some (demo_config_row ''Org/Foo'')" "config_at demo_crud_db ''org/bar'' = None"
    by (simp_all add: demo_crud_db_def demo_model_db_def config_at_def lower)
  show "resolve_model_record (\<lambda>_. True) demo_crud_db ''0'' = Inr (0, demo_config_row ''Org/Foo'')"
    by (simp add: resolve_model_record_def resolve_db_id_def zero db)
qed


lemma create_overwrites_other_witness:
  "\<exists>S'. create_model demo_json (\<lambda>_. True) ''t1'' demo_crud_db ''org/bar'' None demo_body demo_crud = (Saved 0, S')
     \<and> get_model_config_by_repo_id ''org/bar'' (cr_db S') = None"
proof -
  have lower: "to_lower ''org/foo'' = ''org/foo''" "to_lower ''org/bar'' = ''org/bar''" and repo: "trim_ws ''org/bar'' = ''org/bar''"
    and ok: "check_repo_id ''repo_id'' ''org/bar'' = None" by code_simp+
  have valid: "validate_model_body demo_body = Inr demo_body"
  proof -
    have c: "check_present ''backend'' 256 (Some ''vllm'') = None" "check_present ''model'' 256 (Some ''org/foo'') = None"
      by code_simp+
    show ?thesis
      unfolding validate_model_body_def by (simp add: demo_body_def c no_value first_complaint_def)
  qed
  note S = demo_crud_facts(2,3) [folded demo_crud_facts(1)]
  obtain j S' where run: "create_model demo_json (\<lambda>_. True) ''t1'' demo_crud_db ''org/bar'' None demo_body demo_crud = (Saved j, S')"
    using save_succeeds [OF S, of demo_json "''t1''" "''org/bar''" "with_repo ''org/bar'' (with_metadata None (apply_model_body demo_body None))"]
    by (auto simp: create_model_def Let_def repo ok valid get_by_repo_config_at lower demo_crud_facts)
  have "j = 0 \<and> get_model_config_by_repo_id ''org/bar'' (cr_db S') = None"
    using create_overwrites_other [OF S, unfolded demo_crud_facts(1), of demo_body "''org/foo''", OF _ _ _ run]
    by (simp add: demo_body_def lower repo demo_crud_facts)
  then show ?thesis using run by blast
qed



end
