(* ===== verification/Spec2Isabelle.thy ===== *)
theory Spec2Isabelle
  imports VllmArgs QuantTable LifecycleFacts LogIngest Jobs AuthFacts PullQueueFacts Download GatewayFacts
    LogApiFacts LogWriterFacts UpdateFacts RepoPullFacts ModelCrudFacts
begin

text \<open>
  A model of \<^bold>\<open>tama\<close>, a manager for local LLM servers. Two programs share the work. The
  \<^bold>\<open>proxy\<close> (crates \<^verbatim>\<open>tama-core\<close> and \<^verbatim>\<open>tama\<close>) accepts OpenAI-style requests, knows the
  model configurations and the installed engines, keeps a download queue, a log store and API
  keys, and forwards requests. A \<^bold>\<open>tamad\<close> on every host starts, watches and stops the engine
  processes, downloads files and streams its logs to the proxy. Paths below are relative to
  \<^verbatim>\<open>src/crates\<close>.

  A request runs through the parts like this: \<open>Auth.serve\<close> lets it in; \<open>Gateway\<close> reads the
  model's name and asks \<open>Serving\<close> for a running server; \<open>Serving\<close> looks at \<open>Rows\<close> (what the
  hosts reported), and if nothing runs, builds a launch specification (\<open>Resolve\<close>, \<open>LoadSpec\<close>,
  over \<open>ModelConfig\<close>, \<open>Installations\<close>, \<open>VllmArgs\<close>, \<open>ArgsHelpers\<close>) and sends it to a host,
  where \<open>Lifecycle\<close> launches and supervises it with the tables of \<open>ProcessTable\<close> and \<open>Store\<close>;
  then \<open>Forward\<close> or \<open>Anthropic\<close> carries the request and relays the answer. Files come to a
  host by \<open>PullQueue\<close> and \<open>RepoPull\<close> (proxy) and \<open>HostPull\<close>, \<open>Download\<close> with \<open>Jobs\<close>
  (host); \<open>ModelFiles\<close> and \<open>UpdateCheck\<close> compare them with their repositories (\<open>HfApi\<close>). Log lines go through
  \<open>PushRing\<close> and \<open>PushStream\<close> (host) to \<open>LogIngest\<close>, \<open>LogWriter\<close>, \<open>LogDb\<close> and \<open>LogApi\<close>
  (proxy).
\<close>

section \<open>Theories and sources\<close>

text \<open>
  Definitions carry the names of the code's functions; \<open>_u\<close>, \<open>pt_\<close>, \<open>st_\<close>, \<open>run_\<close> are added
  where a name was taken or where one handler is split into steps.

  \<^bold>\<open>Shared.\<close>
  \<open>Prelude\<close>: Rust's text and number primitives on \<open>string\<close>, hash maps as association lists.
  \<open>Containers\<close>: the interfaces. \<open>keyed_table\<close> is what a client of a table may use (lookup,
  insert, remove and their laws), \<open>guarded_rows\<close> extends it with a rewrite allowed only on rows
  the caller still owns, \<open>evicting_fifo\<close> is a queue that drops its oldest elements until the
  rest fits, \<open>nested_fifos\<close> two of them written through by the same events.
  \<open>Utf8\<close>: strict and lossy decoding. \<open>Json\<close>: documents, and \<open>line_reader\<close>, the contract of a
  consumer that buffers pieces and acts on complete lines. \<open>ShellLexer\<close>: the lexer as parameter.
  \<open>Vocabulary\<close>, \<open>Quants\<close>, \<open>QuantTable\<close>: \<^verbatim>\<open>tama-core/src/profiles.rs\<close>, \<^verbatim>\<open>types/\<close>,
  \<^verbatim>\<open>gpu/detect.rs\<close>, \<^verbatim>\<open>logstore/types.rs\<close>.

  \<^bold>\<open>Settings and launch lines\<close> (\<^verbatim>\<open>tama-core\<close>).
  \<open>ArgsHelpers\<close>: \<^verbatim>\<open>config/args_helpers.rs\<close>, \<^verbatim>\<open>llama_cpp_args.rs\<close>; interface
  \<open>layered_args\<close>, what a merge of two argument layers promises per flag.
  \<open>VllmArgs\<close>: \<^verbatim>\<open>config/vllm_args.rs\<close> and the vLLM part of \<^verbatim>\<open>config/types/model.rs\<close>.
  \<open>ModelConfig\<close>: the other part, and \<^verbatim>\<open>db/queries/types.rs\<close>. \<open>Paths\<close>: \<^verbatim>\<open>models/mod.rs\<close>,
  \<^verbatim>\<open>models/config_key.rs\<close>. \<open>Resolve\<close>: \<^verbatim>\<open>config/resolve/mod.rs\<close> (names, URLs and every stage
  of \<open>build_full_args\<close>), \<^verbatim>\<open>process.rs\<close>. \<open>LoadSpec\<close>: \<^verbatim>\<open>proxy/lifecycle/spec.rs\<close>.
  \<open>Installations\<close>: \<^verbatim>\<open>installations/manager.rs\<close>, \<^verbatim>\<open>db/queries/installation_queries.rs\<close>.

  \<^bold>\<open>The host\<close> (\<^verbatim>\<open>tamad/src\<close>).
  \<open>ProcessTable\<close>: \<^verbatim>\<open>process_table.rs\<close>. \<open>Store\<close>: \<^verbatim>\<open>state/store.rs\<close>, with every failure and
  crash point of a write. \<open>Lifecycle\<close>, \<open>LifecycleFacts\<close>: \<^verbatim>\<open>lifecycle.rs\<close> and the handlers of
  \<^verbatim>\<open>server.rs\<close>, as interleaved steps over both tables (\<open>reachable\<close>). \<open>PushRing\<close>,
  \<open>PushStream\<close>: \<^verbatim>\<open>push/ring.rs\<close>, \<^verbatim>\<open>push/runtime.rs\<close>. \<open>Jobs\<close>: \<^verbatim>\<open>jobs.rs\<close>, one step per
  critical section (\<open>jreachable\<close>, and \<open>sreachable\<close> with the clients). \<open>Download\<close>:
  \<^verbatim>\<open>download/mod.rs\<close>, \<^verbatim>\<open>parallel.rs\<close>, \<^verbatim>\<open>single.rs\<close>.

  \<^bold>\<open>The proxy\<close> (\<^verbatim>\<open>tama-core/src\<close>).
  \<open>ApiKeys\<close>, \<open>Auth\<close>, \<open>AuthFacts\<close>: \<^verbatim>\<open>proxy/api_keys.rs\<close>, \<^verbatim>\<open>proxy/tama_handlers/api_keys.rs\<close>,
  \<^verbatim>\<open>proxy/auth/\<close>, \<^verbatim>\<open>proxy/scope_middleware.rs\<close>, layered as \<^verbatim>\<open>proxy/server/router.rs\<close> does;
  \<open>key_run\<close> is a sequence of requests by key holders. \<open>PullQueue\<close>, \<open>PullQueueFacts\<close>:
  \<^verbatim>\<open>proxy/pull_queue/\<close>, \<^verbatim>\<open>proxy/tama_handlers/pull/\<close>, \<^verbatim>\<open>db/queries/pull_queue_queries.rs\<close>
  (\<open>preach\<close>: one step per query or lock). \<open>Rows\<close>: \<^verbatim>\<open>proxy/state/rows.rs\<close>. \<open>Serving\<close>,
  \<open>ServingFacts\<close>: \<^verbatim>\<open>proxy/lifecycle/\<close>, \<^verbatim>\<open>proxy/state/\<close>. \<open>Forward\<close>, \<open>ForwardFacts\<close>:
  \<^verbatim>\<open>proxy/forward/\<close>. \<open>Anthropic\<close>: \<^verbatim>\<open>proxy/remote/anthropic.rs\<close>. \<open>Gateway\<close>,
  \<open>GatewayFacts\<close>: \<^verbatim>\<open>proxy/handlers/\<close>, \<^verbatim>\<open>proxy/remote/\<close>.
  \<open>LogIngest\<close>: \<^verbatim>\<open>logstore/dedupe.rs\<close>, \<^verbatim>\<open>tamad/stream_logs.rs\<close>. \<open>LogWriter\<close>,
  \<open>LogWriterFacts\<close>: \<^verbatim>\<open>logstore/layer.rs\<close>, \<^verbatim>\<open>logstore/writer.rs\<close>. \<open>LogDb\<close>,
  \<open>LogDbFacts\<close>: \<^verbatim>\<open>logstore/db.rs\<close>. \<open>LogApi\<close>, \<open>LogApiFacts\<close>:
  \<^verbatim>\<open>proxy/tama_handlers/logs_api.rs\<close>.
  \<^bold>\<open>Models, their files and their updates.\<close> \<open>SqlLike\<close>: LIKE, with \<open>like_escape\<close>, the
  contract of an escape function for it. \<open>HfApi\<close>: \<^verbatim>\<open>tama-core/src/models/pull/api.rs\<close>,
  \<^verbatim>\<open>models/pull/mod.rs\<close>. \<open>ModelFiles\<close>: \<^verbatim>\<open>db/queries/model_queries.rs\<close>, \<^verbatim>\<open>models/verify.rs\<close>,
  the refresh of \<^verbatim>\<open>models/update.rs\<close>. \<open>UpdateCheck\<close>, \<open>UpdateFacts\<close>: the comparison of
  \<^verbatim>\<open>models/update.rs\<close>, \<^verbatim>\<open>updates/checker/\<close>, \<^verbatim>\<open>db/queries/update_check_queries.rs\<close>.
  \<open>HostPull\<close>: \<^verbatim>\<open>tamad/src/pulls.rs\<close>, \<^verbatim>\<open>tamad/src/download/hf.rs\<close>, \<^verbatim>\<open>models/pull/hf_cli.rs\<close>,
  \<^verbatim>\<open>models/transformers.rs\<close>. \<open>RepoPull\<close>, \<open>RepoPullFacts\<close>: \<^verbatim>\<open>proxy/state/repo_pull.rs\<close>,
  \<^verbatim>\<open>proxy/state/pull.rs\<close>, \<^verbatim>\<open>proxy/types.rs\<close>, \<^verbatim>\<open>tama/src/api/repo_pulls.rs\<close> (\<open>rreach\<close>: one step
  per lock or await).
  \<open>ModelDb\<close>: \<^verbatim>\<open>db/queries/model_config_queries.rs\<close>, \<^verbatim>\<open>db/mod.rs\<close>. \<open>ModelCrud\<close>,
  \<open>ModelCrudFacts\<close>: \<^verbatim>\<open>tama/src/api/models/crud/\<close>, \<^verbatim>\<open>api/models/info.rs\<close>,
  \<^verbatim>\<open>models/manager.rs\<close>, \<^verbatim>\<open>proxy/rename.rs\<close>.
\<close>

section \<open>What the lemmas show\<close>

text \<open>
  \<^bold>\<open>Concurrency.\<close> A lock-protected block or a query is one step; between two steps anything
  else may run. Invariants are proved by rule induction over all interleavings: the daemon's
  table agrees with its store and restarts stay within the budget, a job ends at most once,
  two downloads never write to one path, the table of the queue is well typed. Where the code
  checks and acts in two steps the model does too, and several lemmas exhibit the run in
  which this goes wrong.

  \<^bold>\<open>Faults.\<close> Each query, system call and connection may fail, by an argument of the
  operation. A theorem about all arguments covers all faults, and read as the last state
  before a stop, all crash points: reopening the store gives the table in memory, a download
  that reports success left exactly the remote file.

  \<^bold>\<open>Streams.\<close> Consumers of bytes are shown independent of how the bytes are cut; the log path
  is shown to keep order and to lose nothing within stated limits, from the ring on the host to
  the rows of the store, the pages of a query, the export and the live stream.

  \<^bold>\<open>Security.\<close> What passes the gate and on what grounds, that the rights of keys cannot grow,
  that validated names stay below the models directory, whose credentials a remote provider
  sees.

  \<^bold>\<open>Round trips.\<close> Rows of model configurations, vLLM arguments, the CSV export.
\<close>

section \<open>Conventions, bounds and parameters\<close>

text \<open>
  Text is a \<open>string\<close> of code points below 256, case mapping acts on ASCII; where any character
  may occur (JSON bodies, streams, the log store) it is \<open>utext\<close>, a list of code points. Machine integers are
  words where the code's casts or wrap-around matter (\<open>level_from_u8\<close>, \<open>parse_uint\<close> at its
  width, the \<open>u8\<close> of UTF-8); counters that count objects in memory, ids and times are \<open>nat\<close>
  or \<open>int\<close>, and \<open>Download.range_fits\<close> shows why sizes do not wrap. \<open>f64\<close> is a type parameter
  with its parser, printer and arithmetic in a record. A \<open>HashMap\<close> is an association list with
  distinct keys whose order is the unspecified iteration order.

  Recursion is structural or has a measure (the decoders of \<open>Utf8\<close>, \<open>process_lines\<close>,
  \<open>pull_chunk_with_retry\<close>, \<open>pull_single_loop\<close>, \<open>byte_scan\<close>, \<open>delete_ids_below\<close>, \<open>drain_ring\<close>,
  \<open>trim_start_str\<close>, \<open>scan_stack\<close>);
  loops that wait are folded over the list of what happens outside (the
  turns of the log writer, the frames a load waits for, the replies of a server), so they end
  with the list, and the theorems say which events make them return. The export's walk, which
  the code bounds only by the data, is a \<open>partial_function (option)\<close> and shown to return. No
  definition uses fuel.

  Parameters stand for what is not in the repository: \<open>shlex\<close> (with \<open>shlex_lossless\<close>, that
  quoting can be split back), \<open>serde_json\<close> texts (\<open>json_ops\<close>, \<open>manifest_json\<close>: what was
  written can be read), \<open>url\<close>, SHA-256 and RFC 3339 (\<open>key_ops\<close>, \<open>auth_ops\<close>), \<open>f64_ops\<close>,
  the full-text index of SQLite, \<open>chrono\<close>'s text of a time, the \<^verbatim>\<open>lru\<close> crate, SHA-256 of a
  stream, the HTTP client and server
  (functions from requests to answers), and the hosts' replies. A theorem that needs a
  documented law of one names it as a hypothesis, and its witness runs with a concrete
  instance (\<open>demo_shlex\<close> and the like).
\<close>

section \<open>Not modelled\<close>

text \<open>
  The web interface, HTTP decoding, route tables, command lines and logging (glue); the
  installers, archives, docker and system probes (subprocesses and files); the login redirect
  (a crate); SQL text and migrations (the operations on the rows are modelled); benchmarks.
  Of the modelled parts: process spawning and signals (the environment of \<open>Lifecycle\<close>
  decides), dial and backoff loops, the telemetry sent beside a forwarded request, Windows
  paths, the vacuum of the log store.
\<close>

end
